(* ===== verification/Prelude.thy ===== *)
theory Prelude
  imports Complex_Main "HOL-Library.AList" "HOL-Library.Char_ord" "HOL-Library.List_Lexorder"
    "HOL-Library.Product_Lexorder" "HOL-Library.Multiset" "HOL-Library.Word"
begin

text \<open>
  Shared vocabulary of the development: identifiers, game time and durations, Go maps as
  association lists with an explicit iteration order, the Go runtime's sources of
  nondeterminism (map iteration order, fresh UUIDs), JSON values, and the generic lemmas the
  component theories use. Nothing in this theory models a particular source file.
\<close>

section \<open>Lemma collections\<close>

named_theorems gomap_simps "lookups, keys and updates of Go maps"
named_theorems frame_simps "fields an operation leaves unchanged"
named_theorems wf_intros "operations preserving a well-formedness invariant"

section \<open>Identifiers\<close>

text \<open>
  Slots, users, units, provinces and matches are Go strings. \<^typ>\<open>string\<close> is a list of
  bytes, ordered bytewise by \<^theory_text>\<open>List_Lexorder\<close> and \<^theory_text>\<open>Char_ord\<close> as Go orders
  strings.
\<close>

type_synonym slot = string
type_synonym user_id = string
type_synonym unit_id = string
type_synonym province_id = string

section \<open>Game time\<close>

text \<open>
  A \<open>time.Time\<close> is its number of nanoseconds after Go's zero time, so the zero value is 0.
  A \<open>time.Duration\<close> is a signed 64-bit number of nanoseconds; \<open>Time.Sub\<close> saturates at
  its bounds.
\<close>

type_synonym time = int
type_synonym duration = int

definition Millisecond :: duration where "Millisecond = 1000000"
definition Second :: duration where "Second = 1000 * Millisecond"
definition Minute :: duration where "Minute = 60 * Second"
definition Hour :: duration where "Hour = 60 * Minute"

lemmas duration_defs = Millisecond_def Second_def Minute_def Hour_def

definition time_isZero :: "time \<Rightarrow> bool" where
  "time_isZero t \<longleftrightarrow> t = 0"

definition min_duration :: duration where "min_duration = - (2 ^ 63)"
definition max_duration :: duration where "max_duration = 2 ^ 63 - 1"

definition time_sub :: "time \<Rightarrow> time \<Rightarrow> duration" where
  "time_sub t u = max min_duration (min max_duration (t - u))"

definition duration_seconds :: "duration \<Rightarrow> real" where
  "duration_seconds d = real_of_int d / 1000000000"

text \<open>Two's complement wrap-around of a 64-bit signed integer, and float to integer conversion,
  which truncates towards zero.\<close>

definition int64 :: "int \<Rightarrow> int" where
  "int64 x = (x + 2 ^ 63) mod 2 ^ 64 - 2 ^ 63"

definition trunc :: "real \<Rightarrow> int" where
  "trunc x = (if 0 \<le> x then \<lfloor>x\<rfloor> else \<lceil>x\<rceil>)"

lemma time_sub_less_iff:
  assumes "0 < d" "d \<le> max_duration"
  shows "time_sub t u < d \<longleftrightarrow> t < u + d"
  using assms by (auto simp: time_sub_def min_duration_def max_duration_def)

lemma time_sub_pos: "u \<le> t \<Longrightarrow> 0 \<le> time_sub t u"
  by (auto simp: time_sub_def min_duration_def max_duration_def)

lemma int64_id: "- (2 ^ 63) \<le> x \<Longrightarrow> x < 2 ^ 63 \<Longrightarrow> int64 x = x"
  by (simp add: int64_def)

lemma trunc_nonneg: "0 \<le> x \<Longrightarrow> 0 \<le> trunc x"
  by (simp add: trunc_def)

section \<open>Go maps\<close>

text \<open>
  A Go map is an association list with distinct keys. \<^const>\<open>map_of\<close> is \<open>m[k]\<close> with
  its second result, \<^const>\<open>AList.update\<close> is \<open>m[k] = v\<close> and \<^const>\<open>AList.delete\<close> is
  \<open>delete(m, k)\<close>.
\<close>

type_synonym ('k, 'v) gomap = "('k \<times> 'v) list"

abbreviation mput :: "'k \<Rightarrow> 'v \<Rightarrow> ('k, 'v) gomap \<Rightarrow> ('k, 'v) gomap" where
  "mput \<equiv> AList.update"

abbreviation mdel :: "'k \<Rightarrow> ('k, 'v) gomap \<Rightarrow> ('k, 'v) gomap" where
  "mdel \<equiv> AList.delete"

abbreviation mkeys :: "('k, 'v) gomap \<Rightarrow> 'k list" where
  "mkeys m \<equiv> map fst m"

abbreviation mok :: "('k, 'v) gomap \<Rightarrow> bool" where
  "mok m \<equiv> distinct (map fst m)"

text \<open>\<open>m[k]\<close> in the form that returns the zero value for a missing key.\<close>

definition mget_default :: "'v \<Rightarrow> ('k, 'v) gomap \<Rightarrow> 'k \<Rightarrow> 'v" where
  "mget_default d m k = (case map_of m k of None \<Rightarrow> d | Some v \<Rightarrow> v)"

lemma map_of_mput [gomap_simps, simp]:
  "map_of (mput k v m) k' = (if k' = k then Some v else map_of m k')"
  by (simp add: AList.update_conv')

lemma map_of_mdel [gomap_simps]:
  "map_of (mdel k m) k' = (if k' = k then None else map_of m k')"
  by (simp add: AList.delete_conv')

lemma mok_mput [gomap_simps, simp, intro]: "mok m \<Longrightarrow> mok (mput k v m)"
  by (simp add: AList.distinct_update)

lemma mok_mdel [gomap_simps, simp, intro]: "mok m \<Longrightarrow> mok (mdel k m)"
  by (simp add: AList.distinct_delete)

lemma set_mkeys_mput [gomap_simps, simp]: "fst ` set (mput k v m) = insert k (fst ` set m)"
  using AList.dom_update[of k v m] by simp

lemma set_mkeys_mdel [gomap_simps, simp]: "fst ` set (mdel k m) = fst ` set m - {k}"
  by (force simp: AList.delete_eq)

lemma set_mdel [gomap_simps]: "set (mdel k m) = {p \<in> set m. fst p \<noteq> k}"
  by (auto simp: AList.delete_eq)

lemma set_mput:
  assumes "mok m"
  shows "set (mput k v m) = insert (k, v) {p \<in> set m. fst p \<noteq> k}"
proof -
  have iff: "p \<in> set l \<longleftrightarrow> map_of l (fst p) = Some (snd p)" if "mok l" for l :: "('a, 'b) gomap" and p
    using Map.map_of_eq_Some_iff[OF that] by (simp del: map_of_mput)
  note * = iff[OF mok_mput[OF assms, of k v]] and ** = iff[OF assms]
  show ?thesis
    unfolding set_eq_iff insert_iff mem_Collect_eq * ** by (auto simp: prod_eq_iff)
qed

lemma mput_present_keys: "k \<in> fst ` set m \<Longrightarrow> mkeys (mput k v m) = mkeys m"
  by (induction m) auto

lemma mok_map_of: "mok m \<Longrightarrow> map_of m k = Some v \<longleftrightarrow> (k, v) \<in> set m"
  by simp

lemma map_of_None_keys: "map_of m k = None \<longleftrightarrow> k \<notin> fst ` set m"
  by (simp add: map_of_eq_None_iff)

lemma set_mput_subset: "set (mput k v m) \<subseteq> insert (k, v) (set m)"
  by (induction m) auto

lemma set_mdel_subset: "set (mdel k m) \<subseteq> set m"
  by (auto simp: AList.delete_eq)

section \<open>The Go runtime's choices\<close>

text \<open>
  \<open>range\<close> over a map visits the keys in an unspecified order, which may differ from one
  loop to the next, and \<open>uuid.New()\<close> returns a fresh identifier. A \<open>runtime\<close> supplies
  both: an order for the keys and an identifier for each site, addressed by a path of numbers
  (\<open>sub rt i\<close> is the runtime handed to the i-th call a function makes). Theorems hold for
  every runtime that returns permutations; \<open>plain_rt\<close> is the one that keeps the stored order.
\<close>

record runtime =
  range_order :: "nat list \<Rightarrow> string list \<Rightarrow> string list"
  uuid_at :: "nat list \<Rightarrow> string"

definition sub :: "runtime \<Rightarrow> nat \<Rightarrow> runtime" where
  "sub rt i = \<lparr>range_order = (\<lambda>p. range_order rt (i # p)), uuid_at = (\<lambda>p. uuid_at rt (i # p))\<rparr>"

definition plain_rt :: runtime where
  "plain_rt = \<lparr>range_order = (\<lambda>_ ks. ks),
     uuid_at = (\<lambda>p. CHR ''#'' # replicate (sum_list p) CHR ''+'' @ concat (map (\<lambda>n. CHR ''/'' # replicate n CHR ''.'') p))\<rparr>"

definition rt_ok :: "runtime \<Rightarrow> bool" where
  "rt_ok rt \<longleftrightarrow> (\<forall>p ks. mset (range_order rt p ks) = mset ks)"

definition go_keys :: "runtime \<Rightarrow> (string, 'v) gomap \<Rightarrow> string list" where
  "go_keys rt m = range_order rt [] (mkeys m)"

definition go_range :: "runtime \<Rightarrow> (string, 'v) gomap \<Rightarrow> (string \<times> 'v) list" where
  "go_range rt m = List.map_filter (\<lambda>k. map_option (Pair k) (map_of m k)) (go_keys rt m)"

lemma rt_ok_sub [simp, intro]: "rt_ok rt \<Longrightarrow> rt_ok (sub rt i)"
  by (simp add: rt_ok_def sub_def)

lemma rt_ok_plain [simp]: "rt_ok plain_rt"
  by (simp add: rt_ok_def plain_rt_def)

lemma sub_plain_order [simp]: "range_order (sub plain_rt i) p ks = ks"
  by (simp add: sub_def plain_rt_def)

lemma mset_go_keys: "rt_ok rt \<Longrightarrow> mset (go_keys rt m) = mset (mkeys m)"
  by (simp add: rt_ok_def go_keys_def)

lemma set_go_keys [simp]: "rt_ok rt \<Longrightarrow> set (go_keys rt m) = fst ` set m"
  using mset_go_keys[of rt m] by (metis set_map set_mset_mset)

lemma distinct_go_keys [simp]: "rt_ok rt \<Longrightarrow> mok m \<Longrightarrow> distinct (go_keys rt m)"
  using mset_go_keys[of rt m] by (metis mset_eq_imp_distinct_iff)

lemma go_range_eq:
  assumes "rt_ok rt"
  shows "go_range rt m = map (\<lambda>k. (k, the (map_of m k))) (go_keys rt m)"
proof -
  have *: "map_of m k \<noteq> None" if "k \<in> set (go_keys rt m)" for k
    using that assms by (simp add: map_of_eq_None_iff)
  have "List.map_filter (\<lambda>k. map_option (Pair k) (map_of m k)) ks = map (\<lambda>k. (k, the (map_of m k))) ks"
    if "set ks \<subseteq> set (go_keys rt m)" for ks
    using that
  proof (induction ks)
    case (Cons k ks)
    then obtain v where "map_of m k = Some v" using *[of k] by auto
    with Cons show ?case by (simp add: List.map_filter_simps)
  qed (simp add: List.map_filter_simps)
  then show ?thesis
    unfolding go_range_def by simp
qed

lemma keys_go_range [simp]: "rt_ok rt \<Longrightarrow> map fst (go_range rt m) = go_keys rt m"
  by (simp add: go_range_eq comp_def)

lemma set_go_range:
  assumes "rt_ok rt" "mok m"
  shows "set (go_range rt m) = set m"
proof -
  have "(k, the (map_of m k)) \<in> set m" if "k \<in> fst ` set m" for k
    using that assms(2) by (metis (no_types, lifting) map_of_SomeD map_of_None_keys not_None_eq option.sel)
  moreover have "(k, v) = (k, the (map_of m k))" if "(k, v) \<in> set m" for k v
    using that assms(2) by simp
  ultimately show ?thesis
    using assms by (force simp: go_range_eq)
qed

lemma mok_go_range [simp]: "rt_ok rt \<Longrightarrow> mok m \<Longrightarrow> mok (go_range rt m)"
  by simp

lemma mset_go_range:
  assumes "rt_ok rt" "mok m"
  shows "mset (go_range rt m) = mset m"
proof -
  from assms have "distinct (go_range rt m)" "distinct m"
    by (metis distinct_go_keys distinct_map keys_go_range, metis distinct_map assms(2))
  with set_go_range[OF assms] show ?thesis
    by (simp add: set_eq_iff_mset_eq_distinct)
qed

lemma length_go_range: "rt_ok rt \<Longrightarrow> mok m \<Longrightarrow> length (go_range rt m) = length m"
  by (metis mset_go_range size_mset)

lemma set_map_filter_iff: "x \<in> set (List.map_filter f ks) \<longleftrightarrow> (\<exists>k\<in>set ks. f k = Some x)"
  by (induction ks) (auto simp: List.map_filter_simps split: option.splits)

lemma go_range_subset: "set (go_range rt m) \<subseteq> set m"
  by (auto simp: go_range_def set_map_filter_iff dest: map_of_SomeD)

lemma single_go_range: "rt_ok rt \<Longrightarrow> go_range rt [(k, v)] = [(k, v)]"
  using mset_go_range[of rt "[(k, v)]"] by simp

section \<open>JSON values\<close>

text \<open>The dynamic values events carry (\<open>map[string]any\<close>), as they are after a JSON round
  trip.\<close>

datatype json =
    JNull
  | JBool bool
  | JNum real
  | JStr string
  | JList "json list"
  | JObj "(string \<times> json) list"

type_synonym extra = "(string, json) gomap"

text \<open>\<open>x, _ := e[k].(string)\<close>: the empty string unless the value is a string.\<close>

definition json_string_at :: "extra \<Rightarrow> string \<Rightarrow> string" where
  "json_string_at e k = (case map_of e k of Some (JStr s) \<Rightarrow> s | _ \<Rightarrow> [])"

section \<open>Lists\<close>

text \<open>\<open>sort.Strings\<close> and \<open>sort.Slice\<close> with a key: any sorting of a list of distinct keys
  is this one.\<close>

lemma sort_distinct_unique:
  "sorted xs \<Longrightarrow> distinct xs \<Longrightarrow> sorted ys \<Longrightarrow> distinct ys \<Longrightarrow> set xs = set ys \<Longrightarrow> xs = ys"
  by (metis sorted_distinct_set_unique)

lemma find_SomeD: "find P xs = Some x \<Longrightarrow> x \<in> set xs \<and> P x"
  by (induction xs) (auto split: if_splits)

lemma foldl_invariant:
  assumes "P a" and "\<And>a x. P a \<Longrightarrow> x \<in> set xs \<Longrightarrow> P (f a x)"
  shows "P (foldl f a xs)"
  using assms by (induction xs arbitrary: a) auto

lemma fold_invariant_set:
  assumes "P a" and "\<And>a x. P a \<Longrightarrow> x \<in> set xs \<Longrightarrow> P (f x a)"
  shows "P (fold f xs a)"
  using assms by (induction xs arbitrary: a) auto

end
