(* ===== verification/GoHeap.thy ===== *)
theory GoHeap
  imports Prelude
begin

text \<open>
  Go's standard \<open>container/heap\<close> over a slice, generic in the element order: the sift loops
  \<open>up\<close> and \<open>down\<close>, \<open>Push\<close> and \<open>Pop\<close>. The locale \<open>heap_order\<close> states what the
  algorithm needs of \<open>Less\<close> (a strict weak order) and proves that Push and Pop keep the heap
  order, neither lose nor duplicate elements, and that Pop returns a minimum. The timeline and
  the A* frontier interpret it on their own \<open>Less\<close>.
\<close>

section \<open>The sift loops\<close>

definition parent :: "nat \<Rightarrow> nat" where
  "parent j = (j - 1) div 2"

definition swap :: "nat \<Rightarrow> nat \<Rightarrow> 'a list \<Rightarrow> 'a list" where
  "swap i j h = h[i := h ! j, j := h ! i]"

function heap_up :: "('a \<Rightarrow> 'a \<Rightarrow> bool) \<Rightarrow> 'a list \<Rightarrow> nat \<Rightarrow> 'a list" where
  "heap_up lt h j =
     (let i = parent j in
      if i = j \<or> \<not> lt (h ! j) (h ! i) then h else heap_up lt (swap i j h) i)"
  by pat_completeness auto
termination
  by (relation "measure (\<lambda>(_, _, j). j)") (auto simp: parent_def)

definition min_child :: "('a \<Rightarrow> 'a \<Rightarrow> bool) \<Rightarrow> 'a list \<Rightarrow> nat \<Rightarrow> nat \<Rightarrow> nat" where
  "min_child lt h i n =
     (let j1 = 2 * i + 1; j2 = j1 + 1 in
      if j2 < n \<and> lt (h ! j2) (h ! j1) then j2 else j1)"

function heap_down :: "('a \<Rightarrow> 'a \<Rightarrow> bool) \<Rightarrow> 'a list \<Rightarrow> nat \<Rightarrow> nat \<Rightarrow> 'a list" where
  "heap_down lt h i n =
     (if n \<le> 2 * i + 1 then h
      else let j = min_child lt h i n in
        if \<not> lt (h ! j) (h ! i) then h else heap_down lt (swap i j h) j n)"
  by pat_completeness auto
termination
  by (relation "measure (\<lambda>(_, _, i, n). n - i)") (auto simp: min_child_def Let_def)

declare heap_up.simps [simp del] heap_down.simps [simp del]

definition heap_push :: "('a \<Rightarrow> 'a \<Rightarrow> bool) \<Rightarrow> 'a \<Rightarrow> 'a list \<Rightarrow> 'a list" where
  "heap_push lt x h = heap_up lt (h @ [x]) (length h)"

text \<open>\<open>Pop\<close> of a non-empty heap: the element and the rest.\<close>

definition heap_pop :: "('a \<Rightarrow> 'a \<Rightarrow> bool) \<Rightarrow> 'a list \<Rightarrow> 'a \<times> 'a list" where
  "heap_pop lt h =
     (let n = length h - 1; h' = heap_down lt (swap 0 n h) 0 n in (h' ! n, take n h'))"

text \<open>\<open>Fix(h, i)\<close>: sift down, and up if that moved nothing.\<close>

definition heap_fix :: "('a \<Rightarrow> 'a \<Rightarrow> bool) \<Rightarrow> 'a list \<Rightarrow> nat \<Rightarrow> 'a list" where
  "heap_fix lt h i =
     (let n = length h;
          moved = (2 * i + 1 < n \<and> lt (h ! min_child lt h i n) (h ! i));
          h' = heap_down lt h i n
      in if moved then h' else heap_up lt h' i)"

section \<open>Facts that hold for any Less\<close>

lemma parent_less: "0 < j \<Longrightarrow> parent j < j"
  by (auto simp: parent_def)

lemma parent_eq_self [simp]: "parent j = j \<longleftrightarrow> j = 0"
  by (auto simp: parent_def)

lemma parent_children: "0 < k \<Longrightarrow> parent k = i \<longleftrightarrow> k = 2 * i + 1 \<or> k = 2 * i + 2"
  by (auto simp: parent_def)

lemma min_child_cases: "min_child lt h i n = 2 * i + 1 \<or> min_child lt h i n = 2 * i + 2"
  by (auto simp: min_child_def Let_def)

lemma min_child_bounds:
  "2 * i + 1 < n \<Longrightarrow> i < min_child lt h i n \<and> min_child lt h i n < n"
  by (auto simp: min_child_def Let_def)

lemma parent_min_child [simp]: "parent (min_child lt h i n) = i"
  using min_child_cases[of lt h i n] by (auto simp: parent_def)

lemma length_swap [simp]: "length (swap i j h) = length h"
  by (simp add: swap_def)

lemma mset_swap_at [simp]: "i < length h \<Longrightarrow> j < length h \<Longrightarrow> mset (swap i j h) = mset h"
  by (simp add: swap_def mset_swap)

lemma nth_swap:
  "i < length h \<Longrightarrow> j < length h \<Longrightarrow>
     swap i j h ! k = (if k = j then h ! i else if k = i then h ! j else h ! k)"
  by (auto simp: swap_def nth_list_update)

lemma mset_heap_up: "j < length h \<Longrightarrow> mset (heap_up lt h j) = mset h"
proof (induction lt h j rule: heap_up.induct)
  case (1 lt h j)
  then show ?case
    by (subst heap_up.simps) (auto simp: Let_def intro: order.strict_trans[OF parent_less])
qed

lemma length_heap_up: "j < length h \<Longrightarrow> length (heap_up lt h j) = length h"
  by (metis mset_heap_up size_mset)

lemma mset_heap_down: "n \<le> length h \<Longrightarrow> mset (heap_down lt h i n) = mset h"
proof (induction lt h i n rule: heap_down.induct)
  case (1 lt h i n)
  note b = min_child_bounds[of i n lt h]
  from 1 b show ?case
    by (subst heap_down.simps) (force simp: Let_def not_le)
qed

lemma length_heap_down [simp]: "n \<le> length h \<Longrightarrow> length (heap_down lt h i n) = length h"
  by (metis mset_heap_down size_mset)

lemma heap_down_beyond: "n \<le> length h \<Longrightarrow> n \<le> k \<Longrightarrow> heap_down lt h i n ! k = h ! k"
proof (induction lt h i n rule: heap_down.induct)
  case (1 lt h i n)
  note b = min_child_bounds[of i n lt h]
  from 1 b show ?case
    by (subst heap_down.simps) (force simp: Let_def not_le nth_swap)
qed

lemma mset_heap_push: "mset (heap_push lt x h) = add_mset x (mset h)"
  by (simp add: heap_push_def mset_heap_up)

lemma heap_push_not_Nil [simp]: "heap_push lt x h \<noteq> []"
  by (metis mset_heap_push mset_zero_iff add_mset_not_empty)

lemma heap_pop_first: "h \<noteq> [] \<Longrightarrow> fst (heap_pop lt h) = h ! 0"
  by (cases h) (auto simp: heap_pop_def Let_def heap_down_beyond nth_swap)

lemma mset_heap_pop:
  assumes "h \<noteq> []" "heap_pop lt h = (x, h')"
  shows "mset h = add_mset x (mset h')"
proof -
  let ?n = "length h - 1"
  let ?d = "heap_down lt (swap 0 ?n h) 0 ?n"
  have n: "?n < length h" using assms(1) by (cases h) auto
  have "length ?d = length h" using n by simp
  then have "?d = take ?n ?d @ [?d ! ?n]"
    using n by (metis take_Suc_conv_app_nth Suc_diff_1 length_greater_0_conv assms(1) take_all order_refl)
  then have "mset ?d = add_mset (?d ! ?n) (mset (take ?n ?d))"
    by (metis add_mset_add_single mset.simps(1) mset.simps(2) mset_append)
  moreover have "mset ?d = mset h"
    using n assms(1) by (simp add: mset_heap_down)
  moreover have "x = ?d ! ?n" "h' = take ?n ?d"
    using assms(2) by (simp_all add: heap_pop_def Let_def)
  ultimately show ?thesis by simp
qed

lemma length_heap_pop: "h \<noteq> [] \<Longrightarrow> heap_pop lt h = (x, h') \<Longrightarrow> length h = Suc (length h')"
  by (metis mset_heap_pop size_mset size_add_mset)

lemma mset_heap_fix: "i < length h \<Longrightarrow> mset (heap_fix lt h i) = mset h"
  by (simp add: heap_fix_def Let_def mset_heap_down mset_heap_up)

lemma set_heap_fix: "i < length h \<Longrightarrow> set (heap_fix lt h i) = set h"
  by (metis mset_heap_fix set_mset_mset)

lemma set_heap_push: "set (heap_push lt x h) = insert x (set h)"
  by (metis mset_heap_push set_mset_add_mset_insert set_mset_mset)

lemma set_heap_pop: "h \<noteq> [] \<Longrightarrow> heap_pop lt h = (x, h') \<Longrightarrow> set h = insert x (set h')"
  by (metis mset_heap_pop set_mset_add_mset_insert set_mset_mset)

section \<open>Heap order\<close>

definition heap_ordered :: "('a \<Rightarrow> 'a \<Rightarrow> bool) \<Rightarrow> 'a list \<Rightarrow> bool" where
  "heap_ordered lt h \<longleftrightarrow> (\<forall>k\<in>{1..<length h}. \<not> lt (h ! k) (h ! parent k))"

text \<open>What holds while an element is on its way up from \<open>j\<close>, or down from \<open>i\<close> in the
  first \<open>n\<close> elements.\<close>

definition up_inv :: "('a \<Rightarrow> 'a \<Rightarrow> bool) \<Rightarrow> 'a list \<Rightarrow> nat \<Rightarrow> bool" where
  "up_inv lt h j \<longleftrightarrow> j < length h \<and>
     (\<forall>k. 0 < k \<and> k < length h \<longrightarrow>
        (k \<noteq> j \<longrightarrow> \<not> lt (h ! k) (h ! parent k)) \<and>
        (0 < j \<and> parent k = j \<longrightarrow> \<not> lt (h ! k) (h ! parent j)))"

definition down_inv :: "('a \<Rightarrow> 'a \<Rightarrow> bool) \<Rightarrow> 'a list \<Rightarrow> nat \<Rightarrow> nat \<Rightarrow> bool" where
  "down_inv lt h i n \<longleftrightarrow> n \<le> length h \<and>
     (\<forall>k. 0 < k \<and> k < n \<longrightarrow>
        (parent k \<noteq> i \<longrightarrow> \<not> lt (h ! k) (h ! parent k)) \<and>
        (0 < i \<and> parent k = i \<longrightarrow> \<not> lt (h ! k) (h ! parent i)))"

locale heap_order =
  fixes lt :: "'a \<Rightarrow> 'a \<Rightarrow> bool"
  assumes less_asym: "lt x y \<Longrightarrow> \<not> lt y x"
    and less_negtrans: "\<not> lt x y \<Longrightarrow> \<not> lt y z \<Longrightarrow> \<not> lt x z"
begin

lemma not_less_refl: "\<not> lt x x"
  using less_asym by blast

lemma up_step:
  assumes inv: "up_inv lt h j" and j: "0 < j" and gt: "lt (h ! j) (h ! parent j)"
  shows "up_inv lt (swap (parent j) j h) (parent j)"
proof -
  have len: "j < length h" "parent j < length h" "parent j < j"
    using inv j parent_less[of j] by (auto simp: up_inv_def)
  have inv1: "\<not> lt (h ! k) (h ! parent k)" if "0 < k" "k < length h" "k \<noteq> j" for k
    using inv that by (auto simp: up_inv_def)
  have inv2: "\<not> lt (h ! k) (h ! parent j)" if "0 < k" "k < length h" "parent k = j" for k
    using inv that j by (auto simp: up_inv_def)
  have sib: "\<not> lt (h ! k) (h ! j)" if "0 < k" "k < length h" "parent k = parent j" "k \<noteq> j" for k
    using inv1[of k] that less_asym[OF gt] less_negtrans by metis
  show ?thesis
    unfolding up_inv_def length_swap
  proof (intro conjI allI impI)
    fix k assume k: "0 < k \<and> k < length h" "k \<noteq> parent j"
    then show "\<not> lt (swap (parent j) j h ! k) (swap (parent j) j h ! parent k)"
      using len inv1[of k] inv2[of k] sib[of k] less_asym[OF gt]
      by (auto simp: nth_swap)
  next
    fix k assume k: "0 < k \<and> k < length h" "0 < parent j \<and> parent k = parent j"
    have pp: "parent (parent j) < parent j" using k parent_less by blast
    then have up: "\<not> lt (h ! parent j) (h ! parent (parent j))"
      using inv1[of "parent j"] k len by auto
    have "\<not> lt (h ! k) (h ! parent (parent j))" if "k \<noteq> j"
      using less_negtrans[OF _ up, of "h ! k"] inv1[of k] k that by simp
    moreover have "k \<noteq> parent j" using pp k by auto
    ultimately show "\<not> lt (swap (parent j) j h ! k) (swap (parent j) j h ! parent (parent j))"
      using k len pp up by (simp add: nth_swap)
  qed (use len in auto)
qed

lemma heap_up_ordered: "up_inv lt h j \<Longrightarrow> heap_ordered lt (heap_up lt h j)"
proof (induction j arbitrary: h rule: less_induct)
  case (less j)
  show ?case
  proof (cases "j = 0 \<or> \<not> lt (h ! j) (h ! parent j)")
    case True
    with less.prems have "\<not> lt (h ! k) (h ! parent k)" if "0 < k" "k < length h" for k
      using that by (cases "k = j") (auto simp: up_inv_def)
    with True show ?thesis
      by (subst heap_up.simps) (auto simp: Let_def heap_ordered_def)
  next
    case False
    with less.IH[OF parent_less up_step[OF less.prems]] show ?thesis
      by (subst heap_up.simps) (simp add: Let_def)
  qed
qed

lemma heap_push_ordered: "heap_ordered lt h \<Longrightarrow> heap_ordered lt (heap_push lt x h)"
proof -
  assume "heap_ordered lt h"
  then have "up_inv lt (h @ [x]) (length h)"
    by (auto simp: up_inv_def heap_ordered_def nth_append parent_def)
  then show ?thesis by (simp add: heap_push_def heap_up_ordered)
qed

lemma min_child_le:
  "0 < k \<Longrightarrow> k < n \<Longrightarrow> parent k = i \<Longrightarrow> \<not> lt (h ! k) (h ! min_child lt h i n)"
  by (auto simp: parent_children min_child_def Let_def not_less_refl dest: less_asym)

lemma down_step:
  assumes inv: "down_inv lt h i n" and c: "2 * i + 1 < n" and j: "j = min_child lt h i n"
    and gt: "lt (h ! j) (h ! i)"
  shows "down_inv lt (swap i j h) j n"
proof -
  have jb: "i < j" "j < n" "parent j = i"
    using min_child_bounds[OF c] by (auto simp: j)
  have len: "n \<le> length h" using inv by (simp add: down_inv_def)
  have inv1: "\<not> lt (h ! k) (h ! parent k)" if "0 < k" "k < n" "parent k \<noteq> i" for k
    using inv that by (auto simp: down_inv_def)
  have inv2: "\<not> lt (h ! k) (h ! parent i)" if "0 < k" "k < n" "parent k = i" "0 < i" for k
    using inv that by (auto simp: down_inv_def)
  show ?thesis
    unfolding down_inv_def length_swap
  proof (intro conjI allI impI)
    fix k assume k: "0 < k \<and> k < n" "parent k \<noteq> j"
    have "parent k < k" using k parent_less by blast
    with k show "\<not> lt (swap i j h ! k) (swap i j h ! parent k)"
      using jb len inv1[of k] inv2[of j] min_child_le[of k n i h] less_asym[OF gt]
      by (auto simp: nth_swap j)
  next
    fix k assume k: "0 < k \<and> k < n" "0 < j \<and> parent k = j"
    then have "\<not> lt (h ! k) (h ! j)" "j < k"
      using inv1[of k] jb parent_less[of k] by auto
    then show "\<not> lt (swap i j h ! k) (swap i j h ! parent j)"
      using k jb len by (auto simp: nth_swap)
  qed (use len in auto)
qed

lemma heap_down_ordered: "down_inv lt h i n \<Longrightarrow> heap_ordered lt (take n (heap_down lt h i n))"
proof (induction "n - i" arbitrary: h i rule: less_induct)
  case less
  let ?j = "min_child lt h i n"
  show ?case
  proof (cases "n \<le> 2 * i + 1 \<or> \<not> lt (h ! ?j) (h ! i)")
    case True
    have "\<not> lt (h ! k) (h ! parent k)" if "0 < k" "k < n" for k
    proof (cases "parent k = i")
      case True': True
      then have "\<not> n \<le> 2 * i + 1" using that by (auto simp: parent_children)
      with True min_child_le[OF that True', of h] show ?thesis
        using True' less_negtrans by blast
    qed (use less.prems that in \<open>auto simp: down_inv_def\<close>)
    moreover have "heap_down lt h i n = h"
      using True by (subst heap_down.simps) (auto simp: Let_def)
    moreover have "parent k < n" if "0 < k" "k < n" for k
      using parent_less[OF that(1)] that(2) by simp
    ultimately show ?thesis
      by (auto simp: heap_ordered_def)
  next
    case False
    then have c: "2 * i + 1 < n" by simp
    with False min_child_bounds[OF c, of lt h] less.hyps[OF _ down_step[OF less.prems c refl]]
    show ?thesis
      by (subst heap_down.simps) (auto simp: Let_def)
  qed
qed

lemma heap_pop_ordered:
  assumes "heap_ordered lt h" "h \<noteq> []" "heap_pop lt h = (x, h')"
  shows "heap_ordered lt h'"
proof -
  let ?n = "length h - 1"
  have n: "?n < length h" using assms(2) by (cases h) auto
  have "down_inv lt (swap 0 ?n h) 0 ?n"
    unfolding down_inv_def length_swap
  proof (intro conjI allI impI)
    fix k assume k: "0 < k \<and> k < ?n" "parent k \<noteq> 0"
    have "parent k < k" using k parent_less by blast
    with k n assms(1,2) show "\<not> lt (swap 0 ?n h ! k) (swap 0 ?n h ! parent k)"
      by (auto simp: nth_swap heap_ordered_def)
  qed auto
  then show ?thesis
    using heap_down_ordered assms(3) by (auto simp: heap_pop_def Let_def)
qed

lemma heap_min:
  assumes "heap_ordered lt h" "k < length h"
  shows "\<not> lt (h ! k) (h ! 0)"
  using assms(2)
proof (induction k rule: less_induct)
  case (less k)
  show ?case
  proof (cases "k = 0")
    case False
    then have "\<not> lt (h ! k) (h ! parent k)"
      using assms(1) less.prems by (auto simp: heap_ordered_def)
    moreover have "\<not> lt (h ! parent k) (h ! 0)"
      using less.IH[of "parent k"] parent_less[of k] False less.prems by auto
    ultimately show ?thesis using less_negtrans by blast
  qed (simp add: not_less_refl)
qed

lemma heap_pop_min:
  assumes "heap_ordered lt h" "h \<noteq> []" "heap_pop lt h = (x, h')" "y \<in> set h"
  shows "\<not> lt y x"
proof -
  have "x = h ! 0" using heap_pop_first[OF assms(2), of lt] assms(3) by simp
  then show ?thesis
    using heap_min[OF assms(1)] assms(4) by (auto simp: in_set_conv_nth)
qed

end

lemma heap_ordered_Nil [simp]: "heap_ordered lt []"
  by (simp add: heap_ordered_def)

section \<open>The priority-queue interface\<close>

text \<open>\<open>heap_pop_opt\<close> is Pop guarded by the emptiness test its callers make; \<open>drain\<close> pops at
  most \<open>n\<close> times.\<close>

definition heap_pop_opt :: "('a \<Rightarrow> 'a \<Rightarrow> bool) \<Rightarrow> 'a list \<Rightarrow> ('a \<times> 'a list) option" where
  "heap_pop_opt lt h = (if h = [] then None else Some (heap_pop lt h))"

primrec drain :: "('q \<Rightarrow> ('a \<times> 'q) option) \<Rightarrow> nat \<Rightarrow> 'q \<Rightarrow> 'a list" where
  "drain pop 0 q = []"
| "drain pop (Suc n) q = (case pop q of None \<Rightarrow> [] | Some (x, q') \<Rightarrow> x # drain pop n q')"

locale priority_queue =
  fixes lt :: "'a \<Rightarrow> 'a \<Rightarrow> bool"
    and ok :: "'q \<Rightarrow> bool"
    and contents :: "'q \<Rightarrow> 'a multiset"
    and push :: "'a \<Rightarrow> 'q \<Rightarrow> 'q"
    and pop :: "'q \<Rightarrow> ('a \<times> 'q) option"
  assumes push_ok: "ok q \<Longrightarrow> ok (push x q)"
    and push_contents: "contents (push x q) = add_mset x (contents q)"
    and pop_None: "pop q = None \<longleftrightarrow> contents q = {#}"
    and pop_ok: "ok q \<Longrightarrow> pop q = Some (x, q') \<Longrightarrow> ok q'"
    and pop_contents: "pop q = Some (x, q') \<Longrightarrow> contents q = add_mset x (contents q')"
    and pop_min: "ok q \<Longrightarrow> pop q = Some (x, q') \<Longrightarrow> y \<in># contents q \<Longrightarrow> \<not> lt y x"
begin

lemma foldr_push_ok: "ok q \<Longrightarrow> ok (foldr push xs q)"
  by (induction xs) (auto intro: push_ok)

lemma foldr_push_contents: "contents (foldr push xs q) = mset xs + contents q"
  by (induction xs) (auto simp: push_contents)

lemma pop_size: "pop q = Some (x, q') \<Longrightarrow> size (contents q) = Suc (size (contents q'))"
  by (simp add: pop_contents)

lemma mset_drain: "size (contents q) \<le> n \<Longrightarrow> mset (drain pop n q) = contents q"
proof (induction n arbitrary: q)
  case (Suc n)
  then show ?case
    using pop_None[of q] by (cases "pop q") (auto simp: pop_size pop_contents split: prod.splits)
qed simp

lemma drain_sorted: "ok q \<Longrightarrow> size (contents q) \<le> n \<Longrightarrow> sorted_wrt (\<lambda>x y. \<not> lt y x) (drain pop n q)"
proof (induction n arbitrary: q)
  case (Suc n)
  show ?case
  proof (cases "pop q")
    case (Some p)
    obtain x q' where p: "p = (x, q')" by fastforce
    have sz: "size (contents q') \<le> n"
      using Suc.prems(2) pop_size Some p by fastforce
    then have "set_mset (mset (drain pop n q')) \<subseteq> set_mset (contents q)"
      using mset_drain[OF sz] pop_contents[of q x q'] Some p by auto
    then show ?thesis
      using Suc.IH[OF pop_ok[OF Suc.prems(1)] sz] pop_min[OF Suc.prems(1)] Some p by auto
  qed simp
qed simp

end

sublocale heap_order \<subseteq> pq: priority_queue lt "heap_ordered lt" mset "heap_push lt" "heap_pop_opt lt"
proof
  show "heap_pop_opt lt q = Some (x, q') \<Longrightarrow> heap_ordered lt q \<Longrightarrow> y \<in># mset q \<Longrightarrow> \<not> lt y x" for q x q' y
    by (auto simp: heap_pop_opt_def split: if_splits dest: heap_pop_min)
qed (auto simp: heap_pop_opt_def mset_heap_push split: if_splits
       intro: heap_push_ordered heap_pop_ordered mset_heap_pop)

end
