(* ===== verification/MapDef.thy ===== *)
theory MapDef
  imports Prelude
begin

text \<open>
  \<open>pkg/shared/maps\<close>: the static map definitions. Parsing YAML is third-party code, so \<open>Load\<close>
  and \<open>All\<close> take the decoder as a parameter; the embedded files are a list of names with their
  contents, \<^const>\<open>None\<close> where reading one fails.
\<close>

record map_province =
  mp_ID :: province_id
  mp_X :: real
  mp_Y :: real
  mp_Name :: string
  mp_HomeSlot :: slot

record map_edge =
  me_From :: province_id
  me_To :: province_id

record map_slot =
  msl_ID :: slot
  msl_Color :: string
  msl_Capital :: province_id

record starting_unit =
  su_Slot :: slot
  su_Type :: string
  su_Province :: province_id
  su_HP :: real

record game_map =
  map_ID :: string
  map_Name :: string
  map_Provinces :: "map_province list"
  map_Edges :: "map_edge list"
  map_Slots :: "map_slot list"
  map_StartingUnits :: "starting_unit list"
  map_SVGURL :: string
  map_ThumbnailURL :: string
  map_RulesSummary :: string

datatype map_error =
    ProvinceNotOnMap province_id
  | MapNotFound string

section \<open>Square root by Newton's method\<close>

primrec newton :: "nat \<Rightarrow> real \<Rightarrow> real \<Rightarrow> real" where
  "newton 0 v z = z"
| "newton (Suc n) v z = newton n v ((z + v / z) / 2)"

definition map_sqrt :: "real \<Rightarrow> real" where
  "map_sqrt v = (if v \<le> 0 then 0 else newton 20 v v)"

section \<open>Queries\<close>

definition map_Province :: "game_map \<Rightarrow> province_id \<Rightarrow> map_error + map_province" where
  "map_Province m pid =
     (case find (\<lambda>p. mp_ID p = pid) (map_Provinces m) of
        Some p \<Rightarrow> Inr p
      | None \<Rightarrow> Inl (ProvinceNotOnMap pid))"

definition map_Distance :: "game_map \<Rightarrow> province_id \<Rightarrow> province_id \<Rightarrow> map_error + real" where
  "map_Distance m a b =
     (case map_Province m a of
        Inl err \<Rightarrow> Inl err
      | Inr pa \<Rightarrow>
          (case map_Province m b of
             Inl err \<Rightarrow> Inl err
           | Inr pb \<Rightarrow>
               let dx = mp_X pa - mp_X pb; dy = mp_Y pa - mp_Y pb in
               Inr (map_sqrt (dx * dx + dy * dy))))"

definition HasEdge :: "game_map \<Rightarrow> province_id \<Rightarrow> province_id \<Rightarrow> bool" where
  "HasEdge m a b \<longleftrightarrow>
     (\<exists>e\<in>set (map_Edges m). (me_From e = a \<and> me_To e = b) \<or> (me_From e = b \<and> me_To e = a))"

definition Neighbors :: "game_map \<Rightarrow> province_id \<Rightarrow> province_id list" where
  "Neighbors m pid =
     (let seen = foldl (\<lambda>seen e.
           if me_From e = pid then List.insert (me_To e) seen
           else if me_To e = pid then List.insert (me_From e) seen
           else seen) [] (map_Edges m)
      in sort seen)"

section \<open>Loading\<close>

fun map_Load :: "(string \<Rightarrow> game_map option) \<Rightarrow> (string \<times> string option) list \<Rightarrow> string \<Rightarrow> map_error + game_map" where
  "map_Load decode [] mid = Inl (MapNotFound mid)"
| "map_Load decode ((_, raw) # files) mid =
     (case raw of
        None \<Rightarrow> map_Load decode files mid
      | Some r \<Rightarrow>
          (case decode r of
             None \<Rightarrow> map_Load decode files mid
           | Some m \<Rightarrow> if map_ID m = mid then Inr m else map_Load decode files mid))"

definition map_All :: "(string \<Rightarrow> game_map option) \<Rightarrow> (string \<times> string option) list \<Rightarrow> game_map list" where
  "map_All decode files =
     sort_key map_ID (List.map_filter (\<lambda>(_, raw). Option.bind raw decode) files)"

section \<open>Lemmas\<close>

lemma map_Province_Inr: "map_Province m pid = Inr p \<Longrightarrow> p \<in> set (map_Provinces m) \<and> mp_ID p = pid"
  by (auto simp: map_Province_def find_Some_iff split: option.splits)

lemma map_Province_Inl: "map_Province m pid = Inl e \<longleftrightarrow> e = ProvinceNotOnMap pid \<and> pid \<notin> mp_ID ` set (map_Provinces m)"
  by (auto simp: map_Province_def find_None_iff find_Some_iff split: option.splits)

lemma HasEdge_sym: "HasEdge m a b = HasEdge m b a"
  by (auto simp: HasEdge_def)

lemma neighbors_fold:
  "q \<in> set (foldl (\<lambda>seen e. if me_From e = pid then List.insert (me_To e) seen
           else if me_To e = pid then List.insert (me_From e) seen else seen) s es)
   \<longleftrightarrow> q \<in> set s \<or> (\<exists>e\<in>set es. (me_From e = pid \<and> me_To e = q) \<or> (me_From e = q \<and> me_To e = pid))"
proof (induction es arbitrary: s)
  case (Cons e es)
  show ?case unfolding foldl_Cons Cons.IH by (cases "me_From e = pid"; cases "me_To e = pid"; auto)
qed simp

lemma neighbors_fold_distinct:
  "distinct s \<Longrightarrow> distinct (foldl (\<lambda>seen e. if me_From e = pid then List.insert (me_To e) seen
           else if me_To e = pid then List.insert (me_From e) seen else seen) s es)"
  by (rule foldl_invariant) auto

lemma set_Neighbors: "set (Neighbors m pid) = {q. HasEdge m pid q}"
  by (auto simp: Neighbors_def neighbors_fold HasEdge_def)

lemma newton_step_ge:
  assumes "0 < v" "0 < z"
  shows "sqrt v \<le> (z + v / z) / 2"
proof -
  have "0 \<le> (z - sqrt v)\<^sup>2 / z" using assms by simp
  also have "(z - sqrt v)\<^sup>2 = z\<^sup>2 - 2 * z * sqrt v + v"
    using assms by (simp add: power2_diff)
  also have "(z\<^sup>2 - 2 * z * sqrt v + v) / z = z - 2 * sqrt v + v / z"
    using assms by (simp add: field_simps power2_eq_square)
  finally show ?thesis by simp
qed

lemma newton_ge: "0 < v \<Longrightarrow> sqrt v \<le> z \<Longrightarrow> sqrt v \<le> newton n v z"
proof (induction n arbitrary: z)
  case (Suc n)
  have "0 < z" using Suc.prems by (meson less_le_trans real_sqrt_gt_zero)
  with Suc.IH[OF Suc.prems(1) newton_step_ge[OF Suc.prems(1)]] show ?case by simp
qed simp

lemma map_sqrt_pos: "0 < v \<Longrightarrow> 0 < map_sqrt v"
proof -
  assume v: "0 < v"
  have "map_sqrt v = newton 19 v ((v + v / v) / 2)"
    using v by (simp add: map_sqrt_def numeral_eq_Suc)
  moreover have "sqrt v \<le> newton 19 v ((v + v / v) / 2)"
    using newton_ge[OF v newton_step_ge[OF v v]] .
  ultimately show ?thesis using v by (metis less_le_trans real_sqrt_gt_zero)
qed

end
