(* ===== verification/Diplomacy.thy ===== *)
theory Diplomacy
  imports Prelude
begin

text \<open>
  \<open>internal/domain/diplomacydom\<close>: the pairwise treaties and unilateral pacts of one match
  (\<open>types.go\<close>, \<open>registry.go\<close>, \<open>transitions.go\<close>). A method that returns an \<open>error\<close>
  returns the registry it leaves and an optional error. The locale \<open>alliance_graph\<close> states what
  coalitions need of the alliance relation, and is interpreted on the registry's stances.
\<close>

section \<open>types.go\<close>

datatype stance = War | Peace | Alliance

datatype pending = PendingNone | PendingPeace | PendingAlliance

datatype pact_kind = ShareMap | RightOfWay

primrec stance_string :: "stance \<Rightarrow> string" where
  "stance_string War = ''war''"
| "stance_string Peace = ''peace''"
| "stance_string Alliance = ''alliance''"

primrec pending_string :: "pending \<Rightarrow> string" where
  "pending_string PendingNone = ''''"
| "pending_string PendingPeace = ''peace''"
| "pending_string PendingAlliance = ''alliance''"

primrec pact_kind_string :: "pact_kind \<Rightarrow> string" where
  "pact_kind_string ShareMap = ''share_map''"
| "pact_kind_string RightOfWay = ''right_of_way''"

record treaty =
  tr_SlotA :: slot
  tr_SlotB :: slot
  tr_Stance :: stance
  tr_Pending :: pending
  tr_PendingFrom :: slot
  tr_ChangedAt :: time
  tr_LastChangeFrom :: slot

record pact =
  pa_From :: slot
  pa_To :: slot
  pa_Kind :: pact_kind
  pa_GrantedAt :: time

section \<open>registry.go\<close>

definition CooldownBetweenChanges :: duration where
  "CooldownBetweenChanges = Hour"

datatype dipl_error =
    ErrSelfTreaty
  | ErrCooldown
  | ErrNoPendingOffer
  | ErrAlreadyAtStance
  | ErrUnknownSlot
  | ErrPactAlreadyGiven
  | ErrPactMissing

type_synonym pair_key = "slot \<times> slot"
type_synonym pact_key = "slot \<times> slot \<times> pact_kind"

record registry =
  reg_treaties :: "(pair_key, treaty) gomap"
  reg_pacts :: "(pact_key, pact) gomap"
  reg_version :: "64 word"

definition reg_New :: registry where
  "reg_New = \<lparr>reg_treaties = [], reg_pacts = [], reg_version = 0\<rparr>"

definition bumpVersion :: "registry \<Rightarrow> registry" where
  "bumpVersion r = r\<lparr>reg_version := reg_version r + 1\<rparr>"

definition sortedPair :: "slot \<Rightarrow> slot \<Rightarrow> slot \<times> slot" where
  "sortedPair a b = (if a > b then (b, a) else (a, b))"

definition Stance :: "registry \<Rightarrow> slot \<Rightarrow> slot \<Rightarrow> stance" where
  "Stance r a b =
     (if a = b then Peace
      else case map_of (reg_treaties r) (sortedPair a b) of
             None \<Rightarrow> War
           | Some t \<Rightarrow> tr_Stance t)"

definition Treaty :: "registry \<Rightarrow> slot \<Rightarrow> slot \<Rightarrow> treaty option" where
  "Treaty r a b = (if a = b then None else map_of (reg_treaties r) (sortedPair a b))"

definition AllTreaties :: "registry \<Rightarrow> treaty list" where
  "AllTreaties r = sort_key (\<lambda>t. (tr_SlotA t, tr_SlotB t)) (map snd (reg_treaties r))"

definition PactsFrom :: "registry \<Rightarrow> slot \<Rightarrow> pact list" where
  "PactsFrom r from =
     sort_key (\<lambda>p. (pa_To p, pact_kind_string (pa_Kind p)))
       (filter (\<lambda>p. pa_From p = from) (map snd (reg_pacts r)))"

definition HasPact :: "registry \<Rightarrow> slot \<Rightarrow> slot \<Rightarrow> pact_kind \<Rightarrow> bool" where
  "HasPact r from to kind = (if from = to then True else map_of (reg_pacts r) (from, to, kind) \<noteq> None)"

definition IsHostile :: "registry \<Rightarrow> slot \<Rightarrow> slot \<Rightarrow> bool" where
  "IsHostile r a b \<longleftrightarrow> Stance r a b = War"

definition SeesThrough :: "registry \<Rightarrow> slot \<Rightarrow> slot \<Rightarrow> bool" where
  "SeesThrough r viewer owner =
     (if viewer = owner then True
      else if Stance r viewer owner = Alliance then True
      else HasPact r owner viewer ShareMap)"

definition MayMoveThrough :: "registry \<Rightarrow> slot \<Rightarrow> slot \<Rightarrow> bool" where
  "MayMoveThrough r mover owner =
     (if owner = [] \<or> mover = owner then True
      else case Stance r mover owner of
             Alliance \<Rightarrow> True
           | Peace \<Rightarrow> HasPact r owner mover RightOfWay
           | War \<Rightarrow> False)"

text \<open>The inner loop of \<open>Coalition\<close> over all slots, and the loop over the stack, whose top is
  the head of the list. The relation is a parameter: \<open>Coalition\<close> uses the registry's
  alliances.\<close>

definition coalition_scan :: "(slot \<Rightarrow> slot \<Rightarrow> bool) \<Rightarrow> slot list \<Rightarrow> slot \<Rightarrow> slot list \<times> slot list \<Rightarrow> slot list \<times> slot list" where
  "coalition_scan allied all current vs =
     foldl (\<lambda>(visited, stack) other.
        if other \<in> set visited then (visited, stack)
        else if allied current other then (visited @ [other], other # stack)
        else (visited, stack)) vs all"

lemma coalition_scan_step:
  "coalition_scan allied (x # all) c (v, st) =
     coalition_scan allied all c (if x \<notin> set v \<and> allied c x then (v @ [x], x # st) else (v, st))"
  by (simp add: coalition_scan_def)

lemma coalition_scan_Nil [simp]: "coalition_scan allied [] c vs = vs"
  by (simp add: coalition_scan_def)

lemma coalition_scan_measure:
  assumes "coalition_scan allied all c (v, st) = (v', st')" "set all \<subseteq> A" "finite A"
  shows "2 * card (A - set v') + length st' \<le> 2 * card (A - set v) + length st"
  using assms
proof (induction all arbitrary: v st)
  case (Cons x all)
  have "card (A - set v) = Suc (card (A - insert x (set v)))" if "x \<notin> set v"
    using that Cons.prems by (metis Diff_insert card_Suc_Diff1 finite_Diff DiffI list.set_intros(1) subsetD)
  with Cons show ?case
    by (fastforce simp: coalition_scan_step split: if_splits)
qed simp

function coalition_loop :: "(slot \<Rightarrow> slot \<Rightarrow> bool) \<Rightarrow> slot list \<Rightarrow> slot list \<Rightarrow> slot list \<Rightarrow> slot list" where
  "coalition_loop allied all visited [] = visited"
| "coalition_loop allied all visited (current # stack) =
     (case coalition_scan allied all current (visited, stack) of
        (visited', stack') \<Rightarrow> coalition_loop allied all visited' stack')"
  by pat_completeness auto
termination
proof (relation "measure (\<lambda>(_, all, v, st). 2 * card (set all - set v) + length st)", goal_cases)
  case (2 allied all visited current stack v' st')
  then have *: "coalition_scan allied all current (visited, stack) = (v', st')" by simp
  show ?case
    using coalition_scan_measure[OF *, of "set all"] * by simp
qed simp

definition Coalition :: "registry \<Rightarrow> slot \<Rightarrow> slot list \<Rightarrow> slot list" where
  "Coalition r s allSlots = coalition_loop (\<lambda>a b. Stance r a b = Alliance) allSlots [s] [s]"

definition CoalitionID :: "registry \<Rightarrow> slot \<Rightarrow> slot list \<Rightarrow> slot" where
  "CoalitionID r s allSlots =
     foldl (\<lambda>leader x. if x < leader then x else leader) s (Coalition r s allSlots)"

section \<open>transitions.go\<close>

definition upsert :: "registry \<Rightarrow> slot \<Rightarrow> slot \<Rightarrow> stance \<Rightarrow> pending \<Rightarrow> slot \<Rightarrow> time \<Rightarrow> slot \<Rightarrow> registry" where
  "upsert r a b st pend pendingFrom now changeFrom =
     (let (x, y) = sortedPair a b;
          t = (case map_of (reg_treaties r) (x, y) of
                 Some t \<Rightarrow> t
               | None \<Rightarrow> \<lparr>tr_SlotA = x, tr_SlotB = y, tr_Stance = War, tr_Pending = PendingNone,
                           tr_PendingFrom = [], tr_ChangedAt = 0, tr_LastChangeFrom = []\<rparr>);
          t' = t\<lparr>tr_Stance := st, tr_Pending := pend, tr_PendingFrom := pendingFrom, tr_ChangedAt := now,
                 tr_LastChangeFrom := (if changeFrom \<noteq> [] then changeFrom else tr_LastChangeFrom t)\<rparr>
      in bumpVersion (r\<lparr>reg_treaties := mput (x, y) t' (reg_treaties r)\<rparr>))"

definition between :: "slot \<Rightarrow> slot \<Rightarrow> pact_key \<Rightarrow> bool" where
  "between a b k \<longleftrightarrow> (case k of (from, to, _) \<Rightarrow> (from = a \<and> to = b) \<or> (from = b \<and> to = a))"

definition revokeAllBetween :: "registry \<Rightarrow> slot \<Rightarrow> slot \<Rightarrow> registry" where
  "revokeAllBetween r a b =
     (let r' = r\<lparr>reg_pacts := filter (\<lambda>(k, _). \<not> between a b k) (reg_pacts r)\<rparr> in
      if \<exists>k\<in>set (mkeys (reg_pacts r)). between a b k then bumpVersion r' else r')"

definition currentStance :: "treaty option \<Rightarrow> stance" where
  "currentStance t = (case t of None \<Rightarrow> War | Some t \<Rightarrow> tr_Stance t)"

definition requestedStance :: "pending \<Rightarrow> stance" where
  "requestedStance p = (case p of PendingPeace \<Rightarrow> Peace | PendingAlliance \<Rightarrow> Alliance | PendingNone \<Rightarrow> War)"

definition DeclareWar :: "registry \<Rightarrow> slot \<Rightarrow> slot \<Rightarrow> time \<Rightarrow> registry \<times> dipl_error option" where
  "DeclareWar r from target now =
     (if from = target then (r, Some ErrSelfTreaty)
      else if Stance r from target = War then (r, Some ErrAlreadyAtStance)
      else if (case Treaty r from target of
                 None \<Rightarrow> False
               | Some t \<Rightarrow> time_sub now (tr_ChangedAt t) < CooldownBetweenChanges)
        then (r, Some ErrCooldown)
      else
        let r1 = upsert r from target War PendingNone [] now from;
            r2 = revokeAllBetween r1 from target
        in (bumpVersion r2, None))"

definition propose :: "registry \<Rightarrow> slot \<Rightarrow> slot \<Rightarrow> pending \<Rightarrow> time \<Rightarrow> registry \<times> dipl_error option" where
  "propose r from target kind now =
     (if from = target then (r, Some ErrSelfTreaty)
      else
        let t = map_of (reg_treaties r) (sortedPair from target) in
        if (case t of Some t \<Rightarrow> tr_Stance t = requestedStance kind | None \<Rightarrow> False)
          then (r, Some ErrAlreadyAtStance)
        else if (case t of Some t \<Rightarrow> time_sub now (tr_ChangedAt t) < CooldownBetweenChanges | None \<Rightarrow> False)
          then (r, Some ErrCooldown)
        else (upsert r from target (currentStance t) kind from now [], None))"

definition ProposePeace :: "registry \<Rightarrow> slot \<Rightarrow> slot \<Rightarrow> time \<Rightarrow> registry \<times> dipl_error option" where
  "ProposePeace r from target now = propose r from target PendingPeace now"

definition ProposeAlliance :: "registry \<Rightarrow> slot \<Rightarrow> slot \<Rightarrow> time \<Rightarrow> registry \<times> dipl_error option" where
  "ProposeAlliance r from target now = propose r from target PendingAlliance now"

definition accept :: "registry \<Rightarrow> slot \<Rightarrow> slot \<Rightarrow> pending \<Rightarrow> stance \<Rightarrow> time \<Rightarrow> registry \<times> dipl_error option" where
  "accept r accepter other want becomes now =
     (if (case Treaty r accepter other of
            None \<Rightarrow> True
          | Some t \<Rightarrow> tr_Pending t \<noteq> want \<or> tr_PendingFrom t = accepter \<or> tr_PendingFrom t \<noteq> other)
      then (r, Some ErrNoPendingOffer)
      else (upsert r accepter other becomes PendingNone [] now accepter, None))"

definition AcceptPeace :: "registry \<Rightarrow> slot \<Rightarrow> slot \<Rightarrow> time \<Rightarrow> registry \<times> dipl_error option" where
  "AcceptPeace r accepter other now = accept r accepter other PendingPeace Peace now"

definition AcceptAlliance :: "registry \<Rightarrow> slot \<Rightarrow> slot \<Rightarrow> time \<Rightarrow> registry \<times> dipl_error option" where
  "AcceptAlliance r accepter other now = accept r accepter other PendingAlliance Alliance now"

definition GrantPact :: "registry \<Rightarrow> slot \<Rightarrow> slot \<Rightarrow> pact_kind \<Rightarrow> time \<Rightarrow> registry \<times> dipl_error option" where
  "GrantPact r from to kind now =
     (if from = to then (r, Some ErrSelfTreaty)
      else if map_of (reg_pacts r) (from, to, kind) \<noteq> None then (r, Some ErrPactAlreadyGiven)
      else
        (bumpVersion (r\<lparr>reg_pacts :=
           mput (from, to, kind) \<lparr>pa_From = from, pa_To = to, pa_Kind = kind, pa_GrantedAt = now\<rparr> (reg_pacts r)\<rparr>),
         None))"

definition RevokePact :: "registry \<Rightarrow> slot \<Rightarrow> slot \<Rightarrow> pact_kind \<Rightarrow> registry \<times> dipl_error option" where
  "RevokePact r from to kind =
     (if from = to then (r, Some ErrSelfTreaty)
      else if map_of (reg_pacts r) (from, to, kind) = None then (r, Some ErrPactMissing)
      else (bumpVersion (r\<lparr>reg_pacts := mdel (from, to, kind) (reg_pacts r)\<rparr>), None))"

section \<open>Coalitions\<close>

definition alliance_edges :: "(slot \<Rightarrow> slot \<Rightarrow> bool) \<Rightarrow> slot list \<Rightarrow> (slot \<times> slot) set" where
  "alliance_edges allied all = {(a, b). allied a b \<and> b \<in> set all}"

text \<open>The slots reachable from \<open>s\<close> along alliances, through slots of the match.\<close>

definition reach_coalition :: "(slot \<Rightarrow> slot \<Rightarrow> bool) \<Rightarrow> slot list \<Rightarrow> slot \<Rightarrow> slot set" where
  "reach_coalition allied all s = {t. (s, t) \<in> (alliance_edges allied all)\<^sup>*}"

lemma coalition_scan_set:
  assumes "coalition_scan allied all c (v, st) = (v', st')"
  shows "set v' = set v \<union> {x \<in> set all. allied c x} \<and> set st' = set st \<union> {x \<in> set all. allied c x \<and> x \<notin> set v}"
  using assms
proof (induction all arbitrary: v st)
  case (Cons x all)
  show ?case
    using Cons.IH Cons.prems by (fastforce simp: coalition_scan_step split: if_splits)
qed simp

lemma coalition_loop_reach:
  assumes "set st \<subseteq> set v"
    and "\<And>x y. x \<in> set v - set st \<Longrightarrow> (x, y) \<in> alliance_edges allied all \<Longrightarrow> y \<in> set v"
  shows "set (coalition_loop allied all v st) = (alliance_edges allied all)\<^sup>* `` set v"
  using assms
proof (induction allied all v st rule: coalition_loop.induct)
  case (1 allied all v)
  then have "alliance_edges allied all `` set v \<subseteq> set v" by auto
  then show ?case by (simp add: Image_closed_trancl)
next
  case (2 allied all v c st)
  obtain v' st' where sc: "coalition_scan allied all c (v, st) = (v', st')" by fastforce
  let ?E = "alliance_edges allied all"
  have v': "set v' = set v \<union> ?E `` {c}" and st': "set st' = set st \<union> (?E `` {c} - set v)"
    using coalition_scan_set[OF sc] by (auto simp: alliance_edges_def)
  have c: "c \<in> set v" using "2.prems"(1) by simp
  have "set (coalition_loop allied all v' st') = ?E\<^sup>* `` set v'"
  proof (rule "2.IH"[OF sc[symmetric]])
    show "set st' \<subseteq> set v'" using "2.prems"(1) v' st' by auto
    fix x y assume x: "x \<in> set v' - set st'" and xy: "(x, y) \<in> ?E"
    then show "y \<in> set v'"
      using "2.prems"(2)[of x y] v' st' by (cases "x = c") auto
  qed
  also have "?E\<^sup>* `` set v' = ?E\<^sup>* `` set v"
  proof -
    have "?E `` {c} \<subseteq> ?E\<^sup>* `` set v" using c by blast
    then have "?E\<^sup>* `` (?E `` {c}) \<subseteq> ?E\<^sup>* `` set v" by (auto intro: rtrancl_trans)
    then show ?thesis by (auto simp: v' Image_Un)
  qed
  finally show ?case by (simp add: sc)
qed

lemma coalition_scan_distinct: "coalition_scan allied all c (v, st) = (v', st') \<Longrightarrow> distinct v \<Longrightarrow> distinct v'"
  by (induction all arbitrary: v st) (auto simp: coalition_scan_step split: if_splits)

lemma coalition_loop_distinct: "distinct v \<Longrightarrow> distinct (coalition_loop allied all v st)"
proof (induction allied all v st rule: coalition_loop.induct)
  case (2 allied all v c st)
  obtain v' st' where sc: "coalition_scan allied all c (v, st) = (v', st')" by fastforce
  from "2.IH"[OF sc[symmetric] coalition_scan_distinct[OF sc "2.prems"]] show ?case by (simp add: sc)
qed simp

lemma distinct_Coalition: "distinct (Coalition r s all)"
  unfolding Coalition_def by (rule coalition_loop_distinct) simp

declare coalition_loop.simps [simp del]

lemma foldl_leader: "foldl (\<lambda>leader x. if x < leader then x else leader) s xs = Min (insert s (set xs))"
  for s :: slot
proof (induction xs arbitrary: s)
  case (Cons x xs)
  have "(if x < s then x else s) = min s x" by (auto simp: min_def)
  with Cons have "foldl (\<lambda>leader x. if x < leader then x else leader) s (x # xs) = Min (insert (min s x) (set xs))"
    by simp
  also have "\<dots> = Min (insert s (set (x # xs)))"
    by (cases "xs = []") (simp_all add: min.assoc)
  finally show ?case .
qed simp

locale alliance_graph =
  fixes allied :: "slot \<Rightarrow> slot \<Rightarrow> bool"
  assumes allied_sym: "allied a b \<Longrightarrow> allied b a"
begin

abbreviation coal :: "slot list \<Rightarrow> slot \<Rightarrow> slot set" where
  "coal \<equiv> reach_coalition allied"

lemmas coal_def = reach_coalition_def[of allied]

lemma loop_coal: "set (coalition_loop allied all [s] [s]) = coal all s"
  using coalition_loop_reach[of "[s]" "[s]" allied all] by (auto simp: coal_def)

lemma coal_refl: "s \<in> coal all s"
  by (simp add: coal_def)

lemma finite_coal: "finite (coal all s)"
  by (metis loop_coal finite_set)

lemma coal_subset: "coal all s \<subseteq> insert s (set all)"
proof
  fix t assume "t \<in> coal all s"
  then have "(s, t) \<in> (alliance_edges allied all)\<^sup>*" by (simp add: coal_def)
  then show "t \<in> insert s (set all)"
    by (cases rule: rtranclE) (auto simp: alliance_edges_def)
qed

lemma coal_sym: "s \<in> set all \<Longrightarrow> t \<in> coal all s \<Longrightarrow> s \<in> coal all t"
  unfolding coal_def mem_Collect_eq
proof (rotate_tac, induction rule: rtrancl_induct)
  case (step y z)
  have y: "y \<in> set all"
    using step.hyps(1) step.prems by (auto simp: alliance_edges_def elim: rtranclE)
  have "(z, y) \<in> alliance_edges allied all"
    using step.hyps(2) allied_sym y by (auto simp: alliance_edges_def)
  then show ?case using step by (meson converse_rtrancl_into_rtrancl)
qed simp

lemma coal_trans: "t \<in> coal all s \<Longrightarrow> u \<in> coal all t \<Longrightarrow> u \<in> coal all s"
  by (auto simp: coal_def)

lemma coal_eq: "s \<in> set all \<Longrightarrow> t \<in> coal all s \<Longrightarrow> coal all t = coal all s"
  using coal_sym coal_trans by blast

lemma leader_iff:
  assumes "s \<in> set all" "t \<in> set all"
  shows "Min (coal all s) = Min (coal all t) \<longleftrightarrow> t \<in> coal all s"
proof
  assume eq: "Min (coal all s) = Min (coal all t)"
  have "Min (coal all s) \<in> coal all s" "Min (coal all t) \<in> coal all t"
    using Min_in[OF finite_coal] coal_refl by blast+
  then show "t \<in> coal all s"
    using eq coal_sym[OF assms(2)] coal_trans by metis
qed (metis coal_eq assms(1))

end

section \<open>Well-formed registries\<close>

lemma sortedPair_sym: "sortedPair a b = sortedPair b a"
  by (auto simp: sortedPair_def)

lemma sortedPair_less: "a \<noteq> b \<Longrightarrow> sortedPair a b = (x, y) \<Longrightarrow> x < y \<and> {x, y} = {a, b}"
  by (auto simp: sortedPair_def split: if_splits)

lemma sortedPair_eq: "sortedPair a b = sortedPair c d \<longleftrightarrow> {a, b} = {c, d}"
  by (auto simp: sortedPair_def doubleton_eq_iff)

text \<open>A treaty is stored under its own sorted pair of distinct slots and names a proposer exactly
  when an offer is pending, who is one of the two; a pact is stored under its own key and joins two
  slots.\<close>

definition treaty_ok :: "pair_key \<Rightarrow> treaty \<Rightarrow> bool" where
  "treaty_ok k t \<longleftrightarrow> k = (tr_SlotA t, tr_SlotB t) \<and> tr_SlotA t < tr_SlotB t \<and>
     (if tr_Pending t = PendingNone then tr_PendingFrom t = []
      else tr_PendingFrom t \<in> {tr_SlotA t, tr_SlotB t})"

definition pact_ok :: "pact_key \<Rightarrow> pact \<Rightarrow> bool" where
  "pact_ok k p \<longleftrightarrow> k = (pa_From p, pa_To p, pa_Kind p) \<and> pa_From p \<noteq> pa_To p"

definition reg_ok :: "registry \<Rightarrow> bool" where
  "reg_ok r \<longleftrightarrow> mok (reg_treaties r) \<and> mok (reg_pacts r) \<and>
     (\<forall>(k, t)\<in>set (reg_treaties r). treaty_ok k t) \<and>
     (\<forall>(k, p)\<in>set (reg_pacts r). pact_ok k p)"

lemma Stance_sym: "Stance r a b = Stance r b a"
  by (simp add: Stance_def sortedPair_sym[of a b])

lemma reg_ok_New [simp]: "reg_ok reg_New"
  by (simp add: reg_ok_def reg_New_def)

lemma bump_frame [simp]:
  "reg_treaties (bumpVersion r) = reg_treaties r" "reg_pacts (bumpVersion r) = reg_pacts r"
  "reg_version (bumpVersion r) = reg_version r + 1"
  by (simp_all add: bumpVersion_def)

lemma reg_ok_bumpVersion [simp]: "reg_ok (bumpVersion r) = reg_ok r"
  by (simp add: reg_ok_def)

lemma upsert_frame [frame_simps]:
  "reg_pacts (upsert r a b st pend from now cf) = reg_pacts r"
  "reg_version (upsert r a b st pend from now cf) = reg_version r + 1"
  by (simp_all add: upsert_def Let_def bumpVersion_def split: prod.splits)

text \<open>An upsert writes one treaty, under the sorted pair.\<close>

lemma upsert_cases:
  obtains t where
    "reg_treaties (upsert r a b st pend from now cf) = mput (sortedPair a b) t (reg_treaties r)"
    "tr_Stance t = st" "tr_Pending t = pend" "tr_PendingFrom t = from" "tr_ChangedAt t = now"
    "reg_ok r \<Longrightarrow> (tr_SlotA t, tr_SlotB t) = sortedPair a b"
proof -
  obtain x y where xy: "sortedPair a b = (x, y)" by fastforce
  show thesis
  proof (cases "map_of (reg_treaties r) (x, y)")
    case None
    then show ?thesis by (intro that) (simp_all add: upsert_def xy, simp_all)
  next
    case (Some u)
    have "treaty_ok (x, y) u" if "reg_ok r"
      using that Some by (auto simp: reg_ok_def dest: map_of_SomeD)
    then show ?thesis
      using Some
      by (intro that[of "u\<lparr>tr_Stance := st, tr_Pending := pend, tr_PendingFrom := from, tr_ChangedAt := now,
             tr_LastChangeFrom := (if cf \<noteq> [] then cf else tr_LastChangeFrom u)\<rparr>"])
        (simp_all add: upsert_def xy treaty_ok_def)
  qed
qed

lemma upsert_other: "{c, d} \<noteq> {a, b} \<Longrightarrow>
   map_of (reg_treaties (upsert r a b st pend from now cf)) (sortedPair c d) = map_of (reg_treaties r) (sortedPair c d)"
  by (rule upsert_cases[of r a b st pend "from" now cf]) (simp add: sortedPair_eq)

lemma Stance_upsert: "a \<noteq> b \<Longrightarrow>
   Stance (upsert r a b st pend from now cf) c d = (if {c, d} = {a, b} then st else Stance r c d)"
proof (cases "{c, d} = {a, b}")
  case True
  assume "a \<noteq> b"
  then have "c \<noteq> d" using True by (metis doubleton_eq_iff)
  moreover have "sortedPair c d = sortedPair a b" using True by (simp only: sortedPair_eq)
  ultimately show ?thesis
    using True by (cases rule: upsert_cases[of r a b st pend "from" now cf]) (simp add: Stance_def)
qed (simp add: Stance_def upsert_other)

lemma reg_ok_upsert [wf_intros]:
  assumes "reg_ok r" "a \<noteq> b" "if pend = PendingNone then from = [] else from \<in> {a, b}"
  shows "reg_ok (upsert r a b st pend from now cf)"
proof -
  let ?r = "upsert r a b st pend from now cf"
  obtain t where tr: "reg_treaties ?r = mput (sortedPair a b) t (reg_treaties r)"
    and t: "tr_Pending t = pend" "tr_PendingFrom t = from" "(tr_SlotA t, tr_SlotB t) = sortedPair a b"
    by (rule upsert_cases[of r a b st pend "from" now cf]) (use assms(1) in blast)
  have "treaty_ok (sortedPair a b) t"
    using sortedPair_less[OF assms(2) t(3)[symmetric]] assms(3)
    unfolding treaty_ok_def t(1,2) t(3)[symmetric] by (auto split: if_splits)
  then show ?thesis
    using assms(1) unfolding reg_ok_def tr upsert_frame
    by (auto dest!: subsetD[OF set_mput_subset])
qed

lemma revoke_frame [frame_simps]: "reg_treaties (revokeAllBetween r a b) = reg_treaties r"
  by (simp add: revokeAllBetween_def bumpVersion_def Let_def)

lemma revoke_pacts: "reg_pacts (revokeAllBetween r a b) = filter (\<lambda>(k, _). \<not> between a b k) (reg_pacts r)"
  by (simp add: revokeAllBetween_def bumpVersion_def Let_def)

lemma revoke_version: "reg_version (revokeAllBetween r a b) \<in> {reg_version r, reg_version r + 1}"
  by (simp add: revokeAllBetween_def bumpVersion_def Let_def)

lemma map_of_filter_keys: "map_of (filter (\<lambda>(k, _). P k) m) k = (if P k then map_of m k else None)"
  by (induction m) auto

lemma reg_ok_revoke [wf_intros]: "reg_ok r \<Longrightarrow> reg_ok (revokeAllBetween r a b)"
  by (auto simp: reg_ok_def revoke_pacts revoke_frame distinct_map_filter)

lemma Stance_revoke [simp]: "Stance (revokeAllBetween r a b) c d = Stance r c d"
  by (simp add: Stance_def revoke_frame)

lemma Stance_bumpVersion [simp]: "Stance (bumpVersion r) c d = Stance r c d"
  by (simp add: Stance_def bumpVersion_def)

interpretation dip: alliance_graph "\<lambda>a b. Stance r a b = Alliance" for r
  by unfold_locales (simp add: Stance_sym)

lemma set_Coalition: "set (Coalition r s all) = reach_coalition (\<lambda>a b. Stance r a b = Alliance) all s"
  by (simp add: Coalition_def dip.loop_coal)

lemma CoalitionID_Min: "CoalitionID r s all = Min (set (Coalition r s all))"
  using dip.coal_refl[of s r all] by (simp add: CoalitionID_def foldl_leader set_Coalition insert_absorb)

lemma CoalitionID_in: "CoalitionID r s all \<in> insert s (set all)"
  using Min_in[OF dip.finite_coal] dip.coal_refl dip.coal_subset
  by (metis CoalitionID_Min set_Coalition empty_iff subsetD)

lemma CoalitionID_eq_iff:
  "s \<in> set all \<Longrightarrow> t \<in> set all \<Longrightarrow> CoalitionID r s all = CoalitionID r t all \<longleftrightarrow> t \<in> set (Coalition r s all)"
  by (simp add: CoalitionID_Min set_Coalition dip.leader_iff)

lemma Coalition_self [simp]: "s \<in> set (Coalition r s all)"
  by (simp add: set_Coalition dip.coal_refl)

section \<open>Every registry the operations reach\<close>

datatype reg_op =
    OpDeclareWar slot slot time
  | OpProposePeace slot slot time
  | OpProposeAlliance slot slot time
  | OpAcceptPeace slot slot time
  | OpAcceptAlliance slot slot time
  | OpGrantPact slot slot pact_kind time
  | OpRevokePact slot slot pact_kind

primrec reg_apply :: "reg_op \<Rightarrow> registry \<Rightarrow> registry \<times> dipl_error option" where
  "reg_apply (OpDeclareWar a b now) r = DeclareWar r a b now"
| "reg_apply (OpProposePeace a b now) r = ProposePeace r a b now"
| "reg_apply (OpProposeAlliance a b now) r = ProposeAlliance r a b now"
| "reg_apply (OpAcceptPeace a b now) r = AcceptPeace r a b now"
| "reg_apply (OpAcceptAlliance a b now) r = AcceptAlliance r a b now"
| "reg_apply (OpGrantPact a b k now) r = GrantPact r a b k now"
| "reg_apply (OpRevokePact a b k) r = RevokePact r a b k"

inductive reg_reachable :: "registry \<Rightarrow> bool" where
  reg_init: "reg_reachable reg_New"
| reg_step: "reg_reachable r \<Longrightarrow> reg_reachable (fst (reg_apply op r))"

lemma reg_ok_GrantPact [wf_intros]: "reg_ok r \<Longrightarrow> reg_ok (fst (GrantPact r a b k now))"
  by (auto simp: GrantPact_def reg_ok_def pact_ok_def dest!: subsetD[OF set_mput_subset])

lemma reg_ok_RevokePact [wf_intros]: "reg_ok r \<Longrightarrow> reg_ok (fst (RevokePact r a b k))"
  by (auto simp: RevokePact_def reg_ok_def dest!: subsetD[OF set_mdel_subset])

lemma reg_ok_DeclareWar [wf_intros]: "reg_ok r \<Longrightarrow> reg_ok (fst (DeclareWar r a b now))"
  by (auto simp: DeclareWar_def Let_def intro!: reg_ok_revoke reg_ok_upsert)

lemma reg_ok_propose [wf_intros]: "kind \<noteq> PendingNone \<Longrightarrow> reg_ok r \<Longrightarrow> reg_ok (fst (propose r a b kind now))"
  by (auto simp: propose_def Let_def intro!: reg_ok_upsert)

lemma Treaty_distinct: "Treaty r a b = Some t \<Longrightarrow> a \<noteq> b \<and> map_of (reg_treaties r) (sortedPair a b) = Some t"
  by (auto simp: Treaty_def split: if_splits)

lemma reg_ok_accept [wf_intros]: "reg_ok r \<Longrightarrow> reg_ok (fst (accept r a b want becomes now))"
  by (auto simp: accept_def split: option.splits dest!: Treaty_distinct intro!: reg_ok_upsert)

lemma reg_ok_apply [wf_intros]: "reg_ok r \<Longrightarrow> reg_ok (fst (reg_apply op r))"
  by (cases op) (simp_all add: ProposePeace_def ProposeAlliance_def AcceptPeace_def AcceptAlliance_def wf_intros)

lemma reachable_reg_ok: "reg_reachable r \<Longrightarrow> reg_ok r"
  by (induction rule: reg_reachable.induct) (simp_all add: wf_intros)

text \<open>An operation that fails changes nothing; one that succeeds changes the version (by one, two or
  three).\<close>

lemma reg_error_unchanged: "reg_apply op r = (r', Some e) \<Longrightarrow> r' = r"
  by (cases op)
     (auto simp: DeclareWar_def ProposePeace_def ProposeAlliance_def AcceptPeace_def AcceptAlliance_def
        GrantPact_def RevokePact_def propose_def accept_def Let_def split: if_splits option.splits)

lemma reg_success_bumps:
  assumes "reg_apply op r = (r', None)"
  shows "reg_version r' \<in> {reg_version r + 1, reg_version r + 2, reg_version r + 3}"
proof (cases op)
  case (OpDeclareWar a b now)
  have "reg_version (revokeAllBetween q a b) \<in> {reg_version q, reg_version q + 1}" for q
    by (rule revoke_version)
  from this[of "upsert r a b War PendingNone [] now a"] show ?thesis
    using assms OpDeclareWar
    by (auto simp: DeclareWar_def Let_def upsert_frame split: if_splits option.splits)
qed (use assms in \<open>auto simp: ProposePeace_def ProposeAlliance_def AcceptPeace_def AcceptAlliance_def
        GrantPact_def RevokePact_def propose_def accept_def Let_def upsert_frame split: if_splits option.splits\<close>)

lemma reg_success_version_differs: "reg_apply op r = (r', None) \<Longrightarrow> reg_version r' \<noteq> reg_version r"
  using reg_success_bumps[of op r r'] by auto

text \<open>What each operation does when it succeeds.\<close>

lemma DeclareWar_success:
  assumes "DeclareWar r a b now = (r', None)"
  shows "a \<noteq> b" "Stance r a b \<noteq> War"
    "r' = bumpVersion (revokeAllBetween (upsert r a b War PendingNone [] now a) a b)"
  using assms by (auto simp: DeclareWar_def Let_def split: if_splits option.splits)

lemma Stance_eq_currentStance: "a \<noteq> b \<Longrightarrow> Stance r a b = currentStance (map_of (reg_treaties r) (sortedPair a b))"
  by (simp add: Stance_def currentStance_def)

lemma propose_success:
  assumes "propose r a b kind now = (r', None)"
  shows "a \<noteq> b" "r' = upsert r a b (Stance r a b) kind a now []"
    "\<And>t. Treaty r a b = Some t \<Longrightarrow> tr_Stance t \<noteq> requestedStance kind \<and> CooldownBetweenChanges \<le> time_sub now (tr_ChangedAt t)"
  using assms by (auto simp: propose_def Let_def Treaty_def Stance_eq_currentStance split: if_splits option.splits)

lemma accept_success:
  assumes "accept r a b want becomes now = (r', None)"
  shows "a \<noteq> b" "r' = upsert r a b becomes PendingNone [] now a"
    "\<exists>t. Treaty r a b = Some t \<and> tr_Pending t = want \<and> tr_PendingFrom t = b"
  using assms by (auto simp: accept_def Treaty_def split: if_splits option.splits)

lemma Stance_GrantPact [simp]: "Stance (fst (GrantPact r a b k now)) c d = Stance r c d"
  by (simp add: GrantPact_def Stance_def)

lemma Stance_RevokePact [simp]: "Stance (fst (RevokePact r a b k)) c d = Stance r c d"
  by (simp add: RevokePact_def Stance_def)

section \<open>Correctness of the diplomacy registry\<close>


definition sample_offer :: registry where
  "sample_offer = fst (reg_apply (OpProposePeace ''red'' ''blue'' 0) reg_New)"

definition sample_peace :: registry where
  "sample_peace = fst (reg_apply (OpAcceptPeace ''blue'' ''red'' Minute) sample_offer)"

lemma sample_offer_reachable: "reg_reachable sample_offer"
  unfolding sample_offer_def by (intro reg_step reg_init)


text \<open>
  Declaring war succeeds exactly when the two slots differ, are not already at war, and their
  last diplomatic change is at least an hour of game time ago. It then puts the pair at war with no
  offer pending and every pact between them revoked in both directions, and changes no other stance,
  treaty or pact; a failing declaration changes nothing.
\<close>

theorem declare_war_effect:
  assumes "DeclareWar r a b now = (r', err)"
  shows "(err = None \<longleftrightarrow> a \<noteq> b \<and> Stance r a b \<noteq> War \<and>
            (\<forall>t. Treaty r a b = Some t \<longrightarrow> Hour \<le> time_sub now (tr_ChangedAt t)))
    \<and> (err \<noteq> None \<longrightarrow> r' = r)
    \<and> (err = None \<longrightarrow> Stance r' a b = War
        \<and> (\<exists>t. Treaty r' a b = Some t \<and> tr_Pending t = PendingNone \<and> tr_PendingFrom t = [] \<and> tr_ChangedAt t = now)
        \<and> (\<forall>c d k. c \<noteq> d \<longrightarrow> HasPact r' c d k = (HasPact r c d k \<and> {c, d} \<noteq> {a, b}))
        \<and> (\<forall>c d. {c, d} \<noteq> {a, b} \<longrightarrow> Stance r' c d = Stance r c d \<and> Treaty r' c d = Treaty r c d))"
proof (intro conjI impI)
  show "err = None \<longleftrightarrow> a \<noteq> b \<and> Stance r a b \<noteq> War \<and>
            (\<forall>t. Treaty r a b = Some t \<longrightarrow> Hour \<le> time_sub now (tr_ChangedAt t))"
    using assms by (auto simp: DeclareWar_def Let_def CooldownBetweenChanges_def split: if_splits option.splits)
  show "r' = r" if "err \<noteq> None"
    using that assms by (auto simp: DeclareWar_def Let_def split: if_splits)
next
  assume "err = None"
  note w = DeclareWar_success[OF assms[unfolded this]]
  let ?u = "upsert r a b War PendingNone [] now a"
  have tr: "reg_treaties r' = reg_treaties ?u" by (simp add: w(3) revoke_frame)
  show "Stance r' a b = War" by (simp add: w(3) Stance_upsert[OF w(1)])
  show "\<exists>t. Treaty r' a b = Some t \<and> tr_Pending t = PendingNone \<and> tr_PendingFrom t = [] \<and> tr_ChangedAt t = now"
    by (rule upsert_cases[of r a b War PendingNone "[]" now a]) (simp add: Treaty_def tr w(1))
  show "\<forall>c d k. c \<noteq> d \<longrightarrow> HasPact r' c d k = (HasPact r c d k \<and> {c, d} \<noteq> {a, b})"
    by (auto simp: HasPact_def w(3) revoke_pacts map_of_filter_keys upsert_frame between_def doubleton_eq_iff)
  show "\<forall>c d. {c, d} \<noteq> {a, b} \<longrightarrow> Stance r' c d = Stance r c d \<and> Treaty r' c d = Treaty r c d"
    by (simp add: Stance_def Treaty_def tr upsert_other)
qed

theorem declare_war_effect_witness:
  "Stance (fst (DeclareWar sample_peace ''red'' ''blue'' (2 * Hour))) ''red'' ''blue'' = War"
proof -
  have "snd (DeclareWar sample_peace ''red'' ''blue'' (2 * Hour)) = None" by code_simp
  then show ?thesis
    using declare_war_effect[of sample_peace "''red''" "''blue''" "2 * Hour"] by (metis prod.collapse)
qed

text \<open>
  C4. The coalition of a slot is the set of slots reachable from it along alliances (the transitive
  closure the depth-first search computes, which always terminates), and the coalition identifier, its
  alphabetically smallest member, names it: two slots of the match have the same identifier exactly
  when each is in the other's coalition.
\<close>

theorem coalition_is_alliance_closure:
  assumes "s \<in> set all" "t \<in> set all"
  shows "set (Coalition r s all) = {x. (s, x) \<in> {(c, d). Stance r c d = Alliance \<and> d \<in> set all}\<^sup>*}
    \<and> CoalitionID r s all = Min (set (Coalition r s all))
    \<and> CoalitionID r s all \<in> set all
    \<and> (CoalitionID r s all = CoalitionID r t all) = (t \<in> set (Coalition r s all))
    \<and> (t \<in> set (Coalition r s all)) = (s \<in> set (Coalition r t all))"
  using CoalitionID_eq_iff[OF assms, of r] CoalitionID_eq_iff[OF assms(2,1), of r] CoalitionID_in[of r s all] assms(1)
  by (auto simp: set_Coalition reach_coalition_def alliance_edges_def CoalitionID_Min insert_absorb)

theorem coalition_is_alliance_closure_witness:
  "(CoalitionID sample_peace ''red'' [''red'', ''blue''] = CoalitionID sample_peace ''blue'' [''red'', ''blue''])
     = (''blue'' \<in> set (Coalition sample_peace ''red'' [''red'', ''blue'']))"
proof -
  have "''red'' \<in> set [''red'', ''blue'']" "''blue'' \<in> set [''red'', ''blue'']" by simp_all
  from coalition_is_alliance_closure[OF this, of sample_peace] show ?thesis by blast
qed

definition reg_run :: "reg_op list \<Rightarrow> registry \<Rightarrow> registry" where
  "reg_run ops r = foldl (\<lambda>r op. fst (reg_apply op r)) r ops"

lemma reg_run_version:
  "\<exists>n. n \<le> 3 * length ops \<and> reg_version (reg_run ops r) = reg_version r + of_nat n \<and> (n = 0 \<longrightarrow> reg_run ops r = r)"
proof (induction ops arbitrary: r)
  case Nil
  show ?case by (simp add: reg_run_def)
next
  case (Cons op ops)
  obtain r1 err where s: "reg_apply op r = (r1, err)" by fastforce
  obtain m where m: "m \<le> 3" "reg_version r1 = reg_version r + of_nat m" "m = 0 \<longrightarrow> r1 = r"
  proof (cases err)
    case None
    with reg_success_bumps[of op r r1] s that[of 1] that[of 2] that[of 3] show ?thesis by auto
  next
    case (Some e)
    with reg_error_unchanged[of op r r1] s that[of 0] show ?thesis by simp
  qed
  obtain n where "n \<le> 3 * length ops" "reg_version (reg_run ops r1) = reg_version r1 + of_nat n" "n = 0 \<longrightarrow> reg_run ops r1 = r1"
    using Cons.IH by blast
  moreover have "reg_run (op # ops) r = reg_run ops r1" by (simp add: reg_run_def s)
  ultimately show ?case using m by (intro exI[of _ "m + n"]) (auto simp: add.assoc)
qed

lemma reg_run_same_version:
  assumes "length ops < 2 ^ 62" "reg_version (reg_run ops r) = reg_version r"
  shows "reg_run ops r = r"
proof -
  obtain n where n: "n \<le> 3 * length ops" "reg_version (reg_run ops r) = reg_version r + of_nat n"
    "n = 0 \<longrightarrow> reg_run ops r = r"
    using reg_run_version by blast
  have "n < 2 ^ 64" using n(1) assms(1) by simp
  have "(of_nat n :: 64 word) = 0" using n(2) assms(2) by simp
  then have "2 ^ 64 dvd n" by (simp add: word_of_nat_eq_0_iff)
  with \<open>n < 2 ^ 64\<close> have "n = 0" using nat_dvd_not_less by blast
  then show ?thesis using n(3) by simp
qed

text \<open>
  C5. The version is a sound cache key: over any sequence of fewer than \<open>2^62\<close> operations, whichever
  of them fail, a registry whose version is the one it started with is the registry it started with,
  although the 64-bit counter wraps around.
\<close>

theorem version_is_sound_cache_key:
  assumes "length ops < 2 ^ 62" "reg_version (reg_run ops r) = reg_version r"
  shows "reg_run ops r = r"
  by (rule reg_run_same_version[OF assms])

theorem version_is_sound_cache_key_witness:
  "reg_run [OpDeclareWar ''red'' ''blue'' 0, OpRevokePact ''red'' ''blue'' ShareMap] sample_peace = sample_peace"
  by (rule version_is_sound_cache_key) (simp, code_simp)

end
