(* ===== verification/Pathdom.thy ===== *)
theory Pathdom
  imports GoHeap MapDef Diplomacy
begin

text \<open>
  \<open>internal/domain/pathdom\<close>: the movement graph of a map (\<open>graph.go\<close>), snapping a click to a
  node or an edge (\<open>snap.go\<close>), A* routes (\<open>route.go\<close>) and the diplomatic checks on legs
  (\<open>diplomacy.go\<close>). \<open>math.Hypot\<close> is the exact real distance. The A* frontier holds node
  names; the field \<open>index\<close> of a node, its position on the heap or -1, is computed from the
  frontier.
\<close>

section \<open>graph.go\<close>

definition NodeSnapRadius :: real where "NodeSnapRadius = 24"
definition EdgeSnapMaxDist :: real where "EdgeSnapMaxDist = 20"
definition MaxFloat64 :: real where "MaxFloat64 = 2 ^ 1024 - 2 ^ 971"

definition hypot :: "real \<Rightarrow> real \<Rightarrow> real" where
  "hypot x y = sqrt (x\<^sup>2 + y\<^sup>2)"

type_synonym vec2 = "real \<times> real"

record edge_seg =
  seg_from :: province_id
  seg_to :: province_id
  seg_ax :: real
  seg_ay :: real
  seg_bx :: real
  seg_by :: real

record graph =
  gr_m :: game_map
  gr_coords :: "(province_id, vec2) gomap"
  gr_edges :: "edge_seg list"

definition NewGraph :: "game_map \<Rightarrow> graph" where
  "NewGraph m =
     (let coords = foldl (\<lambda>cs p. mput (mp_ID p) (mp_X p, mp_Y p) cs) [] (map_Provinces m);
          edges = foldl (\<lambda>es e.
            case (map_of coords (me_From e), map_of coords (me_To e)) of
              (Some (ax, ay), Some (bx, by)) \<Rightarrow>
                es @ [\<lparr>seg_from = me_From e, seg_to = me_To e, seg_ax = ax, seg_ay = ay, seg_bx = bx, seg_by = by\<rparr>]
            | _ \<Rightarrow> es) [] (map_Edges m)
      in \<lparr>gr_m = m, gr_coords = coords, gr_edges = edges\<rparr>)"

definition coord :: "graph \<Rightarrow> province_id \<Rightarrow> vec2" where
  "coord g pid = mget_default (0, 0) (gr_coords g) pid"

definition gdist :: "graph \<Rightarrow> province_id \<Rightarrow> province_id \<Rightarrow> real" where
  "gdist g a b =
     (case (map_of (gr_coords g) a, map_of (gr_coords g) b) of
        (Some (ax, ay), Some (bx, by)) \<Rightarrow> hypot (ax - bx) (ay - by)
      | _ \<Rightarrow> MaxFloat64)"

section \<open>snap.go\<close>

datatype target_kind = TargetNode | TargetEdge

record target =
  tg_Kind :: target_kind
  tg_Province :: province_id
  tg_EdgeFrom :: province_id
  tg_EdgeTo :: province_id
  tg_X :: real
  tg_Y :: real
  tg_T :: real

definition projectSegment :: "real \<Rightarrow> real \<Rightarrow> real \<Rightarrow> real \<Rightarrow> real \<Rightarrow> real \<Rightarrow> real \<times> real \<times> real \<times> real" where
  "projectSegment px py ax ay bx by =
     (let dx = bx - ax; dy = by - ay; len2 = dx * dx + dy * dy in
      if len2 = 0 then (ax, ay, 0, hypot (px - ax) (py - ay))
      else
        let t0 = ((px - ax) * dx + (py - ay) * dy) / len2;
            t = (if t0 < 0 then 0 else if t0 > 1 then 1 else t0);
            x = ax + t * dx; y = ay + t * dy
        in (x, y, t, hypot (px - x) (py - y)))"

definition nearestProvinceID :: "runtime \<Rightarrow> graph \<Rightarrow> real \<Rightarrow> real \<Rightarrow> province_id" where
  "nearestProvinceID rt g x y =
     fst (foldl (\<lambda>(best, bestD) (pid, (cx, cy)).
            let d = hypot (x - cx) (y - cy) in
            if d < bestD then (pid, d) else (best, bestD))
          ([], MaxFloat64) (go_range rt (gr_coords g)))"

definition snapNode :: "runtime \<Rightarrow> graph \<Rightarrow> real \<Rightarrow> real \<Rightarrow> province_id \<times> real" where
  "snapNode rt g x y =
     foldl (\<lambda>(bestNode, bestNodeDist) (pid, (cx, cy)).
            let d = hypot (x - cx) (y - cy) in
            if d \<le> NodeSnapRadius \<and> d < bestNodeDist then (pid, d) else (bestNode, bestNodeDist))
          ([], NodeSnapRadius + 1) (go_range rt (gr_coords g))"

text \<open>The best edge with its distance, parameter and point; no edge before the first one within
  reach.\<close>

definition snapEdge :: "graph \<Rightarrow> real \<Rightarrow> real \<Rightarrow> edge_seg option \<times> real \<times> real \<times> real \<times> real" where
  "snapEdge g x y =
     foldl (\<lambda>(best, bestDist, bestT, bestX, bestY) e.
            let (px, py, t, d) = projectSegment x y (seg_ax e) (seg_ay e) (seg_bx e) (seg_by e) in
            if d \<le> EdgeSnapMaxDist \<and> d < bestDist then (Some e, d, t, px, py)
            else (best, bestDist, bestT, bestX, bestY))
          (None, EdgeSnapMaxDist + 1, 0, x, y) (gr_edges g)"

definition SnapTarget :: "runtime \<Rightarrow> graph \<Rightarrow> real \<Rightarrow> real \<Rightarrow> target" where
  "SnapTarget rt g x y =
     (let (bestNode, bestNodeDist) = snapNode (sub rt 0) g x y in
      if bestNode \<noteq> [] then
        let (cx, cy) = coord g bestNode in
        \<lparr>tg_Kind = TargetNode, tg_Province = bestNode, tg_EdgeFrom = [], tg_EdgeTo = [], tg_X = cx, tg_Y = cy, tg_T = 0\<rparr>
      else
        let (best, bestDist, bestT, bestX, bestY) = snapEdge g x y in
        if bestDist \<le> EdgeSnapMaxDist then
          \<lparr>tg_Kind = TargetEdge, tg_Province = [],
           tg_EdgeFrom = (case best of None \<Rightarrow> [] | Some e \<Rightarrow> seg_from e),
           tg_EdgeTo = (case best of None \<Rightarrow> [] | Some e \<Rightarrow> seg_to e),
           tg_X = bestX, tg_Y = bestY, tg_T = bestT\<rparr>
        else
          let near = nearestProvinceID (sub rt 1) g x y; (cx, cy) = coord g near in
          \<lparr>tg_Kind = TargetNode, tg_Province = near, tg_EdgeFrom = [], tg_EdgeTo = [], tg_X = cx, tg_Y = cy, tg_T = 0\<rparr>)"

section \<open>route.go: A*\<close>

record leg =
  lg_FromProv :: province_id
  lg_ToProv :: province_id
  lg_FromX :: real
  lg_FromY :: real
  lg_ToX :: real
  lg_ToY :: real

datatype route_error = ErrNoRoute

record node =
  nd_f :: real
  nd_g :: real
  nd_parent :: province_id
  nd_closed :: bool

type_synonym nodes = "(province_id, node) gomap"

definition node_at :: "nodes \<Rightarrow> province_id \<Rightarrow> node" where
  "node_at nodes pid = mget_default \<lparr>nd_f = 0, nd_g = 0, nd_parent = [], nd_closed = False\<rparr> nodes pid"

definition node_Less :: "nodes \<Rightarrow> province_id \<Rightarrow> province_id \<Rightarrow> bool" where
  "node_Less nodes a b \<longleftrightarrow> nd_f (node_at nodes a) < nd_f (node_at nodes b)"

fun index_of :: "'a \<Rightarrow> 'a list \<Rightarrow> nat" where
  "index_of x [] = 0"
| "index_of x (y # ys) = (if x = y then 0 else Suc (index_of x ys))"

definition astar_relax :: "graph \<Rightarrow> province_id \<Rightarrow> province_id \<Rightarrow> province_id list \<times> nodes \<Rightarrow> province_id \<Rightarrow> province_id list \<times> nodes" where
  "astar_relax g goal cur on nb =
     (case on of (opn, nodes) \<Rightarrow>
       let tentG = nd_g (node_at nodes cur) + gdist g cur nb;
           nodes' = mput nb \<lparr>nd_f = tentG + gdist g nb goal, nd_g = tentG, nd_parent = cur, nd_closed = False\<rparr> nodes
       in case map_of nodes nb of
            None \<Rightarrow> (heap_push (node_Less nodes') nb opn, nodes')
          | Some nn \<Rightarrow>
              if nd_closed nn then (opn, nodes)
              else if tentG \<ge> nd_g nn then (opn, nodes)
              else if nb \<notin> set opn then (heap_push (node_Less nodes') nb opn, nodes')
              else (heap_fix (node_Less nodes') opn (index_of nb opn), nodes'))"

definition close_node :: "province_id \<Rightarrow> nodes \<Rightarrow> nodes" where
  "close_node cur nodes = mput cur ((node_at nodes cur)\<lparr>nd_closed := True\<rparr>) nodes"

definition astar_expand :: "graph \<Rightarrow> province_id \<Rightarrow> province_id \<Rightarrow> province_id list \<Rightarrow> nodes \<Rightarrow> province_id list \<times> nodes" where
  "astar_expand g goal cur opn nodes = foldl (astar_relax g goal cur) (opn, nodes) (Neighbors (gr_m g) cur)"

definition closed_set :: "nodes \<Rightarrow> province_id set" where
  "closed_set nodes = {i. \<exists>n. map_of nodes i = Some n \<and> nd_closed n}"

definition edge_ends :: "game_map \<Rightarrow> province_id set" where
  "edge_ends m = me_From ` set (map_Edges m) \<union> me_To ` set (map_Edges m)"

lemma finite_edge_ends [simp]: "finite (edge_ends m)"
  by (simp add: edge_ends_def)

lemma Neighbors_edge_ends: "set (Neighbors m pid) \<subseteq> edge_ends m"
  by (auto simp: set_Neighbors HasEdge_def edge_ends_def)

lemma index_of_less: "x \<in> set xs \<Longrightarrow> index_of x xs < length xs \<and> xs ! index_of x xs = x"
  by (induction xs) auto

lemma astar_relax_sets:
  assumes "astar_relax g goal cur (opn, nodes) nb = (opn', nodes')"
  shows "set opn' \<subseteq> insert nb (set opn)" "closed_set nodes' = closed_set nodes" "mok nodes \<Longrightarrow> mok nodes'"
  using assms index_of_less[of nb opn]
  by (auto simp: astar_relax_def Let_def set_heap_push set_heap_fix closed_set_def split: option.splits if_splits)

lemma astar_relaxes_sets:
  "foldl (astar_relax g goal cur) (opn, nodes) nbs = (opn', nodes') \<Longrightarrow>
     set opn' \<subseteq> set nbs \<union> set opn \<and> closed_set nodes' = closed_set nodes \<and> (mok nodes \<longrightarrow> mok nodes')"
proof (induction nbs arbitrary: opn nodes)
  case (Cons nb nbs)
  obtain o1 n1 where s: "astar_relax g goal cur (opn, nodes) nb = (o1, n1)" by fastforce
  then show ?case using Cons.IH[of o1 n1] Cons.prems astar_relax_sets[OF s] by auto
qed simp

lemma closed_set_close: "closed_set (close_node cur nodes) = insert cur (closed_set nodes)"
  by (auto simp: closed_set_def close_node_def)

function astar_loop :: "graph \<Rightarrow> province_id \<Rightarrow> province_id list \<Rightarrow> nodes \<Rightarrow> nodes option" where
  "astar_loop g goal opn nodes =
     (if opn = [] then None
      else
        let (cur, opn1) = heap_pop (node_Less nodes) opn in
        if nd_closed (node_at nodes cur) then astar_loop g goal opn1 nodes
        else
          let nodes1 = close_node cur nodes in
          if cur = goal then Some nodes1
          else
            let (opn2, nodes2) = astar_expand g goal cur opn1 nodes1
            in astar_loop g goal opn2 nodes2)"
  by pat_completeness auto
termination
proof (relation "measures [\<lambda>(g, _, opn, nodes). card ((edge_ends (gr_m g) \<union> set opn) - closed_set nodes),
                           \<lambda>(_, _, opn, _). length opn]", goal_cases)
  case (2 g goal opn nodes x cur opn1)
  then have p: "heap_pop (node_Less nodes) opn = (cur, opn1)" "opn \<noteq> []" by simp_all
  have "set opn1 \<subseteq> set opn" "length opn1 < length opn"
    using set_heap_pop[OF p(2,1)] length_heap_pop[OF p(2,1)] by auto
  then show ?case
    using card_mono[of "(edge_ends (gr_m g) \<union> set opn) - closed_set nodes" "(edge_ends (gr_m g) \<union> set opn1) - closed_set nodes"]
    by (auto simp: less_le)
next
  case (3 g goal opn nodes x cur opn1 nodes1 y opn2 nodes2)
  then have p: "heap_pop (node_Less nodes) opn = (cur, opn1)" "opn \<noteq> []"
    and e: "foldl (astar_relax g goal cur) (opn1, nodes1) (Neighbors (gr_m g) cur) = (opn2, nodes2)"
    by (simp_all add: astar_expand_def)
  have cur: "cur \<in> set opn" "cur \<notin> closed_set nodes"
    using set_heap_pop[OF p(2,1)] 3 by (auto simp: closed_set_def node_at_def mget_default_def)
  have "(edge_ends (gr_m g) \<union> set opn2) - closed_set nodes2
        \<subset> (edge_ends (gr_m g) \<union> set opn) - closed_set nodes"
    using astar_relaxes_sets[OF e] set_heap_pop[OF p(2,1)] Neighbors_edge_ends[of "gr_m g" cur] cur 3
    by (auto simp: closed_set_close)
  then have "card ((edge_ends (gr_m g) \<union> set opn2) - closed_set nodes2)
        < card ((edge_ends (gr_m g) \<union> set opn) - closed_set nodes)"
    by (intro psubset_card_mono) auto
  then show ?case by simp
qed simp

declare astar_loop.simps [simp del]

text \<open>\<open>reconstruct\<close> follows parents until it reaches a node without one; nothing in its code
  bounds the walk. \<open>reconstruct_walk\<close> is the unbounded loop, \<open>reconstruct_from\<close> the same loop
  cut after as many steps as there are nodes, which A* never exceeds (\<open>astar_correct\<close>).\<close>

partial_function (option) reconstruct_walk :: "nodes \<Rightarrow> province_id \<Rightarrow> province_id list \<Rightarrow> province_id list option" where
  "reconstruct_walk nodes cur out =
     (case map_of nodes cur of
        None \<Rightarrow> Some out
      | Some n \<Rightarrow>
          if nd_parent n = [] then Some out
          else reconstruct_walk nodes (nd_parent n) (nd_parent n # out))"

fun reconstruct_from :: "nat \<Rightarrow> nodes \<Rightarrow> province_id \<Rightarrow> province_id list \<Rightarrow> province_id list" where
  "reconstruct_from 0 nodes cur out = out"
| "reconstruct_from (Suc fuel) nodes cur out =
     (case map_of nodes cur of
        None \<Rightarrow> out
      | Some n \<Rightarrow>
          if nd_parent n = [] then out
          else reconstruct_from fuel nodes (nd_parent n) (nd_parent n # out))"

definition reconstruct :: "nodes \<Rightarrow> province_id \<Rightarrow> province_id list" where
  "reconstruct nodes goal = reconstruct_from (length nodes) nodes goal [goal]"

definition astar_start :: "graph \<Rightarrow> province_id \<Rightarrow> province_id \<Rightarrow> nodes" where
  "astar_start g start goal =
     [(start, \<lparr>nd_f = gdist g start goal, nd_g = 0, nd_parent = [], nd_closed = False\<rparr>)]"

definition astar_search :: "graph \<Rightarrow> province_id \<Rightarrow> province_id \<Rightarrow> nodes option" where
  "astar_search g start goal =
     (let nodes = astar_start g start goal in
      astar_loop g goal (heap_push (node_Less nodes) start []) nodes)"

definition astar :: "graph \<Rightarrow> province_id \<Rightarrow> province_id \<Rightarrow> province_id list option" where
  "astar g start goal = map_option (\<lambda>nodes. reconstruct nodes goal) (astar_search g start goal)"

section \<open>route.go: routes\<close>

definition resolveStartOnEdge :: "runtime \<Rightarrow> graph \<Rightarrow> real \<Rightarrow> real \<Rightarrow> province_id \<Rightarrow> province_id \<Rightarrow> province_id" where
  "resolveStartOnEdge rt g x y edgeFrom edgeTo =
     (if edgeFrom = [] \<or> edgeTo = [] \<or> edgeFrom = edgeTo then nearestProvinceID rt g x y
      else case (map_of (gr_coords g) edgeFrom, map_of (gr_coords g) edgeTo) of
             (Some (ax, ay), Some (bx, by)) \<Rightarrow>
               if hypot (x - ax) (y - ay) \<le> hypot (x - bx) (y - by) then edgeFrom else edgeTo
           | _ \<Rightarrow> nearestProvinceID rt g x y)"

definition goalProvince :: "target \<Rightarrow> province_id" where
  "goalProvince t =
     (if tg_Kind t = TargetNode then tg_Province t
      else if tg_T t \<le> 1 / 2 then tg_EdgeFrom t
      else tg_EdgeTo t)"

text \<open>The loop over the provinces after the first: the legs, the current point and province.\<close>

fun route_legs :: "graph \<Rightarrow> real \<Rightarrow> real \<Rightarrow> province_id \<Rightarrow> province_id list \<Rightarrow> leg list \<times> real \<times> real \<times> province_id" where
  "route_legs g curX curY curProv [] = ([], curX, curY, curProv)"
| "route_legs g curX curY curProv (next # via) =
     (let (cx, cy) = coord g next;
          l = \<lparr>lg_FromProv = curProv, lg_ToProv = next, lg_FromX = curX, lg_FromY = curY, lg_ToX = cx, lg_ToY = cy\<rparr>;
          (legs, x, y, p) = route_legs g cx cy next via
      in (l # legs, x, y, p))"

definition routeFromProvince :: "graph \<Rightarrow> real \<Rightarrow> real \<Rightarrow> province_id \<Rightarrow> target \<Rightarrow> route_error + leg list" where
  "routeFromProvince g fromX fromY startProv tgt =
     (let goalProv = goalProvince tgt in
      if startProv = [] \<or> goalProv = [] then Inl ErrNoRoute
      else
        case (if startProv \<noteq> goalProv then astar g startProv goalProv else Some [startProv]) of
          None \<Rightarrow> Inl ErrNoRoute
        | Some via \<Rightarrow>
            let (legs, curX, curY, curProv) = route_legs g fromX fromY startProv (tl via);
                tx = tg_X tgt; ty = tg_Y tgt;
                legs1 = (if legs = [] \<or> lg_ToX (last legs) \<noteq> tx \<or> lg_ToY (last legs) \<noteq> ty
                  then legs @ [\<lparr>lg_FromProv = curProv, lg_ToProv = goalProv, lg_FromX = curX, lg_FromY = curY, lg_ToX = tx, lg_ToY = ty\<rparr>]
                  else legs)
            in Inr (if legs1 = []
                 then [\<lparr>lg_FromProv = startProv, lg_ToProv = goalProv, lg_FromX = fromX, lg_FromY = fromY, lg_ToX = tx, lg_ToY = ty\<rparr>]
                 else legs1))"

definition RouteFromEdge :: "runtime \<Rightarrow> graph \<Rightarrow> real \<Rightarrow> real \<Rightarrow> province_id \<Rightarrow> province_id \<Rightarrow> target \<Rightarrow> route_error + leg list" where
  "RouteFromEdge rt g fromX fromY edgeFrom edgeTo tgt =
     routeFromProvince g fromX fromY (resolveStartOnEdge rt g fromX fromY edgeFrom edgeTo) tgt"

definition Route :: "runtime \<Rightarrow> graph \<Rightarrow> real \<Rightarrow> real \<Rightarrow> target \<Rightarrow> route_error + leg list" where
  "Route rt g fromX fromY tgt = routeFromProvince g fromX fromY (nearestProvinceID rt g fromX fromY) tgt"

definition LegLength :: "leg \<Rightarrow> real" where
  "LegLength l = hypot (lg_ToX l - lg_FromX l) (lg_ToY l - lg_FromY l)"

section \<open>diplomacy.go\<close>

type_synonym province_owners = "(province_id, slot) gomap"

definition owner_of :: "province_owners \<Rightarrow> province_id \<Rightarrow> slot" where
  "owner_of owners pid = mget_default [] owners pid"

definition LegBlocked :: "registry \<Rightarrow> slot \<Rightarrow> province_owners \<Rightarrow> leg \<Rightarrow> bool" where
  "LegBlocked d mover owners l =
     (let owner = owner_of owners (lg_ToProv l) in
      if owner = [] \<or> owner = mover then False
      else if MayMoveThrough d mover owner then False
      else Stance d mover owner \<noteq> War)"

definition HostileLegEnd :: "registry \<Rightarrow> slot \<Rightarrow> province_owners \<Rightarrow> leg \<Rightarrow> bool" where
  "HostileLegEnd d mover owners l =
     (let owner = owner_of owners (lg_ToProv l) in
      if owner = [] \<or> owner = mover then False
      else Stance d mover owner = War)"

definition RouteAttackTerminus :: "registry \<Rightarrow> slot \<Rightarrow> province_owners \<Rightarrow> leg list \<Rightarrow> bool" where
  "RouteAttackTerminus d mover owners legs \<longleftrightarrow> (\<exists>l\<in>set legs. HostileLegEnd d mover owners l)"

definition RouteBlocked :: "registry \<Rightarrow> slot \<Rightarrow> province_owners \<Rightarrow> leg list \<Rightarrow> bool" where
  "RouteBlocked d mover owners legs \<longleftrightarrow> (\<exists>l\<in>set legs. LegBlocked d mover owners l)"

end
