(* ===== verification/Routes.thy ===== *)
theory Routes
  imports Pathdom
begin

text \<open>
  Correctness of \<open>pathdom\<close>: the A* search terminates, and is sound and complete; routes are
  contiguous and end at the target; snapping picks the nearest node or edge point.
\<close>

section \<open>The A* invariant\<close>

text \<open>\<open>closed_ok\<close> holds of the closed nodes, latest first: the start has no parent, every other
  node's parent was closed before it and is adjacent to it.\<close>

fun closed_ok :: "game_map \<Rightarrow> province_id \<Rightarrow> nodes \<Rightarrow> province_id list \<Rightarrow> bool" where
  "closed_ok m start nodes [] = True"
| "closed_ok m start nodes (i # cs) =
     (i \<notin> set cs \<and> (\<exists>n. map_of nodes i = Some n \<and> nd_closed n \<and>
        (if i = start then nd_parent n = [] else nd_parent n \<noteq> [] \<and> nd_parent n \<in> set cs \<and> HasEdge m (nd_parent n) i))
      \<and> closed_ok m start nodes cs)"

text \<open>The open nodes are exactly those seen and not closed; each has a closed, adjacent parent.\<close>

definition open_ok :: "game_map \<Rightarrow> province_id \<Rightarrow> province_id list \<Rightarrow> nodes \<Rightarrow> province_id list \<Rightarrow> bool" where
  "open_ok m start opn nodes cs \<longleftrightarrow>
     mok nodes \<and> distinct opn \<and> set opn = fst ` set nodes - set cs \<and> closed_set nodes = set cs \<and>
     (\<forall>i n. i \<notin> set cs \<longrightarrow> map_of nodes i = Some n \<longrightarrow>
        (if i = start then nd_parent n = [] else nd_parent n \<noteq> [] \<and> nd_parent n \<in> set cs \<and> HasEdge m (nd_parent n) i))"

definition search_ok :: "game_map \<Rightarrow> province_id \<Rightarrow> province_id list \<Rightarrow> nodes \<Rightarrow> province_id list \<Rightarrow> bool" where
  "search_ok m start opn nodes cs \<longleftrightarrow> open_ok m start opn nodes cs \<and> closed_ok m start nodes cs"

lemma closed_set_dom: "closed_set nodes \<subseteq> fst ` set nodes"
  by (auto simp: closed_set_def) (metis map_of_None_keys option.distinct(1))

lemma closed_set_mput:
  "closed_set (mput k n nodes) = (if nd_closed n then insert k (closed_set nodes) else closed_set nodes - {k})"
  by (auto simp: closed_set_def)

lemma HasEdge_ends: "HasEdge m a b \<Longrightarrow> a \<in> edge_ends m \<and> b \<in> edge_ends m"
  by (auto simp: HasEdge_def edge_ends_def)

lemma closed_ok_cong:
  "(\<And>i. i \<in> set cs \<Longrightarrow> map_of nodes' i = map_of nodes i) \<Longrightarrow> closed_ok m start nodes' cs = closed_ok m start nodes cs"
  by (induction cs) auto

lemma distinct_heap_push: "distinct (heap_push lt x h) \<longleftrightarrow> x \<notin> set h \<and> distinct h"
  by (metis distinct.simps(2) mset.simps(2) mset_eq_imp_distinct_iff mset_heap_push)

lemma distinct_heap_fix: "i < length h \<Longrightarrow> distinct (heap_fix lt h i) = distinct h"
  by (meson mset_eq_imp_distinct_iff mset_heap_fix)

lemma relax_dom:
  assumes "astar_relax g goal cur (opn, nodes) nb = (opn', nodes')"
  shows "fst ` set nodes' = insert nb (fst ` set nodes)"
proof (cases "map_of nodes nb")
  case None
  then have "\<exists>x. nodes' = mput nb x nodes" using assms by (auto simp: astar_relax_def Let_def)
  then show ?thesis by (elim exE) simp
next
  case (Some n)
  then have "nb \<in> fst ` set nodes" by (metis map_of_None_keys option.distinct(1))
  then have *: "insert nb (fst ` set nodes) = fst ` set nodes" by (rule insert_absorb)
  have "nodes' = nodes \<or> (\<exists>x. nodes' = mput nb x nodes)"
    using Some assms by (auto simp: astar_relax_def Let_def split: if_splits)
  then show ?thesis using * by (elim disjE exE) simp_all
qed

lemma relax_ok:
  assumes s: "astar_relax g goal cur (opn, nodes) nb = (opn', nodes')"
    and ok: "search_ok (gr_m g) start opn nodes cs"
    and cur: "cur \<in> set cs" "start \<in> set cs" "HasEdge (gr_m g) cur nb" "cur \<noteq> []"
  shows "search_ok (gr_m g) start opn' nodes' cs"
proof (cases "nb \<in> set cs")
  case True
  then have "nb \<in> closed_set nodes" using ok by (simp add: search_ok_def open_ok_def)
  then obtain n where "map_of nodes nb = Some n" "nd_closed n" by (auto simp: closed_set_def)
  then show ?thesis using s ok by (simp add: astar_relax_def Let_def)
next
  case False
  let ?n = "\<lparr>nd_f = nd_g (node_at nodes cur) + gdist g cur nb + gdist g nb goal,
      nd_g = nd_g (node_at nodes cur) + gdist g cur nb, nd_parent = cur, nd_closed = False\<rparr>"
  have nb: "nb \<in> fst ` set nodes \<longleftrightarrow> nb \<in> set opn"
    using ok False by (auto simp: search_ok_def open_ok_def)
  consider "opn' = opn" "nodes' = nodes"
    | "nodes' = mput nb ?n nodes" "distinct opn'" "set opn' = insert nb (set opn)"
  proof (cases "map_of nodes nb")
    case None
    then have "nb \<notin> set opn" using nb by (simp add: map_of_eq_None_iff)
    with None s that(2) ok show ?thesis
      by (auto simp: astar_relax_def Let_def distinct_heap_push set_heap_push search_ok_def open_ok_def)
  next
    case (Some nn)
    then have i: "nb \<in> set opn" using nb by (force dest: map_of_SomeD)
    have "\<not> nd_closed nn" using Some False ok by (auto simp: search_ok_def open_ok_def closed_set_def)
    then have "(opn' = opn \<and> nodes' = nodes) \<or>
        (nodes' = mput nb ?n nodes \<and> opn' = heap_fix (node_Less nodes') opn (index_of nb opn))"
      using Some i s by (auto simp: astar_relax_def Let_def split: if_splits)
    moreover have "distinct opn" "set opn = insert nb (set opn)" using ok i by (auto simp: search_ok_def open_ok_def)
    ultimately show ?thesis
      using that index_of_less[OF i] distinct_heap_fix set_heap_fix by metis
  qed
  then show ?thesis
  proof cases
    case 2
    have "closed_set nodes' = set cs"
      using ok False by (simp add: 2(1) closed_set_mput search_ok_def open_ok_def)
    moreover have "closed_ok (gr_m g) start nodes' cs = closed_ok (gr_m g) start nodes cs"
      using False by (intro closed_ok_cong) (auto simp: 2(1))
    moreover have "nb \<noteq> start" using False cur by auto
    ultimately show ?thesis
      using ok cur False 2 by (auto simp: search_ok_def open_ok_def)
  qed (use ok in simp)
qed

lemma expand_ok:
  assumes "foldl (astar_relax g goal cur) (opn, nodes) nbs = (opn', nodes')"
    "search_ok (gr_m g) start opn nodes cs" "cur \<in> set cs" "start \<in> set cs"
    "\<And>nb. nb \<in> set nbs \<Longrightarrow> HasEdge (gr_m g) cur nb" "cur \<noteq> []"
  shows "search_ok (gr_m g) start opn' nodes' cs \<and> fst ` set nodes' = set nbs \<union> fst ` set nodes"
  using assms
proof (induction nbs arbitrary: opn nodes)
  case (Cons nb nbs)
  obtain o1 n1 where s: "astar_relax g goal cur (opn, nodes) nb = (o1, n1)" by fastforce
  have "search_ok (gr_m g) start o1 n1 cs" using relax_ok[OF s Cons.prems(2-4)] Cons.prems(5,6) by simp
  with Cons.IH[of o1 n1] Cons.prems s relax_dom[OF s] show ?case by auto
qed simp

lemma close_ok:
  assumes "search_ok m start opn nodes cs" "cur \<in> set opn" "set opn1 = set opn - {cur}" "distinct opn1"
    "cs = [] \<Longrightarrow> cur = start"
  shows "search_ok m start opn1 (close_node cur nodes) (cur # cs)"
proof -
  have cur: "cur \<notin> set cs" "cur \<in> fst ` set nodes" using assms(1,2) by (auto simp: search_ok_def open_ok_def)
  then obtain n where n: "map_of nodes cur = Some n"
    by (metis map_of_None_keys not_None_eq)
  have cl: "close_node cur nodes = mput cur (n\<lparr>nd_closed := True\<rparr>) nodes"
    by (simp add: close_node_def node_at_def mget_default_def n)
  have "closed_ok m start (close_node cur nodes) cs = closed_ok m start nodes cs"
    unfolding cl using cur(1) by (intro closed_ok_cong) auto
  then have "closed_ok m start (close_node cur nodes) cs"
    using assms(1) by (simp add: search_ok_def)
  moreover have "if cur = start then nd_parent n = [] else nd_parent n \<noteq> [] \<and> nd_parent n \<in> set cs \<and> HasEdge m (nd_parent n) cur"
    using assms(1) cur(1) n by (auto simp: search_ok_def open_ok_def)
  moreover have "set opn1 = fst ` set (close_node cur nodes) - set (cur # cs)"
    using assms(1,3) cur by (auto simp: search_ok_def open_ok_def cl)
  moreover have "closed_set (close_node cur nodes) = set (cur # cs)"
    using assms(1) by (simp add: closed_set_close search_ok_def open_ok_def)
  moreover have "mok (close_node cur nodes)"
    using assms(1) by (simp add: cl search_ok_def open_ok_def)
  moreover have "if i = start then nd_parent k = []
      else nd_parent k \<noteq> [] \<and> nd_parent k \<in> set (cur # cs) \<and> HasEdge m (nd_parent k) i"
    if "i \<notin> set (cur # cs)" "map_of (close_node cur nodes) i = Some k" for i k
  proof -
    have "i \<notin> set cs" "map_of nodes i = Some k" using that by (simp_all add: cl)
    then have "if i = start then nd_parent k = []
        else nd_parent k \<noteq> [] \<and> nd_parent k \<in> set cs \<and> HasEdge m (nd_parent k) i"
      using assms(1) unfolding search_ok_def open_ok_def by blast
    then show ?thesis by (simp split: if_splits)
  qed
  moreover have "closed_ok m start (close_node cur nodes) (cur # cs)"
    using calculation(1,2) cur(1) by (simp add: cl)
  ultimately show ?thesis
    using assms(4) unfolding search_ok_def open_ok_def by blast
qed

text \<open>What the loop returns: the closed nodes with the goal closed last, or nothing when the nodes it
  saw are closed under adjacency and lack the goal.\<close>

lemma astar_loop_ok:
  assumes "search_ok (gr_m g) start opn nodes cs" "goal \<notin> set cs"
    "cs = [] \<Longrightarrow> set opn = {start}" "cs \<noteq> [] \<Longrightarrow> start \<in> set cs"
    "\<And>c q. c \<in> set cs \<Longrightarrow> HasEdge (gr_m g) c q \<Longrightarrow> q \<in> fst ` set nodes"
    "[] \<notin> edge_ends (gr_m g)" "start \<noteq> []"
  shows "case astar_loop g goal opn nodes of
      None \<Rightarrow> \<exists>S. start \<in> S \<and> goal \<notin> S \<and> (\<forall>c q. c \<in> S \<longrightarrow> HasEdge (gr_m g) c q \<longrightarrow> q \<in> S)
    | Some nodes' \<Rightarrow> mok nodes' \<and> (\<exists>cs'. closed_ok (gr_m g) start nodes' (goal # cs') \<and> set cs' \<subseteq> fst ` set nodes')"
  using assms
proof (induction g goal opn nodes arbitrary: cs rule: astar_loop.induct)
  case (1 g goal opn nodes)
  note ok = "1.prems"(1)
  have dom: "set opn = fst ` set nodes - set cs" "closed_set nodes = set cs" "distinct opn"
    using ok by (auto simp: search_ok_def open_ok_def)
  show ?case
  proof (cases "opn = []")
    case True
    have "set cs \<subseteq> fst ` set nodes"
      using dom(2) closed_set_dom by blast
    then have "fst ` set nodes = set cs" using True dom(1) by auto
    moreover have "start \<in> set cs" using "1.prems"(3,4) True by auto
    ultimately have "\<exists>S. start \<in> S \<and> goal \<notin> S \<and> (\<forall>c q. c \<in> S \<longrightarrow> HasEdge (gr_m g) c q \<longrightarrow> q \<in> S)"
      using "1.prems"(2,5) by (intro exI[of _ "set cs"]) blast
    then show ?thesis using True by (subst astar_loop.simps) simp
  next
    case False
    obtain cur opn1 where pop: "heap_pop (node_Less nodes) opn = (cur, opn1)" by fastforce
    have ms: "mset opn = add_mset cur (mset opn1)" by (rule mset_heap_pop[OF False pop])
    then have d: "distinct (cur # opn1)" using dom(3) by (metis mset.simps(2) mset_eq_imp_distinct_iff)
    have so: "set opn = insert cur (set opn1)" by (rule set_heap_pop[OF False pop])
    have cur: "cur \<in> set opn" "cur \<notin> set cs" using so dom by auto
    then have nc: "\<not> nd_closed (node_at nodes cur)"
      using dom(2) by (auto simp: closed_set_def node_at_def mget_default_def split: option.splits)
    have ok1: "search_ok (gr_m g) start opn1 (close_node cur nodes) (cur # cs)"
      using close_ok[OF ok cur(1)] d so "1.prems"(3) cur(1) by auto
    have dom1: "fst ` set (close_node cur nodes) = fst ` set nodes"
      using cur(1) dom by (auto simp: close_node_def)
    show ?thesis
    proof (cases "cur = goal")
      case True
      have "set cs \<subseteq> fst ` set (close_node cur nodes)"
        unfolding dom1 using dom(2) closed_set_dom by blast
      moreover have "astar_loop g goal opn nodes = Some (close_node cur nodes)"
        using False pop nc True by (subst astar_loop.simps) (simp add: Let_def)
      moreover have "mok (close_node cur nodes)" "closed_ok (gr_m g) start (close_node cur nodes) (goal # cs)"
        using ok1 True by (simp_all only: search_ok_def open_ok_def)
      ultimately show ?thesis by (auto simp del: closed_ok.simps)
    next
      case ng: False
      obtain opn2 nodes2 where e: "astar_expand g goal cur opn1 (close_node cur nodes) = (opn2, nodes2)" by fastforce
      have "cur \<noteq> []"
      proof (cases "cur = start")
        case False
        have "HasEdge (gr_m g) c cur" if "c = nd_parent (node_at nodes cur)" for c
          using ok cur False that dom(1)
          by (auto simp: search_ok_def open_ok_def node_at_def mget_default_def split: option.splits
                dest: map_of_None_keys[THEN iffD1])
        then show ?thesis using "1.prems"(6) HasEdge_ends by blast
      qed (use "1.prems"(7) in simp)
      moreover have st: "start \<in> set (cur # cs)" using "1.prems"(3,4) cur(1) by (cases cs) auto
      ultimately have ok2: "search_ok (gr_m g) start opn2 nodes2 (cur # cs)"
        and d2: "fst ` set nodes2 = set (Neighbors (gr_m g) cur) \<union> fst ` set (close_node cur nodes)"
        using expand_ok[OF e[unfolded astar_expand_def] ok1] by (auto simp: set_Neighbors)
      have "astar_loop g goal opn nodes = astar_loop g goal opn2 nodes2"
        using False pop nc ng e by (subst astar_loop.simps) (simp add: Let_def)
      then show ?thesis
        using "1.IH"(2)[OF False pop[symmetric] refl nc refl ng e[symmetric] refl ok2]
          "1.prems"(2,5,6,7) ng st d2 dom1 by (auto simp: set_Neighbors)
    qed
  qed
qed

section \<open>Reconstruction\<close>

text \<open>From a closed node, both forms of the loop walk back to the start.\<close>

lemma reconstruct_ok:
  assumes "closed_ok m start nodes (i # cs)" "length cs \<le> fuel"
  shows "\<exists>ps. reconstruct_from fuel nodes i (i # out) = ps @ i # out
    \<and> reconstruct_walk nodes i (i # out) = Some (ps @ i # out)
    \<and> hd (ps @ [i]) = start \<and> successively (HasEdge m) (ps @ [i]) \<and> distinct (ps @ [i]) \<and> set ps \<subseteq> set cs"
  using assms
proof (induction fuel arbitrary: i cs out)
  case 0
  then have cs: "cs = []" by simp
  then obtain n where "map_of nodes i = Some n" "nd_parent n = []" "i = start"
    using 0 by (auto split: if_splits)
  then show ?case by (intro exI[of _ "[]"]) (simp add: reconstruct_walk.simps)
next
  case (Suc fuel)
  then obtain n where n: "map_of nodes i = Some n" "i \<notin> set cs" "closed_ok m start nodes cs"
    and p: "if i = start then nd_parent n = [] else nd_parent n \<noteq> [] \<and> nd_parent n \<in> set cs \<and> HasEdge m (nd_parent n) i"
    by auto
  show ?case
  proof (cases "i = start")
    case True
    then show ?thesis using n p by (intro exI[of _ "[]"]) (simp add: reconstruct_walk.simps)
  next
    case False
    let ?p = "nd_parent n"
    obtain xs ys where cs: "cs = xs @ ?p # ys" using p False by (auto simp: in_set_conv_decomp)
    have "closed_ok m start nodes (?p # ys)"
      using n(3) unfolding cs by (induction xs) auto
    moreover have "length ys \<le> fuel" using Suc.prems(2) cs by simp
    ultimately obtain ps where ps: "reconstruct_from fuel nodes ?p (?p # i # out) = ps @ ?p # i # out"
      "reconstruct_walk nodes ?p (?p # i # out) = Some (ps @ ?p # i # out)"
      "hd (ps @ [?p]) = start" "successively (HasEdge m) (ps @ [?p])" "distinct (ps @ [?p])" "set ps \<subseteq> set ys"
      using Suc.IH[of ?p ys "i # out"] by blast
    have "successively (HasEdge m) ((ps @ [?p]) @ [i])"
      using ps(4) p False by (simp add: successively_append_iff)
    then show ?thesis
      using ps p n False unfolding cs
      by (intro exI[of _ "ps @ [?p]"]) (auto simp: reconstruct_walk.simps hd_append)
  qed
qed

lemma closed_ok_distinct: "closed_ok m start nodes cs \<Longrightarrow> distinct cs"
  by (induction cs) auto

lemma closed_ok_dom: "closed_ok m start nodes cs \<Longrightarrow> set cs \<subseteq> fst ` set nodes"
  by (induction cs) (auto, metis map_of_None_keys option.distinct(1))

definition edge_rel :: "game_map \<Rightarrow> (province_id \<times> province_id) set" where
  "edge_rel m = {(a, b). HasEdge m a b}"

lemma successively_reach: "successively (HasEdge m) ps \<Longrightarrow> ps \<noteq> [] \<Longrightarrow> (hd ps, last ps) \<in> (edge_rel m)\<^sup>*"
proof (induction ps)
  case (Cons a ps)
  then show ?case
    by (cases ps) (auto simp: edge_rel_def intro: converse_rtrancl_into_rtrancl)
qed simp

lemma closed_under_reach:
  "(a, b) \<in> (edge_rel m)\<^sup>* \<Longrightarrow> a \<in> S \<Longrightarrow> (\<forall>c q. c \<in> S \<longrightarrow> HasEdge m c q \<longrightarrow> q \<in> S) \<Longrightarrow> b \<in> S"
  by (induction rule: rtrancl_induct) (auto simp: edge_rel_def)

lemma astar_search_start:
  "search_ok m start [start] (astar_start g start goal) []"
  by (auto simp: search_ok_def open_ok_def astar_start_def closed_set_def)

lemma astar_start_heap: "heap_push lt x [] = [x]"
  by (simp add: heap_push_def heap_up.simps)

section \<open>Correctness of A*\<close>

lemma astar_correct_aux:
  assumes "[] \<notin> edge_ends (gr_m g)" "start \<noteq> []"
  shows "(astar g start goal = None) = ((start, goal) \<notin> (edge_rel (gr_m g))\<^sup>*)
    \<and> (\<forall>path. astar g start goal = Some path \<longrightarrow>
         path \<noteq> [] \<and> hd path = start \<and> last path = goal \<and> successively (HasEdge (gr_m g)) path \<and> distinct path \<and>
         (\<exists>nodes. astar_search g start goal = Some nodes \<and> reconstruct_walk nodes goal [goal] = Some path))"
proof (cases "astar_search g start goal")
  case None
  then obtain S where "start \<in> S" "goal \<notin> S" "\<forall>c q. c \<in> S \<longrightarrow> HasEdge (gr_m g) c q \<longrightarrow> q \<in> S"
    using astar_loop_ok[where g = g and goal = goal, OF astar_search_start[of "gr_m g" start g goal]] assms
    by (auto simp: astar_search_def astar_start_heap Let_def)
  then have "(start, goal) \<notin> (edge_rel (gr_m g))\<^sup>*" using closed_under_reach by blast
  then show ?thesis using None by (simp add: astar_def)
next
  case (Some nodes)
  then obtain cs where cs: "mok nodes" "closed_ok (gr_m g) start nodes (goal # cs)"
    using astar_loop_ok[where g = g and goal = goal, OF astar_search_start[of "gr_m g" start g goal]] assms
    by (auto simp: astar_search_def astar_start_heap Let_def simp del: closed_ok.simps)
  have "length (goal # cs) = card (set (goal # cs))"
    using closed_ok_distinct[OF cs(2)] by (simp only: distinct_card)
  also have "\<dots> \<le> card (fst ` set nodes)"
    using closed_ok_dom[OF cs(2)] by (intro card_mono) auto
  also have "\<dots> \<le> length nodes" by (metis card_length length_map list.set_map)
  finally have "length cs \<le> length nodes" by simp
  then obtain ps where ps: "reconstruct_from (length nodes) nodes goal [goal] = ps @ [goal]"
    "reconstruct_walk nodes goal [goal] = Some (ps @ [goal])"
    "hd (ps @ [goal]) = start" "successively (HasEdge (gr_m g)) (ps @ [goal])" "distinct (ps @ [goal])"
    using reconstruct_ok[OF cs(2), of "length nodes" "[]"] by blast
  have "(start, goal) \<in> (edge_rel (gr_m g))\<^sup>*"
    using successively_reach[OF ps(4)] ps(3) by simp
  then show ?thesis using Some ps by (simp add: astar_def reconstruct_def)
qed

text \<open>
  C6. A* is sound, complete and returns. On a map whose edges name no empty province, from a
  non-empty start: the search always ends; it reports no path exactly when the goal cannot be reached
  along edges; otherwise the provinces it returns start at the start, end at the goal, are pairwise
  adjacent in order and visit no province twice, and the unbounded loop that follows the parents ends
  with that very path.
\<close>

theorem astar_correct:
  assumes "[] \<notin> edge_ends (gr_m g)" "start \<noteq> []"
  shows "(astar g start goal = None) = ((start, goal) \<notin> (edge_rel (gr_m g))\<^sup>*)
    \<and> (\<forall>path. astar g start goal = Some path \<longrightarrow>
         path \<noteq> [] \<and> hd path = start \<and> last path = goal \<and> successively (HasEdge (gr_m g)) path \<and> distinct path \<and>
         (\<exists>nodes. astar_search g start goal = Some nodes \<and> reconstruct_walk nodes goal [goal] = Some path))"
  by (rule astar_correct_aux[OF assms])

definition sample_map :: game_map where
  "sample_map = \<lparr>map_ID = ''sample'', map_Name = [],
     map_Provinces =
       [\<lparr>mp_ID = ''a'', mp_X = 0, mp_Y = 0, mp_Name = [], mp_HomeSlot = ''red''\<rparr>,
        \<lparr>mp_ID = ''b'', mp_X = 100, mp_Y = 0, mp_Name = [], mp_HomeSlot = []\<rparr>,
        \<lparr>mp_ID = ''c'', mp_X = 200, mp_Y = 0, mp_Name = [], mp_HomeSlot = ''blue''\<rparr>],
     map_Edges = [\<lparr>me_From = ''a'', me_To = ''b''\<rparr>, \<lparr>me_From = ''b'', me_To = ''c''\<rparr>],
     map_Slots = [\<lparr>msl_ID = ''red'', msl_Color = [], msl_Capital = ''a''\<rparr>,
                  \<lparr>msl_ID = ''blue'', msl_Color = [], msl_Capital = ''c''\<rparr>],
     map_StartingUnits = [\<lparr>su_Slot = ''red'', su_Type = ''infantry'', su_Province = ''a'', su_HP = 0\<rparr>],
     map_SVGURL = [], map_ThumbnailURL = [], map_RulesSummary = []\<rparr>"

lemma gr_m_NewGraph [simp]: "gr_m (NewGraph m) = m"
  by (simp add: NewGraph_def Let_def)

lemma sample_map_ends [simp]: "[] \<notin> edge_ends sample_map"
  by (simp add: edge_ends_def sample_map_def)

theorem astar_correct_witness:
  "(astar (NewGraph sample_map) ''a'' ''c'' = None) = ((''a'', ''c'') \<notin> (edge_rel sample_map)\<^sup>*)"
  using astar_correct[of "NewGraph sample_map" "''a''" "''c''"] by simp

section \<open>Correctness of routes\<close>

definition leg_joins :: "leg \<Rightarrow> leg \<Rightarrow> bool" where
  "leg_joins l l' \<longleftrightarrow> lg_ToProv l = lg_FromProv l' \<and> lg_ToX l = lg_FromX l' \<and> lg_ToY l = lg_FromY l'"

definition leg_local :: "game_map \<Rightarrow> leg \<Rightarrow> bool" where
  "leg_local m l \<longleftrightarrow> lg_FromProv l = lg_ToProv l \<or> HasEdge m (lg_FromProv l) (lg_ToProv l)"

lemma route_legs_ok:
  assumes "route_legs g cx cy p via = (legs, x', y', p')" "successively (HasEdge (gr_m g)) (p # via)"
  shows "p' = last (p # via) \<and> successively leg_joins legs \<and> (\<forall>l\<in>set legs. leg_local (gr_m g) l) \<and>
    (if via = [] then legs = [] \<and> x' = cx \<and> y' = cy
     else legs \<noteq> [] \<and> lg_FromProv (hd legs) = p \<and> lg_FromX (hd legs) = cx \<and> lg_FromY (hd legs) = cy
       \<and> lg_ToProv (last legs) = p' \<and> lg_ToX (last legs) = x' \<and> lg_ToY (last legs) = y')"
  using assms
proof (induction via arbitrary: cx cy p legs)
  case (Cons q via)
  obtain qx qy where q: "coord g q = (qx, qy)" by fastforce
  obtain ls where r: "route_legs g qx qy q via = (ls, x', y', p')"
    "legs = \<lparr>lg_FromProv = p, lg_ToProv = q, lg_FromX = cx, lg_FromY = cy, lg_ToX = qx, lg_ToY = qy\<rparr> # ls"
    using Cons.prems(1) q by (auto simp: Let_def split: prod.splits)
  have "successively (HasEdge (gr_m g)) (q # via)" "HasEdge (gr_m g) p q"
    using Cons.prems(2) by simp_all
  with Cons.IH[OF r(1)] show ?case
    by (cases ls) (auto simp: r(2) leg_joins_def leg_local_def split: if_splits)
qed simp

text \<open>
  C7. Planning a route fails exactly when the start or the goal province is missing or the goal is
  unreachable. A route it returns is a contiguous movement: its first leg leaves the given position
  from the given province, every leg starts at the point and province where the one before it ended,
  every leg stays in its province or crosses one edge of the map, and the last leg ends at the exact
  target coordinates, in the target's province.
\<close>

theorem route_is_contiguous:
  assumes "[] \<notin> edge_ends (gr_m g)"
  shows "case routeFromProvince g x y start tgt of
      Inl e \<Rightarrow> start = [] \<or> goalProvince tgt = [] \<or> (start, goalProvince tgt) \<notin> (edge_rel (gr_m g))\<^sup>*
    | Inr legs \<Rightarrow> start \<noteq> [] \<and> goalProvince tgt \<noteq> [] \<and> (start, goalProvince tgt) \<in> (edge_rel (gr_m g))\<^sup>* \<and>
        legs \<noteq> [] \<and> lg_FromProv (hd legs) = start \<and> lg_FromX (hd legs) = x \<and> lg_FromY (hd legs) = y \<and>
        successively leg_joins legs \<and> (\<forall>l\<in>set legs. leg_local (gr_m g) l) \<and>
        lg_ToProv (last legs) = goalProvince tgt \<and> lg_ToX (last legs) = tg_X tgt \<and> lg_ToY (last legs) = tg_Y tgt"
proof -
  let ?goal = "goalProvince tgt"
  let ?via = "if start \<noteq> ?goal then astar g start ?goal else Some [start]"
  show ?thesis
  proof (cases "start = [] \<or> ?goal = [] \<or> ?via = None")
    case True
    have "(start, ?goal) \<notin> (edge_rel (gr_m g))\<^sup>*" if "start \<noteq> []" "?via = None"
      using astar_correct_aux[OF assms that(1), of ?goal] that(2) by (auto split: if_splits)
    then show ?thesis using True by (auto simp: routeFromProvince_def Let_def)
  next
    case False
    then obtain via where via: "?via = Some via" by auto
    have v: "via \<noteq> []" "hd via = start" "last via = ?goal" "successively (HasEdge (gr_m g)) via"
      "(start, ?goal) \<in> (edge_rel (gr_m g))\<^sup>*"
      using astar_correct_aux[OF assms, of start ?goal] via False by (auto split: if_splits)
    then obtain vs where vs: "via = start # vs" by (cases via) auto
    obtain legs cx cy p where r: "route_legs g x y start vs = (legs, cx, cy, p)" by (metis prod_cases4)
    note ok = route_legs_ok[OF r] v(3,4)[unfolded vs]
    let ?l = "\<lparr>lg_FromProv = p, lg_ToProv = ?goal, lg_FromX = cx, lg_FromY = cy, lg_ToX = tg_X tgt, lg_ToY = tg_Y tgt\<rparr>"
    show ?thesis
    proof (cases "legs = [] \<or> lg_ToX (last legs) \<noteq> tg_X tgt \<or> lg_ToY (last legs) \<noteq> tg_Y tgt")
      case True
      then have "routeFromProvince g x y start tgt = Inr (legs @ [?l])"
        using False via r by (simp add: routeFromProvince_def Let_def vs)
      then show ?thesis
        using ok False v(5)
        by (cases "vs = []") (auto simp: successively_append_iff leg_joins_def leg_local_def hd_append)
    next
      case nl: False
      then have "routeFromProvince g x y start tgt = Inr legs"
        using False via r by (simp add: routeFromProvince_def Let_def vs)
      then show ?thesis
        using ok False nl v(5) by (cases "vs = []") auto
    qed
  qed
qed

theorem route_is_contiguous_witness:
  "case routeFromProvince (NewGraph sample_map) 5 0 ''a''
      \<lparr>tg_Kind = TargetNode, tg_Province = ''c'', tg_EdgeFrom = [], tg_EdgeTo = [], tg_X = 200, tg_Y = 0, tg_T = 0\<rparr> of
      Inl e \<Rightarrow> (''a'', ''c'') \<notin> (edge_rel sample_map)\<^sup>* | Inr legs \<Rightarrow> legs \<noteq> [] \<and> lg_ToX (last legs) = 200"
  using route_is_contiguous[where g = "NewGraph sample_map" and x = 5 and y = 0 and start = "''a''" and tgt =
      "\<lparr>tg_Kind = TargetNode, tg_Province = ''c'', tg_EdgeFrom = [], tg_EdgeTo = [], tg_X = 200, tg_Y = 0, tg_T = 0\<rparr>"]
  by (auto simp: goalProvince_def split: sum.splits)

section \<open>Correctness of snapping\<close>

text \<open>The loops keep the first strict minimum among the elements that satisfy \<open>P\<close>.\<close>

lemma argmin_fold:
  assumes "foldl (\<lambda>(b, bd) x. if P x \<and> d x < bd then (f x, d x) else (b, bd)) (b0, d0) xs = (b, bd)"
  shows "bd \<le> (d0 :: real) \<and> (\<forall>x\<in>set xs. P x \<longrightarrow> bd \<le> d x) \<and>
     ((b, bd) = (b0, d0) \<or> (\<exists>x\<in>set xs. P x \<and> b = f x \<and> bd = d x \<and> d x < d0))"
  using assms
proof (induction xs arbitrary: b0 d0)
  case (Cons x xs)
  show ?case
  proof (cases "P x \<and> d x < d0")
    case True
    with Cons.IH[of "f x" "d x"] Cons.prems show ?thesis by auto
  next
    case False
    with Cons.IH[of b0 d0] Cons.prems show ?thesis by auto
  qed
qed simp

definition node_dist :: "real \<Rightarrow> real \<Rightarrow> province_id \<times> vec2 \<Rightarrow> real" where
  "node_dist x y c = hypot (x - fst (snd c)) (y - snd (snd c))"

lemma nearestProvinceID_ok:
  assumes "rt_ok rt" "mok (gr_coords g)" "c \<in> set (gr_coords g)" "node_dist x y c < MaxFloat64"
  shows "\<exists>b\<in>set (gr_coords g). nearestProvinceID rt g x y = fst b \<and> (\<forall>c\<in>set (gr_coords g). node_dist x y b \<le> node_dist x y c)"
proof -
  obtain b bd where r: "foldl (\<lambda>(b, bd) c. if True \<and> node_dist x y c < bd then (fst c, node_dist x y c) else (b, bd))
      ([], MaxFloat64) (go_range rt (gr_coords g)) = (b, bd)" by fastforce
  have "(\<lambda>(best, bestD) (pid, (cx, cy)). let d = hypot (x - cx) (y - cy) in if d < bestD then (pid, d) else (best, bestD))
      = (\<lambda>(b, bd) c. if True \<and> node_dist x y c < bd then (fst c, node_dist x y c) else (b, bd))"
    by (auto simp: fun_eq_iff node_dist_def Let_def)
  then have "nearestProvinceID rt g x y = b" using r by (simp add: nearestProvinceID_def)
  then show ?thesis
    using argmin_fold[OF r] assms(3,4) by (auto simp: set_go_range[OF assms(1,2)])
qed

lemma snapNode_ok:
  assumes "rt_ok rt" "mok (gr_coords g)" "snapNode rt g x y = (b, bd)"
  shows "if \<exists>c\<in>set (gr_coords g). node_dist x y c \<le> NodeSnapRadius
    then \<exists>c\<in>set (gr_coords g). b = fst c \<and> (\<forall>c'\<in>set (gr_coords g). node_dist x y c \<le> node_dist x y c')
    else b = []"
proof -
  have "(\<lambda>(bestNode, bestNodeDist) (pid, (cx, cy)). let d = hypot (x - cx) (y - cy) in
            if d \<le> NodeSnapRadius \<and> d < bestNodeDist then (pid, d) else (bestNode, bestNodeDist))
      = (\<lambda>(b, bd) c. if node_dist x y c \<le> NodeSnapRadius \<and> node_dist x y c < bd then (fst c, node_dist x y c) else (b, bd))"
    by (auto simp: fun_eq_iff node_dist_def Let_def)
  then have r: "foldl (\<lambda>(b, bd) c. if node_dist x y c \<le> NodeSnapRadius \<and> node_dist x y c < bd then (fst c, node_dist x y c) else (b, bd))
      ([], NodeSnapRadius + 1) (go_range rt (gr_coords g)) = (b, bd)"
    using assms(3) by (simp add: snapNode_def)
  from argmin_fold[OF this] show ?thesis
    unfolding set_go_range[OF assms(1,2)] by (auto intro!: bexI)
qed

text \<open>Projecting onto a segment gives its point nearest to the given one.\<close>

lemma projectSegment_ok:
  assumes "projectSegment px py ax ay bx by = (x, y, t, d)"
  shows "0 \<le> t \<and> t \<le> 1 \<and> x = ax + t * (bx - ax) \<and> y = ay + t * (by - ay) \<and> d = hypot (px - x) (py - y) \<and>
    (\<forall>s. 0 \<le> s \<longrightarrow> s \<le> 1 \<longrightarrow> d \<le> hypot (px - (ax + s * (bx - ax))) (py - (ay + s * (by - ay))))"
proof -
  define dx dy where "dx = bx - ax" and "dy = by - ay"
  define L c where "L = dx * dx + dy * dy" and "c = (px - ax) * dx + (py - ay) * dy"
  have basic: "0 \<le> t" "t \<le> 1" "x = ax + t * dx" "y = ay + t * dy" "d = hypot (px - x) (py - y)"
    and t: "L \<noteq> 0 \<Longrightarrow> t = (if c / L < 0 then 0 else if c / L > 1 then 1 else c / L)"
    using assms by (auto simp: projectSegment_def Let_def dx_def dy_def L_def c_def split: if_splits)
  have L: "0 \<le> L" by (simp add: L_def)
  have min: "0 \<le> (s - t) * (L * (s + t) - 2 * c)" if s: "0 \<le> s" "s \<le> 1" for s
  proof (cases "L = 0")
    case True
    then have "dx = 0" "dy = 0" by (simp_all add: L_def sum_squares_eq_zero_iff)
    then show ?thesis by (simp add: L_def c_def)
  next
    case False
    with L have pos: "0 < L" by linarith
    consider "c / L < 0" | "1 < c / L" | "\<not> c / L < 0" "\<not> 1 < c / L" by linarith
    then show ?thesis
    proof cases
      case 1
      then have "t = 0" "c < 0" using t[OF False] pos by (auto simp: divide_less_0_iff)
      moreover from this have "0 \<le> s * (L * s - 2 * c)"
        using s(1) mult_nonneg_nonneg[OF L s(1)] by (intro mult_nonneg_nonneg) auto
      ultimately show ?thesis by simp
    next
      case 2
      then have "\<not> c / L < 0" by linarith
      with 2 have tc: "t = 1" "L < c" using t[OF False] pos by (simp_all add: less_divide_eq)
      have "L * (s + 1) \<le> L * 2" using s L by (intro mult_left_mono) auto
      then have "L * (s + 1) - 2 * c \<le> 0" using tc by simp
      then have "0 \<le> (s - 1) * (L * (s + 1) - 2 * c)"
        using s by (intro mult_nonpos_nonpos) auto
      then show ?thesis using tc by simp
    next
      case 3
      then have c: "c = L * t" using t[OF False] pos by simp
      have "(s - t) * (L * (s + t) - 2 * c) = L * ((s - t) * (s - t))"
        unfolding c by (simp add: algebra_simps)
      moreover have "0 \<le> L * ((s - t) * (s - t))" using L by simp
      ultimately show ?thesis by (simp only:)
    qed
  qed
  have "d \<le> hypot (px - (ax + s * dx)) (py - (ay + s * dy))" if "0 \<le> s" "s \<le> 1" for s
  proof -
    have "(px - (ax + s * dx))\<^sup>2 + (py - (ay + s * dy))\<^sup>2 - ((px - x)\<^sup>2 + (py - y)\<^sup>2)
        = (s - t) * (L * (s + t) - 2 * c)"
      unfolding basic(3,4) L_def c_def by (simp add: power2_eq_square algebra_simps)
    then show ?thesis using min[OF that] unfolding basic(5) hypot_def by simp
  qed
  then show ?thesis using basic unfolding dx_def dy_def by blast
qed

definition seg_point_dist :: "real \<Rightarrow> real \<Rightarrow> edge_seg \<Rightarrow> real \<Rightarrow> real" where
  "seg_point_dist x y e s =
     hypot (x - (seg_ax e + s * (seg_bx e - seg_ax e))) (y - (seg_ay e + s * (seg_by e - seg_ay e)))"

definition seg_proj :: "real \<Rightarrow> real \<Rightarrow> edge_seg \<Rightarrow> real \<times> real \<times> real \<times> real" where
  "seg_proj x y e = projectSegment x y (seg_ax e) (seg_ay e) (seg_bx e) (seg_by e)"

definition seg_dist :: "real \<Rightarrow> real \<Rightarrow> edge_seg \<Rightarrow> real" where
  "seg_dist x y e = snd (snd (snd (seg_proj x y e)))"

lemma seg_dist_ok:
  assumes "seg_proj x y e = (qx, qy, t, d)"
  shows "0 \<le> t" "t \<le> 1" "qx = seg_ax e + t * (seg_bx e - seg_ax e)" "qy = seg_ay e + t * (seg_by e - seg_ay e)"
    "d = seg_dist x y e" "d = hypot (x - qx) (y - qy)" "0 \<le> s \<Longrightarrow> s \<le> 1 \<Longrightarrow> seg_dist x y e \<le> seg_point_dist x y e s"
  using projectSegment_ok[OF assms[unfolded seg_proj_def]] assms
  by (auto simp: seg_dist_def seg_point_dist_def)

lemma snapEdge_ok:
  assumes "snapEdge g x y = (best, bd, bt, bx, by)"
  shows "if \<exists>e\<in>set (gr_edges g). seg_dist x y e \<le> EdgeSnapMaxDist
    then \<exists>e\<in>set (gr_edges g). best = Some e \<and> seg_proj x y e = (bx, by, bt, bd) \<and> bd \<le> EdgeSnapMaxDist \<and>
           (\<forall>e'\<in>set (gr_edges g). bd \<le> seg_dist x y e')
    else \<not> bd \<le> EdgeSnapMaxDist"
proof -
  define step where "step = (\<lambda>(best, bestDist, bestT, bestX, bestY) (e :: edge_seg).
            let (px, py, t, d) = projectSegment x y (seg_ax e) (seg_ay e) (seg_bx e) (seg_by e) in
            if d \<le> EdgeSnapMaxDist \<and> d < bestDist then (Some e, d, t, px, py)
            else (best, bestDist, bestT, bestX, bestY))"
  have "((best, bd, bt, bx, by) = (b0, bd0, t0, x0, y0) \<or>
      (\<exists>e\<in>set es. best = Some e \<and> seg_proj x y e = (bx, by, bt, bd) \<and> bd < bd0 \<and> bd \<le> EdgeSnapMaxDist)) \<and>
     (\<forall>e'\<in>set es. seg_dist x y e' \<le> EdgeSnapMaxDist \<longrightarrow> bd \<le> seg_dist x y e') \<and> bd \<le> bd0"
    if "foldl step (b0, bd0, t0, x0, y0) es = (best, bd, bt, bx, by)" for es b0 bd0 t0 x0 y0
    using that
  proof (induction es arbitrary: b0 bd0 t0 x0 y0)
    case (Cons e es)
    obtain qx qy t d where q: "seg_proj x y e = (qx, qy, t, d)" by (metis prod_cases4)
    have d: "d = seg_dist x y e" using q by (simp add: seg_dist_def)
    have st: "step (b0, bd0, t0, x0, y0) e =
        (if d \<le> EdgeSnapMaxDist \<and> d < bd0 then (Some e, d, t, qx, qy) else (b0, bd0, t0, x0, y0))"
      using q by (simp add: step_def seg_proj_def)
    show ?case
    proof (cases "d \<le> EdgeSnapMaxDist \<and> d < bd0")
      case True
      then have "foldl step (Some e, d, t, qx, qy) es = (best, bd, bt, bx, by)"
        using Cons.prems st by simp
      from Cons.IH[OF this] True q d show ?thesis by auto
    next
      case False
      have "foldl step (b0, bd0, t0, x0, y0) es = (best, bd, bt, bx, by)"
        using Cons.prems unfolding foldl_Cons st by (simp only: False if_False)
      from Cons.IH[OF this] False d show ?thesis by auto
    qed
  qed simp
  note r = this[OF assms[unfolded snapEdge_def, folded step_def]]
  show ?thesis
  proof (cases "\<exists>e\<in>set (gr_edges g). seg_dist x y e \<le> EdgeSnapMaxDist")
    case True
    then have "bd \<le> EdgeSnapMaxDist" using r by fastforce
    then obtain e where e: "e \<in> set (gr_edges g)" "best = Some e" "seg_proj x y e = (bx, by, bt, bd)"
      using r by auto
    have "\<forall>e'\<in>set (gr_edges g). bd \<le> seg_dist x y e'"
      using r \<open>bd \<le> EdgeSnapMaxDist\<close> by fastforce
    with \<open>bd \<le> EdgeSnapMaxDist\<close> show ?thesis using True e by auto
  next
    case False
    have "bd = seg_dist x y e" if "seg_proj x y e = (bx, by, bt, bd)" for e
      using that by (simp add: seg_dist_def)
    then show ?thesis using r False by auto
  qed
qed

text \<open>
  C8. Snapping a click returns the right place on the map: the nearest province centre when one lies
  within the node radius; otherwise, when some edge passes within the edge radius, the point of the
  map's edges nearest to the click, with its edge and parameter; otherwise the nearest province
  centre. Whatever order the map of coordinates is ranged over in, only the choice between equally
  near centres depends on it.
\<close>

theorem snap_returns_nearest:
  assumes "rt_ok rt" "mok (gr_coords g)" "[] \<notin> fst ` set (gr_coords g)"
    "c0 \<in> set (gr_coords g)" "node_dist x y c0 < MaxFloat64"
  defines "t \<equiv> SnapTarget rt g x y"
  shows "if (\<exists>c\<in>set (gr_coords g). node_dist x y c \<le> NodeSnapRadius)
       \<or> \<not> (\<exists>e\<in>set (gr_edges g). seg_dist x y e \<le> EdgeSnapMaxDist)
    then tg_Kind t = TargetNode \<and> (\<exists>c\<in>set (gr_coords g).
       tg_Province t = fst c \<and> (tg_X t, tg_Y t) = snd c \<and> (\<forall>c'\<in>set (gr_coords g). node_dist x y c \<le> node_dist x y c'))
    else tg_Kind t = TargetEdge \<and> (\<exists>e\<in>set (gr_edges g).
       tg_EdgeFrom t = seg_from e \<and> tg_EdgeTo t = seg_to e \<and> 0 \<le> tg_T t \<and> tg_T t \<le> 1 \<and>
       tg_X t = seg_ax e + tg_T t * (seg_bx e - seg_ax e) \<and> tg_Y t = seg_ay e + tg_T t * (seg_by e - seg_ay e) \<and>
       hypot (x - tg_X t) (y - tg_Y t) \<le> EdgeSnapMaxDist \<and>
       (\<forall>e'\<in>set (gr_edges g). \<forall>s. 0 \<le> s \<longrightarrow> s \<le> 1 \<longrightarrow> hypot (x - tg_X t) (y - tg_Y t) \<le> seg_point_dist x y e' s))"
proof -
  obtain b bd where n: "snapNode (sub rt 0) g x y = (b, bd)" by fastforce
  obtain be ed et ex ey where e: "snapEdge g x y = (be, ed, et, ex, ey)" by (metis prod_cases5)
  have co: "coord g (fst c) = snd c" if "c \<in> set (gr_coords g)" for c
    using map_of_is_SomeI[OF assms(2), of "fst c" "snd c"] that by (simp add: coord_def mget_default_def)
  show ?thesis
  proof (cases "\<exists>c\<in>set (gr_coords g). node_dist x y c \<le> NodeSnapRadius")
    case True
    then obtain c where c: "c \<in> set (gr_coords g)" "b = fst c" "\<forall>c'\<in>set (gr_coords g). node_dist x y c \<le> node_dist x y c'"
      using snapNode_ok[OF _ assms(2) n] assms(1) by auto
    then have "b \<noteq> []" using assms(3) by force
    then have "t = \<lparr>tg_Kind = TargetNode, tg_Province = b, tg_EdgeFrom = [], tg_EdgeTo = [], tg_X = fst (snd c), tg_Y = snd (snd c), tg_T = 0\<rparr>"
      using n c co[OF c(1)] by (simp add: t_def SnapTarget_def case_prod_beta)
    then show ?thesis using True c by (auto intro!: bexI[OF _ c(1)])
  next
    case nn: False
    then have b: "b = []" using snapNode_ok[OF _ assms(2) n] assms(1) by auto
    show ?thesis
    proof (cases "\<exists>e\<in>set (gr_edges g). seg_dist x y e \<le> EdgeSnapMaxDist")
      case True
      then obtain e' where e': "e' \<in> set (gr_edges g)" "be = Some e'" "seg_proj x y e' = (ex, ey, et, ed)" "ed \<le> EdgeSnapMaxDist"
        "\<forall>e'\<in>set (gr_edges g). ed \<le> seg_dist x y e'"
        using snapEdge_ok[OF e] by auto
      have "t = \<lparr>tg_Kind = TargetEdge, tg_Province = [], tg_EdgeFrom = seg_from e', tg_EdgeTo = seg_to e', tg_X = ex, tg_Y = ey, tg_T = et\<rparr>"
        using n b e e' by (simp add: t_def SnapTarget_def)
      moreover have "ed \<le> seg_point_dist x y e2 s" if "e2 \<in> set (gr_edges g)" "0 \<le> s" "s \<le> 1" for e2 s
      proof -
        obtain q where "seg_proj x y e2 = q" by simp
        then have "seg_dist x y e2 \<le> seg_point_dist x y e2 s"
          using seg_dist_ok(7)[of x y e2 "fst q" "fst (snd q)" "fst (snd (snd q))" "snd (snd (snd q))" s] that by simp
        then show ?thesis using e'(5) that(1) by force
      qed
      ultimately show ?thesis using nn True e' seg_dist_ok[OF e'(3)] by (auto intro!: bexI[OF _ e'(1)])
    next
      case False
      then have "\<not> ed \<le> EdgeSnapMaxDist" using snapEdge_ok[OF e] by auto
      moreover obtain c where c: "c \<in> set (gr_coords g)" "nearestProvinceID (sub rt 1) g x y = fst c"
        "\<forall>c'\<in>set (gr_coords g). node_dist x y c \<le> node_dist x y c'"
        using nearestProvinceID_ok[OF rt_ok_sub[OF assms(1)] assms(2,4,5)] by blast
      ultimately have "t = \<lparr>tg_Kind = TargetNode, tg_Province = fst c, tg_EdgeFrom = [], tg_EdgeTo = [], tg_X = fst (snd c), tg_Y = snd (snd c), tg_T = 0\<rparr>"
        using n b e co[OF c(1)] by (simp add: t_def SnapTarget_def case_prod_beta)
      then show ?thesis using nn False c by (auto intro!: bexI[OF _ c(1)])
    qed
  qed
qed

lemma coords_fold:
  "mok cs \<Longrightarrow> mok (foldl (\<lambda>cs p. mput (mp_ID p) (mp_X p, mp_Y p) cs) cs ps)
   \<and> fst ` set (foldl (\<lambda>cs p. mput (mp_ID p) (mp_X p, mp_Y p) cs) cs ps) = fst ` set cs \<union> mp_ID ` set ps"
  by (induction ps arbitrary: cs) auto

lemma mok_coords [simp]: "mok (gr_coords (NewGraph m))"
  using coords_fold[of "[]" "map_Provinces m"] by (simp add: NewGraph_def Let_def)

lemma keys_coords [simp]: "fst ` set (gr_coords (NewGraph m)) = mp_ID ` set (map_Provinces m)"
  using coords_fold[of "[]" "map_Provinces m"] by (simp add: NewGraph_def Let_def)

theorem snap_returns_nearest_witness:
  "tg_Kind (SnapTarget plain_rt (NewGraph sample_map) 3 4) = TargetNode
   \<and> tg_Province (SnapTarget plain_rt (NewGraph sample_map) 3 4) \<in> {''a'', ''b'', ''c''}"
proof -
  let ?g = "NewGraph sample_map"
  have a: "(''a'', (0, 0)) \<in> set (gr_coords ?g)"
    by (simp add: NewGraph_def Let_def sample_map_def)
  have d: "node_dist 3 4 (''a'', (0, 0)) = 5"
    by (simp add: node_dist_def hypot_def)
  have m: "node_dist 3 4 (''a'', (0, 0)) < MaxFloat64"
    unfolding d MaxFloat64_def by simp
  have "[] \<notin> fst ` set (gr_coords ?g)" by (simp add: sample_map_def)
  note t = snap_returns_nearest[OF rt_ok_plain mok_coords this a m]
  have "\<exists>c\<in>set (gr_coords ?g). node_dist 3 4 c \<le> NodeSnapRadius"
    using a d by (force simp: NodeSnapRadius_def)
  then have "tg_Kind (SnapTarget plain_rt ?g 3 4) = TargetNode
      \<and> (\<exists>c\<in>set (gr_coords ?g). tg_Province (SnapTarget plain_rt ?g 3 4) = fst c)"
    using t by auto
  moreover have "fst c \<in> {''a'', ''b'', ''c''}" if "c \<in> set (gr_coords ?g)" for c
    using imageI[OF that, of fst] unfolding keys_coords by (simp add: sample_map_def)
  ultimately show ?thesis by metis
qed

lemma LegBlocked_iff:
  "LegBlocked d mover owners l =
     (let owner = owner_of owners (lg_ToProv l) in
        owner \<noteq> [] \<and> owner \<noteq> mover \<and> Stance d mover owner = Peace \<and> \<not> HasPact d owner mover RightOfWay)"
  by (cases "Stance d mover (owner_of owners (lg_ToProv l))")
     (auto simp: LegBlocked_def MayMoveThrough_def Let_def)

text \<open>
  Diplomacy on the road. A route is refused exactly when some leg enters a province of another
  slot with which the mover is at peace without having been granted right of way; provinces that are
  neutral, own, allied or hostile never refuse it.
\<close>

theorem route_blocked_iff:
  "RouteBlocked d mover owners legs =
     (\<exists>l\<in>set legs. let owner = owner_of owners (lg_ToProv l) in
        owner \<noteq> [] \<and> owner \<noteq> mover \<and> Stance d mover owner = Peace \<and> \<not> HasPact d owner mover RightOfWay)"
  by (simp only: RouteBlocked_def LegBlocked_iff)

end
