(* ===== verification/Catalogue.thy ===== *)
theory Catalogue
  imports Prelude
begin

text \<open>
  The game's constants: \<open>economydom\<close> (the resource value object), \<open>unitdom\<close> and
  \<open>buildingdom\<close> (the unit and building catalogues, one constructor for each type that implements
  \<open>Kind\<close>), and \<open>balance\<close>. Every \<open>float64\<close> is a real number: the model has no rounding, no
  NaN and no infinities.
\<close>

section \<open>economydom\<close>

record resources =
  Manpower :: real
  Food :: real
  Iron :: real

definition no_resources :: resources where
  "no_resources = \<lparr>Manpower = 0, Food = 0, Iron = 0\<rparr>"

definition res_Add :: "resources \<Rightarrow> resources \<Rightarrow> resources" where
  "res_Add r p = \<lparr>Manpower = Manpower r + Manpower p, Food = Food r + Food p, Iron = Iron r + Iron p\<rparr>"

definition CanPay :: "resources \<Rightarrow> resources \<Rightarrow> bool" where
  "CanPay r c \<longleftrightarrow> Manpower r \<ge> Manpower c \<and> Food r \<ge> Food c \<and> Iron r \<ge> Iron c"

definition Pay :: "resources \<Rightarrow> resources \<Rightarrow> resources" where
  "Pay r c = \<lparr>Manpower = Manpower r - Manpower c, Food = Food r - Food c, Iron = Iron r - Iron c\<rparr>"

definition Halved :: "resources \<Rightarrow> resources" where
  "Halved r = \<lparr>Manpower = Manpower r / 2, Food = Food r / 2, Iron = Iron r / 2\<rparr>"

lemmas res_defs = no_resources_def res_Add_def CanPay_def Pay_def Halved_def

text \<open>A stockpile or cost none of whose components is negative.\<close>

definition res_nonneg :: "resources \<Rightarrow> bool" where
  "res_nonneg r \<longleftrightarrow> CanPay r no_resources"

lemma res_nonneg_iff: "res_nonneg r \<longleftrightarrow> 0 \<le> Manpower r \<and> 0 \<le> Food r \<and> 0 \<le> Iron r"
  by (simp add: res_nonneg_def res_defs)

lemma res_nonneg_none [simp]: "res_nonneg no_resources"
  by (simp add: res_nonneg_iff res_defs)

lemma res_nonneg_Add [wf_intros]: "res_nonneg r \<Longrightarrow> res_nonneg p \<Longrightarrow> res_nonneg (res_Add r p)"
  by (simp add: res_nonneg_iff res_defs)

lemma res_nonneg_Pay [wf_intros]: "CanPay r c \<Longrightarrow> res_nonneg (Pay r c)"
  by (simp add: res_nonneg_iff res_defs)

lemma res_nonneg_Halved [wf_intros]: "res_nonneg r \<Longrightarrow> res_nonneg (Halved r)"
  by (simp add: res_nonneg_iff res_defs)

lemma Pay_Add: "res_Add (Pay r c) c = r"
  by (simp add: res_defs)

lemma Pay_le: "res_nonneg c \<Longrightarrow> CanPay r (Pay r c)"
  by (simp add: res_nonneg_iff res_defs)

section \<open>unitdom\<close>

datatype unit_kind = Infantry | Cavalry | Armor

primrec unit_kind_ID :: "unit_kind \<Rightarrow> string" where
  "unit_kind_ID Infantry = ''infantry''"
| "unit_kind_ID Cavalry = ''cavalry''"
| "unit_kind_ID Armor = ''armor''"

primrec unit_Cost :: "unit_kind \<Rightarrow> resources" where
  "unit_Cost Infantry = \<lparr>Manpower = 5, Food = 3, Iron = 0\<rparr>"
| "unit_Cost Cavalry = \<lparr>Manpower = 8, Food = 5, Iron = 3\<rparr>"
| "unit_Cost Armor = \<lparr>Manpower = 12, Food = 5, Iron = 8\<rparr>"

primrec unit_BuildTime :: "unit_kind \<Rightarrow> duration" where
  "unit_BuildTime Infantry = 5 * Minute"
| "unit_BuildTime Cavalry = 10 * Minute"
| "unit_BuildTime Armor = 20 * Minute"

primrec unit_Speed :: "unit_kind \<Rightarrow> real" where
  "unit_Speed Infantry = 50 / 3600"
| "unit_Speed Cavalry = 100 / 3600"
| "unit_Speed Armor = 80 / 3600"

primrec unit_StartingHP :: "unit_kind \<Rightarrow> real" where
  "unit_StartingHP Infantry = 100"
| "unit_StartingHP Cavalry = 80"
| "unit_StartingHP Armor = 140"

primrec unit_NeedsBuilding :: "unit_kind \<Rightarrow> string" where
  "unit_NeedsBuilding Infantry = ''''"
| "unit_NeedsBuilding Cavalry = ''''"
| "unit_NeedsBuilding Armor = ''factory''"

definition damageTable :: "(string, (string, real) gomap) gomap" where
  "damageTable =
     [(''infantry'', [(''infantry'', 30), (''cavalry'', 22), (''armor'', 38)]),
      (''cavalry'', [(''infantry'', 38), (''cavalry'', 30), (''armor'', 22)]),
      (''armor'', [(''infantry'', 22), (''cavalry'', 38), (''armor'', 30)])]"

definition defaultDamage :: real where
  "defaultDamage = 30"

definition damage :: "unit_kind \<Rightarrow> unit_kind \<Rightarrow> real" where
  "damage attacker defender =
     (case map_of damageTable (unit_kind_ID attacker) of
        Some row \<Rightarrow> (case map_of row (unit_kind_ID defender) of Some v \<Rightarrow> v | None \<Rightarrow> defaultDamage)
      | None \<Rightarrow> defaultDamage)"

definition unit_DamageVs :: "unit_kind \<Rightarrow> unit_kind \<Rightarrow> real" where
  "unit_DamageVs k other = damage k other"

definition unit_registry :: "(string, unit_kind) gomap" where
  "unit_registry = [(''infantry'', Infantry), (''cavalry'', Cavalry), (''armor'', Armor)]"

definition unit_ByID :: "string \<Rightarrow> unit_kind option" where
  "unit_ByID kid = map_of unit_registry kid"

definition unit_All :: "runtime \<Rightarrow> unit_kind list" where
  "unit_All rt = map snd (go_range rt unit_registry)"

lemma unit_ByID_ID [simp]: "unit_ByID (unit_kind_ID k) = Some k"
  by (cases k) (simp_all add: unit_ByID_def unit_registry_def)

lemma unit_ByID_Some: "unit_ByID kid = Some k \<longleftrightarrow> kid = unit_kind_ID k"
  by (cases k) (auto simp: unit_ByID_def unit_registry_def split: if_splits)

lemma unit_Cost_nonneg [simp]: "res_nonneg (unit_Cost k)"
  by (cases k) (simp_all add: res_nonneg_iff)

lemma unit_StartingHP_pos [simp]: "0 < unit_StartingHP k"
  by (cases k) simp_all

lemma unit_Speed_pos [simp]: "0 < unit_Speed k"
  by (cases k) simp_all

lemma unit_BuildTime_pos [simp]: "0 < unit_BuildTime k"
  by (cases k) (simp_all add: duration_defs)

section \<open>buildingdom\<close>

datatype building_kind = Factory

primrec building_kind_ID :: "building_kind \<Rightarrow> string" where
  "building_kind_ID Factory = ''factory''"

primrec building_Cost :: "building_kind \<Rightarrow> resources" where
  "building_Cost Factory = \<lparr>Manpower = 10, Food = 0, Iron = 20\<rparr>"

primrec building_BuildTime :: "building_kind \<Rightarrow> duration" where
  "building_BuildTime Factory = 30 * Minute"

primrec building_Production :: "building_kind \<Rightarrow> resources" where
  "building_Production Factory = \<lparr>Manpower = 2, Food = 0, Iron = 4\<rparr>"

definition building_registry :: "(string, building_kind) gomap" where
  "building_registry = [(''factory'', Factory)]"

definition building_ByID :: "string \<Rightarrow> building_kind option" where
  "building_ByID kid = map_of building_registry kid"

definition building_All :: "runtime \<Rightarrow> building_kind list" where
  "building_All rt = map snd (go_range rt building_registry)"

lemma building_Cost_nonneg [simp]: "res_nonneg (building_Cost k)"
  by (cases k) (simp_all add: res_nonneg_iff)

lemma building_Production_nonneg [simp]: "res_nonneg (building_Production k)"
  by (cases k) (simp_all add: res_nonneg_iff)

lemma building_BuildTime_pos [simp]: "0 < building_BuildTime k"
  by (cases k) (simp_all add: duration_defs)

section \<open>balance\<close>

definition MacroPulseInterval :: duration where
  "MacroPulseInterval = Hour"

definition StartingResources :: resources where
  "StartingResources = \<lparr>Manpower = 30, Food = 50, Iron = 20\<rparr>"

definition ProvinceRevenue :: resources where
  "ProvinceRevenue = \<lparr>Manpower = 4, Food = 5, Iron = 1\<rparr>"

definition OwnedProvinceViewRadius :: real where
  "OwnedProvinceViewRadius = 180"

definition DefaultUnitViewRadius :: real where
  "DefaultUnitViewRadius = 200"

definition UnitViewRadius :: "string \<Rightarrow> real" where
  "UnitViewRadius unitType =
     (if unitType = ''infantry'' then 2200
      else if unitType = ''cavalry'' then 280
      else if unitType = ''armor'' then 260
      else DefaultUnitViewRadius)"

definition FallbackUnitSpeed :: real where
  "FallbackUnitSpeed = 50 / 3600"

lemma ProvinceRevenue_nonneg [simp]: "res_nonneg ProvinceRevenue"
  by (simp add: res_nonneg_iff ProvinceRevenue_def)

lemma StartingResources_nonneg [simp]: "res_nonneg StartingResources"
  by (simp add: res_nonneg_iff StartingResources_def)

lemma FallbackUnitSpeed_pos [simp]: "0 < FallbackUnitSpeed"
  by (simp add: FallbackUnitSpeed_def)

lemma UnitViewRadius_pos [simp]: "0 < UnitViewRadius k"
  by (simp add: UnitViewRadius_def DefaultUnitViewRadius_def)

lemma MacroPulseInterval_pos [simp]: "0 < MacroPulseInterval"
  by (simp add: MacroPulseInterval_def duration_defs)

end
