(* ===== verification/Timeline.thy ===== *)
theory Timeline
  imports GoHeap
begin

text \<open>
  \<open>internal/domain/timeline\<close>: the engine's discrete-event scheduler, a min-heap of events keyed
  by game time. The field \<open>index\<close> of an event, which \<open>Swap\<close>, \<open>Push\<close> and \<open>Pop\<close> write and
  nothing reads, is left out. The package's heap is the instance of \<open>GoHeap\<close> at \<open>Less\<close>, and
  the interpretation \<open>tl\<close> gives the scheduler the priority-queue contract.
\<close>

datatype event_kind =
    Arrival
  | CombatStart
  | CombatTick
  | MacroPulse
  | VictoryCheck
  | RecruitComplete
  | ConstructComplete
  | MatchCleanup

record event =
  ev_At :: time
  ev_Kind :: event_kind
  ev_UnitID :: string
  ev_Other :: string
  ev_Version :: "64 word"

type_synonym timeline = "event list"

definition event_Less :: "event \<Rightarrow> event \<Rightarrow> bool" where
  "event_Less a b \<longleftrightarrow> ev_At a < ev_At b"

definition tl_New :: timeline where
  "tl_New = []"

definition tl_Push :: "event \<Rightarrow> timeline \<Rightarrow> timeline" where
  "tl_Push e t = heap_push event_Less e t"

definition tl_Peek :: "timeline \<Rightarrow> event option" where
  "tl_Peek t = (if t = [] then None else Some (t ! 0))"

definition tl_Pop :: "timeline \<Rightarrow> (event \<times> timeline) option" where
  "tl_Pop t = (if t = [] then None else Some (heap_pop event_Less t))"

definition tl_Len :: "timeline \<Rightarrow> nat" where
  "tl_Len t = length t"

text \<open>The heap order every operation keeps.\<close>

definition tl_ok :: "timeline \<Rightarrow> bool" where
  "tl_ok t \<longleftrightarrow> heap_ordered event_Less t"

interpretation evh: heap_order event_Less
  by unfold_locales (auto simp: event_Less_def)

interpretation tl: priority_queue event_Less tl_ok mset tl_Push tl_Pop
proof -
  have "tl_Pop = heap_pop_opt event_Less" "tl_Push = heap_push event_Less" "tl_ok = heap_ordered event_Less"
    by (auto simp: fun_eq_iff tl_Pop_def heap_pop_opt_def tl_Push_def tl_ok_def)
  then show "priority_queue event_Less tl_ok mset tl_Push tl_Pop"
    using evh.pq.priority_queue_axioms by simp
qed

lemma tl_ok_New [simp]: "tl_ok tl_New"
  by (simp add: tl_ok_def tl_New_def)

lemma tl_ok_Push [simp, intro, wf_intros]: "tl_ok t \<Longrightarrow> tl_ok (tl_Push e t)"
  by (rule tl.push_ok)

lemma mset_tl_Push [simp]: "mset (tl_Push e t) = add_mset e (mset t)"
  by (rule tl.push_contents)

lemma set_tl_Push [simp]: "set (tl_Push e t) = insert e (set t)"
  by (metis mset_tl_Push set_mset_add_mset_insert set_mset_mset)

lemma length_tl_Push [simp]: "length (tl_Push e t) = Suc (length t)"
  by (metis mset_tl_Push size_add_mset size_mset)

lemma tl_Push_not_Nil [simp]: "tl_Push e t \<noteq> []"
  by (metis length_tl_Push list.size(3) nat.distinct(1))

lemma tl_Peek_None [simp]: "tl_Peek t = None \<longleftrightarrow> t = []"
  by (simp add: tl_Peek_def)

lemma tl_Pop_None [simp]: "tl_Pop t = None \<longleftrightarrow> t = []"
  by (simp add: tl_Pop_def)

lemma tl_Pop_Peek: "tl_Pop t = Some (e, t') \<Longrightarrow> tl_Peek t = Some e"
  using heap_pop_first[of t event_Less] by (auto simp: tl_Pop_def tl_Peek_def split: if_splits)

lemma tl_Pop_ok: "tl_ok t \<Longrightarrow> tl_Pop t = Some (e, t') \<Longrightarrow> tl_ok t'"
  by (rule tl.pop_ok)

lemma tl_Pop_mset: "tl_Pop t = Some (e, t') \<Longrightarrow> mset t = add_mset e (mset t')"
  by (rule tl.pop_contents)

lemma tl_Pop_set: "tl_Pop t = Some (e, t') \<Longrightarrow> set t = insert e (set t')"
  by (metis tl_Pop_mset set_mset_add_mset_insert set_mset_mset)

lemma tl_Pop_min: "tl_ok t \<Longrightarrow> tl_Pop t = Some (e, t') \<Longrightarrow> e' \<in> set t \<Longrightarrow> ev_At e \<le> ev_At e'"
  using tl.pop_min[of t e t' e'] by (simp add: event_Less_def)

lemma tl_Peek_min: "tl_ok t \<Longrightarrow> tl_Peek t = Some e \<Longrightarrow> e' \<in> set t \<Longrightarrow> ev_At e \<le> ev_At e'"
  using evh.heap_min[of t] by (fastforce simp: tl_Peek_def tl_ok_def event_Less_def in_set_conv_nth not_less split: if_splits)

section \<open>Correctness of the scheduler\<close>

text \<open>
  C1. The timeline is a scheduler: after pushing any events onto it, popping until it is empty
  returns exactly those events together with the ones it held, each as often as it was pushed, in
  non-decreasing game time.
\<close>

theorem timeline_pops_in_time_order:
  assumes "tl_ok t"
  shows "let t' = foldr tl_Push es t; popped = drain tl_Pop (tl_Len t') t' in
         sorted (map ev_At popped) \<and> mset popped = mset es + mset t \<and> tl_ok t'"
proof -
  let ?t = "foldr tl_Push es t"
  have ok: "tl_ok ?t" and c: "mset ?t = mset es + mset t"
    using assms tl.foldr_push_ok tl.foldr_push_contents by auto
  have "sorted_wrt (\<lambda>x y. \<not> event_Less y x) (drain tl_Pop (tl_Len ?t) ?t)"
    using tl.drain_sorted[OF ok] by (simp add: tl_Len_def)
  then have "sorted (map ev_At (drain tl_Pop (tl_Len ?t) ?t))"
    by (auto simp: sorted_map event_Less_def not_less elim: sorted_wrt_mono_rel[rotated])
  moreover have "mset (drain tl_Pop (tl_Len ?t) ?t) = mset es + mset t"
    using tl.mset_drain[of ?t "tl_Len ?t"] unfolding tl_Len_def c[symmetric] by simp
  ultimately show ?thesis using ok by (simp add: Let_def)
qed

definition sample_event :: "time \<Rightarrow> event" where
  "sample_event t = \<lparr>ev_At = t, ev_Kind = Arrival, ev_UnitID = [], ev_Other = [], ev_Version = 0\<rparr>"

theorem timeline_pops_in_time_order_witness:
  "let t' = foldr tl_Push (map sample_event [2, 1, 3]) tl_New; popped = drain tl_Pop (tl_Len t') t' in
   sorted (map ev_At popped) \<and> mset popped = mset (map sample_event [2, 1, 3]) + mset tl_New \<and> tl_ok t'"
  by (rule timeline_pops_in_time_order[OF tl_ok_New])

end
