(* ===== verification/MatchState.thy ===== *)
theory MatchState
  imports Catalogue Timeline Pathdom
begin

text \<open>
  \<open>internal/domain/matchdom\<close>, the state of one match (\<open>state.go\<close>), its creation from a map
  (\<open>match.go\<close>), the events the engine emits (\<open>events.go\<close>, \<open>wire_unit.go\<close>), the revenue of a
  macro pulse (\<open>economy.go\<close>), and the well-formedness invariant \<open>match_ok\<close> every operation
  keeps. Units, provinces and players, which the code holds by pointer in maps, are records in
  association lists; a method that changes a unit puts it back under its identifier.
\<close>

section \<open>state.go\<close>

record path_leg =
  pl_FromProv :: province_id
  pl_ToProv :: province_id
  pl_FromX :: real
  pl_FromY :: real
  pl_ToX :: real
  pl_ToY :: real
  pl_ArrivesAt :: time

record game_unit =
  u_ID :: unit_id
  u_OwnerSlot :: slot
  u_Type :: string
  u_HP :: real
  u_Origin :: province_id
  u_Dest :: province_id
  u_StartedAt :: time
  u_ArrivesAt :: time
  u_OriginX :: real
  u_OriginY :: real
  u_DestX :: real
  u_DestY :: real
  u_Speed :: real
  u_Version :: "64 word"
  u_Path :: "path_leg list"
  u_PathIndex :: nat
  u_Waypoints :: "target list"

text \<open>The linear motion shared by both branches of \<open>PositionAt\<close>.\<close>

definition lerp_position :: "time \<Rightarrow> time \<Rightarrow> real \<Rightarrow> real \<Rightarrow> real \<Rightarrow> real \<Rightarrow> time \<Rightarrow> real \<times> real" where
  "lerp_position started arrives fx fy tx ty t =
     (if \<not> t > started then (fx, fy)
      else if \<not> t < arrives then (tx, ty)
      else
        let totalDur = duration_seconds (time_sub arrives started) in
        if totalDur \<le> 0 then (tx, ty)
        else
          let progress = duration_seconds (time_sub t started) / totalDur in
          (fx + (tx - fx) * progress, fy + (ty - fy) * progress))"

definition PositionAt :: "game_unit \<Rightarrow> time \<Rightarrow> real \<times> real" where
  "PositionAt u t =
     (if u_Path u \<noteq> [] \<and> u_PathIndex u < length (u_Path u) then
        let l = u_Path u ! u_PathIndex u in
        lerp_position (u_StartedAt u) (pl_ArrivesAt l) (pl_FromX l) (pl_FromY l) (pl_ToX l) (pl_ToY l) t
      else if u_Origin u = u_Dest u \<or> time_isZero (u_ArrivesAt u) then (u_OriginX u, u_OriginY u)
      else lerp_position (u_StartedAt u) (u_ArrivesAt u) (u_OriginX u) (u_OriginY u) (u_DestX u) (u_DestY u) t)"

definition IsMoving :: "game_unit \<Rightarrow> time \<Rightarrow> bool" where
  "IsMoving u t =
     (if u_Path u \<noteq> [] \<and> u_PathIndex u < length (u_Path u) then t < pl_ArrivesAt (u_Path u ! u_PathIndex u)
      else \<not> time_isZero (u_ArrivesAt u) \<and> t < u_ArrivesAt u \<and> u_Origin u \<noteq> u_Dest u)"

record province =
  p_ID :: province_id
  p_X :: real
  p_Y :: real
  p_Owner :: slot
  p_Capital :: bool

record player =
  py_Slot :: slot
  py_UserID :: user_id
  py_Name :: string
  py_Color :: string
  py_Alive :: bool

record building =
  b_Type :: string
  b_Province :: province_id
  b_OwnerSlot :: slot

record recruit_order =
  ro_ID :: string
  ro_OwnerSlot :: slot
  ro_Province :: province_id
  ro_UnitType :: string
  ro_IssuedAt :: time
  ro_CompletesAt :: time

record build_order =
  bo_ID :: string
  bo_OwnerSlot :: slot
  bo_Province :: province_id
  bo_BuildingType :: string
  bo_IssuedAt :: time
  bo_CompletesAt :: time

text \<open>The map of visibility contributors is absent until it is first built; its inner sets of slots
  are lists.\<close>

record match =
  m_ID :: string
  m_MapID :: string
  m_Map :: game_map
  m_Tick :: "64 word"
  m_StartedAt :: time
  m_GameStart :: time
  m_GameNow :: time
  m_Speed :: real
  m_Players :: "(slot, player) gomap"
  m_Provinces :: "(province_id, province) gomap"
  m_Units :: "(unit_id, game_unit) gomap"
  m_Resources :: "(slot, resources) gomap"
  m_Buildings :: "building list"
  m_Timeline :: timeline
  m_Status :: string
  m_WinnerSlot :: slot
  m_WinnerCoal :: "slot list"
  m_CleanupDone :: bool
  m_Seq :: "64 word"
  m_NextRecruit :: "(string, recruit_order) gomap"
  m_NextBuild :: "(string, build_order) gomap"
  m_Diplomacy :: registry
  m_VisContributorVersion :: "64 word"
  m_VisContributors :: "(slot, slot list) gomap option"

definition SlotIDs :: "match \<Rightarrow> slot list" where
  "SlotIDs m = sort (mkeys (m_Players m))"

definition HasBuilding :: "match \<Rightarrow> province_id \<Rightarrow> string \<Rightarrow> bool" where
  "HasBuilding m provinceID buildingType \<longleftrightarrow>
     (\<exists>b\<in>set (m_Buildings m). b_Province b = provinceID \<and> b_Type b = buildingType)"

definition EuclidDistance :: "real \<Rightarrow> real \<Rightarrow> real \<Rightarrow> real \<Rightarrow> real" where
  "EuclidDistance ax ay bx by = (let dx = ax - bx; dy = ay - by in sqrt (dx * dx + dy * dy))"

section \<open>match.go\<close>

datatype new_error =
    NewMapError map_error
  | StartingUnitOnUnknownProvince province_id

definition defaultSpeed :: "string \<Rightarrow> real" where
  "defaultSpeed unitType =
     (case unit_ByID unitType of
        Some k \<Rightarrow> unit_Speed k
      | None \<Rightarrow> (case unit_ByID ''infantry'' of Some k \<Rightarrow> unit_Speed k | None \<Rightarrow> FallbackUnitSpeed))"

definition empty_match :: "string \<Rightarrow> string \<Rightarrow> game_map \<Rightarrow> real \<Rightarrow> time \<Rightarrow> match" where
  "empty_match matchID mapID gm speed startedAt =
     \<lparr>m_ID = matchID, m_MapID = mapID, m_Map = gm, m_Tick = 0,
      m_StartedAt = startedAt, m_GameStart = startedAt, m_GameNow = startedAt, m_Speed = speed,
      m_Players = [], m_Provinces = [], m_Units = [], m_Resources = [], m_Buildings = [],
      m_Timeline = tl_New, m_Status = ''active'', m_WinnerSlot = [], m_WinnerCoal = [],
      m_CleanupDone = False, m_Seq = 0, m_NextRecruit = [], m_NextBuild = [],
      m_Diplomacy = reg_New, m_VisContributorVersion = 0, m_VisContributors = None\<rparr>"

definition new_province :: "match \<Rightarrow> map_province \<Rightarrow> match" where
  "new_province m p =
     m\<lparr>m_Provinces := mput (mp_ID p)
         \<lparr>p_ID = mp_ID p, p_X = mp_X p, p_Y = mp_Y p,
          p_Owner = (if mp_HomeSlot p \<noteq> [] then mp_HomeSlot p else []), p_Capital = False\<rparr>
         (m_Provinces m)\<rparr>"

definition new_slot :: "(slot, user_id) gomap \<Rightarrow> match \<Rightarrow> map_slot \<Rightarrow> match" where
  "new_slot slotAssignments m s =
     (let m1 = m\<lparr>m_Players := mput (msl_ID s)
            \<lparr>py_Slot = msl_ID s, py_UserID = mget_default [] slotAssignments (msl_ID s), py_Name = [],
             py_Color = msl_Color s, py_Alive = True\<rparr> (m_Players m),
          m_Resources := mput (msl_ID s) StartingResources (m_Resources m)\<rparr>
      in case map_of (m_Provinces m1) (msl_Capital s) of
           None \<Rightarrow> m1
         | Some prov \<Rightarrow>
             m1\<lparr>m_Provinces := mput (msl_Capital s) (prov\<lparr>p_Owner := msl_ID s, p_Capital := True\<rparr>) (m_Provinces m1)\<rparr>)"

definition starting_unit_at :: "string \<Rightarrow> time \<Rightarrow> starting_unit \<Rightarrow> map_province \<Rightarrow> game_unit" where
  "starting_unit_at uuid startedAt su prov =
     \<lparr>u_ID = uuid, u_OwnerSlot = su_Slot su, u_Type = su_Type su,
      u_HP = (if su_HP su = 0 then 100 else su_HP su),
      u_Origin = mp_ID prov, u_Dest = mp_ID prov, u_StartedAt = startedAt, u_ArrivesAt = startedAt,
      u_OriginX = mp_X prov, u_OriginY = mp_Y prov, u_DestX = mp_X prov, u_DestY = mp_Y prov,
      u_Speed = defaultSpeed (su_Type su), u_Version = 1,
      u_Path = [], u_PathIndex = 0, u_Waypoints = []\<rparr>"

fun new_units :: "runtime \<Rightarrow> time \<Rightarrow> match \<Rightarrow> starting_unit list \<Rightarrow> new_error + match" where
  "new_units rt startedAt m [] = Inr m"
| "new_units rt startedAt m (su # sus) =
     (case map_Province (m_Map m) (su_Province su) of
        Inl _ \<Rightarrow> Inl (StartingUnitOnUnknownProvince (su_Province su))
      | Inr prov \<Rightarrow>
          let u = starting_unit_at (uuid_at (sub rt 0) []) startedAt su prov in
          new_units (sub rt 1) startedAt (m\<lparr>m_Units := mput (u_ID u) u (m_Units m)\<rparr>) sus)"

definition match_New :: "runtime \<Rightarrow> (string \<Rightarrow> game_map option) \<Rightarrow> (string \<times> string option) list \<Rightarrow>
    string \<Rightarrow> string \<Rightarrow> (slot, user_id) gomap \<Rightarrow> real \<Rightarrow> time \<Rightarrow> new_error + match" where
  "match_New rt decode files matchID mapID slotAssignments speed startedAt =
     (case map_Load decode files mapID of
        Inl err \<Rightarrow> Inl (NewMapError err)
      | Inr gm \<Rightarrow>
          let m1 = foldl new_province (empty_match matchID mapID gm speed startedAt) (map_Provinces gm);
              m2 = foldl (new_slot slotAssignments) m1 (map_Slots gm);
              m3 = m2\<lparr>m_Timeline := tl_Push \<lparr>ev_At = startedAt + MacroPulseInterval, ev_Kind = MacroPulse,
                       ev_UnitID = [], ev_Other = [], ev_Version = 0\<rparr> (m_Timeline m2)\<rparr>
          in new_units rt startedAt m3 (map_StartingUnits gm))"

section \<open>events.go and economy.go\<close>

record applied_event =
  ae_Kind :: string
  ae_OccurAt :: time
  ae_Seq :: "64 word"
  ae_UnitID :: unit_id
  ae_Province :: province_id
  ae_Slot :: slot
  ae_Extra :: extra

text \<open>\<open>m.Seq++\<close>.\<close>

definition bump_seq :: "match \<Rightarrow> match" where
  "bump_seq m = m\<lparr>m_Seq := m_Seq m + 1\<rparr>"

definition macroPulseRevenue :: "match \<Rightarrow> slot \<Rightarrow> resources" where
  "macroPulseRevenue m s =
     (let r1 = foldl (\<lambda>r p. if p_Owner p \<noteq> s then r else res_Add r ProvinceRevenue)
                 no_resources (map snd (m_Provinces m))
      in foldl (\<lambda>r b. if b_OwnerSlot b \<noteq> s then r
                      else case building_ByID (b_Type b) of
                             Some kind \<Rightarrow> res_Add r (building_Production kind)
                           | None \<Rightarrow> r) r1 (m_Buildings m))"

definition put_unit :: "game_unit \<Rightarrow> match \<Rightarrow> match" where
  "put_unit u m = m\<lparr>m_Units := mput (u_ID u) u (m_Units m)\<rparr>"

definition put_province :: "province \<Rightarrow> match \<Rightarrow> match" where
  "put_province p m = m\<lparr>m_Provinces := mput (p_ID p) p (m_Provinces m)\<rparr>"

section \<open>Well-formed matches\<close>

text \<open>A unit has positive speed and, while it has a path, is on one of its legs.\<close>

definition unit_ok :: "game_unit \<Rightarrow> bool" where
  "unit_ok u \<longleftrightarrow> 0 < u_Speed u \<and> (u_Path u = [] \<or> u_PathIndex u < length (u_Path u))"

definition units_ok :: "match \<Rightarrow> bool" where
  "units_ok m \<longleftrightarrow> mok (m_Units m) \<and> (\<forall>(i, u)\<in>set (m_Units m). u_ID u = i \<and> unit_ok u)"

definition provinces_ok :: "match \<Rightarrow> bool" where
  "provinces_ok m \<longleftrightarrow> mok (m_Provinces m) \<and> (\<forall>(i, p)\<in>set (m_Provinces m). p_ID p = i)"

text \<open>No stockpile is negative, and orders in progress are stored under their province.\<close>

definition economy_ok :: "match \<Rightarrow> bool" where
  "economy_ok m \<longleftrightarrow> mok (m_Resources m) \<and> (\<forall>(s, r)\<in>set (m_Resources m). res_nonneg r) \<and>
     mok (m_NextRecruit m) \<and> mok (m_NextBuild m) \<and>
     (\<forall>(i, r)\<in>set (m_NextRecruit m). ro_Province r = i) \<and> (\<forall>(i, b)\<in>set (m_NextBuild m). bo_Province b = i)"

definition match_ok :: "match \<Rightarrow> bool" where
  "match_ok m \<longleftrightarrow> units_ok m \<and> provinces_ok m \<and> economy_ok m \<and> mok (m_Players m) \<and>
     tl_ok (m_Timeline m) \<and> reg_ok (m_Diplomacy m)"

lemma match_okD:
  assumes "match_ok m"
  shows "units_ok m" "provinces_ok m" "economy_ok m" "mok (m_Players m)" "tl_ok (m_Timeline m)" "reg_ok (m_Diplomacy m)"
  using assms by (simp_all add: match_ok_def)

lemma units_okD: "units_ok m \<Longrightarrow> map_of (m_Units m) i = Some u \<Longrightarrow> u_ID u = i"
  by (auto simp: units_ok_def dest!: map_of_SomeD)

lemma units_ok_unit: "units_ok m \<Longrightarrow> map_of (m_Units m) i = Some u \<Longrightarrow> unit_ok u"
  by (auto simp: units_ok_def dest!: map_of_SomeD)

lemma provinces_okD: "provinces_ok m \<Longrightarrow> map_of (m_Provinces m) i = Some p \<Longrightarrow> p_ID p = i"
  by (auto simp: provinces_ok_def dest!: map_of_SomeD)

lemma economy_okD: "economy_ok m \<Longrightarrow> map_of (m_Resources m) s = Some r \<Longrightarrow> res_nonneg r"
  by (auto simp: economy_ok_def dest!: map_of_SomeD)

lemma match_ok_put_unit [wf_intros]: "match_ok m \<Longrightarrow> unit_ok u \<Longrightarrow> match_ok (put_unit u m)"
  by (auto simp: match_ok_def put_unit_def units_ok_def provinces_ok_def economy_ok_def dest!: subsetD[OF set_mput_subset])

lemma match_ok_del_unit [wf_intros]: "match_ok m \<Longrightarrow> match_ok (m\<lparr>m_Units := mdel i (m_Units m)\<rparr>)"
  by (auto simp: match_ok_def units_ok_def provinces_ok_def economy_ok_def dest!: subsetD[OF set_mdel_subset])

lemma match_ok_put_province [wf_intros]: "match_ok m \<Longrightarrow> match_ok (put_province p m)"
  by (auto simp: match_ok_def put_province_def units_ok_def provinces_ok_def economy_ok_def dest!: subsetD[OF set_mput_subset])

lemma match_ok_bump_seq [simp]: "match_ok (bump_seq m) = match_ok m"
  by (simp add: match_ok_def bump_seq_def units_ok_def provinces_ok_def economy_ok_def)

lemma match_ok_push [wf_intros]: "match_ok m \<Longrightarrow> match_ok (m\<lparr>m_Timeline := tl_Push e (m_Timeline m)\<rparr>)"
  by (simp add: match_ok_def units_ok_def provinces_ok_def economy_ok_def)

lemma match_ok_resources [wf_intros]:
  "match_ok m \<Longrightarrow> res_nonneg r \<Longrightarrow> match_ok (m\<lparr>m_Resources := mput s r (m_Resources m)\<rparr>)"
  by (auto simp: match_ok_def units_ok_def provinces_ok_def economy_ok_def dest!: subsetD[OF set_mput_subset])

lemma match_ok_diplomacy [wf_intros]: "match_ok m \<Longrightarrow> reg_ok d \<Longrightarrow> match_ok (m\<lparr>m_Diplomacy := d\<rparr>)"
  by (simp add: match_ok_def units_ok_def provinces_ok_def economy_ok_def)

lemma defaultSpeed_pos [simp]: "0 < defaultSpeed ty"
  by (simp add: defaultSpeed_def split: option.splits)

lemma macroPulseRevenue_nonneg: "res_nonneg (macroPulseRevenue m s)"
  unfolding macroPulseRevenue_def Let_def
  by (intro foldl_invariant[where P = res_nonneg]) (auto intro: res_nonneg_Add split: option.splits)

end
