(* ===== verification/Combat.thy ===== *)
theory Combat
  imports MatchState
begin

text \<open>
  \<open>internal/domain/matchdom/combat.go\<close>: what happens in a province when a unit stops there. The
  champions map holds pointers to units of the match: the model keeps a copy of each champion and
  writes every change through to the match's unit of the same identifier, as long as it is still
  there. The combat loop has no bound in the code, so it is a partial function into \<open>option\<close>
  whose value is \<open>None\<close> when it does not end.
\<close>

type_synonym champions = "(slot, game_unit) gomap"

definition unitDamage :: "string \<Rightarrow> string \<Rightarrow> real" where
  "unitDamage attacker defender =
     (case (unit_ByID attacker, unit_ByID defender) of
        (Some atk, Some def) \<Rightarrow> unit_DamageVs atk def
      | _ \<Rightarrow> 30)"

definition stationary_in :: "province_id \<Rightarrow> time \<Rightarrow> game_unit \<Rightarrow> bool" where
  "stationary_in provID tm u \<longleftrightarrow>
     u_Origin u = provID \<and> u_Dest u = provID \<and> \<not> IsMoving u tm \<and> u_HP u > 0"

definition stationaryUnitsIn :: "runtime \<Rightarrow> match \<Rightarrow> province_id \<Rightarrow> time \<Rightarrow> game_unit list" where
  "stationaryUnitsIn rt m provID tm = filter (stationary_in provID tm) (map snd (go_range rt (m_Units m)))"

definition collapse_step :: "slot list \<Rightarrow> match \<times> champions \<Rightarrow> game_unit \<Rightarrow> match \<times> champions" where
  "collapse_step allSlots mc u =
     (case mc of (m, champs) \<Rightarrow>
       let coal = CoalitionID (m_Diplomacy m) (u_OwnerSlot u) allSlots in
       case map_of champs coal of
         Some ex \<Rightarrow>
           let ex1 = ex\<lparr>u_HP := u_HP ex + u_HP u\<rparr>;
               ex2 = (if u_HP u > u_HP ex1 / 2 then ex1\<lparr>u_OwnerSlot := u_OwnerSlot u, u_Type := u_Type u\<rparr> else ex1)
           in (m\<lparr>m_Units := mdel (u_ID u) (mput (u_ID ex2) ex2 (m_Units m))\<rparr>, mput coal ex2 champs)
       | None \<Rightarrow> (m, mput coal u champs))"

definition collapseChampions :: "match \<Rightarrow> game_unit list \<Rightarrow> match \<times> champions" where
  "collapseChampions m stationary = foldl (collapse_step (SlotIDs m)) (m, []) stationary"

definition pickExtreme :: "runtime \<Rightarrow> champions \<Rightarrow> bool \<Rightarrow> game_unit option" where
  "pickExtreme rt champs low =
     foldl (\<lambda>pick u. case pick of
              None \<Rightarrow> Some u
            | Some p \<Rightarrow> if (low \<and> u_HP u < u_HP p) \<or> (\<not> low \<and> u_HP u > u_HP p) then Some u else Some p)
       None (map snd (go_range rt champs))"

text \<open>\<open>u == skip\<close> compares pointers; two units are the same object when they have the same
  identifier.\<close>

definition excluding :: "champions \<Rightarrow> game_unit \<Rightarrow> champions" where
  "excluding champs skip = filter (\<lambda>(k, u). u_ID u \<noteq> u_ID skip) champs"

text \<open>An assignment through the pointer of a champion: the copies among the champions and, unless it
  was deleted from the match, the match's unit.\<close>

definition write_champions :: "game_unit \<Rightarrow> champions \<Rightarrow> champions" where
  "write_champions u champs = map (\<lambda>(k, c). (k, if u_ID c = u_ID u then u else c)) champs"

definition write_through :: "game_unit \<Rightarrow> match \<Rightarrow> match" where
  "write_through u m = (if map_of (m_Units m) (u_ID u) \<noteq> None then put_unit u m else m)"

definition combat_event :: "string \<Rightarrow> time \<Rightarrow> match \<Rightarrow> game_unit \<Rightarrow> extra \<Rightarrow> applied_event" where
  "combat_event kind tm m u ex =
     \<lparr>ae_Kind = kind, ae_OccurAt = tm, ae_Seq = m_Seq m, ae_UnitID = u_ID u, ae_Province = [],
      ae_Slot = u_OwnerSlot u, ae_Extra = ex\<rparr>"

text \<open>One turn of the loop. \<open>None\<close> is a nil dereference.\<close>

definition fight_round :: "runtime \<Rightarrow> match \<Rightarrow> champions \<Rightarrow> province_id \<Rightarrow> time \<Rightarrow>
    (match \<times> champions \<times> applied_event list) option" where
  "fight_round rt m champs provID tm =
     (case pickExtreme (sub rt 0) champs True of
        None \<Rightarrow> None
      | Some weakest \<Rightarrow>
          (case pickExtreme (sub rt 1) (excluding champs weakest) False of
             None \<Rightarrow> None
           | Some attacker \<Rightarrow>
               let dmg = unitDamage (u_Type attacker) (u_Type weakest);
                   w = weakest\<lparr>u_HP := u_HP weakest - dmg\<rparr>;
                   m1 = bump_seq (write_through w m);
                   champs1 = write_champions w champs;
                   damage = combat_event ''combat_damage'' tm m1 w [(''hp'', JNum (u_HP w)), (''province'', JStr provID)]
               in if u_HP w \<le> 0 then
                    let m2 = bump_seq (m1\<lparr>m_Units := mdel (u_ID w) (m_Units m1)\<rparr>);
                        champs2 = mdel (u_OwnerSlot w) champs1;
                        destroyed = combat_event ''unit_destroyed'' tm m2 w [(''province'', JStr provID)]
                    in Some (m2, champs2, [damage, destroyed])
                  else Some (m1, champs1, [damage])))"

partial_function (option) fight :: "runtime \<Rightarrow> match \<Rightarrow> champions \<Rightarrow> province_id \<Rightarrow> time \<Rightarrow> applied_event list \<Rightarrow>
    (match \<times> champions \<times> applied_event list) option" where
  "fight rt m champs provID tm out =
     (if length champs \<le> 1 then Some (m, champs, out)
      else Option.bind (fight_round (sub rt 0) m champs provID tm)
             (\<lambda>(m', champs', es). fight (sub rt 1) m' champs' provID tm (out @ es)))"

definition fightUntilOneStands :: "runtime \<Rightarrow> match \<Rightarrow> champions \<Rightarrow> province_id \<Rightarrow> time \<Rightarrow>
    (match \<times> champions \<times> applied_event list) option" where
  "fightUntilOneStands rt m champs provID tm = fight rt m champs provID tm []"

definition captureIfOwnerChanged :: "runtime \<Rightarrow> match \<Rightarrow> province \<Rightarrow> champions \<Rightarrow> time \<Rightarrow> match \<times> applied_event list" where
  "captureIfOwnerChanged rt m prov champs tm =
     (case foldl (\<lambda>_ u. Some u) None (map snd (go_range rt champs)) of
        None \<Rightarrow> (m, [])
      | Some winner \<Rightarrow>
          let allSlots = SlotIDs m in
          if p_Owner prov \<noteq> [] \<and>
             CoalitionID (m_Diplomacy m) (p_Owner prov) allSlots = CoalitionID (m_Diplomacy m) (u_OwnerSlot winner) allSlots
          then (m, [])
          else
            let m1 = bump_seq (put_province (prov\<lparr>p_Owner := u_OwnerSlot winner\<rparr>) m) in
            (m1, [\<lparr>ae_Kind = ''province_captured'', ae_OccurAt = tm, ae_Seq = m_Seq m1, ae_UnitID = [],
                   ae_Province = p_ID prov, ae_Slot = u_OwnerSlot winner,
                   ae_Extra = [(''previous_owner'', JStr (p_Owner prov))]\<rparr>]))"

definition resolveProvince :: "runtime \<Rightarrow> match \<Rightarrow> province \<Rightarrow> time \<Rightarrow> (match \<times> applied_event list) option" where
  "resolveProvince rt m prov tm =
     (let stationary = stationaryUnitsIn (sub rt 0) m (p_ID prov) tm in
      if stationary = [] then Some (m, [])
      else
        let (m1, champs) = collapseChampions m stationary in
        Option.bind (fightUntilOneStands (sub rt 1) m1 champs (p_ID prov) tm)
          (\<lambda>(m2, champs2, out).
             let (m3, out2) = captureIfOwnerChanged (sub rt 2) m2 prov champs2 tm in
             Some (m3, out @ out2)))"

end
