(* ===== verification/Victory.thy ===== *)
theory Victory
  imports MatchState
begin

text \<open>
  \<open>internal/domain/matchdom/victory.go\<close> and \<open>stats.go\<close>: the end of a match. The sets of slots
  are lists without duplicates; the two loops over them give the same result in any order.
\<close>

definition CleanupDelay :: duration where
  "CleanupDelay = 5 * Minute"

definition winningSlotList :: "slot list \<Rightarrow> slot list \<Rightarrow> slot list" where
  "winningSlotList members capitalSlots = sort (filter (\<lambda>s. s \<in> set capitalSlots) members)"

definition capital_slots :: "match \<Rightarrow> slot list" where
  "capital_slots m =
     foldl (\<lambda>acc p. if \<not> p_Capital p \<or> p_Owner p = [] then acc else List.insert (p_Owner p) acc)
       [] (map snd (m_Provinces m))"

definition capital_coalitions :: "match \<Rightarrow> (slot, slot list) gomap" where
  "capital_coalitions m =
     (let allSlots = SlotIDs m in
      foldl (\<lambda>cs s.
          let cid = CoalitionID (m_Diplomacy m) s allSlots in
          if map_of cs cid = None then mput cid (Coalition (m_Diplomacy m) s allSlots) cs else cs)
        [] (capital_slots m))"

definition checkVictory :: "match \<Rightarrow> time \<Rightarrow> match \<times> applied_event list" where
  "checkVictory m tm =
     (if m_Status m \<noteq> ''active'' then (m, [])
      else
        let capitalSlots = capital_slots m in
        if capitalSlots = [] then (m, [])
        else
          let coalitions = capital_coalitions m in
          if length coalitions \<noteq> 1 then (m, [])
          else
            let (coalID, members) = hd coalitions;
                winners = winningSlotList members capitalSlots;
                m1 = m\<lparr>m_Status := ''ended'', m_WinnerSlot := coalID, m_WinnerCoal := winners,
                       m_Seq := m_Seq m + 1,
                       m_Timeline := tl_Push \<lparr>ev_At = tm + CleanupDelay, ev_Kind = MatchCleanup,
                         ev_UnitID = [], ev_Other = [], ev_Version = 0\<rparr> (m_Timeline m)\<rparr>
            in (m1, [\<lparr>ae_Kind = ''match_ended'', ae_OccurAt = tm, ae_Seq = m_Seq m1, ae_UnitID = [],
                      ae_Province = [], ae_Slot = coalID,
                      ae_Extra = [(''coalition'', JStr coalID), (''winners'', JList (map JStr winners))]\<rparr>]))"

end
