(* ===== verification/Movement.thy ===== *)
theory Movement
  imports Combat Victory
begin

text \<open>
  \<open>internal/domain/matchdom/movement.go\<close>: scheduling a path, starting the next waypoint and
  completing a leg. A method on a unit takes the unit's current value and returns it with the match,
  where it has been put back; the results that go through combat are partial.
\<close>

definition collisionRadius :: real where
  "collisionRadius = 30"

definition ProvinceOwners :: "match \<Rightarrow> province_owners" where
  "ProvinceOwners m = map (\<lambda>(pid, p). (pid, p_Owner p)) (m_Provinces m)"

text \<open>\<open>time.Duration(dist/u.Speed) * time.Second\<close>, at least a millisecond.\<close>

definition travel_time :: "real \<Rightarrow> real \<Rightarrow> duration" where
  "travel_time len speed =
     (let travel = int64 (trunc (len / speed) * Second) in
      if travel < Millisecond then Millisecond else travel)"

fun schedule_legs :: "real \<Rightarrow> time \<Rightarrow> leg list \<Rightarrow> path_leg list" where
  "schedule_legs speed cursor [] = []"
| "schedule_legs speed cursor (l # legs) =
     (let arrives = cursor + travel_time (EuclidDistance (lg_FromX l) (lg_FromY l) (lg_ToX l) (lg_ToY l)) speed in
      \<lparr>pl_FromProv = lg_FromProv l, pl_ToProv = lg_ToProv l, pl_FromX = lg_FromX l, pl_FromY = lg_FromY l,
       pl_ToX = lg_ToX l, pl_ToY = lg_ToY l, pl_ArrivesAt = arrives\<rparr> # schedule_legs speed arrives legs)"

definition beginCurrentLeg :: "game_unit \<Rightarrow> time \<Rightarrow> game_unit" where
  "beginCurrentLeg u now =
     (if u_PathIndex u \<ge> length (u_Path u) then u
      else
        let l = u_Path u ! u_PathIndex u;
            now' = (if now > pl_ArrivesAt l then pl_ArrivesAt l else now)
        in u\<lparr>u_Origin := pl_FromProv l, u_Dest := pl_ToProv l,
             u_OriginX := pl_FromX l, u_OriginY := pl_FromY l, u_DestX := pl_ToX l, u_DestY := pl_ToY l,
             u_StartedAt := now', u_ArrivesAt := pl_ArrivesAt l\<rparr>)"

definition scheduleArrival :: "match \<Rightarrow> game_unit \<Rightarrow> match" where
  "scheduleArrival m u =
     (if u_PathIndex u \<ge> length (u_Path u) then m
      else m\<lparr>m_Timeline := tl_Push \<lparr>ev_At = u_ArrivesAt u, ev_Kind = Arrival, ev_UnitID = u_ID u,
               ev_Other = [], ev_Version = u_Version u\<rparr> (m_Timeline m)\<rparr>)"

definition SetUnitPath :: "match \<Rightarrow> game_unit \<Rightarrow> leg list \<Rightarrow> time \<Rightarrow> match \<times> game_unit" where
  "SetUnitPath m u legs now =
     (if legs = [] then (m, u)
      else
        let u1 = u\<lparr>u_PathIndex := 0, u_Path := schedule_legs (u_Speed u) now legs\<rparr>;
            u2 = beginCurrentLeg u1 now
        in (scheduleArrival (put_unit u2 m) u2, u2))"

text \<open>The waypoint is taken off the queue even when no route is found.\<close>

definition StartNextWaypoint :: "runtime \<Rightarrow> match \<Rightarrow> game_unit \<Rightarrow> time \<Rightarrow> match \<times> game_unit \<times> bool" where
  "StartNextWaypoint rt m u now =
     (if u_Waypoints u = [] \<or> IsMoving u now then (m, u, False)
      else
        let wp = hd (u_Waypoints u);
            u1 = u\<lparr>u_Waypoints := tl (u_Waypoints u)\<rparr>;
            m1 = put_unit u1 m
        in case RouteFromEdge rt (NewGraph (m_Map m)) (u_OriginX u) (u_OriginY u) (u_Origin u) (u_Dest u) wp of
             Inl _ \<Rightarrow> (m1, u1, False)
           | Inr legs \<Rightarrow>
               if RouteBlocked (m_Diplomacy m) (u_OwnerSlot u) (ProvinceOwners m) legs then (m1, u1, False)
               else let (m2, u2) = SetUnitPath m1 u1 legs now in (m2, u2, True))"

definition sharesLegEdge :: "path_leg \<Rightarrow> game_unit \<Rightarrow> bool" where
  "sharesLegEdge l other =
     (if u_Path other = [] \<or> u_PathIndex other \<ge> length (u_Path other) then
        (u_Origin other = pl_FromProv l \<and> u_Dest other = pl_ToProv l) \<or>
        (u_Origin other = pl_ToProv l \<and> u_Dest other = pl_FromProv l)
      else
        let ol = u_Path other ! u_PathIndex other in
        (pl_FromProv ol = pl_FromProv l \<and> pl_ToProv ol = pl_ToProv l) \<or>
        (pl_FromProv ol = pl_ToProv l \<and> pl_ToProv ol = pl_FromProv l))"

definition hostileUnitOnLeg :: "runtime \<Rightarrow> match \<Rightarrow> game_unit \<Rightarrow> path_leg \<Rightarrow> time \<Rightarrow> game_unit option" where
  "hostileUnitOnLeg rt m u l tm =
     find (\<lambda>other.
         \<not> (u_ID other = u_ID u \<or> u_HP other \<le> 0) \<and>
         Stance (m_Diplomacy m) (u_OwnerSlot u) (u_OwnerSlot other) = War \<and>
         sharesLegEdge l other \<and>
         (let (ox, oy) = PositionAt other tm in
          EuclidDistance (u_OriginX u) (u_OriginY u) ox oy \<le> collisionRadius))
       (map snd (go_range rt (m_Units m)))"

text \<open>The unit stands at the end of its leg: the first part of \<open>CompleteUnitLeg\<close>.\<close>

definition land_unit :: "game_unit \<Rightarrow> path_leg \<Rightarrow> time \<Rightarrow> game_unit" where
  "land_unit u l tm =
     u\<lparr>u_OriginX := pl_ToX l, u_OriginY := pl_ToY l, u_DestX := pl_ToX l, u_DestY := pl_ToY l,
       u_Origin := pl_ToProv l, u_Dest := pl_ToProv l, u_StartedAt := tm, u_ArrivesAt := tm\<rparr>"

definition resolve_at :: "runtime \<Rightarrow> match \<Rightarrow> province_id \<Rightarrow> time \<Rightarrow> (match \<times> applied_event list) option" where
  "resolve_at rt m pid tm =
     (case map_of (m_Provinces m) pid of
        None \<Rightarrow> Some (m, [])
      | Some prov \<Rightarrow> resolveProvince rt m prov tm)"

text \<open>\<open>out = append(out, m.checkVictory(at)...)\<close>, the end of every branch.\<close>

definition then_victory :: "time \<Rightarrow> match \<times> applied_event list \<Rightarrow> match \<times> applied_event list" where
  "then_victory tm mo = (let (m', es) = checkVictory (fst mo) tm in (m', snd mo @ es))"

definition CompleteUnitLeg :: "runtime \<Rightarrow> match \<Rightarrow> game_unit \<Rightarrow> time \<Rightarrow> (match \<times> applied_event list) option" where
  "CompleteUnitLeg rt m u tm =
     (if u_PathIndex u \<ge> length (u_Path u) then Some (m, [])
      else
        let l = u_Path u ! u_PathIndex u;
            u1 = land_unit u l tm;
            m1 = bump_seq (put_unit u1 m);
            out = [\<lparr>ae_Kind = ''arrival'', ae_OccurAt = tm, ae_Seq = m_Seq m1, ae_UnitID = u_ID u,
                    ae_Province = pl_ToProv l, ae_Slot = u_OwnerSlot u, ae_Extra = []\<rparr>];
            pLeg = \<lparr>lg_FromProv = pl_FromProv l, lg_ToProv = pl_ToProv l, lg_FromX = pl_FromX l,
                    lg_FromY = pl_FromY l, lg_ToX = pl_ToX l, lg_ToY = pl_ToY l\<rparr>
        in if HostileLegEnd (m_Diplomacy m1) (u_OwnerSlot u1) (ProvinceOwners m1) pLeg
              \<or> hostileUnitOnLeg (sub rt 0) m1 u1 l tm \<noteq> None then
             let u2 = u1\<lparr>u_Path := [], u_PathIndex := 0, u_Waypoints := []\<rparr> in
             map_option (\<lambda>(m3, es). then_victory tm (m3, out @ es)) (resolve_at (sub rt 1) (put_unit u2 m1) (pl_ToProv l) tm)
           else
             let u2 = u1\<lparr>u_PathIndex := u_PathIndex u1 + 1\<rparr> in
             if u_PathIndex u2 < length (u_Path u2) then
               let u3 = beginCurrentLeg u2 tm in
               Some (then_victory tm (scheduleArrival (put_unit u3 m1) u3, out))
             else
               let u3 = u2\<lparr>u_Path := [], u_PathIndex := 0\<rparr>;
                   (m3, u4, started) = StartNextWaypoint (sub rt 2) (put_unit u3 m1) u3 tm
               in if started then Some (then_victory tm (m3, out))
                  else if IsMoving u4 tm then Some (then_victory tm (m3, out))
                  else map_option (\<lambda>(m4, es). then_victory tm (m4, out @ es)) (resolve_at (sub rt 3) m3 (pl_ToProv l) tm))"

end
