(* ===== verification/Battle.thy ===== *)
theory Battle
  imports Combat
begin

text \<open>
  Correctness of combat: fights among champions that own their keys end with the strongest untouched;
  collapsing pools each coalition's strength; resolving a province keeps the match well-formed; the
  outcome of a battle is decided by total strength; and a battle hangs when the weakest champion does
  not belong to the leader of its coalition.
\<close>

section \<open>Facts about fights\<close>

lemma unitDamage_bounds: "22 \<le> unitDamage a d \<and> unitDamage a d \<le> 38"
proof -
  have "22 \<le> damage k k' \<and> damage k k' \<le> 38" for k k'
    by (cases k; cases k') (simp_all add: damage_def damageTable_def)
  then show ?thesis by (simp add: unitDamage_def unit_DamageVs_def split: option.splits)
qed

lemma first_min_fold:
  fixes h :: "'a \<Rightarrow> real"
  assumes "us \<noteq> [] \<or> acc \<noteq> None"
  shows "\<exists>w. foldl (\<lambda>pick u. case pick of None \<Rightarrow> Some u | Some p \<Rightarrow> if h u < h p then Some u else Some p) acc us = Some w
    \<and> (w \<in> set us \<or> acc = Some w) \<and> (\<forall>u. u \<in> set us \<or> acc = Some u \<longrightarrow> h w \<le> h u)"
  using assms
proof (induction us arbitrary: acc)
  case (Cons x us)
  show ?case
  proof (cases acc)
    case None
    with Cons.IH[of "Some x"] show ?thesis by auto
  next
    case (Some p)
    show ?thesis
    proof (cases "h x < h p")
      case True
      with Cons.IH[of "Some x"] Some show ?thesis by fastforce
    next
      case False
      with Cons.IH[of "Some p"] Some show ?thesis by fastforce
    qed
  qed
qed auto

lemma pickExtreme_ok:
  assumes "rt_ok rt" "mok champs" "champs \<noteq> []"
  obtains k w where "pickExtreme rt champs low = Some w" "(k, w) \<in> set champs"
    "\<And>c u. (c, u) \<in> set champs \<Longrightarrow> (if low then u_HP w \<le> u_HP u else u_HP u \<le> u_HP w)"
proof -
  have s: "set (map snd (go_range rt champs)) = snd ` set champs"
    by (simp add: set_go_range[OF assms(1,2)])
  then have "map snd (go_range rt champs) \<noteq> []" using assms(3) by auto
  define h where "h u = (if low then u_HP u else - u_HP u)" for u :: game_unit
  have eq: "((low \<and> u_HP u < u_HP p) \<or> (\<not> low \<and> u_HP u > u_HP p)) = (h u < h p)" for u p
    by (simp add: h_def)
  from first_min_fold[where h = h and acc = None, OF disjI1[OF \<open>map snd (go_range rt champs) \<noteq> []\<close>]]
  obtain w where w: "pickExtreme rt champs low = Some w" "w \<in> snd ` set champs" "\<forall>u\<in>snd ` set champs. h w \<le> h u"
    unfolding s pickExtreme_def eq by auto
  obtain k where k: "(k, w) \<in> set champs" using w(2) by (metis imageE prod.collapse)
  have "if low then u_HP w \<le> u_HP u else u_HP u \<le> u_HP w" if "(c, u) \<in> set champs" for c u
    using bspec[OF w(3) imageI[OF that, of snd]] by (simp add: h_def split: if_splits)
  then show ?thesis using that[OF w(1) k] by blast
qed

definition champ_ids :: "champions \<Rightarrow> unit_id list" where
  "champ_ids ch = map (\<lambda>(_, u). u_ID u) ch"

lemma champ_unique:
  "distinct (champ_ids ch) \<Longrightarrow> x \<in> set ch \<Longrightarrow> y \<in> set ch \<Longrightarrow> u_ID (snd x) = u_ID (snd y) \<Longrightarrow> x = y"
  unfolding champ_ids_def case_prod_beta by (meson distinct_map inj_onD)

lemma write_champions_ids [simp]: "champ_ids (write_champions w ch) = champ_ids ch"
  by (induction ch) (auto simp: champ_ids_def write_champions_def)

lemma write_champions_keys [simp]: "map fst (write_champions w ch) = map fst ch"
  by (induction ch) (auto simp: write_champions_def)

lemma set_write_champions:
  assumes "distinct (champ_ids ch)" "(k, u) \<in> set ch" "u_ID w = u_ID u"
  shows "set (write_champions w ch) = insert (k, w) (set ch - {(k, u)})"
proof -
  let ?f = "\<lambda>(c, v). (c, if u_ID v = u_ID w then w else v)"
  have "?f ` set ch = insert (?f (k, u)) (?f ` (set ch - {(k, u)}))"
    using assms(2) by blast
  moreover have "?f x = x" if "x \<in> set ch - {(k, u)}" for x
  proof -
    have "u_ID (snd x) \<noteq> u_ID w"
      using champ_unique[OF assms(1), of x "(k, u)"] that assms(2,3) by auto
    then show ?thesis by (cases x) simp
  qed
  ultimately show ?thesis
    by (simp add: write_champions_def assms(3))
qed

lemma fight_round_eq:
  assumes "rt_ok rt" "mok ch" "distinct (champ_ids ch)" "1 < length ch"
  obtains k w dmg where "(k, w) \<in> set ch" "\<And>c u. (c, u) \<in> set ch \<Longrightarrow> u_HP w \<le> u_HP u" "22 \<le> dmg"
    "fight_round rt m ch pid tm =
      (let w' = w\<lparr>u_HP := u_HP w - dmg\<rparr>; m1 = bump_seq (write_through w' m); ch1 = write_champions w' ch;
           damage = combat_event ''combat_damage'' tm m1 w' [(''hp'', JNum (u_HP w')), (''province'', JStr pid)]
       in if u_HP w' \<le> 0 then
            let m2 = bump_seq (m1\<lparr>m_Units := mdel (u_ID w') (m_Units m1)\<rparr>)
            in Some (m2, mdel (u_OwnerSlot w') ch1, [damage, combat_event ''unit_destroyed'' tm m2 w' [(''province'', JStr pid)]])
          else Some (m1, ch1, [damage]))"
proof -
  have "ch \<noteq> []" using assms(4) by auto
  obtain k w where w: "pickExtreme (sub rt 0) ch True = Some w" "(k, w) \<in> set ch"
    "\<And>c u. (c, u) \<in> set ch \<Longrightarrow> u_HP w \<le> u_HP u"
    by (rule pickExtreme_ok[OF rt_ok_sub[OF assms(1)] assms(2) \<open>ch \<noteq> []\<close>, of 0 True]) simp
  have "excluding ch w \<noteq> []"
  proof
    assume "excluding ch w = []"
    then have "u_ID (snd x) = u_ID w" if "x \<in> set ch" for x
      using that by (simp add: excluding_def filter_empty_conv case_prod_beta)
    then have "set ch \<subseteq> {(k, w)}"
      using champ_unique[OF assms(3) _ w(2)] by auto
    then have "card (set ch) \<le> 1"
      using card_mono[of "{(k, w)}" "set ch"] by simp
    moreover have "distinct ch" using assms(2) by (simp add: distinct_map)
    ultimately show False using assms(4) by (simp add: distinct_card)
  qed
  moreover have "mok (excluding ch w)"
    using assms(2) by (simp add: excluding_def distinct_map_filter)
  ultimately obtain c a where "pickExtreme (sub rt 1) (excluding ch w) False = Some a"
    using pickExtreme_ok[of "sub rt 1" "excluding ch w" False] assms(1) by (metis rt_ok_sub)
  then show ?thesis
    by (intro that[of k w "unitDamage (u_Type a) (u_Type w)"])
       (use w unitDamage_bounds in \<open>simp_all add: fight_round_def Let_def\<close>)
qed

text \<open>Only the units and the sequence number differ.\<close>

definition units_frame :: "match \<Rightarrow> match \<Rightarrow> bool" where
  "units_frame m m' \<longleftrightarrow> m'\<lparr>m_Units := m_Units m, m_Seq := m_Seq m\<rparr> = m"

lemma units_frame_refl [simp]: "units_frame m m"
  by (simp add: units_frame_def)

lemma units_frame_upd [simp]: "units_frame m (m\<lparr>m_Units := a, m_Seq := b\<rparr>)" "units_frame m (m\<lparr>m_Units := a\<rparr>)"
  by (simp_all add: units_frame_def)

lemma units_frame_fields:
  assumes "units_frame m m'"
  shows "m_Provinces m' = m_Provinces m" "m_Players m' = m_Players m" "m_Diplomacy m' = m_Diplomacy m"
    "m_Resources m' = m_Resources m" "m_Timeline m' = m_Timeline m" "m_Status m' = m_Status m"
    "m_NextRecruit m' = m_NextRecruit m" "m_NextBuild m' = m_NextBuild m" "m_Buildings m' = m_Buildings m"
    "m_Map m' = m_Map m" "m_GameNow m' = m_GameNow m" "m_CleanupDone m' = m_CleanupDone m"
    "m_WinnerSlot m' = m_WinnerSlot m" "m_WinnerCoal m' = m_WinnerCoal m"
proof -
  have e: "m = m'\<lparr>m_Units := m_Units m, m_Seq := m_Seq m\<rparr>" using assms by (simp add: units_frame_def)
  show "m_Provinces m' = m_Provinces m" "m_Players m' = m_Players m" "m_Diplomacy m' = m_Diplomacy m"
    "m_Resources m' = m_Resources m" "m_Timeline m' = m_Timeline m" "m_Status m' = m_Status m"
    "m_NextRecruit m' = m_NextRecruit m" "m_NextBuild m' = m_NextBuild m" "m_Buildings m' = m_Buildings m"
    "m_Map m' = m_Map m" "m_GameNow m' = m_GameNow m" "m_CleanupDone m' = m_CleanupDone m"
    "m_WinnerSlot m' = m_WinnerSlot m" "m_WinnerCoal m' = m_WinnerCoal m"
    by (subst e, simp)+
qed

lemma units_frame_trans: "units_frame m m' \<Longrightarrow> units_frame m' m'' \<Longrightarrow> units_frame m m''"
  unfolding units_frame_def by (cases m; cases m'; cases m'') simp

text \<open>How much longer a fight can last: at most so many rounds.\<close>

definition fight_measure :: "champions \<Rightarrow> nat" where
  "fight_measure ch = (\<Sum>x\<leftarrow>ch. Suc (nat \<lceil>u_HP (snd x) / 22\<rceil>))"

lemma sum_list_map_less:
  fixes f g :: "'a \<Rightarrow> nat"
  assumes "\<And>x. x \<in> set xs \<Longrightarrow> g x \<le> f x" "y \<in> set xs" "g y < f y"
  shows "sum_list (map g xs) < sum_list (map f xs)"
  using assms
proof (induction xs)
  case (Cons x xs)
  have le: "sum_list (map g xs) \<le> sum_list (map f xs)"
    using Cons.prems(1) by (intro sum_list_mono) simp
  show ?case
  proof (cases "y = x")
    case True
    with Cons.prems(3) le show ?thesis by simp
  next
    case False
    with Cons have "sum_list (map g xs) < sum_list (map f xs)" by simp
    then show ?thesis using Cons.prems(1)[of x] by simp
  qed
qed simp

lemma sum_list_filter_less:
  fixes f :: "'a \<Rightarrow> nat"
  assumes "y \<in> set xs" "\<not> P y" "0 < f y"
  shows "sum_list (map f (filter P xs)) < sum_list (map f xs)"
  using assms
proof (induction xs)
  case (Cons x xs)
  have "sum_list (map f (filter P xs)) \<le> sum_list (map f xs)" for xs :: "'a list"
    by (induction xs) auto
  from this[of xs] Cons show ?case by (cases "y = x") auto
qed simp

lemma fight_measure_write:
  assumes "(k, w) \<in> set ch" "distinct (champ_ids ch)" "22 \<le> dmg" "0 < u_HP w - dmg"
  shows "fight_measure (write_champions (w\<lparr>u_HP := u_HP w - dmg\<rparr>) ch) < fight_measure ch"
proof -
  let ?w = "w\<lparr>u_HP := u_HP w - dmg\<rparr>"
  let ?g = "\<lambda>x. Suc (nat \<lceil>u_HP (if u_ID (snd x) = u_ID w then ?w else snd x) / 22\<rceil>)"
  have id: "x = (k, w)" if "x \<in> set ch" "u_ID (snd x) = u_ID w" for x
    using champ_unique[OF assms(2) that(1) assms(1)] that(2) by simp
  have lt: "nat \<lceil>(u_HP w - dmg) / 22\<rceil> < nat \<lceil>u_HP w / 22\<rceil>"
  proof -
    have "(u_HP w - dmg) / 22 \<le> u_HP w / 22 - 1" using assms(3) by (simp add: field_simps)
    then have "\<lceil>(u_HP w - dmg) / 22\<rceil> \<le> \<lceil>u_HP w / 22\<rceil> - 1" by (metis ceiling_diff_one ceiling_mono)
    moreover have "0 < \<lceil>(u_HP w - dmg) / 22\<rceil>" using assms(4) by simp
    ultimately show ?thesis by linarith
  qed
  have "fight_measure (write_champions ?w ch) = sum_list (map ?g ch)"
    by (simp add: fight_measure_def write_champions_def comp_def case_prod_beta)
  also have "\<dots> < sum_list (map (\<lambda>x. Suc (nat \<lceil>u_HP (snd x) / 22\<rceil>)) ch)"
  proof (rule sum_list_map_less[where y = "(k, w)"])
    fix x assume x: "x \<in> set ch"
    show "?g x \<le> Suc (nat \<lceil>u_HP (snd x) / 22\<rceil>)"
    proof (cases "u_ID (snd x) = u_ID w")
      case True
      then have "snd x = w" using id[OF x] by simp
      moreover have "u_HP ?w = u_HP w - dmg" by simp
      ultimately show ?thesis
        using less_imp_le[OF lt] unfolding True by (simp only: if_True refl Suc_le_mono)
    qed simp
  qed (use assms(1) lt in simp_all)
  finally show ?thesis by (simp add: fight_measure_def)
qed

text \<open>Every champion belongs to its own key and is a unit of the match.\<close>

definition fight_inv :: "match \<Rightarrow> champions \<Rightarrow> bool" where
  "fight_inv m ch \<longleftrightarrow> mok ch \<and> distinct (champ_ids ch) \<and>
     (\<forall>(k, u)\<in>set ch. u_OwnerSlot u = k \<and> map_of (m_Units m) (u_ID u) = Some u)"

lemma filter_key_set: "mok l \<Longrightarrow> (k, v) \<in> set l \<Longrightarrow> set (filter (\<lambda>x. fst x \<noteq> k) l) = set l - {(k, v)}"
proof -
  assume a: "mok l" "(k, v) \<in> set l"
  have "(fst x \<noteq> k) = (x \<noteq> (k, v))" if "x \<in> set l" for x
    using eq_key_imp_eq_value[OF a, of "snd x"] that by (cases x) auto
  then show ?thesis by auto
qed

lemma image_remove_insert: "x \<in> A \<Longrightarrow> f ` A = insert (f x) (f ` (A - {x}))"
  by auto

lemma champ_ids_set: "set (champ_ids ch) = (\<lambda>x. u_ID (snd x)) ` set ch"
  by (simp add: champ_ids_def case_prod_beta)

lemma mdel_filter: "mdel k l = filter (\<lambda>x. fst x \<noteq> k) l"
  by (induction l) auto

lemma write_champions_map: "write_champions w ch = map (\<lambda>x. (fst x, if u_ID (snd x) = u_ID w then w else snd x)) ch"
  by (simp add: write_champions_def case_prod_beta)

lemma mdel_write:
  assumes "(k, w) \<in> set ch" "mok ch" "distinct (champ_ids ch)" "u_ID w' = u_ID w"
  shows "mdel k (write_champions w' ch) = filter (\<lambda>x. fst x \<noteq> k) ch"
proof -
  have "(if u_ID (snd x) = u_ID w' then w' else snd x) = snd x" if "x \<in> set ch" "fst x \<noteq> k" for x
    using champ_unique[OF assms(3) that(1) assms(1)] that assms(4) by auto
  then have "filter (\<lambda>x. fst x \<noteq> k) (map (\<lambda>x. (fst x, if u_ID (snd x) = u_ID w' then w' else snd x)) l) = filter (\<lambda>x. fst x \<noteq> k) l"
    if "set l \<subseteq> set ch" for l
    using that by (induction l) auto
  from this[OF order_refl] show ?thesis
    by (simp only: mdel_filter write_champions_map)
qed


text \<open>One round, for champions that own their keys: the weakest is hit and, when destroyed, removed.\<close>

lemma fight_round_step:
  assumes "rt_ok rt" "fight_inv m ch" "1 < length ch"
  obtains k w w' m' ch' es where "(k, w) \<in> set ch" "\<And>c u. (c, u) \<in> set ch \<Longrightarrow> u_HP w \<le> u_HP u"
    "fight_round rt m ch pid tm = Some (m', ch', es)" "fight_inv m' ch'" "fight_measure ch' < fight_measure ch"
    "(u_HP w' < u_HP w \<and> u_ID w' = u_ID w \<and> set ch' = insert (k, w') (set ch - {(k, w)}) \<and> 0 < u_HP w' \<and>
        m_Units m' = mput (u_ID w) w' (m_Units m)) \<or>
     (set ch' = set ch - {(k, w)} \<and> m_Units m' = mdel (u_ID w) (mput (u_ID w) w' (m_Units m)))"
    "units_frame m m'" "ch' \<noteq> []"
    "\<forall>e\<in>set es. ae_Kind e = ''combat_damage'' \<or> ae_Kind e = ''unit_destroyed''"
proof -
  have inv: "mok ch" "distinct (champ_ids ch)" using assms(2) by (simp_all add: fight_inv_def)
  obtain k w dmg where w: "(k, w) \<in> set ch" "\<And>c u. (c, u) \<in> set ch \<Longrightarrow> u_HP w \<le> u_HP u" "22 \<le> dmg"
    and r: "fight_round rt m ch pid tm =
      (let w' = w\<lparr>u_HP := u_HP w - dmg\<rparr>; m1 = bump_seq (write_through w' m); ch1 = write_champions w' ch;
           damage = combat_event ''combat_damage'' tm m1 w' [(''hp'', JNum (u_HP w')), (''province'', JStr pid)]
       in if u_HP w' \<le> 0 then
            let m2 = bump_seq (m1\<lparr>m_Units := mdel (u_ID w') (m_Units m1)\<rparr>)
            in Some (m2, mdel (u_OwnerSlot w') ch1, [damage, combat_event ''unit_destroyed'' tm m2 w' [(''province'', JStr pid)]])
          else Some (m1, ch1, [damage]))"
    by (rule fight_round_eq[OF assms(1) inv assms(3), of m pid tm]) blast
  let ?w = "w\<lparr>u_HP := u_HP w - dmg\<rparr>"
  have kw: "u_OwnerSlot w = k" "map_of (m_Units m) (u_ID w) = Some w"
    using assms(2) w(1) by (auto simp: fight_inv_def)
  have wt: "write_through ?w m = put_unit ?w m" using kw by (simp add: write_through_def)
  have st: "set (write_champions ?w ch) = insert (k, ?w) (set ch - {(k, w)})"
    by (rule set_write_champions[OF inv(2) w(1)]) simp
  have other: "u_ID u \<noteq> u_ID w" if "(c, u) \<in> set ch" "(c, u) \<noteq> (k, w)" for c u
    using champ_unique[OF inv(2) that(1) w(1)] that(2) by auto
  have own: "u_OwnerSlot u = c \<and> map_of (m_Units m) (u_ID u) = Some u" if "(c, u) \<in> set ch" for c u
    using assms(2) that by (auto simp: fight_inv_def)
  show ?thesis
  proof (cases "u_HP ?w \<le> 0")
    case True
    let ?m1 = "bump_seq (put_unit ?w m)"
    let ?m2 = "bump_seq (?m1\<lparr>m_Units := mdel (u_ID w) (m_Units ?m1)\<rparr>)"
    let ?ch = "filter (\<lambda>x. fst x \<noteq> k) ch"
    have ch': "mdel k (write_champions ?w ch) = ?ch"
      by (rule mdel_write[OF w(1) inv]) simp
    have sc: "set ?ch = set ch - {(k, w)}"
      by (rule filter_key_set[OF inv(1) w(1)])
    have "fight_round rt m ch pid tm = Some (?m2, ?ch,
        [combat_event ''combat_damage'' tm ?m1 ?w [(''hp'', JNum (u_HP ?w)), (''province'', JStr pid)],
         combat_event ''unit_destroyed'' tm ?m2 ?w [(''province'', JStr pid)]])"
      using True kw unfolding r by (simp add: Let_def wt ch')
    moreover have "fight_inv ?m2 ?ch"
      unfolding fight_inv_def
    proof (intro conjI ballI)
      show "distinct (champ_ids ?ch)" using inv(2) by (simp add: champ_ids_def distinct_map_filter)
      fix x assume "x \<in> set ?ch"
      then have x: "(fst x, snd x) \<in> set ch" "(fst x, snd x) \<noteq> (k, w)" using sc by auto
      show "case x of (k, u) \<Rightarrow> u_OwnerSlot u = k \<and> map_of (m_Units ?m2) (u_ID u) = Some u"
        using own[OF x(1)] other[OF x] by (simp add: case_prod_beta bump_seq_def put_unit_def map_of_mdel)
    qed (use inv(1) in \<open>simp add: distinct_map_filter\<close>)
    moreover have "fight_measure ?ch < fight_measure ch"
      unfolding fight_measure_def by (rule sum_list_filter_less[OF w(1)]) simp_all
    moreover have "?ch \<noteq> []"
    proof
      assume "?ch = []"
      then have "set ch \<subseteq> {(k, w)}" using sc by auto
      then have "card (set ch) \<le> 1" using card_mono[of "{(k, w)}" "set ch"] by simp
      then show False using assms(3) inv(1) by (simp add: distinct_map distinct_card)
    qed
    moreover have "m_Units ?m2 = mdel (u_ID w) (mput (u_ID w) ?w (m_Units m))"
      "units_frame m ?m2"
      by (simp_all add: bump_seq_def put_unit_def)
    ultimately show ?thesis
      by (intro that[where w' = ?w, OF w(1,2) _ _ _ disjI2, rotated 3]) (simp_all only: sc combat_event_def, simp_all)
  next
    case False
    let ?m1 = "bump_seq (put_unit ?w m)"
    have "fight_round rt m ch pid tm = Some (?m1, write_champions ?w ch,
        [combat_event ''combat_damage'' tm ?m1 ?w [(''hp'', JNum (u_HP ?w)), (''province'', JStr pid)]])"
      using False unfolding r by (simp add: Let_def wt)
    moreover have "fight_inv ?m1 (write_champions ?w ch)"
      unfolding fight_inv_def
    proof (intro conjI ballI)
      fix x assume "x \<in> set (write_champions ?w ch)"
      then consider "x = (k, ?w)" | "x \<in> set ch" "x \<noteq> (k, w)" using st by auto
      then show "case x of (k, u) \<Rightarrow> u_OwnerSlot u = k \<and> map_of (m_Units ?m1) (u_ID u) = Some u"
      proof cases
        case 1
        then show ?thesis using kw by (simp add: bump_seq_def put_unit_def)
      next
        case 2
        then have x: "(fst x, snd x) \<in> set ch" "(fst x, snd x) \<noteq> (k, w)" by auto
        show ?thesis using own[OF x(1)] other[OF x] by (simp add: case_prod_beta bump_seq_def put_unit_def)
      qed
    qed (use inv in simp_all)
    moreover have "fight_measure (write_champions ?w ch) < fight_measure ch"
      by (rule fight_measure_write[OF w(1) inv(2) w(3)]) (use False in simp)
    moreover have "m_Units ?m1 = mput (u_ID w) ?w (m_Units m)"
      "units_frame m ?m1"
      by (simp_all add: bump_seq_def put_unit_def)
    moreover have "write_champions ?w ch \<noteq> []"
      using assms(3) by (auto simp: write_champions_def)
    ultimately show ?thesis
      by (intro that[where w' = ?w, OF w(1,2) _ _ _ disjI1, rotated 3])
         (use st False w(3) in \<open>simp_all only: combat_event_def\<close>, use False w(3) in simp_all)
  qed
qed


text \<open>The whole fight: it ends, and the strongest champion is left as it was.\<close>

lemma fight_ends:
  assumes "rt_ok rt" "fight_inv m ch" "ch \<noteq> []"
  shows "\<exists>m' k u es. fight rt m ch pid tm out = Some (m', [(k, u)], out @ es) \<and> (k, u) \<in> set ch \<and>
    (\<forall>(k', u')\<in>set ch. u_HP u' \<le> u_HP u) \<and> fight_inv m' [(k, u)] \<and>
    units_frame m m' \<and>
    (\<forall>i. map_of (m_Units m') i = (if i \<in> set (champ_ids ch) \<and> i \<noteq> u_ID u then None else map_of (m_Units m) i)) \<and>
    (mok (m_Units m) \<longrightarrow> mok (m_Units m'))"
  using assms
proof (induction "fight_measure ch" arbitrary: rt m ch out rule: less_induct)
  case less
  show ?case
  proof (cases "length ch \<le> 1")
    case True
    with less.prems(3) obtain k u where ch: "ch = [(k, u)]" by (cases ch; cases "tl ch") auto
    then show ?thesis
      using less.prems(2)
      by (intro exI[of _ m] exI[of _ k] exI[of _ u] exI[of _ "[]"]) (simp add: fight.simps champ_ids_def)
  next
    case False
    then have l: "1 < length ch" by simp
    obtain k w w' m' ch' es where st: "(k, w) \<in> set ch" "\<And>c u. (c, u) \<in> set ch \<Longrightarrow> u_HP w \<le> u_HP u"
      "fight_round (sub rt 0) m ch pid tm = Some (m', ch', es)" "fight_inv m' ch'" "fight_measure ch' < fight_measure ch"
      "(u_HP w' < u_HP w \<and> u_ID w' = u_ID w \<and> set ch' = insert (k, w') (set ch - {(k, w)}) \<and> 0 < u_HP w' \<and>
        m_Units m' = mput (u_ID w) w' (m_Units m)) \<or>
       (set ch' = set ch - {(k, w)} \<and> m_Units m' = mdel (u_ID w) (mput (u_ID w) w' (m_Units m)))"
      "units_frame m m'" "ch' \<noteq> []"
      by (rule fight_round_step[OF rt_ok_sub[OF less.prems(1)] less.prems(2) l, of 0 pid tm]) blast
    obtain m2 k2 u2 es2 where r: "fight (sub rt 1) m' ch' pid tm (out @ es) = Some (m2, [(k2, u2)], (out @ es) @ es2)"
      "(k2, u2) \<in> set ch'" "\<forall>(k', u')\<in>set ch'. u_HP u' \<le> u_HP u2" "fight_inv m2 [(k2, u2)]"
      "units_frame m' m2"
      "\<forall>i. map_of (m_Units m2) i = (if i \<in> set (champ_ids ch') \<and> i \<noteq> u_ID u2 then None else map_of (m_Units m') i)"
      "mok (m_Units m') \<longrightarrow> mok (m_Units m2)"
      using less.hyps[OF st(5) rt_ok_sub[OF less.prems(1), of 1] st(4,8), of "out @ es"] by blast
    have inv: "mok ch" "distinct (champ_ids ch)" using less.prems(2) by (simp_all add: fight_inv_def)
    have "\<not> set ch \<subseteq> {(k, w)}"
    proof
      assume "set ch \<subseteq> {(k, w)}"
      then have "card (set ch) \<le> 1" using card_mono[of "{(k, w)}" "set ch"] by simp
      then show False using l inv(1) by (simp add: distinct_map distinct_card)
    qed
    then obtain c v where c: "(c, v) \<in> set ch" "(c, v) \<noteq> (k, w)" by auto
    have sub: "set ch - {(k, w)} \<subseteq> set ch'" using st(6) by blast
    have r3: "u_HP v \<le> u_HP u2" if "(c, v) \<in> set ch'" for c v using r(3) that by blast
    have max: "u_HP w \<le> u_HP u2" using r3[of c v] sub c st(2)[OF c(1)] by fastforce
    have k2: "(k2, u2) \<in> set ch - {(k, w)}"
      using st(6)
    proof (elim disjE conjE)
      assume a: "u_HP w' < u_HP w" "set ch' = insert (k, w') (set ch - {(k, w)})"
      have "u2 \<noteq> w'" using a(1) max by (metis not_less)
      then show ?thesis using r(2) unfolding a(2) by blast
    qed (use r(2) in blast)
    then have u2: "(k2, u2) \<in> set ch" "(k2, u2) \<noteq> (k, w)" by blast+
    have top: "\<forall>(k', u')\<in>set ch. u_HP u' \<le> u_HP u2"
    proof (intro ballI, unfold case_prod_beta)
      fix x assume x: "x \<in> set ch"
      show "u_HP (snd x) \<le> u_HP u2"
      proof (cases "x = (k, w)")
        case False
        then have "x \<in> set ch - {(k, w)}" using x by blast
        then have "(fst x, snd x) \<in> set ch'" using subsetD[OF sub] by simp
        then show ?thesis by (rule r3)
      qed (use max in simp)
    qed
    have ids: "set (champ_ids ch) = insert (u_ID w) ((\<lambda>x. u_ID (snd x)) ` (set ch - {(k, w)}))"
      unfolding champ_ids_set using image_remove_insert[OF st(1), of "\<lambda>x. u_ID (snd x)"] by simp
    have wu: "u_ID w \<noteq> u_ID u2" using champ_unique[OF inv(2) st(1) u2(1)] u2(2) by auto
    have units: "map_of (m_Units m2) i = (if i \<in> set (champ_ids ch) \<and> i \<noteq> u_ID u2 then None else map_of (m_Units m) i)" for i
    proof -
      from st(6) show ?thesis
      proof (elim disjE conjE)
        assume a: "u_ID w' = u_ID w" "set ch' = insert (k, w') (set ch - {(k, w)})" "m_Units m' = mput (u_ID w) w' (m_Units m)"
        then have "set (champ_ids ch') = set (champ_ids ch)"
          unfolding ids by (simp add: champ_ids_set)
        then show ?thesis using r(6) a(3) wu ids by auto
      next
        assume a: "set ch' = set ch - {(k, w)}" "m_Units m' = mdel (u_ID w) (mput (u_ID w) w' (m_Units m))"
        then have "set (champ_ids ch) = insert (u_ID w) (set (champ_ids ch'))"
          unfolding ids by (simp add: champ_ids_set)
        then show ?thesis using r(6) a(2) wu by (auto simp: map_of_mdel)
      qed
    qed
    have F: "fight rt m ch pid tm out = Some (m2, [(k2, u2)], out @ (es @ es2))"
      using False st(3) r(1) by (subst fight.simps) simp
    have Fr: "units_frame m m2"
      by (rule units_frame_trans[OF st(7) r(5)])
    have Mk: "mok (m_Units m) \<longrightarrow> mok (m_Units m2)"
      using r(7) st(6) by (elim disjE conjE) simp_all
    have U: "\<forall>i. map_of (m_Units m2) i = (if i \<in> set (champ_ids ch) \<and> i \<noteq> u_ID u2 then None else map_of (m_Units m) i)"
      using units by blast
    show ?thesis
      by (rule exI[of _ m2], rule exI[of _ k2], rule exI[of _ u2], rule exI[of _ "es @ es2"])
         (intro conjI F u2(1) top r(4) Fr U Mk)
  qed
qed

text \<open>When the weakest champion does not own its key, the fight never ends.\<close>

lemma fight_hangs:
  assumes "rt_ok rt" "mok ch" "distinct (champ_ids ch)" "1 < length ch" "(k, w) \<in> set ch"
    "\<And>c u. (c, u) \<in> set ch \<Longrightarrow> (c, u) \<noteq> (k, w) \<Longrightarrow> u_HP w < u_HP u"
    "u_OwnerSlot w \<notin> fst ` set ch"
  shows "fight rt m ch pid tm out = None"
proof -
  define P where "P rt ch \<longleftrightarrow> (\<exists>w. rt_ok rt \<and> mok ch \<and> distinct (champ_ids ch) \<and> 1 < length ch \<and> (k, w) \<in> set ch \<and>
      (\<forall>c u. (c, u) \<in> set ch \<longrightarrow> (c, u) \<noteq> (k, w) \<longrightarrow> u_HP w < u_HP u) \<and> u_OwnerSlot w \<notin> fst ` set ch)"
    for rt :: runtime and ch
  have "\<not> P rt ch" if "fight rt m ch pid tm out = Some r" for r
  proof (rule fight.raw_induct[where P = "\<lambda>rt m ch pid tm out r. \<not> P rt ch", OF _ that])
    fix fight' rt m ch pid tm out r
    assume IH: "\<And>rt m ch pid tm out r. fight' rt m ch pid tm out = Some r \<Longrightarrow> \<not> P rt ch"
      and body: "(if length ch \<le> 1 then Some (m, ch, out)
          else Option.bind (fight_round (sub rt 0) m ch pid tm)
                (\<lambda>(m', champs', es). fight' (sub rt 1) m' champs' pid tm (out @ es))) = Some r"
    show "\<not> P rt ch"
      unfolding P_def
    proof (rule notI, elim exE conjE)
      fix w
      assume rt: "rt_ok rt" and inv: "mok ch" "distinct (champ_ids ch)" "1 < length ch" and w: "(k, w) \<in> set ch"
        and weak: "\<forall>c u. (c, u) \<in> set ch \<longrightarrow> (c, u) \<noteq> (k, w) \<longrightarrow> u_HP w < u_HP u"
        and own: "u_OwnerSlot w \<notin> fst ` set ch"
      obtain k' v dmg where v: "(k', v) \<in> set ch" "\<And>c u. (c, u) \<in> set ch \<Longrightarrow> u_HP v \<le> u_HP u" "22 \<le> dmg"
        and r: "fight_round (sub rt 0) m ch pid tm =
          (let w' = v\<lparr>u_HP := u_HP v - dmg\<rparr>; m1 = bump_seq (write_through w' m); ch1 = write_champions w' ch;
           damage = combat_event ''combat_damage'' tm m1 w' [(''hp'', JNum (u_HP w')), (''province'', JStr pid)]
           in if u_HP w' \<le> 0 then
            let m2 = bump_seq (m1\<lparr>m_Units := mdel (u_ID w') (m_Units m1)\<rparr>)
            in Some (m2, mdel (u_OwnerSlot w') ch1, [damage, combat_event ''unit_destroyed'' tm m2 w' [(''province'', JStr pid)]])
          else Some (m1, ch1, [damage]))"
        by (rule fight_round_eq[OF rt_ok_sub[OF rt] inv, of 0 m pid tm]) blast
      have "(k', v) = (k, w)"
        using v(1) v(2)[OF w] weak by (meson not_less)
      then have kv: "k' = k" "v = w" by simp_all
      let ?w = "w\<lparr>u_HP := u_HP w - dmg\<rparr>"
      let ?ch = "write_champions ?w ch"
      have del: "mdel (u_OwnerSlot ?w) ?ch = ?ch"
        using own by (intro AList.delete_id) (simp add: write_champions_def image_image case_prod_beta)
      have "\<exists>m' es. fight_round (sub rt 0) m ch pid tm = Some (m', ?ch, es)"
        unfolding r kv using del by (cases "u_HP w \<le> dmg") (simp_all add: Let_def)
      then obtain m' es where fr: "fight_round (sub rt 0) m ch pid tm = Some (m', ?ch, es)" by blast
      have st: "set ?ch = insert (k, ?w) (set ch - {(k, w)})"
        by (rule set_write_champions[OF inv(2) w]) simp
      have "fight' (sub rt 1) m' ?ch pid tm (out @ es) = Some r"
        using body inv(3) fr by (simp add: not_le)
      from IH[OF this] show False
        unfolding P_def
      proof (rule notE, intro exI[of _ ?w] conjI allI impI)
        show "mok ?ch" "distinct (champ_ids ?ch)" "rt_ok (sub rt 1)" using inv rt by simp_all
        show "1 < length ?ch" using inv(3) by (simp add: write_champions_def)
        show "(k, ?w) \<in> set ?ch" using st by simp
        show "u_OwnerSlot ?w \<notin> fst ` set ?ch"
          using own by (simp add: write_champions_def image_image case_prod_beta)
        fix c u assume "(c, u) \<in> set ?ch" "(c, u) \<noteq> (k, ?w)"
        then have "(c, u) \<in> set ch" "(c, u) \<noteq> (k, w)" using st by auto
        then have "u_HP w < u_HP u" using weak by blast
        then show "u_HP ?w < u_HP u" using v(3) by simp
      qed
    qed
  qed
  moreover have "P rt ch" unfolding P_def using assms by (intro exI[of _ w]) simp
  ultimately show ?thesis by (cases "fight rt m ch pid tm out") blast+
qed

section \<open>Facts about collapsing stacks\<close>

definition coal_of :: "match \<Rightarrow> game_unit \<Rightarrow> slot" where
  "coal_of m u = CoalitionID (m_Diplomacy m) (u_OwnerSlot u) (SlotIDs m)"

text \<open>After the units \<open>ps\<close>: the champions are units of the match, each under its own coalition with
  the coalition's total strength; other units of \<open>ps\<close> are gone, units not in \<open>ps\<close> untouched.\<close>

definition collapse_inv :: "province_id \<Rightarrow> time \<Rightarrow> match \<Rightarrow> game_unit list \<Rightarrow> match \<times> champions \<Rightarrow> bool" where
  "collapse_inv pid tm m ps mc \<longleftrightarrow> (case mc of (m', ch) \<Rightarrow>
     units_frame m m' \<and> mok (m_Units m') \<and> mok ch \<and> distinct (champ_ids ch) \<and>
     (\<forall>x\<in>set ch. map_of (m_Units m') (u_ID (snd x)) = Some (snd x) \<and> coal_of m (snd x) = fst x \<and>
        u_ID (snd x) \<in> u_ID ` set ps \<and> stationary_in pid tm (snd x) \<and>
        u_HP (snd x) = (\<Sum>u\<leftarrow>filter (\<lambda>u. coal_of m u = fst x) ps. u_HP u)) \<and>
     fst ` set ch = coal_of m ` set ps \<and>
     (\<forall>i. i \<notin> u_ID ` set ps \<longrightarrow> map_of (m_Units m') i = map_of (m_Units m) i) \<and>
     (\<forall>i. i \<in> u_ID ` set ps \<longrightarrow> i \<notin> set (champ_ids ch) \<longrightarrow> map_of (m_Units m') i = None))"

lemma SlotIDs_frame: "units_frame m m' \<Longrightarrow> SlotIDs m' = SlotIDs m"
  by (simp add: SlotIDs_def units_frame_fields)

lemma IsMoving_upd [simp]:
  "IsMoving (u\<lparr>u_HP := h\<rparr>) t = IsMoving u t"
  "IsMoving (u\<lparr>u_OwnerSlot := s\<rparr>) t = IsMoving u t"
  "IsMoving (u\<lparr>u_Type := ty\<rparr>) t = IsMoving u t"
  by (simp_all add: IsMoving_def)

lemma champ_ids_mput:
  assumes "mok ch" "(k, x) \<in> set ch" "u_ID y = u_ID x"
  shows "champ_ids (mput k y ch) = champ_ids ch"
  using assms
proof (induction ch)
  case (Cons z ch)
  show ?case
  proof (cases "fst z = k")
    case True
    moreover have "(k, x) \<notin> set ch"
      using Cons.prems(1) True rev_image_eqI[of "(k, x)" "set ch" k fst] by auto
    ultimately have "snd z = x" using Cons.prems(2) by (cases z) auto
    then show ?thesis using True Cons.prems(3) by (cases z) (simp add: champ_ids_def)
  next
    case False
    then show ?thesis using Cons by (cases z) (auto simp: champ_ids_def)
  qed
qed simp

lemma collapse_step_inv:
  assumes inv: "collapse_inv pid tm m ps (m1, ch)" and st: "stationary_in pid tm u"
    and new: "u_ID u \<notin> u_ID ` set ps" and inm: "map_of (m_Units m) (u_ID u) = Some u"
  shows "collapse_inv pid tm m (ps @ [u]) (collapse_step (SlotIDs m) (m1, ch) u)"
proof -
  have fr: "units_frame m m1" "mok (m_Units m1)" "mok ch" "distinct (champ_ids ch)"
    and c: "\<And>x. x \<in> set ch \<Longrightarrow> map_of (m_Units m1) (u_ID (snd x)) = Some (snd x) \<and> coal_of m (snd x) = fst x \<and>
        u_ID (snd x) \<in> u_ID ` set ps \<and> stationary_in pid tm (snd x) \<and>
        u_HP (snd x) = (\<Sum>u\<leftarrow>filter (\<lambda>u. coal_of m u = fst x) ps. u_HP u)"
    and keys: "fst ` set ch = coal_of m ` set ps"
    and out: "\<And>i. i \<notin> u_ID ` set ps \<Longrightarrow> map_of (m_Units m1) i = map_of (m_Units m) i"
    and gone: "\<And>i. i \<in> u_ID ` set ps \<Longrightarrow> i \<notin> set (champ_ids ch) \<Longrightarrow> map_of (m_Units m1) i = None"
    using inv by (simp_all add: collapse_inv_def)
  have coal: "CoalitionID (m_Diplomacy m1) (u_OwnerSlot u) (SlotIDs m) = coal_of m u"
    by (simp add: coal_of_def units_frame_fields[OF fr(1)])
  show ?thesis
  proof (cases "map_of ch (coal_of m u)")
    case None
    then have nk: "coal_of m u \<notin> fst ` set ch" by (simp add: map_of_None_keys)
    then have ch': "mput (coal_of m u) u ch = ch @ [(coal_of m u, u)]"
      by (induction ch) auto
    have f0: "filter (\<lambda>v. coal_of m v = coal_of m u) ps = []"
      using nk unfolding keys by (metis (mono_tags, lifting) filter_False image_eqI)
    have mu: "map_of (m_Units m1) (u_ID u) = Some u" using out[OF new] inm by simp
    have nid: "u_ID u \<notin> set (champ_ids ch)" using c new by (auto simp: champ_ids_set)
    have step: "collapse_step (SlotIDs m) (m1, ch) u = (m1, ch @ [(coal_of m u, u)])"
      using None by (simp add: collapse_step_def coal ch')
    have ids: "champ_ids (ch @ [(coal_of m u, u)]) = champ_ids ch @ [u_ID u]"
      by (simp add: champ_ids_def)
    show ?thesis
      unfolding step collapse_inv_def prod.case ids
    proof (intro conjI ballI allI impI)
      fix x assume x: "x \<in> set (ch @ [(coal_of m u, u)])"
      show "map_of (m_Units m1) (u_ID (snd x)) = Some (snd x)" "coal_of m (snd x) = fst x"
        "u_ID (snd x) \<in> u_ID ` set (ps @ [u])" "stationary_in pid tm (snd x)"
        using x c[of x] mu st by auto
      show "u_HP (snd x) = (\<Sum>u\<leftarrow>filter (\<lambda>u. coal_of m u = fst x) (ps @ [u]). u_HP u)"
      proof (cases "x \<in> set ch")
        case True
        then have "fst x \<noteq> coal_of m u" using nk by (metis imageI)
        then show ?thesis using c[OF True] by simp
      next
        case False
        then have "x = (coal_of m u, u)" using x by simp
        then show ?thesis using f0 by simp
      qed
    qed (use fr nk nid keys out gone in \<open>simp_all\<close>)
  next
    case (Some ex)
    then have ex: "(coal_of m u, ex) \<in> set ch" using map_of_SomeD by metis
    let ?ex1 = "ex\<lparr>u_HP := u_HP ex + u_HP u\<rparr>"
    define e where "e = (if u_HP u > u_HP ?ex1 / 2 then ?ex1\<lparr>u_OwnerSlot := u_OwnerSlot u, u_Type := u_Type u\<rparr> else ?ex1)"
    have e: "u_ID e = u_ID ex" "u_HP e = u_HP ex + u_HP u" "coal_of m e = coal_of m u"
      using c[OF ex] by (simp_all add: e_def coal_of_def)
    have se: "stationary_in pid tm e"
      using c[OF ex] st unfolding e_def by (simp add: stationary_in_def)
    have exid: "u_ID ex \<in> u_ID ` set ps" "u_ID ex \<noteq> u_ID u" using c[OF ex] new by auto
    have step: "collapse_step (SlotIDs m) (m1, ch) u =
        (m1\<lparr>m_Units := mdel (u_ID u) (mput (u_ID ex) e (m_Units m1))\<rparr>, mput (coal_of m u) e ch)"
      using Some by (simp add: collapse_step_def coal Let_def e_def)
    have st': "set (mput (coal_of m u) e ch) = insert (coal_of m u, e) {p \<in> set ch. fst p \<noteq> coal_of m u}"
      by (rule set_mput[OF fr(3)])
    have ids: "champ_ids (mput (coal_of m u) e ch) = champ_ids ch"
      using fr(3) ex e(1) by (rule champ_ids_mput)
    have oth: "u_ID (snd x) \<noteq> u_ID ex" if "x \<in> set ch" "fst x \<noteq> coal_of m u" for x
      using champ_unique[OF fr(4) that(1) ex] that(2) by auto
    let ?m = "m1\<lparr>m_Units := mdel (u_ID u) (mput (u_ID ex) e (m_Units m1))\<rparr>"
    show ?thesis
      unfolding step collapse_inv_def prod.case ids
    proof (intro conjI ballI allI impI)
      show "units_frame m ?m" using units_frame_trans[OF fr(1)] by simp
      show "fst ` set (mput (coal_of m u) e ch) = coal_of m ` set (ps @ [u])"
        using keys ex by (auto simp: insert_absorb)
      fix x assume "x \<in> set (mput (coal_of m u) e ch)"
      then consider "x = (coal_of m u, e)" | "x \<in> set ch" "fst x \<noteq> coal_of m u" using st' by auto
      then have "map_of (m_Units ?m) (u_ID (snd x)) = Some (snd x) \<and> coal_of m (snd x) = fst x \<and>
        u_ID (snd x) \<in> u_ID ` set (ps @ [u]) \<and> stationary_in pid tm (snd x) \<and>
        u_HP (snd x) = (\<Sum>u\<leftarrow>filter (\<lambda>u. coal_of m u = fst x) (ps @ [u]). u_HP u)"
      proof cases
        case 1
        then show ?thesis using e se exid c[OF ex] by (simp add: map_of_mdel)
      next
        case 2
        then show ?thesis using c[OF 2(1)] oth[OF 2] new by (auto simp: map_of_mdel)
      qed
      then show "map_of (m_Units ?m) (u_ID (snd x)) = Some (snd x)" "coal_of m (snd x) = fst x"
        "u_ID (snd x) \<in> u_ID ` set (ps @ [u])" "stationary_in pid tm (snd x)"
        "u_HP (snd x) = (\<Sum>u\<leftarrow>filter (\<lambda>u. coal_of m u = fst x) (ps @ [u]). u_HP u)" by blast+
    next
      fix i assume "i \<notin> u_ID ` set (ps @ [u])"
      then show "map_of (m_Units ?m) i = map_of (m_Units m) i" using out[of i] exid by (auto simp: map_of_mdel)
    next
      fix i assume "i \<in> u_ID ` set (ps @ [u])" "i \<notin> set (champ_ids ch)"
      moreover have "u_ID ex \<in> set (champ_ids ch)" using ex by (force simp: champ_ids_set)
      ultimately show "map_of (m_Units ?m) i = None" using gone[of i] by (auto simp: map_of_mdel)
    qed (use fr in simp_all)
  qed
qed


lemma collapse_foldl_inv:
  assumes "collapse_inv pid tm m ps mc" "distinct (map u_ID (ps @ us))"
    "\<And>u. u \<in> set us \<Longrightarrow> stationary_in pid tm u \<and> map_of (m_Units m) (u_ID u) = Some u"
  shows "collapse_inv pid tm m (ps @ us) (foldl (collapse_step (SlotIDs m)) mc us)"
  using assms
proof (induction us arbitrary: ps mc)
  case (Cons u us)
  obtain m1 ch where mc: "mc = (m1, ch)" by fastforce
  have "collapse_inv pid tm m (ps @ [u]) (collapse_step (SlotIDs m) mc u)"
    unfolding mc using Cons.prems by (intro collapse_step_inv) (auto simp: mc)
  from Cons.IH[OF this] Cons.prems(2,3) show ?case by simp
qed simp

lemma stationaryUnitsIn_ok:
  assumes "rt_ok rt" "units_ok m"
  shows "distinct (map u_ID (stationaryUnitsIn rt m pid tm))"
    "set (stationaryUnitsIn rt m pid tm) = {u. map_of (m_Units m) (u_ID u) = Some u \<and> stationary_in pid tm u}"
    "mset (stationaryUnitsIn rt m pid tm) = mset (filter (stationary_in pid tm) (map snd (m_Units m)))"
proof -
  have mok: "mok (m_Units m)" and id: "\<And>x. x \<in> set (m_Units m) \<Longrightarrow> u_ID (snd x) = fst x"
    using assms(2) by (auto simp: units_ok_def)
  let ?g = "go_range rt (m_Units m)"
  have sg: "set ?g = set (m_Units m)" by (rule set_go_range[OF assms(1) mok])
  have eq: "map u_ID (map snd ?g) = map fst ?g"
    unfolding map_map comp_def by (rule map_cong[OF refl]) (use id sg in simp)
  have "distinct (map u_ID (map snd ?g))"
    unfolding eq by (rule mok_go_range[OF assms(1) mok])
  then show "distinct (map u_ID (stationaryUnitsIn rt m pid tm))"
    unfolding stationaryUnitsIn_def by (rule distinct_map_filter)
  have "u \<in> snd ` set (m_Units m) \<longleftrightarrow> map_of (m_Units m) (u_ID u) = Some u" for u
  proof
    assume "u \<in> snd ` set (m_Units m)"
    then obtain x where "x \<in> set (m_Units m)" "snd x = u" by blast
    then have "(u_ID u, u) \<in> set (m_Units m)" using id[of x] by (metis prod.collapse)
    then show "map_of (m_Units m) (u_ID u) = Some u" using mok by (rule map_of_is_SomeI[rotated])
  next
    assume "map_of (m_Units m) (u_ID u) = Some u"
    then show "u \<in> snd ` set (m_Units m)" by (metis map_of_SomeD image_eqI snd_conv)
  qed
  then show "set (stationaryUnitsIn rt m pid tm) = {u. map_of (m_Units m) (u_ID u) = Some u \<and> stationary_in pid tm u}"
    unfolding stationaryUnitsIn_def by (auto simp: sg)
  show "mset (stationaryUnitsIn rt m pid tm) = mset (filter (stationary_in pid tm) (map snd (m_Units m)))"
    unfolding stationaryUnitsIn_def using mset_go_range[OF assms(1) mok]
    by (metis mset_filter mset_map)
qed

text \<open>The strength a coalition has in a province.\<close>

definition coalition_HP :: "match \<Rightarrow> province_id \<Rightarrow> time \<Rightarrow> slot \<Rightarrow> real" where
  "coalition_HP m pid tm c =
     (\<Sum>u\<leftarrow>filter (\<lambda>u. stationary_in pid tm u \<and> coal_of m u = c) (map snd (m_Units m)). u_HP u)"

lemma sum_list_mset_eq: "mset xs = mset ys \<Longrightarrow> sum_list xs = (sum_list ys :: real)"
  by (metis sum_mset_sum_list)

lemma coalition_HP_stationary:
  assumes "rt_ok rt" "units_ok m"
  shows "(\<Sum>u\<leftarrow>filter (\<lambda>u. coal_of m u = c) (stationaryUnitsIn rt m pid tm). u_HP u) = coalition_HP m pid tm c"
proof -
  have "mset (filter (\<lambda>u. coal_of m u = c) (stationaryUnitsIn rt m pid tm))
      = mset (filter (\<lambda>u. stationary_in pid tm u \<and> coal_of m u = c) (map snd (m_Units m)))"
    unfolding mset_filter stationaryUnitsIn_ok(3)[OF assms] filter_filter_mset
    by (rule refl)
  then show ?thesis
    unfolding coalition_HP_def by (intro sum_list_mset_eq) (simp only: mset_map)
qed

lemma collapseChampions_ok:
  assumes "rt_ok rt" "units_ok m" "us = stationaryUnitsIn rt m pid tm"
  shows "collapse_inv pid tm m us (collapseChampions m us)"
proof -
  have "collapse_inv pid tm m [] (m, [])"
    using assms(2) by (simp add: collapse_inv_def champ_ids_def units_ok_def)
  from collapse_foldl_inv[OF this, of us] stationaryUnitsIn_ok[OF assms(1,2), of pid tm]
  show ?thesis by (simp add: collapseChampions_def assms(3))
qed

section \<open>The outcome of a battle\<close>

text \<open>Every unit standing in the province belongs to the leader of its own coalition. This is so,
  for instance, whenever there are no alliances.\<close>

definition led_by_owners :: "match \<Rightarrow> province_id \<Rightarrow> time \<Rightarrow> bool" where
  "led_by_owners m pid tm \<longleftrightarrow> (\<forall>(i, u)\<in>set (m_Units m). stationary_in pid tm u \<longrightarrow> coal_of m u = u_OwnerSlot u)"

text \<open>The collapse keeps owners that lead their coalitions.\<close>

lemma collapse_owners:
  assumes "\<And>u. u \<in> set us \<Longrightarrow> coal_of m u = u_OwnerSlot u" "\<And>x. x \<in> set (snd mc) \<Longrightarrow> u_OwnerSlot (snd x) = fst x"
    "m_Diplomacy (fst mc) = m_Diplomacy m"
  shows "x \<in> set (snd (foldl (collapse_step (SlotIDs m)) mc us)) \<Longrightarrow> u_OwnerSlot (snd x) = fst x"
  using assms
proof (induction us arbitrary: mc)
  case (Cons u us)
  obtain m1 ch where mc: "mc = (m1, ch)" by fastforce
  have coal: "CoalitionID (m_Diplomacy m1) (u_OwnerSlot u) (SlotIDs m) = u_OwnerSlot u"
    using Cons.prems(2)[of u] Cons.prems(4) mc by (simp add: coal_of_def)
  have d: "m_Diplomacy (fst (collapse_step (SlotIDs m) mc u)) = m_Diplomacy m"
    using Cons.prems(4) by (simp add: mc collapse_step_def Let_def split: option.splits)
  have step: "u_OwnerSlot (snd y) = fst y" if y: "y \<in> set (snd (collapse_step (SlotIDs m) mc u))" for y
  proof -
    obtain e where e: "snd (collapse_step (SlotIDs m) mc u) = mput (u_OwnerSlot u) e ch" "u_OwnerSlot e = u_OwnerSlot u"
    proof (cases "map_of ch (u_OwnerSlot u)")
      case None
      then show ?thesis using that[of u] by (simp add: mc collapse_step_def coal)
    next
      case (Some ex)
      then have "(u_OwnerSlot u, ex) \<in> set ch" by (rule map_of_SomeD)
      then have "u_OwnerSlot ex = u_OwnerSlot u" using Cons.prems(3)[of "(u_OwnerSlot u, ex)"] mc by simp
      then show ?thesis using Some that by (simp add: mc collapse_step_def coal Let_def split: if_splits)
    qed
    have "y = (u_OwnerSlot u, e) \<or> y \<in> set ch" using y e(1) set_mput_subset by (metis insertE subsetD)
    then show ?thesis using e(2) Cons.prems(3)[of y] mc by auto
  qed
  have "x \<in> set (snd (foldl (collapse_step (SlotIDs m)) (collapse_step (SlotIDs m) mc u) us))"
    using Cons.prems(1) by simp
  from Cons.IH[OF this] show ?case using Cons.prems(2) step d by simp
qed simp

text \<open>
  The battle in a province: with owners leading their coalitions, it ends; if nobody stands in the
  province nothing happens; otherwise one unit of the strongest coalition is left standing there with
  the coalition's total strength.
\<close>

lemma resolveProvince_outcome:
  assumes "rt_ok rt" "units_ok m" "led_by_owners m (p_ID prov) tm" "stationaryUnitsIn (sub rt 0) m (p_ID prov) tm \<noteq> []"
  shows "\<exists>m2 u es. resolveProvince rt m prov tm =
      Some (let (m3, out2) = captureIfOwnerChanged (sub rt 2) m2 prov [(u_OwnerSlot u, u)] tm in (m3, es @ out2)) \<and>
    units_frame m m2 \<and> mok (m_Units m2) \<and>
    map_of (m_Units m2) (u_ID u) = Some u \<and> stationary_in (p_ID prov) tm u \<and> coal_of m u = u_OwnerSlot u \<and>
    u_HP u = coalition_HP m (p_ID prov) tm (u_OwnerSlot u) \<and>
    (\<forall>v i. map_of (m_Units m) i = Some v \<longrightarrow> stationary_in (p_ID prov) tm v \<longrightarrow>
       coalition_HP m (p_ID prov) tm (u_OwnerSlot v) \<le> u_HP u) \<and>
    (\<exists>v. map_of (m_Units m) (u_ID u) = Some v \<and> stationary_in (p_ID prov) tm v) \<and>
    (\<forall>i. map_of (m_Units m2) i =
       (case map_of (m_Units m) i of
          None \<Rightarrow> None
        | Some v \<Rightarrow> if i = u_ID u then Some u else if stationary_in (p_ID prov) tm v then None else Some v))"
proof -
  let ?pid = "p_ID prov"
  define us where "us = stationaryUnitsIn (sub rt 0) m ?pid tm"
  have rt: "rt_ok (sub rt 0)" using assms(1) by simp
  note us = stationaryUnitsIn_ok[OF rt assms(2), of ?pid tm, folded us_def]
  obtain m1 ch where mc: "collapseChampions m us = (m1, ch)" by fastforce
  have inv: "collapse_inv ?pid tm m us (m1, ch)"
    using collapseChampions_ok[OF rt assms(2), of us ?pid tm] mc us_def by simp
  have own: "u_OwnerSlot (snd x) = fst x" if "x \<in> set ch" for x
  proof (rule collapse_owners[where us = us and mc = "(m, [])"])
    show "x \<in> set (snd (foldl (collapse_step (SlotIDs m)) (m, []) us))"
      using that mc by (simp add: collapseChampions_def)
    fix u assume "u \<in> set us"
    then have "(u_ID u, u) \<in> set (m_Units m)" "stationary_in ?pid tm u" using us(2) by (auto dest: map_of_SomeD)
    then show "coal_of m u = u_OwnerSlot u" using assms(3) by (auto simp: led_by_owners_def)
  qed simp_all
  have fr: "units_frame m m1" "mok (m_Units m1)" "mok ch" "distinct (champ_ids ch)"
    and c: "\<And>x. x \<in> set ch \<Longrightarrow> map_of (m_Units m1) (u_ID (snd x)) = Some (snd x) \<and> coal_of m (snd x) = fst x \<and>
        u_ID (snd x) \<in> u_ID ` set us \<and> stationary_in ?pid tm (snd x) \<and>
        u_HP (snd x) = (\<Sum>u\<leftarrow>filter (\<lambda>u. coal_of m u = fst x) us. u_HP u)"
    and keys: "fst ` set ch = coal_of m ` set us"
    and out: "\<And>i. i \<notin> u_ID ` set us \<Longrightarrow> map_of (m_Units m1) i = map_of (m_Units m) i"
    and gone: "\<And>i. i \<in> u_ID ` set us \<Longrightarrow> i \<notin> set (champ_ids ch) \<Longrightarrow> map_of (m_Units m1) i = None"
    using inv by (simp_all add: collapse_inv_def)
  have ne: "ch \<noteq> []" using keys assms(4) us_def by (metis image_is_empty list.set(1) set_empty)
  have "fight_inv m1 ch"
    using fr(3,4) c own by (simp add: fight_inv_def case_prod_beta)
  from fight_ends[OF rt_ok_sub[OF assms(1), of 1] this ne, of ?pid tm "[]"]
  obtain m2 k u es where f: "fight (sub rt 1) m1 ch ?pid tm [] = Some (m2, [(k, u)], es)" "(k, u) \<in> set ch"
    "\<forall>(k', u')\<in>set ch. u_HP u' \<le> u_HP u" "units_frame m1 m2" "mok (m_Units m1) \<longrightarrow> mok (m_Units m2)"
    "\<forall>i. map_of (m_Units m2) i = (if i \<in> set (champ_ids ch) \<and> i \<noteq> u_ID u then None else map_of (m_Units m1) i)"
    by auto
  have k: "k = u_OwnerSlot u" using own[OF f(2)] by simp
  note cu = c[OF f(2), simplified]
  have hp: "u_HP (snd x) = coalition_HP m ?pid tm (fst x)" if "x \<in> set ch" for x
    using c[OF that] coalition_HP_stationary[OF rt assms(2), of "fst x" ?pid tm] by (simp add: us_def)
  have idus: "i \<in> u_ID ` set us \<longleftrightarrow> (\<exists>v. map_of (m_Units m) i = Some v \<and> stationary_in ?pid tm v)" for i
  proof
    assume "i \<in> u_ID ` set us"
    then obtain v where "v \<in> set us" "i = u_ID v" by blast
    then show "\<exists>v. map_of (m_Units m) i = Some v \<and> stationary_in ?pid tm v" using us(2) by blast
  next
    assume "\<exists>v. map_of (m_Units m) i = Some v \<and> stationary_in ?pid tm v"
    then obtain v where v: "map_of (m_Units m) i = Some v" "stationary_in ?pid tm v" by blast
    then have "u_ID v = i" using units_okD[OF assms(2)] by blast
    then have "v \<in> set us" using v us(2) by blast
    then show "i \<in> u_ID ` set us" using \<open>u_ID v = i\<close> by blast
  qed
  have champs_us: "i \<in> u_ID ` set us" if "i \<in> set (champ_ids ch)" for i
    using that c unfolding champ_ids_set by auto
  have res: "resolveProvince rt m prov tm =
      Some (let (m3, out2) = captureIfOwnerChanged (sub rt 2) m2 prov [(u_OwnerSlot u, u)] tm in (m3, es @ out2))"
    using assms(4) f(1) by (simp add: resolveProvince_def us_def[symmetric] mc fightUntilOneStands_def k Let_def case_prod_beta)
  have best: "coalition_HP m ?pid tm (u_OwnerSlot v) \<le> u_HP u"
    if v: "map_of (m_Units m) i = Some v" "stationary_in ?pid tm v" for v i
  proof -
    have "u_ID v = i" using units_okD[OF assms(2) v(1)] .
    then have "v \<in> set us" using v us(2) by blast
    moreover have "coal_of m v = u_OwnerSlot v"
      using assms(3) v map_of_SomeD[OF v(1)] by (auto simp: led_by_owners_def)
    ultimately obtain x where x: "x \<in> set ch" "fst x = u_OwnerSlot v" using keys by (metis imageE imageI)
    then show ?thesis using hp[OF x(1)] f(3) by (auto simp: case_prod_beta)
  qed
  have units: "map_of (m_Units m2) i =
       (case map_of (m_Units m) i of
          None \<Rightarrow> None
        | Some v \<Rightarrow> if i = u_ID u then Some u else if stationary_in ?pid tm v then None else Some v)" for i
  proof (cases "map_of (m_Units m) i")
    case None
    then have "i \<notin> u_ID ` set us" using idus by simp
    then show ?thesis using None f(6) out champs_us by auto
  next
    case (Some v)
    show ?thesis
    proof (cases "i = u_ID u")
      case True
      then show ?thesis using Some f(6) cu by simp
    next
      case False
      show ?thesis
      proof (cases "stationary_in ?pid tm v")
        case True
        then have "i \<in> u_ID ` set us" using idus Some by blast
        then show ?thesis using Some False True f(6) gone[of i] by auto
      next
        case nst: False
        then have "i \<notin> u_ID ` set us" using idus Some by auto
        then show ?thesis using Some False nst f(6) out[of i] champs_us[of i] by auto
      qed
    qed
  qed
  have u2: "map_of (m_Units m2) (u_ID u) = Some u" using f(6) cu by simp
  show ?thesis
    by (rule exI[of _ m2], rule exI[of _ u], rule exI[of _ es])
       (use res units_frame_trans[OF fr(1) f(4)] f(5) fr(2) u2 cu k hp[OF f(2)] best idus[of "u_ID u"] units in simp)
qed

section \<open>What every battle preserves\<close>

text \<open>Only units, provinces and the sequence number differ.\<close>

definition battle_frame :: "match \<Rightarrow> match \<Rightarrow> bool" where
  "battle_frame m m' \<longleftrightarrow> m'\<lparr>m_Units := m_Units m, m_Provinces := m_Provinces m, m_Seq := m_Seq m\<rparr> = m"

lemma battle_frame_refl [simp]: "battle_frame m m"
  by (simp add: battle_frame_def)

lemma battle_frame_trans: "battle_frame m m' \<Longrightarrow> battle_frame m' m'' \<Longrightarrow> battle_frame m m''"
  unfolding battle_frame_def by (cases m; cases m'; cases m'') simp

lemma units_battle_frame: "units_frame m m' \<Longrightarrow> battle_frame m m'"
  unfolding battle_frame_def units_frame_def by (cases m; cases m') simp

lemma battle_frame_steps [simp]:
  "battle_frame m (put_unit u m)" "battle_frame m (bump_seq m)" "battle_frame m (put_province p m)"
  by (simp_all add: battle_frame_def put_unit_def bump_seq_def put_province_def)

lemma battle_frame_fields:
  assumes "battle_frame m m'"
  shows "m_Players m' = m_Players m" "m_Diplomacy m' = m_Diplomacy m"
    "m_Resources m' = m_Resources m" "m_Timeline m' = m_Timeline m" "m_Status m' = m_Status m"
    "m_NextRecruit m' = m_NextRecruit m" "m_NextBuild m' = m_NextBuild m" "m_Buildings m' = m_Buildings m"
    "m_Map m' = m_Map m" "m_GameNow m' = m_GameNow m" "m_CleanupDone m' = m_CleanupDone m"
    "m_WinnerSlot m' = m_WinnerSlot m" "m_WinnerCoal m' = m_WinnerCoal m"
proof -
  have e: "m = m'\<lparr>m_Units := m_Units m, m_Provinces := m_Provinces m, m_Seq := m_Seq m\<rparr>"
    using assms by (simp add: battle_frame_def)
  show "m_Players m' = m_Players m" "m_Diplomacy m' = m_Diplomacy m"
    "m_Resources m' = m_Resources m" "m_Timeline m' = m_Timeline m" "m_Status m' = m_Status m"
    "m_NextRecruit m' = m_NextRecruit m" "m_NextBuild m' = m_NextBuild m" "m_Buildings m' = m_Buildings m"
    "m_Map m' = m_Map m" "m_GameNow m' = m_GameNow m" "m_CleanupDone m' = m_CleanupDone m"
    "m_WinnerSlot m' = m_WinnerSlot m" "m_WinnerCoal m' = m_WinnerCoal m"
    by (subst e, simp)+
qed

definition champs_ok :: "champions \<Rightarrow> bool" where
  "champs_ok ch \<longleftrightarrow> (\<forall>x\<in>set ch. unit_ok (snd x))"

lemma unit_ok_upd [simp]:
  "unit_ok (u\<lparr>u_HP := h\<rparr>) = unit_ok u" "unit_ok (u\<lparr>u_OwnerSlot := s\<rparr>) = unit_ok u" "unit_ok (u\<lparr>u_Type := ty\<rparr>) = unit_ok u"
  by (simp_all add: unit_ok_def)

lemma pick_fold_in:
  "foldl (\<lambda>pick u. case pick of None \<Rightarrow> Some u | Some p \<Rightarrow> if Q u p then Some u else Some p) acc us = Some w
    \<Longrightarrow> w \<in> set us \<or> acc = Some w"
proof (induction us arbitrary: acc)
  case (Cons u us)
  show ?case
  proof (cases acc)
    case None
    with Cons.IH[of "Some u"] Cons.prems show ?thesis by auto
  next
    case (Some p)
    show ?thesis
    proof (cases "Q u p")
      case True
      with Cons.IH[of "Some u"] Cons.prems Some show ?thesis by auto
    next
      case False
      with Cons.IH[of "Some p"] Cons.prems Some show ?thesis by auto
    qed
  qed
qed simp

lemma pickExtreme_in:
  assumes "pickExtreme rt ch low = Some w"
  shows "\<exists>x\<in>set ch. snd x = w"
proof -
  have "w \<in> set (map snd (go_range rt ch))"
    using pick_fold_in[OF assms[unfolded pickExtreme_def]] by simp
  then obtain x where x: "x \<in> set (go_range rt ch)" "w = snd x" unfolding set_map by (rule imageE)
  have "x \<in> set ch" by (rule subsetD[OF go_range_subset x(1)])
  then show ?thesis using x(2) by (intro bexI[of _ x]) simp_all
qed

lemma champs_ok_write: "champs_ok ch \<Longrightarrow> unit_ok w \<Longrightarrow> champs_ok (write_champions w ch)"
  by (simp add: champs_ok_def write_champions_map)

lemma champs_ok_mdel: "champs_ok ch \<Longrightarrow> champs_ok (mdel k ch)"
  by (simp add: champs_ok_def set_mdel)

lemma write_through_ok: "match_ok m \<Longrightarrow> unit_ok w \<Longrightarrow> match_ok (write_through w m) \<and> units_frame m (write_through w m)"
  by (simp add: write_through_def match_ok_put_unit) (simp add: put_unit_def)

lemma units_frame_bump: "units_frame m m' \<Longrightarrow> units_frame m (bump_seq m')"
  by (simp add: bump_seq_def units_frame_def)

lemma fight_round_shape:
  assumes "fight_round rt m ch pid tm = Some (m', ch', es)"
  obtains w d e1 e2 m1 m2 ch1 where "w \<in> snd ` set ch" "m1 = bump_seq (write_through (w\<lparr>u_HP := u_HP w - d\<rparr>) m)"
    "m2 = bump_seq (m1\<lparr>m_Units := mdel (u_ID w) (m_Units m1)\<rparr>)" "ch1 = write_champions (w\<lparr>u_HP := u_HP w - d\<rparr>) ch"
    "ae_Seq e1 = m_Seq m1" "ae_Seq e2 = m_Seq m2"
    "m' = m2 \<and> ch' = mdel (u_OwnerSlot w) ch1 \<and> es = [e1, e2] \<or> m' = m1 \<and> ch' = ch1 \<and> es = [e1]"
proof -
  obtain w where p: "pickExtreme (sub rt 0) ch True = Some w"
    using assms(1) by (auto simp: fight_round_def split: option.splits)
  obtain a where q: "pickExtreme (sub rt 1) (excluding ch w) False = Some a"
    using assms(1) p by (auto simp: fight_round_def split: option.splits)
  define d where "d = unitDamage (u_Type a) (u_Type w)"
  define w' where "w' = w\<lparr>u_HP := u_HP w - d\<rparr>"
  define m1 where "m1 = bump_seq (write_through w' m)"
  define m2 where "m2 = bump_seq (m1\<lparr>m_Units := mdel (u_ID w') (m_Units m1)\<rparr>)"
  define e1 where "e1 = combat_event ''combat_damage'' tm m1 w' [(''hp'', JNum (u_HP w')), (''province'', JStr pid)]"
  define e2 where "e2 = combat_event ''unit_destroyed'' tm m2 w' [(''province'', JStr pid)]"
  have "(m', ch', es) \<in> {(m2, mdel (u_OwnerSlot w') (write_champions w' ch), [e1, e2]), (m1, write_champions w' ch, [e1])}"
    using assms(1) unfolding fight_round_def p option.case q Let_def d_def[symmetric]
    unfolding w'_def[symmetric] m1_def[symmetric] m2_def[symmetric] e1_def[symmetric] e2_def[symmetric]
    by (cases "u_HP w' \<le> 0") simp_all
  then show ?thesis
    using pickExtreme_in[OF p]
    by (intro that[of w m1 d m2 "write_champions w' ch" e1 e2])
       (auto simp: m1_def m2_def w'_def e1_def e2_def combat_event_def)
qed

text \<open>What one round preserves, with the events emitted so far, the whole fight preserves.\<close>

lemma fight_invariant:
  assumes step: "\<And>rt m ch out m' ch' es. Q m ch out \<Longrightarrow> fight_round rt m ch pid tm = Some (m', ch', es) \<Longrightarrow> Q m' ch' (out @ es)"
    and "Q m ch out" "fight rt m ch pid tm out = Some (m', ch', es)"
  shows "Q m' ch' es"
proof -
  have "Q m ch out \<longrightarrow> Q (fst r) (fst (snd r)) (snd (snd r))" if "fight rt m ch pid tm out = Some r" for r
  proof (rule fight.raw_induct[where P = "\<lambda>rt m ch pid' tm' out r. pid' = pid \<longrightarrow> tm' = tm \<longrightarrow> Q m ch out \<longrightarrow>
        Q (fst r) (fst (snd r)) (snd (snd r))", OF _ that, THEN mp, THEN mp, OF _ refl refl])
    fix fight' rt m ch pid' tm' out r
    assume IH: "\<And>rt m ch pid' tm' out r. fight' rt m ch pid' tm' out = Some r \<Longrightarrow> pid' = pid \<longrightarrow> tm' = tm \<longrightarrow>
        Q m ch out \<longrightarrow> Q (fst r) (fst (snd r)) (snd (snd r))"
      and body: "(if length ch \<le> 1 then Some (m, ch, out)
          else Option.bind (fight_round (sub rt 0) m ch pid' tm')
                (\<lambda>(m', champs', es). fight' (sub rt 1) m' champs' pid' tm' (out @ es))) = Some r"
    show "pid' = pid \<longrightarrow> tm' = tm \<longrightarrow> Q m ch out \<longrightarrow> Q (fst r) (fst (snd r)) (snd (snd r))"
    proof (intro impI)
      assume eq: "pid' = pid" "tm' = tm" and ok: "Q m ch out"
      show "Q (fst r) (fst (snd r)) (snd (snd r))"
      proof (cases "length ch \<le> 1")
        case True
        then show ?thesis using body ok by auto
      next
        case False
        then obtain m1 ch1 es1 where r1: "fight_round (sub rt 0) m ch pid tm = Some (m1, ch1, es1)"
          "fight' (sub rt 1) m1 ch1 pid tm (out @ es1) = Some r"
          using body eq by (auto simp: bind_eq_Some_conv)
        show ?thesis using IH[OF r1(2)] step[OF ok r1(1)] by simp
      qed
    qed
  qed
  from this[OF assms(3)] assms(2) show ?thesis by simp
qed

lemma fight_round_ok:
  assumes "fight_round rt m ch pid tm = Some (m', ch', es)" "match_ok m" "champs_ok ch"
  shows "match_ok m' \<and> champs_ok ch' \<and> units_frame m m'"
proof -
  obtain w d e1 e2 m1 m2 ch1 where s: "w \<in> snd ` set ch" "m1 = bump_seq (write_through (w\<lparr>u_HP := u_HP w - d\<rparr>) m)"
    "m2 = bump_seq (m1\<lparr>m_Units := mdel (u_ID w) (m_Units m1)\<rparr>)" "ch1 = write_champions (w\<lparr>u_HP := u_HP w - d\<rparr>) ch"
    "m' = m2 \<and> ch' = mdel (u_OwnerSlot w) ch1 \<and> es = [e1, e2] \<or> m' = m1 \<and> ch' = ch1 \<and> es = [e1]"
    using fight_round_shape[OF assms(1)] by metis
  have w: "unit_ok (w\<lparr>u_HP := u_HP w - d\<rparr>)" using s(1) assms(3) by (auto simp: champs_ok_def)
  have m1: "match_ok m1" "units_frame m m1"
    using write_through_ok[OF assms(2) w] by (simp_all add: s(2) units_frame_bump)
  have c1: "champs_ok ch1" unfolding s(4) by (rule champs_ok_write[OF assms(3) w])
  have m2: "match_ok m2" "units_frame m1 m2"
    using match_ok_del_unit[OF m1(1)] by (simp_all add: s(3) units_frame_bump)
  show ?thesis
    using s(5) m1 m2 c1 champs_ok_mdel[OF c1] units_frame_trans[OF m1(2) m2(2)] by auto
qed

lemma fight_ok:
  assumes "fight rt m ch pid tm out = Some (m', ch', es)" "match_ok m" "champs_ok ch"
  shows "match_ok m' \<and> champs_ok ch' \<and> units_frame m m'"
  using assms
  by (intro fight_invariant[where Q = "\<lambda>m' ch' _. match_ok m' \<and> champs_ok ch' \<and> units_frame m m'", OF _ _ assms(1)])
     (use fight_round_ok units_frame_trans in blast, simp)

lemma collapse_step_ok:
  assumes "match_ok m" "champs_ok ch" "unit_ok u" "collapse_step all (m, ch) u = (m', ch')"
  shows "match_ok m' \<and> champs_ok ch' \<and> units_frame m m'"
proof (cases "map_of ch (CoalitionID (m_Diplomacy m) (u_OwnerSlot u) all)")
  case None
  then show ?thesis
    using assms by (auto simp: collapse_step_def champs_ok_def dest!: subsetD[OF set_mput_subset])
next
  case (Some ex)
  obtain e where e: "unit_ok e" "u_ID e = u_ID ex"
    "m' = m\<lparr>m_Units := mdel (u_ID u) (mput (u_ID ex) e (m_Units m))\<rparr>"
    "ch' = mput (CoalitionID (m_Diplomacy m) (u_OwnerSlot u) all) e ch"
  proof -
    have "unit_ok ex" using assms(2) map_of_SomeD[OF Some] by (auto simp: champs_ok_def)
    show ?thesis
    proof (cases "u_HP u > (u_HP ex + u_HP u) / 2")
      case True
      show ?thesis
        by (rule that[of "ex\<lparr>u_HP := u_HP ex + u_HP u, u_OwnerSlot := u_OwnerSlot u, u_Type := u_Type u\<rparr>"])
           (use assms(4) Some True \<open>unit_ok ex\<close> in \<open>simp_all add: collapse_step_def Let_def\<close>)
    next
      case False
      show ?thesis
        by (rule that[of "ex\<lparr>u_HP := u_HP ex + u_HP u\<rparr>"])
           (use assms(4) Some False \<open>unit_ok ex\<close> in \<open>simp_all add: collapse_step_def Let_def\<close>)
    qed
  qed
  have "m' = (put_unit e m)\<lparr>m_Units := mdel (u_ID u) (m_Units (put_unit e m))\<rparr>"
    by (simp add: e put_unit_def)
  then have "match_ok m'" using match_ok_del_unit[OF match_ok_put_unit[OF assms(1) e(1)]] by simp
  moreover have "champs_ok ch'"
    using assms(2) e(1) by (auto simp: e champs_ok_def dest!: subsetD[OF set_mput_subset])
  ultimately show ?thesis by (simp add: e)
qed

lemma collapse_ok:
  assumes "match_ok m" "champs_ok ch" "\<And>u. u \<in> set us \<Longrightarrow> unit_ok u" "foldl (collapse_step all) (m, ch) us = (m', ch')"
  shows "match_ok m' \<and> champs_ok ch' \<and> units_frame m m'"
  using assms
proof (induction us arbitrary: m ch)
  case (Cons u us)
  obtain m1 ch1 where s: "collapse_step all (m, ch) u = (m1, ch1)" by fastforce
  note ok = collapse_step_ok[OF Cons.prems(1,2) _ s]
  have "unit_ok u" using Cons.prems(3) by simp
  with ok have ok1: "match_ok m1" "champs_ok ch1" "units_frame m m1" by blast+
  from Cons.IH[OF ok1(1,2)] Cons.prems(3,4) s ok1(3) units_frame_trans show ?case by auto
qed simp

lemma capture_ok:
  assumes "captureIfOwnerChanged rt m prov ch tm = (m', es)" "match_ok m"
  shows "match_ok m' \<and> battle_frame m m'"
proof -
  have "m' = m \<or> (\<exists>p. m' = bump_seq (put_province p m))"
    using assms(1) by (auto simp: captureIfOwnerChanged_def Let_def split: option.splits if_splits)
  then show ?thesis
  proof (elim disjE exE)
    fix p assume "m' = bump_seq (put_province p m)"
    then show ?thesis
      using match_ok_put_province[OF assms(2), of p] battle_frame_trans[OF battle_frame_steps(3,2), of m p] by simp
  qed (use assms(2) in simp)
qed

lemma stationaryUnitsIn_sub: "u \<in> set (stationaryUnitsIn rt m pid tm) \<Longrightarrow> u \<in> snd ` set (m_Units m)"
  using go_range_subset[of rt "m_Units m"] by (auto simp: stationaryUnitsIn_def)

lemma resolveProvince_ok [wf_intros]:
  assumes "resolveProvince rt m prov tm = Some (m', es)" "match_ok m"
  shows "match_ok m' \<and> battle_frame m m'"
proof (cases "stationaryUnitsIn (sub rt 0) m (p_ID prov) tm = []")
  case True
  then show ?thesis using assms by (simp add: resolveProvince_def)
next
  case False
  let ?us = "stationaryUnitsIn (sub rt 0) m (p_ID prov) tm"
  obtain m1 ch where c: "collapseChampions m ?us = (m1, ch)" by fastforce
  obtain m2 ch2 out where f: "fight (sub rt 1) m1 ch (p_ID prov) tm [] = Some (m2, ch2, out)"
    using assms(1) False c by (auto simp: resolveProvince_def fightUntilOneStands_def bind_eq_Some_conv)
  obtain out2 where g: "captureIfOwnerChanged (sub rt 2) m2 prov ch2 tm = (m', out2)"
    using assms(1) False c f by (auto simp: resolveProvince_def fightUntilOneStands_def split: prod.splits)
  have "unit_ok u" if "u \<in> set ?us" for u
    using stationaryUnitsIn_sub[OF that] match_okD(1)[OF assms(2)] by (auto simp: units_ok_def)
  then have 1: "match_ok m1 \<and> champs_ok ch \<and> units_frame m m1"
    using collapse_ok[OF assms(2) _ _ c[unfolded collapseChampions_def]] by (simp add: champs_ok_def)
  then have 2: "match_ok m2 \<and> units_frame m1 m2" using fight_ok[OF f] by blast
  then have "match_ok m' \<and> battle_frame m2 m'" using capture_ok[OF g] by blast
  then show ?thesis using 1 2 units_battle_frame battle_frame_trans by metis
qed


section \<open>Correctness of combat\<close>

text \<open>
  C10. A battle always ends and is decided by total strength. Suppose the units standing in a province
  belong to the leaders of their coalitions (for instance, nobody is allied). Then resolving the
  province terminates, and if somebody stands there: exactly one of the standing units remains, it
  belongs to a coalition whose pooled hit points are the largest, it carries all of them untouched (the
  damage table decides only how fast the others die), all other standing units are gone and no other
  unit changes; the province then belongs to the winner's owner, or keeps its owner when that owner is
  in the winner's coalition, and no other province changes. With nobody there nothing happens.
\<close>

theorem battle_decided_by_strength:
  assumes "rt_ok rt" "match_ok m" "map_of (m_Provinces m) pid = Some prov" "led_by_owners m pid tm"
  shows "\<exists>m' es. resolveProvince rt m prov tm = Some (m', es) \<and>
    (if \<forall>i v. map_of (m_Units m) i = Some v \<longrightarrow> \<not> stationary_in pid tm v then m' = m \<and> es = []
     else \<exists>u v. map_of (m_Units m) (u_ID u) = Some v \<and> stationary_in pid tm v \<and> stationary_in pid tm u \<and>
        u_HP u = coalition_HP m pid tm (u_OwnerSlot u) \<and>
        (\<forall>i v. map_of (m_Units m) i = Some v \<longrightarrow> stationary_in pid tm v \<longrightarrow> coalition_HP m pid tm (u_OwnerSlot v) \<le> u_HP u) \<and>
        (\<forall>i. map_of (m_Units m') i =
           (case map_of (m_Units m) i of
              None \<Rightarrow> None
            | Some v \<Rightarrow> if i = u_ID u then Some u else if stationary_in pid tm v then None else Some v)) \<and>
        map_of (m_Provinces m') pid = Some (prov\<lparr>p_Owner :=
          (if p_Owner prov \<noteq> [] \<and> CoalitionID (m_Diplomacy m) (p_Owner prov) (SlotIDs m)
                = CoalitionID (m_Diplomacy m) (u_OwnerSlot u) (SlotIDs m)
           then p_Owner prov else u_OwnerSlot u)\<rparr>) \<and>
        (\<forall>q. q \<noteq> pid \<longrightarrow> map_of (m_Provinces m') q = map_of (m_Provinces m) q))"
proof (cases "stationaryUnitsIn (sub rt 0) m pid tm = []")
  case True
  have pid: "p_ID prov = pid" by (rule provinces_okD[OF match_okD(2)[OF assms(2)] assms(3)])
  have uo: "units_ok m" by (rule match_okD(1)[OF assms(2)])
  have "\<not> stationary_in pid tm v" if "map_of (m_Units m) i = Some v" for i v
    using stationaryUnitsIn_ok(2)[OF rt_ok_sub[OF assms(1)] uo, of 0 pid tm] True units_okD[OF uo that] that by auto
  then have "\<forall>i v. map_of (m_Units m) i = Some v \<longrightarrow> \<not> stationary_in pid tm v" by blast
  moreover have "resolveProvince rt m prov tm = Some (m, [])" using True pid by (simp add: resolveProvince_def)
  ultimately show ?thesis by simp
next
  case False
  have pid: "p_ID prov = pid" by (rule provinces_okD[OF match_okD(2)[OF assms(2)] assms(3)])
  have uo: "units_ok m" by (rule match_okD(1)[OF assms(2)])
  obtain m2 u es where r: "resolveProvince rt m prov tm =
      Some (let (m3, out2) = captureIfOwnerChanged (sub rt 2) m2 prov [(u_OwnerSlot u, u)] tm in (m3, es @ out2))"
    and fr: "units_frame m m2" and u: "stationary_in pid tm u" "u_HP u = coalition_HP m pid tm (u_OwnerSlot u)"
    and best: "\<forall>i v. map_of (m_Units m) i = Some v \<longrightarrow> stationary_in pid tm v \<longrightarrow> coalition_HP m pid tm (u_OwnerSlot v) \<le> u_HP u"
    and v: "\<exists>v. map_of (m_Units m) (u_ID u) = Some v \<and> stationary_in pid tm v"
    and us: "\<forall>i. map_of (m_Units m2) i =
       (case map_of (m_Units m) i of
          None \<Rightarrow> None
        | Some v \<Rightarrow> if i = u_ID u then Some u else if stationary_in pid tm v then None else Some v)"
    using resolveProvince_outcome[OF assms(1) uo, of prov tm] assms(4) False unfolding pid by blast
  define same where "same \<longleftrightarrow> p_Owner prov \<noteq> [] \<and> CoalitionID (m_Diplomacy m) (p_Owner prov) (SlotIDs m)
                = CoalitionID (m_Diplomacy m) (u_OwnerSlot u) (SlotIDs m)"
  obtain m3 out2 where c: "captureIfOwnerChanged (sub rt 2) m2 prov [(u_OwnerSlot u, u)] tm = (m3, out2)" by fastforce
  have gr: "map snd (go_range (sub rt 2) [(u_OwnerSlot u, u)]) = [u]"
    by (simp add: single_go_range[OF rt_ok_sub[OF assms(1)]])
  have m3: "m_Units m3 = m_Units m2 \<and> m_Provinces m3 =
      (if same then m_Provinces m2 else mput pid (prov\<lparr>p_Owner := u_OwnerSlot u\<rparr>) (m_Provinces m2))"
  proof (cases same)
    case True
    then have "m3 = m2"
      using c unfolding same_def captureIfOwnerChanged_def gr
      by (simp add: units_frame_fields(3)[OF fr] SlotIDs_frame[OF fr])
    then show ?thesis using True by simp
  next
    case False
    then have "m3 = bump_seq (put_province (prov\<lparr>p_Owner := u_OwnerSlot u\<rparr>) m2)"
      using c unfolding same_def captureIfOwnerChanged_def gr
      by (auto simp: units_frame_fields(3)[OF fr] SlotIDs_frame[OF fr] Let_def)
    then show ?thesis unfolding if_not_P[OF False] by (simp add: bump_seq_def put_province_def pid)
  qed
  have some: "\<not> (\<forall>i v. map_of (m_Units m) i = Some v \<longrightarrow> \<not> stationary_in pid tm v)" using v by blast
  have prov: "map_of (m_Provinces m3) pid = Some (prov\<lparr>p_Owner := (if same then p_Owner prov else u_OwnerSlot u)\<rparr>)"
    using m3 assms(3) units_frame_fields(1)[OF fr] by (cases same) simp_all
  have other: "\<forall>q. q \<noteq> pid \<longrightarrow> map_of (m_Provinces m3) q = map_of (m_Provinces m) q"
    using m3 units_frame_fields(1)[OF fr] by (cases same) simp_all
  have res: "resolveProvince rt m prov tm = Some (m3, es @ out2)" using r c by simp
  obtain v' where v': "map_of (m_Units m) (u_ID u) = Some v'" "stationary_in pid tm v'" using v by blast
  have us3: "\<forall>i. map_of (m_Units m3) i =
       (case map_of (m_Units m) i of
          None \<Rightarrow> None
        | Some v \<Rightarrow> if i = u_ID u then Some u else if stationary_in pid tm v then None else Some v)"
    using us m3 by simp
  show ?thesis
    unfolding if_not_P[OF some]
    by (rule exI[of _ m3], rule exI[of _ "es @ out2"], rule conjI[OF res], rule exI[of _ u], rule exI[of _ v'])
       (intro conjI v' u best us3 prov[unfolded same_def] other)
qed

text \<open>
  C11. Combat can hang. When every unit standing in a province is of a different coalition, there are
  at least two of them, and the strictly weakest one does not belong to the leader of its coalition,
  resolving the province never returns: the loop deletes destroyed champions by their owner, but the
  map is keyed by coalition, so the destroyed unit stays and is hit forever.
\<close>

theorem combat_hangs_for_led_ally:
  assumes "rt_ok rt" "match_ok m" "map_of (m_Provinces m) pid = Some prov"
    and two: "map_of (m_Units m) i = Some w" "stationary_in pid tm w"
      "map_of (m_Units m) j = Some v" "stationary_in pid tm v" "i \<noteq> j"
    and apart: "\<And>a b x y. map_of (m_Units m) a = Some x \<Longrightarrow> map_of (m_Units m) b = Some y \<Longrightarrow>
      stationary_in pid tm x \<Longrightarrow> stationary_in pid tm y \<Longrightarrow> coal_of m x = coal_of m y \<Longrightarrow> a = b"
    and weak: "\<And>a x. map_of (m_Units m) a = Some x \<Longrightarrow> stationary_in pid tm x \<Longrightarrow> a \<noteq> i \<Longrightarrow> u_HP w < u_HP x"
    and led: "coal_of m w \<noteq> u_OwnerSlot w"
      "\<And>a x. map_of (m_Units m) a = Some x \<Longrightarrow> stationary_in pid tm x \<Longrightarrow> coal_of m x \<noteq> u_OwnerSlot w"
  shows "resolveProvince rt m prov tm = None"
proof -
  have pid: "p_ID prov = pid" by (rule provinces_okD[OF match_okD(2)[OF assms(2)] assms(3)])
  have uo: "units_ok m" by (rule match_okD(1)[OF assms(2)])
  define us where "us = stationaryUnitsIn (sub rt 0) m pid tm"
  note us = stationaryUnitsIn_ok[OF rt_ok_sub[OF assms(1)] uo, of 0 pid tm, folded us_def]
  have in_us: "x \<in> set us \<longleftrightarrow> map_of (m_Units m) (u_ID x) = Some x \<and> stationary_in pid tm x" for x
    using us(2) by blast
  have ids: "u_ID w = i" "u_ID v = j" using units_okD[OF uo] two(1,3) by blast+
  have wv: "w \<in> set us" "v \<in> set us" "w \<noteq> v" using in_us ids two by auto
  have co: "x = y" if "x \<in> set us" "y \<in> set us" "coal_of m x = coal_of m y" for x y
  proof -
    have "u_ID x = u_ID y" using apart[of "u_ID x" x "u_ID y" y] that in_us by blast
    then show ?thesis using that in_us by (metis option.inject)
  qed
  text \<open>Nobody is pooled: the champions are the units themselves.\<close>
  have col: "foldl (collapse_step (SlotIDs m)) (m, map (\<lambda>u. (coal_of m u, u)) ps) qs = (m, map (\<lambda>u. (coal_of m u, u)) (ps @ qs))"
    if "set (ps @ qs) \<subseteq> set us" "distinct (ps @ qs)" for ps qs
    using that
  proof (induction qs arbitrary: ps)
    case (Cons u qs)
    have "coal_of m u \<notin> coal_of m ` set ps"
      using Cons.prems co by auto
    then have n: "map_of (map (\<lambda>u. (coal_of m u, u)) ps) (coal_of m u) = None"
      by (simp add: map_of_eq_None_iff image_image)
    have ap: "mput (coal_of m u) u l = l @ [(coal_of m u, u)]" if "map_of l (coal_of m u) = None" for l
      using that by (induction l) (auto split: if_splits)
    have "collapse_step (SlotIDs m) (m, map (\<lambda>u. (coal_of m u, u)) ps) u = (m, map (\<lambda>u. (coal_of m u, u)) (ps @ [u]))"
      using n ap[OF n] by (simp add: collapse_step_def coal_of_def[symmetric])
    then show ?case using Cons.IH[of "ps @ [u]"] Cons.prems by simp
  qed simp
  have dus: "distinct us" using us(1) by (simp add: distinct_map)
  let ?ch = "map (\<lambda>u. (coal_of m u, u)) us"
  have c: "collapseChampions m us = (m, ?ch)"
    using col[of "[]" us] dus by (simp add: collapseChampions_def)
  have "fight (sub rt 1) m ?ch pid tm [] = None"
  proof (rule fight_hangs)
    show "rt_ok (sub rt 1)" using assms(1) by simp
    show "mok ?ch" using co dus by (simp add: comp_def distinct_map inj_on_def)
    show "distinct (champ_ids ?ch)" using us(1) by (simp add: champ_ids_def comp_def)
    have "card {w, v} \<le> card (set us)" using wv by (intro card_mono) auto
    then show "1 < length ?ch" using wv dus by (simp add: distinct_card)
    show "(coal_of m w, w) \<in> set ?ch" using wv by simp
    show "u_OwnerSlot w \<notin> fst ` set ?ch"
    proof
      assume "u_OwnerSlot w \<in> fst ` set ?ch"
      then obtain x where "x \<in> set us" "u_OwnerSlot w = coal_of m x" by auto
      then show False using led(2)[of "u_ID x" x] in_us[of x] by simp
    qed
    fix k u assume "(k, u) \<in> set ?ch" "(k, u) \<noteq> (coal_of m w, w)"
    then have u: "u \<in> set us" "u \<noteq> w" by auto
    then have "u_ID u \<noteq> i" using in_us two(1) by auto
    then show "u_HP w < u_HP u" using weak u in_us by blast
  qed
  then show ?thesis
    using wv by (auto simp: resolveProvince_def pid us_def[symmetric] c fightUntilOneStands_def)
qed

text \<open>A sample match: three players, red and blue allied, one province.\<close>

definition sample_unit :: "unit_id \<Rightarrow> slot \<Rightarrow> real \<Rightarrow> game_unit" where
  "sample_unit i s hp = \<lparr>u_ID = i, u_OwnerSlot = s, u_Type = ''infantry'', u_HP = hp, u_Origin = ''a'', u_Dest = ''a'',
     u_StartedAt = 0, u_ArrivesAt = 0, u_OriginX = 0, u_OriginY = 0, u_DestX = 0, u_DestY = 0, u_Speed = 1,
     u_Version = 1, u_Path = [], u_PathIndex = 0, u_Waypoints = []\<rparr>"

definition sample_player :: "slot \<Rightarrow> player" where
  "sample_player s = \<lparr>py_Slot = s, py_UserID = s, py_Name = [], py_Color = [], py_Alive = True\<rparr>"

definition sample_province :: province where
  "sample_province = \<lparr>p_ID = ''a'', p_X = 0, p_Y = 0, p_Owner = ''zed'', p_Capital = False\<rparr>"

definition sample_alliance :: registry where
  "sample_alliance = fst (AcceptAlliance (fst (ProposeAlliance reg_New ''red'' ''blue'' 0)) ''blue'' ''red'' 0)"

definition empty_map :: game_map where
  "empty_map = \<lparr>map_ID = [], map_Name = [], map_Provinces = [], map_Edges = [], map_Slots = [], map_StartingUnits = [],
     map_SVGURL = [], map_ThumbnailURL = [], map_RulesSummary = []\<rparr>"

definition sample_match :: "registry \<Rightarrow> match" where
  "sample_match d = (empty_match ''m'' ''map'' empty_map 1 0)\<lparr>m_Diplomacy := d,
     m_Players := map (\<lambda>s. (s, sample_player s)) [''red'', ''blue'', ''zed''],
     m_Provinces := [(''a'', sample_province)],
     m_Units := [(''u1'', sample_unit ''u1'' ''red'' 10), (''u2'', sample_unit ''u2'' ''zed'' 100)]\<rparr>"

lemma sample_match_ok: "reg_ok d \<Longrightarrow> match_ok (sample_match d)"
  by (simp add: sample_match_def match_ok_def units_ok_def provinces_ok_def economy_ok_def empty_match_def
        sample_player_def sample_province_def sample_unit_def unit_ok_def)

lemma sample_units:
  "map_of (m_Units (sample_match d)) i = (if i = ''u1'' then Some (sample_unit ''u1'' ''red'' 10)
     else if i = ''u2'' then Some (sample_unit ''u2'' ''zed'' 100) else None)"
  "map_of (m_Provinces (sample_match d)) ''a'' = Some sample_province"
  by (simp_all add: sample_match_def)

lemma sample_stationary [simp]: "0 < h \<Longrightarrow> stationary_in ''a'' t (sample_unit i s h)"
  by (simp add: stationary_in_def sample_unit_def IsMoving_def)

lemma sample_unit_list:
  "m_Units (sample_match d) = [(''u1'', sample_unit ''u1'' ''red'' 10), (''u2'', sample_unit ''u2'' ''zed'' 100)]"
  by (simp add: sample_match_def)

lemma sample_fields [simp]:
  "u_OwnerSlot (sample_unit i s h) = s" "u_HP (sample_unit i s h) = h" "m_Diplomacy (sample_match d) = d"
  by (simp_all add: sample_unit_def sample_match_def)

lemma sample_coal:
  "CoalitionID reg_New ''red'' [''blue'', ''red'', ''zed''] = ''red''"
  "CoalitionID reg_New ''zed'' [''blue'', ''red'', ''zed''] = ''zed''"
  "CoalitionID sample_alliance ''red'' [''blue'', ''red'', ''zed''] = ''blue''"
  "CoalitionID sample_alliance ''zed'' [''blue'', ''red'', ''zed''] = ''zed''"
  by code_simp+

lemma sample_slots [simp]: "SlotIDs (sample_match d) = [''blue'', ''red'', ''zed'']"
  unfolding SlotIDs_def sample_match_def by simp code_simp?

theorem battle_decided_by_strength_witness:
  "\<exists>m' es. resolveProvince plain_rt (sample_match reg_New) sample_province 0 = Some (m', es)"
proof -
  have "led_by_owners (sample_match reg_New) ''a'' 0"
    unfolding led_by_owners_def coal_of_def using sample_coal(1,2)
    by (simp add: sample_unit_list)
  then show ?thesis
    using battle_decided_by_strength[OF rt_ok_plain sample_match_ok[OF reg_ok_New] sample_units(2)] by blast
qed

theorem combat_hangs_for_led_ally_witness:
  "resolveProvince plain_rt (sample_match sample_alliance) sample_province 0 = None"
proof -
  let ?m = "sample_match sample_alliance"
  have ok: "reg_ok sample_alliance"
    unfolding sample_alliance_def AcceptAlliance_def ProposeAlliance_def by (intro wf_intros) simp_all
  have coal: "coal_of ?m (sample_unit i ''red'' h) = ''blue''" "coal_of ?m (sample_unit i ''zed'' h) = ''zed''" for i h
    using sample_coal(3,4) by (simp_all add: coal_of_def)
  show ?thesis
    by (rule combat_hangs_for_led_ally[OF rt_ok_plain sample_match_ok[OF ok] sample_units(2),
          where i = "''u1''" and j = "''u2''" and w = "sample_unit ''u1'' ''red'' 10" and v = "sample_unit ''u2'' ''zed'' 100"])
       (auto simp: sample_units coal split: if_splits)
qed

end
