(* ===== verification/Outcome.thy ===== *)
theory Outcome
  imports Victory Battle
begin

text \<open>
  When a match ends: the facts about \<open>checkVictory\<close> of Victory.thy, read off the sets of capital
  owners and coalitions instead of the lists the loops build.
\<close>

section \<open>Facts about the end of a match\<close>

lemma capital_slots_fold:
  "distinct acc \<Longrightarrow> distinct (foldl (\<lambda>acc p. if \<not> p_Capital p \<or> p_Owner p = [] then acc else List.insert (p_Owner p) acc) acc ps)
   \<and> set (foldl (\<lambda>acc p. if \<not> p_Capital p \<or> p_Owner p = [] then acc else List.insert (p_Owner p) acc) acc ps)
     = set acc \<union> {s. s \<noteq> [] \<and> (\<exists>p\<in>set ps. p_Capital p \<and> p_Owner p = s)}"
proof (induction ps arbitrary: acc)
  case (Cons p ps)
  show ?case
  proof (cases "\<not> p_Capital p \<or> p_Owner p = []")
    case True
    then show ?thesis using Cons.IH[OF Cons.prems] by auto
  next
    case False
    then show ?thesis using Cons.IH[of "List.insert (p_Owner p) acc"] Cons.prems by auto
  qed
qed simp

text \<open>The slots that own a capital.\<close>

definition capital_owners :: "match \<Rightarrow> slot set" where
  "capital_owners m = {s. s \<noteq> [] \<and> (\<exists>(i, p)\<in>set (m_Provinces m). p_Capital p \<and> p_Owner p = s)}"

lemma capital_slots_ok: "distinct (capital_slots m) \<and> set (capital_slots m) = capital_owners m"
  using capital_slots_fold[of "[]" "map snd (m_Provinces m)"]
  by (force simp: capital_slots_def capital_owners_def)

lemma coalitions_fold:
  assumes "\<And>k v. (k, v) \<in> set cs \<Longrightarrow> \<exists>s\<in>S. k = cid s \<and> v = co s" "mok cs" "fst ` set cs = cid ` S"
    "cs' = foldl (\<lambda>cs s. if map_of cs (cid s) = None then mput (cid s) (co s) cs else cs) cs xs"
  shows "(\<forall>(k, v)\<in>set cs'. \<exists>s\<in>S \<union> set xs. k = cid s \<and> v = co s) \<and> mok cs' \<and> fst ` set cs' = cid ` (S \<union> set xs)"
  using assms
proof (induction xs arbitrary: cs S)
  case (Cons x xs)
  let ?cs = "if map_of cs (cid x) = None then mput (cid x) (co x) cs else cs"
  have 1: "\<exists>s\<in>insert x S. k = cid s \<and> v = co s" if "(k, v) \<in> set ?cs" for k v
    using that Cons.prems(1)[of k v] set_mput_subset[of "cid x" "co x" cs] by (auto split: if_splits)
  have 2: "mok ?cs" using Cons.prems(2) by simp
  have 3: "fst ` set ?cs = cid ` insert x S"
    using Cons.prems(3) map_of_None_keys[of cs "cid x"] by auto
  have "cs' = foldl (\<lambda>cs s. if map_of cs (cid s) = None then mput (cid s) (co s) cs else cs) ?cs xs"
    using Cons.prems(4) by simp
  from Cons.IH[OF 1 2 3 this] show ?case by auto
qed auto

lemma capital_coalitions_ok:
  "mok (capital_coalitions m)"
  "fst ` set (capital_coalitions m) = (\<lambda>s. CoalitionID (m_Diplomacy m) s (SlotIDs m)) ` capital_owners m"
  "\<forall>(k, v)\<in>set (capital_coalitions m). \<exists>s\<in>capital_owners m.
     k = CoalitionID (m_Diplomacy m) s (SlotIDs m) \<and> v = Coalition (m_Diplomacy m) s (SlotIDs m)"
proof -
  have "(\<forall>(k, v)\<in>set (capital_coalitions m). \<exists>s\<in>{} \<union> set (capital_slots m).
       k = CoalitionID (m_Diplomacy m) s (SlotIDs m) \<and> v = Coalition (m_Diplomacy m) s (SlotIDs m)) \<and>
     mok (capital_coalitions m) \<and>
     fst ` set (capital_coalitions m) = (\<lambda>s. CoalitionID (m_Diplomacy m) s (SlotIDs m)) ` ({} \<union> set (capital_slots m))"
    by (rule coalitions_fold[where cs = "[]"]) (simp_all add: capital_coalitions_def Let_def)
  then show "mok (capital_coalitions m)"
    "fst ` set (capital_coalitions m) = (\<lambda>s. CoalitionID (m_Diplomacy m) s (SlotIDs m)) ` capital_owners m"
    "\<forall>(k, v)\<in>set (capital_coalitions m). \<exists>s\<in>capital_owners m.
       k = CoalitionID (m_Diplomacy m) s (SlotIDs m) \<and> v = Coalition (m_Diplomacy m) s (SlotIDs m)"
    using capital_slots_ok[of m] by simp_all
qed

text \<open>One coalition holds every owned capital.\<close>

definition one_coalition :: "match \<Rightarrow> bool" where
  "one_coalition m \<longleftrightarrow> capital_owners m \<noteq> {} \<and>
     (\<forall>s\<in>capital_owners m. \<forall>t\<in>capital_owners m.
        CoalitionID (m_Diplomacy m) s (SlotIDs m) = CoalitionID (m_Diplomacy m) t (SlotIDs m))"

lemma card_image_one: "A \<noteq> {} \<Longrightarrow> card (f ` A) = 1 \<longleftrightarrow> (\<forall>s\<in>A. \<forall>t\<in>A. f s = f t)"
proof (intro iffI ballI)
  fix s t assume "card (f ` A) = 1" "s \<in> A" "t \<in> A"
  then show "f s = f t" unfolding One_nat_def card_1_singleton_iff by (metis imageI singletonD)
next
  assume "A \<noteq> {}" "\<forall>s\<in>A. \<forall>t\<in>A. f s = f t"
  then obtain a where "f ` A = {f a}" by blast
  then show "card (f ` A) = 1" by simp
qed

lemma length_capital_coalitions:
  "capital_owners m \<noteq> {} \<Longrightarrow> length (capital_coalitions m) = 1 \<longleftrightarrow> one_coalition m"
proof -
  assume ne: "capital_owners m \<noteq> {}"
  have "length (capital_coalitions m) = card (fst ` set (capital_coalitions m))"
    using capital_coalitions_ok(1)[of m] by (metis distinct_card length_map set_map)
  also have "\<dots> = card ((\<lambda>s. CoalitionID (m_Diplomacy m) s (SlotIDs m)) ` capital_owners m)"
    by (simp only: capital_coalitions_ok(2))
  finally show ?thesis
    using ne by (simp only: one_coalition_def card_image_one not_False_eq_True simp_thms)
qed

lemma checkVictory_unfold:
  "checkVictory m tm =
    (if m_Status m = ''active'' \<and> one_coalition m then
       (let (coalID, members) = hd (capital_coalitions m);
            winners = winningSlotList members (capital_slots m);
            m1 = m\<lparr>m_Status := ''ended'', m_WinnerSlot := coalID, m_WinnerCoal := winners, m_Seq := m_Seq m + 1,
                   m_Timeline := tl_Push \<lparr>ev_At = tm + CleanupDelay, ev_Kind = MatchCleanup, ev_UnitID = [], ev_Other = [], ev_Version = 0\<rparr> (m_Timeline m)\<rparr>
        in (m1, [\<lparr>ae_Kind = ''match_ended'', ae_OccurAt = tm, ae_Seq = m_Seq m1, ae_UnitID = [],
                      ae_Province = [], ae_Slot = coalID,
                      ae_Extra = [(''coalition'', JStr coalID), (''winners'', JList (map JStr winners))]\<rparr>]))
     else (m, []))"
proof (cases "m_Status m = ''active''")
  case True
  have e: "(capital_slots m = []) = (capital_owners m = {})" using capital_slots_ok[of m] by (metis set_empty)
  show ?thesis
  proof (cases "capital_owners m = {}")
    case True': True
    then have "\<not> one_coalition m" by (simp add: one_coalition_def)
    then show ?thesis using True True' e by (simp add: checkVictory_def)
  next
    case False
    then have "(length (capital_coalitions m) \<noteq> 1) = (\<not> one_coalition m)" using length_capital_coalitions by simp
    then show ?thesis using True False e by (simp add: checkVictory_def Let_def)
  qed
qed (simp add: checkVictory_def)


lemma checkVictory_ok [wf_intros]: "match_ok m \<Longrightarrow> match_ok (fst (checkVictory m tm))"
  by (simp add: checkVictory_unfold Let_def case_prod_beta match_ok_def units_ok_def provinces_ok_def economy_ok_def)

lemma checkVictory_frame [frame_simps]:
  "m_Units (fst (checkVictory m tm)) = m_Units m" "m_Provinces (fst (checkVictory m tm)) = m_Provinces m"
  "m_Diplomacy (fst (checkVictory m tm)) = m_Diplomacy m" "m_Resources (fst (checkVictory m tm)) = m_Resources m"
  "m_Players (fst (checkVictory m tm)) = m_Players m" "m_CleanupDone (fst (checkVictory m tm)) = m_CleanupDone m"
  "m_NextRecruit (fst (checkVictory m tm)) = m_NextRecruit m" "m_NextBuild (fst (checkVictory m tm)) = m_NextBuild m"
  "m_Buildings (fst (checkVictory m tm)) = m_Buildings m" "m_GameNow (fst (checkVictory m tm)) = m_GameNow m"
  by (simp_all add: checkVictory_unfold Let_def case_prod_beta)

lemma checkVictory_inactive: "m_Status m \<noteq> ''active'' \<Longrightarrow> checkVictory m tm = (m, [])"
  by (simp add: checkVictory_def)


definition sample_won :: match where
  "sample_won = (sample_match sample_alliance)\<lparr>m_Provinces :=
     [(''a'', sample_province\<lparr>p_Capital := True, p_Owner := ''red''\<rparr>),
      (''b'', sample_province\<lparr>p_Capital := True, p_Owner := ''blue''\<rparr>)]\<rparr>"

lemma sample_won_simps [simp]:
  "m_Status sample_won = ''active''" "m_Diplomacy sample_won = sample_alliance"
  "SlotIDs sample_won = [''blue'', ''red'', ''zed'']"
  "capital_owners sample_won = {''red'', ''blue''}"
  subgoal by (simp add: sample_won_def sample_match_def empty_match_def)
  subgoal by (simp add: sample_won_def)
  subgoal using sample_slots[of sample_alliance] by (simp add: sample_won_def SlotIDs_def)
  subgoal by (auto simp: sample_won_def capital_owners_def)
  done

lemma sample_won_coalition: "CoalitionID sample_alliance s [''blue'', ''red'', ''zed''] = ''blue''" if "s \<in> {''red'', ''blue''}"
proof -
  have "CoalitionID sample_alliance ''blue'' [''blue'', ''red'', ''zed''] = ''blue''" by code_simp
  with that sample_coal(3) show ?thesis by auto
qed

end
