(* ===== verification/Legs.thy ===== *)
theory Legs
  imports Movement Outcome Routes
begin

text \<open>
  Facts about movement: the schedule of a path, and that starting a waypoint and completing a leg keep
  the invariant of a match and change only its units, provinces, timeline and outcome.
\<close>

section \<open>What an arrival may change\<close>

text \<open>Movement, combat and the victory check leave alone everything but the units, the provinces, the
  timeline and the outcome.\<close>

definition sim_frame :: "match \<Rightarrow> match \<Rightarrow> bool" where
  "sim_frame m m' \<longleftrightarrow> m'\<lparr>m_Units := m_Units m, m_Provinces := m_Provinces m, m_Timeline := m_Timeline m,
     m_Seq := m_Seq m, m_Status := m_Status m, m_WinnerSlot := m_WinnerSlot m, m_WinnerCoal := m_WinnerCoal m\<rparr> = m"

lemma sim_frame_refl [simp]: "sim_frame m m"
  by (simp add: sim_frame_def)

lemma sim_frame_trans: "sim_frame m m' \<Longrightarrow> sim_frame m' m'' \<Longrightarrow> sim_frame m m''"
  unfolding sim_frame_def by (cases m; cases m'; cases m'') simp

lemma battle_sim_frame: "battle_frame m m' \<Longrightarrow> sim_frame m m'"
  unfolding sim_frame_def battle_frame_def by (cases m; cases m') simp

lemma sim_frame_steps [simp]:
  "sim_frame m (put_unit u m)" "sim_frame m (bump_seq m)" "sim_frame m (m\<lparr>m_Timeline := t\<rparr>)"
  by (simp_all add: sim_frame_def put_unit_def bump_seq_def)

text \<open>Moving a unit changes only the units, the timeline and the sequence number.\<close>

definition move_frame :: "match \<Rightarrow> match \<Rightarrow> bool" where
  "move_frame m m' \<longleftrightarrow> m'\<lparr>m_Units := m_Units m, m_Timeline := m_Timeline m, m_Seq := m_Seq m\<rparr> = m"

lemma move_frame_refl [simp]: "move_frame m m"
  by (simp add: move_frame_def)

lemma move_frame_trans: "move_frame m m' \<Longrightarrow> move_frame m' m'' \<Longrightarrow> move_frame m m''"
  unfolding move_frame_def by (cases m; cases m'; cases m'') simp

lemma move_sim_frame: "move_frame m m' \<Longrightarrow> sim_frame m m'"
  unfolding sim_frame_def move_frame_def by (cases m; cases m') simp

lemma move_frame_steps [simp]:
  "move_frame m (put_unit u m)" "move_frame m (bump_seq m)" "move_frame m (m\<lparr>m_Timeline := t\<rparr>)"
  by (simp_all add: move_frame_def put_unit_def bump_seq_def)

lemma move_frame_fields:
  assumes "move_frame m m'"
  shows "m_Provinces m' = m_Provinces m" "m_Status m' = m_Status m" "m_WinnerSlot m' = m_WinnerSlot m"
    "m_WinnerCoal m' = m_WinnerCoal m"
proof -
  let ?g = "\<lambda>m'. m'\<lparr>m_Units := m_Units m, m_Timeline := m_Timeline m, m_Seq := m_Seq m\<rparr>"
  have "m = ?g m'" using assms by (simp add: move_frame_def)
  then have *: "f m = f (?g m')" for f :: "match \<Rightarrow> 'a" by (rule arg_cong)
  show "m_Provinces m' = m_Provinces m" "m_Status m' = m_Status m" "m_WinnerSlot m' = m_WinnerSlot m"
    "m_WinnerCoal m' = m_WinnerCoal m"
    by (subst *, simp)+
qed

lemma sim_frame_victory: "sim_frame m (fst (checkVictory m tm))"
  by (simp add: checkVictory_unfold sim_frame_def Let_def case_prod_beta)

lemma sim_frame_fields:
  assumes "sim_frame m m'"
  shows "m_Players m' = m_Players m" "m_Diplomacy m' = m_Diplomacy m" "m_Resources m' = m_Resources m"
    "m_NextRecruit m' = m_NextRecruit m" "m_NextBuild m' = m_NextBuild m" "m_Buildings m' = m_Buildings m"
    "m_Map m' = m_Map m" "m_GameNow m' = m_GameNow m" "m_CleanupDone m' = m_CleanupDone m"
proof -
  let ?g = "\<lambda>m'. m'\<lparr>m_Units := m_Units m, m_Provinces := m_Provinces m, m_Timeline := m_Timeline m,
     m_Seq := m_Seq m, m_Status := m_Status m, m_WinnerSlot := m_WinnerSlot m, m_WinnerCoal := m_WinnerCoal m\<rparr>"
  have "m = ?g m'" using assms by (simp add: sim_frame_def)
  then have *: "f m = f (?g m')" for f :: "match \<Rightarrow> 'a" by (rule arg_cong)
  show "m_Players m' = m_Players m" "m_Diplomacy m' = m_Diplomacy m" "m_Resources m' = m_Resources m"
    "m_NextRecruit m' = m_NextRecruit m" "m_NextBuild m' = m_NextBuild m" "m_Buildings m' = m_Buildings m"
    "m_Map m' = m_Map m" "m_GameNow m' = m_GameNow m" "m_CleanupDone m' = m_CleanupDone m"
    by (subst *, simp)+
qed

text \<open>What a match keeps for its whole life.\<close>

definition identity :: "match \<Rightarrow> string \<times> string \<times> time \<times> time \<times> real \<times> slot list" where
  "identity m = (m_ID m, m_MapID m, m_StartedAt m, m_GameStart m, m_Speed m, mkeys (m_Players m))"

lemma identity_upd [simp]:
  "identity (m\<lparr>m_Timeline := t\<rparr>) = identity m" "identity (m\<lparr>m_GameNow := n\<rparr>) = identity m"
  "identity (m\<lparr>m_Resources := n'\<rparr>) = identity m" "identity (m\<lparr>m_Buildings := b\<rparr>) = identity m" "identity (m\<lparr>m_NextBuild := nb\<rparr>) = identity m"
  "identity (m\<lparr>m_NextRecruit := nr\<rparr>) = identity m" "identity (m\<lparr>m_Diplomacy := d\<rparr>) = identity m" "identity (m\<lparr>m_CleanupDone := cd\<rparr>) = identity m"
  "identity (m\<lparr>m_Status := st\<rparr>) = identity m" "identity (m\<lparr>m_Units := us\<rparr>) = identity m" "identity (m\<lparr>m_Seq := sq\<rparr>) = identity m"
  "identity (bump_seq m) = identity m" "identity (put_unit u m) = identity m"
  by (simp_all add: identity_def bump_seq_def put_unit_def)

lemma sim_identity:
  assumes "sim_frame m m'"
  shows "identity m' = identity m"
proof -
  let ?g = "\<lambda>m'. m'\<lparr>m_Units := m_Units m, m_Provinces := m_Provinces m, m_Timeline := m_Timeline m,
     m_Seq := m_Seq m, m_Status := m_Status m, m_WinnerSlot := m_WinnerSlot m, m_WinnerCoal := m_WinnerCoal m\<rparr>"
  have "identity m = identity (?g m')" using assms by (simp add: sim_frame_def)
  then show ?thesis by (simp add: identity_def)
qed

section \<open>The schedule of a path\<close>

lemma travel_time_pos: "Millisecond \<le> travel_time len speed"
  by (simp add: travel_time_def Let_def)

lemma length_schedule_legs [simp]: "length (schedule_legs speed t legs) = length legs"
  by (induction legs arbitrary: t) (simp_all add: Let_def)

lemma schedule_legs_Nil_iff [simp]: "schedule_legs speed t legs = [] \<longleftrightarrow> legs = []"
  by (metis length_0_conv length_schedule_legs)

lemma schedule_legs_arrivals: "l \<in> set (schedule_legs speed t legs) \<Longrightarrow> t + Millisecond \<le> pl_ArrivesAt l"
proof (induction legs arbitrary: t)
  case (Cons x legs)
  let ?a = "t + travel_time (EuclidDistance (lg_FromX x) (lg_FromY x) (lg_ToX x) (lg_ToY x)) speed"
  have a: "t + Millisecond \<le> ?a" using travel_time_pos by simp
  from Cons.prems consider "pl_ArrivesAt l = ?a" | "l \<in> set (schedule_legs speed ?a legs)" by (auto simp: Let_def)
  then show ?case
  proof cases
    case 2
    from Cons.IH[OF this] a show ?thesis by (simp add: duration_defs)
  qed (use a in simp)
qed simp

lemma beginCurrentLeg_simps [simp]:
  "u_Path (beginCurrentLeg u t) = u_Path u" "u_PathIndex (beginCurrentLeg u t) = u_PathIndex u"
  "u_Speed (beginCurrentLeg u t) = u_Speed u" "u_ID (beginCurrentLeg u t) = u_ID u"
  "u_Waypoints (beginCurrentLeg u t) = u_Waypoints u" "u_Version (beginCurrentLeg u t) = u_Version u"
  "u_OwnerSlot (beginCurrentLeg u t) = u_OwnerSlot u" "u_HP (beginCurrentLeg u t) = u_HP u"
  by (simp_all add: beginCurrentLeg_def Let_def)

lemma unit_ok_begin [simp]: "unit_ok (beginCurrentLeg u t) = unit_ok u"
  by (simp add: unit_ok_def)

lemma unit_ok_path: "0 < u_Speed u \<Longrightarrow> i < length p \<or> p = [] \<Longrightarrow> unit_ok (u\<lparr>u_PathIndex := i, u_Path := p\<rparr>)"
  by (auto simp: unit_ok_def)

lemma scheduleArrival_ok [wf_intros]: "match_ok m \<Longrightarrow> match_ok (scheduleArrival m u)"
  by (simp add: scheduleArrival_def match_ok_push)

text \<open>At most one arrival is scheduled.\<close>

definition one_arrival :: "match \<Rightarrow> match \<Rightarrow> bool" where
  "one_arrival m m' \<longleftrightarrow> m_Timeline m' = m_Timeline m \<or>
     (\<exists>e. ev_Kind e = Arrival \<and> m_Timeline m' = tl_Push e (m_Timeline m))"

lemma scheduleArrival_frame [simp]: "move_frame m (scheduleArrival m u)"
  "m_Units (scheduleArrival m u) = m_Units m" "m_Seq (scheduleArrival m u) = m_Seq m"
  by (simp_all add: scheduleArrival_def)

lemma put_unit_simps [simp]:
  "m_Timeline (put_unit u m) = m_Timeline m" "m_Seq (put_unit u m) = m_Seq m"
  "m_Units (put_unit u m) = mput (u_ID u) u (m_Units m)" "m_Map (put_unit u m) = m_Map m"
  by (simp_all add: put_unit_def)

lemma scheduleArrival_one: "one_arrival m (scheduleArrival (put_unit u m) v)"
  by (auto simp: one_arrival_def scheduleArrival_def intro!: exI)

definition legs_left :: "game_unit \<Rightarrow> nat" where
  "legs_left u = length (u_Path u) - u_PathIndex u"

text \<open>The unit is the same one with less to travel: fewer waypoints, or fewer legs of its path.\<close>

definition route_less :: "game_unit \<Rightarrow> game_unit \<Rightarrow> bool" where
  "route_less u' u \<longleftrightarrow> u_ID u' = u_ID u \<and> u_OwnerSlot u' = u_OwnerSlot u \<and> u_HP u' = u_HP u \<and>
     (length (u_Waypoints u') < length (u_Waypoints u) \<or>
      length (u_Waypoints u') \<le> length (u_Waypoints u) \<and> legs_left u' < legs_left u)"

lemma SetUnitPath_ok:
  assumes "match_ok m" "0 < u_Speed u" "legs \<noteq> []" "SetUnitPath m u legs now = (m', u')"
  shows "match_ok m' \<and> unit_ok u' \<and> move_frame m m' \<and> one_arrival m m' \<and> m_Seq m' = m_Seq m
    \<and> m_Units m' = mput (u_ID u) u' (m_Units m)
    \<and> u_ID u' = u_ID u \<and> u_OwnerSlot u' = u_OwnerSlot u \<and> u_Waypoints u' = u_Waypoints u \<and> u_HP u' = u_HP u
    \<and> u_Version u' = u_Version u"
proof -
  let ?u = "beginCurrentLeg (u\<lparr>u_PathIndex := 0, u_Path := schedule_legs (u_Speed u) now legs\<rparr>) now"
  have eq: "m' = scheduleArrival (put_unit ?u m) ?u" "u' = ?u"
    using assms(3,4) by (auto simp: SetUnitPath_def Let_def)
  have ok: "unit_ok ?u" using assms(2,3) by (simp add: unit_ok_path)
  have "move_frame m m'" unfolding eq by (rule move_frame_trans[OF move_frame_steps(1) scheduleArrival_frame(1)])
  moreover have "match_ok m'" unfolding eq by (intro wf_intros assms(1) ok)
  moreover have "one_arrival m m'" unfolding eq by (rule scheduleArrival_one)
  ultimately show ?thesis using ok unfolding eq by simp
qed

text \<open>Starting the next waypoint of a unit of the match puts the unit back, with at most one waypoint
  less, and says whether it now has a path.\<close>

lemma StartNextWaypoint_ok:
  assumes "match_ok m" "unit_ok u" "map_of (m_Units m) (u_ID u) = Some u" "StartNextWaypoint rt m u now = (m', u', started)"
  shows "match_ok m' \<and> unit_ok u' \<and> move_frame m m' \<and> one_arrival m m' \<and> m_Seq m' = m_Seq m
    \<and> u_ID u' = u_ID u \<and> u_OwnerSlot u' = u_OwnerSlot u \<and> u_HP u' = u_HP u
    \<and> (\<forall>i. map_of (m_Units m') i = (if i = u_ID u then Some u' else map_of (m_Units m) i))
    \<and> (u' = u \<and> \<not> started \<or> length (u_Waypoints u') < length (u_Waypoints u))"
proof (cases "u_Waypoints u = [] \<or> IsMoving u now")
  case True
  then have "m' = m" "u' = u" "\<not> started" using assms(4) by (auto simp: StartNextWaypoint_def)
  then show ?thesis using assms(1-3) by (auto simp: one_arrival_def)
next
  case False
  let ?u1 = "u\<lparr>u_Waypoints := tl (u_Waypoints u)\<rparr>"
  have wp: "length (u_Waypoints ?u1) < length (u_Waypoints u)" using False by (cases "u_Waypoints u") auto
  have ok1: "unit_ok ?u1" using assms(2) by (simp add: unit_ok_def)
  have m1: "match_ok (put_unit ?u1 m)" by (intro wf_intros assms(1) ok1)
  have plain: ?thesis if "m' = put_unit ?u1 m" "u' = ?u1"
    unfolding that using m1 ok1 wp by (simp add: one_arrival_def)
  show ?thesis
  proof (cases "RouteFromEdge rt (NewGraph (m_Map m)) (u_OriginX u) (u_OriginY u) (u_Origin u) (u_Dest u) (hd (u_Waypoints u))")
    case (Inl e)
    then have "m' = put_unit ?u1 m" "u' = ?u1" using assms(4) False by (auto simp: StartNextWaypoint_def Let_def)
    then show ?thesis by (rule plain)
  next
    case (Inr legs)
    show ?thesis
    proof (cases "RouteBlocked (m_Diplomacy m) (u_OwnerSlot u) (ProvinceOwners m) legs")
      case True
      then have "m' = put_unit ?u1 m" "u' = ?u1" using assms(4) False Inr by (auto simp: StartNextWaypoint_def Let_def)
      then show ?thesis by (rule plain)
    next
      case blocked: False
      obtain m2 u2 where s: "SetUnitPath (put_unit ?u1 m) ?u1 legs now = (m2, u2)" by fastforce
      then have eq: "m' = m2" "u' = u2"
        using assms(4) False Inr blocked by (simp_all add: StartNextWaypoint_def Let_def)
      show ?thesis
      proof (cases "legs = []")
        case True
        then have "m' = put_unit ?u1 m" "u' = ?u1" using s by (auto simp: SetUnitPath_def eq)
        then show ?thesis by (rule plain)
      next
        case False
        have sp: "0 < u_Speed ?u1" using ok1 by (simp add: unit_ok_def)
        note S = SetUnitPath_ok[OF m1 sp False s]
        then have "move_frame m m2" using move_frame_trans[OF move_frame_steps(1)] by blast
        moreover have "one_arrival m m2" using S by (simp add: one_arrival_def)
        ultimately show ?thesis using S wp unfolding eq by simp
      qed
    qed
  qed
qed

lemma resolve_at_ok:
  assumes "match_ok m" "resolve_at rt m pid tm = Some (m', es)"
  shows "match_ok m' \<and> sim_frame m m' \<and> m_Status m' = m_Status m"
proof (cases "map_of (m_Provinces m) pid")
  case None
  then show ?thesis using assms by (simp add: resolve_at_def)
next
  case (Some prov)
  then have "resolveProvince rt m prov tm = Some (m', es)" using assms(2) by (simp add: resolve_at_def)
  from resolveProvince_ok[OF this assms(1)] show ?thesis
    using battle_sim_frame battle_frame_fields(5) by blast
qed

lemma then_victory_ok:
  "match_ok m \<Longrightarrow> match_ok (fst (then_victory tm (m, es)))" "sim_frame m (fst (then_victory tm (m, es)))"
  unfolding then_victory_def using checkVictory_ok sim_frame_victory by (simp_all add: case_prod_beta)

lemma unit_ok_land [simp]: "unit_ok (land_unit u l tm) = unit_ok u"
  by (simp add: unit_ok_def land_unit_def)

lemma land_unit_simps [simp]:
  "u_ID (land_unit u l tm) = u_ID u" "u_Path (land_unit u l tm) = u_Path u" "u_PathIndex (land_unit u l tm) = u_PathIndex u"
  "u_Waypoints (land_unit u l tm) = u_Waypoints u" "u_OwnerSlot (land_unit u l tm) = u_OwnerSlot u" "u_HP (land_unit u l tm) = u_HP u"
  by (simp_all add: land_unit_def)

text \<open>The match before the battle and the victory check: the unit has moved on, the event of its arrival
  has its sequence number, and the next arrival may have been scheduled.\<close>

definition leg_done :: "match \<Rightarrow> game_unit \<Rightarrow> match \<Rightarrow> bool" where
  "leg_done m u m2 \<longleftrightarrow> match_ok m2 \<and> move_frame m m2 \<and> one_arrival m m2 \<and> m_Seq m2 = m_Seq m + 1 \<and>
     (\<exists>u2. route_less u2 u \<and> (\<forall>i. map_of (m_Units m2) i = (if i = u_ID u then Some u2 else map_of (m_Units m) i)))"

lemma leg_doneI:
  assumes "match_ok m1" "move_frame m m1" "one_arrival m m1" "m_Seq m1 = m_Seq m + 1"
    "\<And>i. map_of (m_Units m1) i = (if i = u_ID u then Some u2 else map_of (m_Units m) i)" "route_less u2 u"
  shows "leg_done m u m1"
  using assms unfolding leg_done_def by blast

lemma CompleteUnitLeg_shape:
  assumes "match_ok m" "map_of (m_Units m) (u_ID u) = Some u" "u_PathIndex u < length (u_Path u)"
  shows "\<exists>m2 e. leg_done m u m2 \<and> ae_Seq e = m_Seq m + 1 \<and>
    (CompleteUnitLeg rt m u tm = Some (then_victory tm (m2, [e])) \<or>
     (\<exists>i pid. CompleteUnitLeg rt m u tm =
        map_option (\<lambda>(m3, es). then_victory tm (m3, [e] @ es)) (resolve_at (sub rt i) m2 pid tm)))"
proof -
  define l where "l = u_Path u ! u_PathIndex u"
  define u1 where "u1 = land_unit u l tm"
  define m1 where "m1 = bump_seq (put_unit u1 m)"
  define pLeg where "pLeg = \<lparr>lg_FromProv = pl_FromProv l, lg_ToProv = pl_ToProv l, lg_FromX = pl_FromX l,
                    lg_FromY = pl_FromY l, lg_ToX = pl_ToX l, lg_ToY = pl_ToY l\<rparr>"
  define e where "e = \<lparr>ae_Kind = ''arrival'', ae_OccurAt = tm, ae_Seq = m_Seq m1, ae_UnitID = u_ID u,
                    ae_Province = pl_ToProv l, ae_Slot = u_OwnerSlot u, ae_Extra = []\<rparr>"
  have u: "unit_ok u" by (rule units_ok_unit[OF match_okD(1)[OF assms(1)] assms(2)])
  then have u1: "unit_ok u1" by (simp add: u1_def)
  then have m1: "match_ok m1" using match_ok_put_unit[OF assms(1) u1] by (simp add: m1_def)
  have f1: "move_frame m m1" unfolding m1_def by (rule move_frame_trans[OF move_frame_steps(1) move_frame_steps(2)])
  have seq: "m_Seq m1 = m_Seq m + 1" "m_Timeline m1 = m_Timeline m" "m_Units m1 = mput (u_ID u) u1 (m_Units m)"
    by (simp_all add: m1_def bump_seq_def u1_def)
  have e: "ae_Seq e = m_Seq m + 1" by (simp add: e_def seq)
  have put: "leg_done m u (put_unit u2 m1)" if "unit_ok u2" "route_less u2 u" for u2
    by (rule leg_doneI[where ?u2.0 = u2, OF match_ok_put_unit[OF m1 that(1)] move_frame_trans[OF f1 move_frame_steps(1)]])
       (use that in \<open>simp_all add: seq one_arrival_def route_less_def\<close>)
  have body: "CompleteUnitLeg rt m u tm = (if HostileLegEnd (m_Diplomacy m1) (u_OwnerSlot u1) (ProvinceOwners m1) pLeg
              \<or> hostileUnitOnLeg (sub rt 0) m1 u1 l tm \<noteq> None then
             map_option (\<lambda>(m3, es). then_victory tm (m3, [e] @ es))
               (resolve_at (sub rt 1) (put_unit (u1\<lparr>u_Path := [], u_PathIndex := 0, u_Waypoints := []\<rparr>) m1) (pl_ToProv l) tm)
           else if u_PathIndex (u1\<lparr>u_PathIndex := u_PathIndex u1 + 1\<rparr>) < length (u_Path (u1\<lparr>u_PathIndex := u_PathIndex u1 + 1\<rparr>)) then
             Some (then_victory tm (scheduleArrival (put_unit (beginCurrentLeg (u1\<lparr>u_PathIndex := u_PathIndex u1 + 1\<rparr>) tm) m1)
                (beginCurrentLeg (u1\<lparr>u_PathIndex := u_PathIndex u1 + 1\<rparr>) tm), [e]))
           else
             case StartNextWaypoint (sub rt 2) (put_unit (u1\<lparr>u_PathIndex := u_PathIndex u1 + 1, u_Path := [], u_PathIndex := 0\<rparr>) m1)
                 (u1\<lparr>u_PathIndex := u_PathIndex u1 + 1, u_Path := [], u_PathIndex := 0\<rparr>) tm of (m3, u4, started) \<Rightarrow>
               if started then Some (then_victory tm (m3, [e]))
               else if IsMoving u4 tm then Some (then_victory tm (m3, [e]))
               else map_option (\<lambda>(m4, es). then_victory tm (m4, [e] @ es)) (resolve_at (sub rt 3) m3 (pl_ToProv l) tm))"
    using assms(3) unfolding CompleteUnitLeg_def Let_def e_def pLeg_def m1_def u1_def l_def by (simp add: not_le)
  show ?thesis
  proof (cases "HostileLegEnd (m_Diplomacy m1) (u_OwnerSlot u1) (ProvinceOwners m1) pLeg \<or> hostileUnitOnLeg (sub rt 0) m1 u1 l tm \<noteq> None")
    case True
    let ?u2 = "u1\<lparr>u_Path := [], u_PathIndex := 0, u_Waypoints := []\<rparr>"
    have "leg_done m u (put_unit ?u2 m1)"
      by (rule put) (use u1 assms(3) in \<open>auto simp: unit_ok_def route_less_def legs_left_def u1_def\<close>)
    with e body[unfolded if_P[OF True]] show ?thesis by blast
  next
    case go_on: False
    note body2 = body[unfolded if_not_P[OF go_on]]
    let ?u2 = "u1\<lparr>u_PathIndex := u_PathIndex u1 + 1\<rparr>"
    show ?thesis
    proof (cases "u_PathIndex ?u2 < length (u_Path ?u2)")
      case True
      let ?u3 = "beginCurrentLeg ?u2 tm"
      have u3: "unit_ok ?u3" using u1 True by (simp add: unit_ok_def)
      have "leg_done m u (scheduleArrival (put_unit ?u3 m1) ?u3)"
      proof (rule leg_doneI[where ?u2.0 = ?u3])
        show "match_ok (scheduleArrival (put_unit ?u3 m1) ?u3)" by (intro wf_intros m1 u3)
        show "move_frame m (scheduleArrival (put_unit ?u3 m1) ?u3)"
          by (rule move_frame_trans[OF move_frame_trans[OF f1 move_frame_steps(1)] scheduleArrival_frame(1)])
        show "one_arrival m (scheduleArrival (put_unit ?u3 m1) ?u3)"
          using scheduleArrival_one[of m1] by (simp add: one_arrival_def seq)
        show "route_less ?u3 u" using True by (auto simp: route_less_def legs_left_def u1_def)
      qed (simp_all add: seq u1_def)
      with e body2[unfolded if_P[OF True]] show ?thesis by blast
    next
      case last: False
      note body3 = body2[unfolded if_not_P[OF last]]
      let ?u3 = "u1\<lparr>u_PathIndex := u_PathIndex u1 + 1, u_Path := [], u_PathIndex := 0\<rparr>"
      have u3: "unit_ok ?u3" using u1 by (simp add: unit_ok_def)
      have p3: "leg_done m u (put_unit ?u3 m1)"
        by (rule put[OF u3]) (use assms(3) in \<open>simp add: route_less_def legs_left_def u1_def\<close>)
      have r3: "route_less ?u3 u" using assms(3) by (simp add: route_less_def legs_left_def u1_def)
      obtain m3 u4 started where w: "StartNextWaypoint (sub rt 2) (put_unit ?u3 m1) ?u3 tm = (m3, u4, started)"
        by (metis prod_cases3)
      have W: "match_ok m3" "unit_ok u4" "move_frame (put_unit ?u3 m1) m3" "one_arrival (put_unit ?u3 m1) m3"
        "m_Seq m3 = m_Seq m1" "u_ID u4 = u_ID u" "u_OwnerSlot u4 = u_OwnerSlot u" "u_HP u4 = u_HP u"
        "\<And>i. map_of (m_Units m3) i = (if i = u_ID u then Some u4 else map_of (m_Units (put_unit ?u3 m1)) i)"
        "u4 = ?u3 \<or> length (u_Waypoints u4) < length (u_Waypoints ?u3)"
        using StartNextWaypoint_ok[OF match_ok_put_unit[OF m1 u3] u3 _ w] by (simp_all add: u1_def) blast+
      have "leg_done m u m3"
      proof (rule leg_doneI[where ?u2.0 = u4])
        show "move_frame m m3" by (rule move_frame_trans[OF move_frame_trans[OF f1 move_frame_steps(1)] W(3)])
        show "one_arrival m m3" using W(4) by (simp add: one_arrival_def seq)
        show "route_less u4 u" using W(6-8,10) r3 by (auto simp: route_less_def u1_def)
        show "map_of (m_Units m3) i = (if i = u_ID u then Some u4 else map_of (m_Units m) i)" for i
          by (simp add: W(9) seq u1_def)
      qed (use W in \<open>simp_all add: seq\<close>)
      moreover have "CompleteUnitLeg rt m u tm = Some (then_victory tm (m3, [e])) \<or>
          CompleteUnitLeg rt m u tm = map_option (\<lambda>(m4, es). then_victory tm (m4, [e] @ es)) (resolve_at (sub rt 3) m3 (pl_ToProv l) tm)"
        unfolding body3[unfolded w prod.case] by simp
      ultimately show ?thesis using e by blast
    qed
  qed
qed

lemma CompleteUnitLeg_ok:
  assumes "match_ok m" "map_of (m_Units m) (u_ID u) = Some u" "CompleteUnitLeg rt m u tm = Some (m', es)"
  shows "match_ok m' \<and> sim_frame m m'"
proof (cases "u_PathIndex u < length (u_Path u)")
  case False
  then show ?thesis using assms by (simp add: CompleteUnitLeg_def not_less)
next
  case True
  have final: ?thesis if "match_ok m3" "sim_frame m m3" "m' = fst (then_victory tm (m3, out))" for m3 out
    using that(3) then_victory_ok(1)[OF that(1)] sim_frame_trans[OF that(2) then_victory_ok(2)] by simp
  from CompleteUnitLeg_shape[OF assms(1,2) True, of rt tm] obtain m2 e where m2: "match_ok m2" "sim_frame m m2"
    and c: "CompleteUnitLeg rt m u tm = Some (then_victory tm (m2, [e])) \<or>
     (\<exists>i pid. CompleteUnitLeg rt m u tm = map_option (\<lambda>(m3, es). then_victory tm (m3, [e] @ es)) (resolve_at (sub rt i) m2 pid tm))"
    unfolding leg_done_def using move_sim_frame by blast
  from c show ?thesis
  proof (elim disjE exE)
    assume "CompleteUnitLeg rt m u tm = Some (then_victory tm (m2, [e]))"
    then show ?thesis using assms(3) by (intro final[OF m2]) (simp add: prod_eq_iff)
  next
    fix i pid
    assume "CompleteUnitLeg rt m u tm = map_option (\<lambda>(m3, es). then_victory tm (m3, [e] @ es)) (resolve_at (sub rt i) m2 pid tm)"
    from this[symmetric] assms(3)
    have "map_option (\<lambda>(m3, es). then_victory tm (m3, [e] @ es)) (resolve_at (sub rt i) m2 pid tm) = Some (m', es)"
      by (rule trans)
    then obtain m3 es3 where r: "resolve_at (sub rt i) m2 pid tm = Some (m3, es3)" "m' = fst (then_victory tm (m3, [e] @ es3))"
      by (auto simp: prod_eq_iff)
    with resolve_at_ok[OF m2(1) r(1)] show ?thesis
      by (intro final[OF _ _ r(2)]) (auto intro: sim_frame_trans[OF m2(2)])
  qed
qed

end
