(* ===== verification/Events.thy ===== *)
theory Events
  imports Movement
begin

text \<open>
  \<open>internal/domain/matchdom/event_*.go\<close> and \<open>events.go\<close>: the handler of each kind of timeline
  event, their dispatch, and the loop that processes every event due. The registry of handlers holds
  one handler per kind (\<open>CombatStart\<close> and \<open>CombatTick\<close> have none).
\<close>

definition arrival_Apply :: "runtime \<Rightarrow> match \<Rightarrow> event \<Rightarrow> (match \<times> applied_event list) option" where
  "arrival_Apply rt m ev =
     (case map_of (m_Units m) (ev_UnitID ev) of
        None \<Rightarrow> Some (m, [])
      | Some u \<Rightarrow>
          if u_Version u \<noteq> ev_Version ev then Some (m, [])
          else if u_Path u \<noteq> [] then CompleteUnitLeg (sub rt 0) m u (ev_At ev)
          else
            case map_of (m_Provinces m) (u_Dest u) of
              None \<Rightarrow> Some (m, [])
            | Some prov \<Rightarrow>
                let u1 = u\<lparr>u_OriginX := p_X prov, u_OriginY := p_Y prov, u_Origin := p_ID prov,
                           u_StartedAt := ev_At ev, u_ArrivesAt := ev_At ev\<rparr>;
                    m1 = put_unit u1 (bump_seq m);
                    out = [\<lparr>ae_Kind = ''arrival'', ae_OccurAt = ev_At ev, ae_Seq = m_Seq m1, ae_UnitID = u_ID u,
                            ae_Province = p_ID prov, ae_Slot = u_OwnerSlot u, ae_Extra = []\<rparr>]
                in map_option (\<lambda>(m2, es). then_victory (ev_At ev) (m2, out @ es))
                     (resolveProvince (sub rt 1) m1 prov (ev_At ev)))"

definition resources_json :: "resources \<Rightarrow> json" where
  "resources_json r =
     JObj [(''manpower'', JNum (Manpower r)), (''food'', JNum (Food r)), (''iron'', JNum (Iron r))]"

definition macro_pulse_slot :: "time \<Rightarrow> match \<times> applied_event list \<Rightarrow> slot \<Rightarrow> match \<times> applied_event list" where
  "macro_pulse_slot t mo s =
     (case mo of (m, out) \<Rightarrow>
       let rev = macroPulseRevenue m s;
           bank = res_Add (mget_default no_resources (m_Resources m) s) rev;
           m1 = bump_seq (m\<lparr>m_Resources := mput s bank (m_Resources m)\<rparr>)
       in (m1, out @ [\<lparr>ae_Kind = ''macro_pulse'', ae_OccurAt = t, ae_Seq = m_Seq m1, ae_UnitID = [],
                       ae_Province = [], ae_Slot = s,
                       ae_Extra = [(''manpower'', JNum (Manpower bank)), (''food'', JNum (Food bank)),
                                   (''iron'', JNum (Iron bank)), (''gain'', resources_json rev)]\<rparr>]))"

definition macroPulse_Apply :: "runtime \<Rightarrow> match \<Rightarrow> event \<Rightarrow> match \<times> applied_event list" where
  "macroPulse_Apply rt m ev =
     (let (m1, out) = foldl (macro_pulse_slot (ev_At ev)) (m, []) (go_keys rt (m_Resources m)) in
      (m1\<lparr>m_Timeline := tl_Push \<lparr>ev_At = ev_At ev + MacroPulseInterval, ev_Kind = MacroPulse,
            ev_UnitID = [], ev_Other = [], ev_Version = 0\<rparr> (m_Timeline m1)\<rparr>, out))"

definition recruited_unit :: "string \<Rightarrow> recruit_order \<Rightarrow> unit_kind \<Rightarrow> province \<Rightarrow> time \<Rightarrow> game_unit" where
  "recruited_unit uuid order kind prov t =
     \<lparr>u_ID = uuid, u_OwnerSlot = ro_OwnerSlot order, u_Type = ro_UnitType order, u_HP = unit_StartingHP kind,
      u_Origin = p_ID prov, u_Dest = p_ID prov, u_StartedAt = t, u_ArrivesAt = t,
      u_OriginX = p_X prov, u_OriginY = p_Y prov, u_DestX = p_X prov, u_DestY = p_Y prov,
      u_Speed = unit_Speed kind, u_Version = 1, u_Path = [], u_PathIndex = 0, u_Waypoints = []\<rparr>"

definition refund_recruit :: "match \<Rightarrow> recruit_order \<Rightarrow> match" where
  "refund_recruit m order =
     (case unit_ByID (ro_UnitType order) of
        None \<Rightarrow> m
      | Some k \<Rightarrow>
          (case map_of (m_Resources m) (ro_OwnerSlot order) of
             None \<Rightarrow> m
           | Some bank \<Rightarrow> m\<lparr>m_Resources := mput (ro_OwnerSlot order) (res_Add bank (Halved (unit_Cost k))) (m_Resources m)\<rparr>))"

definition recruitComplete_Apply :: "runtime \<Rightarrow> match \<Rightarrow> event \<Rightarrow> match \<times> applied_event list" where
  "recruitComplete_Apply rt m ev =
     (case find (\<lambda>(k, rord). ro_ID rord = ev_UnitID ev) (go_range (sub rt 0) (m_NextRecruit m)) of
        None \<Rightarrow> (m, [])
      | Some (key, order) \<Rightarrow>
          let m1 = m\<lparr>m_NextRecruit := mdel key (m_NextRecruit m)\<rparr> in
          case map_of (m_Provinces m) (ro_Province order) of
            None \<Rightarrow> (refund_recruit m1 order, [])
          | Some prov \<Rightarrow>
              if p_Owner prov \<noteq> ro_OwnerSlot order then (refund_recruit m1 order, [])
              else
                case unit_ByID (ro_UnitType order) of
                  None \<Rightarrow> (m1, [])
                | Some kind \<Rightarrow>
                    let u = recruited_unit (uuid_at (sub rt 1) []) order kind prov (ev_At ev);
                        m2 = bump_seq (put_unit u m1)
                    in (m2, [\<lparr>ae_Kind = ''unit_recruited'', ae_OccurAt = ev_At ev, ae_Seq = m_Seq m2,
                              ae_UnitID = u_ID u, ae_Province = p_ID prov, ae_Slot = ro_OwnerSlot order,
                              ae_Extra = [(''type'', JStr (ro_UnitType order))]\<rparr>]))"

definition constructComplete_Apply :: "runtime \<Rightarrow> match \<Rightarrow> event \<Rightarrow> match \<times> applied_event list" where
  "constructComplete_Apply rt m ev =
     (case find (\<lambda>(k, bord). bo_ID bord = ev_UnitID ev) (go_range rt (m_NextBuild m)) of
        None \<Rightarrow> (m, [])
      | Some (key, order) \<Rightarrow>
          let m1 = m\<lparr>m_NextBuild := mdel key (m_NextBuild m)\<rparr> in
          case map_of (m_Provinces m) (bo_Province order) of
            None \<Rightarrow> (m1, [])
          | Some prov \<Rightarrow>
              if p_Owner prov \<noteq> bo_OwnerSlot order then (m1, [])
              else
                let m2 = bump_seq (m1\<lparr>m_Buildings := m_Buildings m1 @
                           [\<lparr>b_Type = bo_BuildingType order, b_Province = p_ID prov, b_OwnerSlot = bo_OwnerSlot order\<rparr>]\<rparr>)
                in (m2, [\<lparr>ae_Kind = ''building_constructed'', ae_OccurAt = ev_At ev, ae_Seq = m_Seq m2, ae_UnitID = [],
                          ae_Province = p_ID prov, ae_Slot = bo_OwnerSlot order,
                          ae_Extra = [(''type'', JStr (bo_BuildingType order))]\<rparr>]))"

definition victoryCheck_Apply :: "match \<Rightarrow> event \<Rightarrow> match \<times> applied_event list" where
  "victoryCheck_Apply m ev = checkVictory m (ev_At ev)"

definition matchCleanup_Apply :: "match \<Rightarrow> event \<Rightarrow> match \<times> applied_event list" where
  "matchCleanup_Apply m ev =
     (if m_CleanupDone m then (m, [])
      else
        let m1 = bump_seq (m\<lparr>m_CleanupDone := True\<rparr>) in
        (m1, [\<lparr>ae_Kind = ''match_cleanup'', ae_OccurAt = ev_At ev, ae_Seq = m_Seq m1, ae_UnitID = [],
               ae_Province = [], ae_Slot = [],
               ae_Extra = [(''winner'', JStr (m_WinnerSlot m)), (''winners'', JList (map JStr (m_WinnerCoal m)))]\<rparr>]))"

definition HandleEvent :: "runtime \<Rightarrow> match \<Rightarrow> event \<Rightarrow> (match \<times> applied_event list) option" where
  "HandleEvent rt m ev =
     (case ev_Kind ev of
        Arrival \<Rightarrow> arrival_Apply rt m ev
      | MacroPulse \<Rightarrow> Some (macroPulse_Apply rt m ev)
      | RecruitComplete \<Rightarrow> Some (recruitComplete_Apply rt m ev)
      | ConstructComplete \<Rightarrow> Some (constructComplete_Apply rt m ev)
      | VictoryCheck \<Rightarrow> Some (victoryCheck_Apply m ev)
      | MatchCleanup \<Rightarrow> Some (matchCleanup_Apply m ev)
      | CombatStart \<Rightarrow> Some (m, [])
      | CombatTick \<Rightarrow> Some (m, []))"

partial_function (option) process_loop :: "runtime \<Rightarrow> match \<Rightarrow> time \<Rightarrow> applied_event list \<Rightarrow> (match \<times> applied_event list) option" where
  "process_loop rt m now out =
     (case tl_Peek (m_Timeline m) of
        None \<Rightarrow> Some (m, out)
      | Some nxt \<Rightarrow>
          if ev_At nxt > now then Some (m, out)
          else
            (case tl_Pop (m_Timeline m) of
               None \<Rightarrow> None
             | Some (ev, rest) \<Rightarrow>
                 Option.bind (HandleEvent (sub rt 0) (m\<lparr>m_Timeline := rest\<rparr>) ev)
                   (\<lambda>(m', applied). process_loop (sub rt 1) m' now (out @ applied))))"

definition ProcessNext :: "runtime \<Rightarrow> match \<Rightarrow> time \<Rightarrow> (match \<times> applied_event list) option" where
  "ProcessNext rt m now = process_loop rt m now []"

end
