(* ===== verification/Commands.thy ===== *)
theory Commands
  imports Movement
begin

text \<open>
  \<open>internal/domain/cmddom\<close>: the player commands. A handler returns the match it leaves, a label
  for the metrics, the events it emitted and an optional error. The registry of handlers is the
  dispatch in \<open>apply_handler\<close>. \<open>strconv.ParseBool\<close> is modelled in full;
  \<open>strconv.ParseFloat\<close> for decimal numbers (not for hexadecimal ones, \<open>inf\<close> or \<open>nan\<close>).
\<close>

section \<open>strconv\<close>

definition ParseBool :: "string \<Rightarrow> bool option" where
  "ParseBool s =
     (if s \<in> set [''1'', ''t'', ''T'', ''TRUE'', ''true'', ''True''] then Some True
      else if s \<in> set [''0'', ''f'', ''F'', ''FALSE'', ''false'', ''False''] then Some False
      else None)"

definition is_digit :: "char \<Rightarrow> bool" where
  "is_digit c \<longleftrightarrow> c \<in> set ''0123456789''"

definition digit_val :: "char \<Rightarrow> nat" where
  "digit_val c = (of_char c :: nat) - of_char (CHR ''0'')"

definition decimal :: "string \<Rightarrow> nat" where
  "decimal ds = foldl (\<lambda>n c. 10 * n + digit_val c) 0 ds"

definition split_sign :: "string \<Rightarrow> real \<times> string" where
  "split_sign s = (case s of
      [] \<Rightarrow> (1, [])
    | c # cs \<Rightarrow> if c = CHR ''-'' then (-1, cs) else if c = CHR ''+'' then (1, cs) else (1, s))"

text \<open>An exponent: nothing, or \<open>e\<close> with an optional sign and at least one digit.\<close>

definition parse_exponent :: "string \<Rightarrow> int option" where
  "parse_exponent s = (case s of
      [] \<Rightarrow> Some 0
    | c # cs \<Rightarrow>
        if c = CHR ''e'' \<or> c = CHR ''E'' then
          let (sgn, ds) = split_sign cs in
          if ds \<noteq> [] \<and> list_all is_digit ds
          then Some (if sgn < 0 then - int (decimal ds) else int (decimal ds)) else None
        else None)"

text \<open>The value and whether there was no error: 0 on a syntax error, the value itself when it is out
  of range.\<close>

definition ParseFloat :: "string \<Rightarrow> real \<times> bool" where
  "ParseFloat s =
     (let (sgn, r) = split_sign s;
          ip = takeWhile is_digit r;
          r1 = dropWhile is_digit r;
          (fp, r2) = (case r1 of
             [] \<Rightarrow> ([], [])
           | c # cs \<Rightarrow> if c = CHR ''.'' then (takeWhile is_digit cs, dropWhile is_digit cs) else ([], r1))
      in if ip @ fp = [] then (0, False)
         else case parse_exponent r2 of
                None \<Rightarrow> (0, False)
              | Some e \<Rightarrow>
                  let v = sgn * real (decimal (ip @ fp)) * (10 powi (e - int (length fp))) in
                  (v, \<bar>v\<bar> < 2 ^ 1024 - 2 ^ 970))"

section \<open>command.go\<close>

record command =
  c_MatchID :: string
  c_UserID :: user_id
  c_IssuerSlot :: slot
  c_IdempotencyKey :: string
  c_Kind :: string
  c_UnitID :: string
  c_From :: province_id
  c_To :: province_id
  c_IssuedAt :: time
  c_Args :: "(string, string) gomap"

definition Extra :: "command \<Rightarrow> string \<Rightarrow> string option" where
  "Extra c key = map_of (c_Args c) key"

definition arg :: "command \<Rightarrow> string \<Rightarrow> string" where
  "arg c key = mget_default [] (c_Args c) key"

datatype cmd_error =
    ErrUnknownUnit
  | ErrUnauthorized
  | ErrInvalidDest
  | ErrUnknownCommand
  | ErrUnitAlreadyMoving
  | ErrInsufficientFunds
  | ErrInvalidProvince
  | ErrUnknownUnitType
  | ErrFactoryRequired
  | ErrAlreadyQueued
  | ErrMatchInactive
  | ErrUnknownTarget
  | ErrDiplomacy
  | ErrNoSpeed

type_synonym cmd_result = "match \<times> string \<times> applied_event list \<times> cmd_error option"

section \<open>move.go\<close>

definition nearestProvince :: "runtime \<Rightarrow> match \<Rightarrow> real \<Rightarrow> real \<Rightarrow> province_id" where
  "nearestProvince rt m x y =
     (let t = SnapTarget rt (NewGraph (m_Map m)) x y in
      if tg_Kind t = TargetNode then tg_Province t else tg_EdgeFrom t)"

definition node_target :: "province_id \<Rightarrow> real \<Rightarrow> real \<Rightarrow> target" where
  "node_target p x y =
     \<lparr>tg_Kind = TargetNode, tg_Province = p, tg_EdgeFrom = [], tg_EdgeTo = [], tg_X = x, tg_Y = y, tg_T = 0\<rparr>"

definition parseMoveTarget :: "runtime \<Rightarrow> match \<Rightarrow> command \<Rightarrow> cmd_error + target" where
  "parseMoveTarget rt m cmd =
     (case Extra cmd ''target_kind'' of
        Some kind \<Rightarrow>
          let (x, okX) = ParseFloat (arg cmd ''target_x'');
              (y, okY) = ParseFloat (arg cmd ''target_y'')
          in if \<not> okX \<or> \<not> okY then Inl ErrInvalidDest
             else if kind = ''node'' then
               let prov = arg cmd ''target_province'';
                   prov' = (if prov = [] then nearestProvince rt m x y else prov)
               in Inr (node_target prov' x y)
             else if kind = ''edge'' then
               Inr \<lparr>tg_Kind = TargetEdge, tg_Province = [], tg_EdgeFrom = arg cmd ''edge_from'',
                    tg_EdgeTo = arg cmd ''edge_to'', tg_X = x, tg_Y = y, tg_T = fst (ParseFloat (arg cmd ''edge_t''))\<rparr>
             else Inl ErrInvalidDest
      | None \<Rightarrow>
          case map_of (m_Provinces m) (c_To cmd) of
            None \<Rightarrow> Inl ErrInvalidDest
          | Some to \<Rightarrow>
              let ok = Inr (node_target (p_ID to) (p_X to) (p_Y to)) in
              if c_From cmd \<noteq> [] then
                case map_of (m_Provinces m) (c_From cmd) of
                  None \<Rightarrow> Inl ErrInvalidDest
                | Some from \<Rightarrow>
                    if \<not> HasEdge (m_Map m) (p_ID from) (p_ID to) \<and> p_ID from \<noteq> p_ID to then Inl ErrInvalidDest
                    else ok
              else ok)"

definition move_Apply :: "runtime \<Rightarrow> match \<Rightarrow> command \<Rightarrow> cmd_result" where
  "move_Apply rt m cmd =
     (case map_of (m_Units m) (c_UnitID cmd) of
        None \<Rightarrow> (m, ''unknown_unit'', [], Some ErrUnknownUnit)
      | Some u \<Rightarrow>
          if u_OwnerSlot u \<noteq> c_IssuerSlot cmd then (m, ''unauthorized'', [], Some ErrUnauthorized)
          else if u_Speed u \<le> 0 then (m, ''no_speed'', [], Some ErrNoSpeed)
          else
            let now = m_GameNow m in
            case parseMoveTarget (sub rt 0) m cmd of
              Inl err \<Rightarrow> (m, ''bad_target'', [], Some err)
            | Inr tgt \<Rightarrow>
                let queue = (case Extra cmd ''queue'' of
                               None \<Rightarrow> False
                             | Some q \<Rightarrow> (case ParseBool q of Some b \<Rightarrow> b | None \<Rightarrow> False))
                in if queue then
                     let u1 = u\<lparr>u_Waypoints := u_Waypoints u @ [tgt]\<rparr> in
                     if IsMoving u1 now then (put_unit u1 m, ''ok'', [], None)
                     else
                       let u2 = u1\<lparr>u_Version := u_Version u1 + 1\<rparr>;
                           (m2, u3, started) = StartNextWaypoint (sub rt 1) (put_unit u2 m) u2 now
                       in if started then (m2, ''ok'', [], None)
                          else (m2, ''blocked_by_treaty'', [], Some ErrInvalidDest)
                   else
                     let (curX, curY) = PositionAt u now in
                     case RouteFromEdge (sub rt 2) (NewGraph (m_Map m)) curX curY (u_Origin u) (u_Dest u) tgt of
                       Inl _ \<Rightarrow> (m, ''no_route'', [], Some ErrInvalidDest)
                     | Inr legs \<Rightarrow>
                         if RouteBlocked (m_Diplomacy m) (c_IssuerSlot cmd) (ProvinceOwners m) legs
                         then (m, ''blocked_by_treaty'', [], Some ErrInvalidDest)
                         else
                           let u1 = u\<lparr>u_Waypoints := [], u_Version := u_Version u + 1\<rparr>
                           in (fst (SetUnitPath m u1 legs now), ''ok'', [], None))"

section \<open>recruit.go and construct.go\<close>

definition recruit_Apply :: "runtime \<Rightarrow> match \<Rightarrow> command \<Rightarrow> cmd_result" where
  "recruit_Apply rt m cmd =
     (case map_of (m_Provinces m) (c_From cmd) of
        None \<Rightarrow> (m, ''bad_province'', [], Some ErrInvalidProvince)
      | Some prov \<Rightarrow>
          if p_Owner prov \<noteq> c_IssuerSlot cmd then (m, ''unauthorized'', [], Some ErrUnauthorized)
          else
            let unitType = (case Extra cmd ''type'' of Some t \<Rightarrow> t | None \<Rightarrow> c_UnitID cmd) in
            case unit_ByID unitType of
              None \<Rightarrow> (m, ''bad_unit_type'', [], Some ErrUnknownUnitType)
            | Some kind \<Rightarrow>
                let req = unit_NeedsBuilding kind in
                if req \<noteq> [] \<and> \<not> HasBuilding m (p_ID prov) req then (m, ''needs_factory'', [], Some ErrFactoryRequired)
                else if map_of (m_NextRecruit m) (p_ID prov) \<noteq> None then (m, ''busy'', [], Some ErrAlreadyQueued)
                else
                  let cost = unit_Cost kind in
                  case map_of (m_Resources m) (c_IssuerSlot cmd) of
                    None \<Rightarrow> (m, ''no_funds'', [], Some ErrInsufficientFunds)
                  | Some bank \<Rightarrow>
                      if \<not> CanPay bank cost then (m, ''no_funds'', [], Some ErrInsufficientFunds)
                      else
                        let order = \<lparr>ro_ID = uuid_at rt [], ro_OwnerSlot = c_IssuerSlot cmd, ro_Province = p_ID prov,
                                     ro_UnitType = unit_kind_ID kind, ro_IssuedAt = m_GameNow m,
                                     ro_CompletesAt = m_GameNow m + unit_BuildTime kind\<rparr>
                        in (m\<lparr>m_Resources := mput (c_IssuerSlot cmd) (Pay bank cost) (m_Resources m),
                              m_NextRecruit := mput (p_ID prov) order (m_NextRecruit m),
                              m_Timeline := tl_Push \<lparr>ev_At = ro_CompletesAt order, ev_Kind = RecruitComplete,
                                ev_UnitID = ro_ID order, ev_Other = [], ev_Version = 0\<rparr> (m_Timeline m)\<rparr>,
                            ''ok'', [], None))"

definition construct_Apply :: "runtime \<Rightarrow> match \<Rightarrow> command \<Rightarrow> cmd_result" where
  "construct_Apply rt m cmd =
     (case map_of (m_Provinces m) (c_From cmd) of
        None \<Rightarrow> (m, ''bad_province'', [], Some ErrInvalidProvince)
      | Some prov \<Rightarrow>
          if p_Owner prov \<noteq> c_IssuerSlot cmd then (m, ''unauthorized'', [], Some ErrUnauthorized)
          else
            let buildingType = (case Extra cmd ''type'' of Some t \<Rightarrow> t | None \<Rightarrow> c_UnitID cmd) in
            case building_ByID buildingType of
              None \<Rightarrow> (m, ''bad_building_type'', [], Some ErrUnknownCommand)
            | Some kind \<Rightarrow>
                if HasBuilding m (p_ID prov) (building_kind_ID kind) then (m, ''already_built'', [], Some ErrAlreadyQueued)
                else if map_of (m_NextBuild m) (p_ID prov) \<noteq> None then (m, ''busy'', [], Some ErrAlreadyQueued)
                else
                  let cost = building_Cost kind in
                  case map_of (m_Resources m) (c_IssuerSlot cmd) of
                    None \<Rightarrow> (m, ''no_funds'', [], Some ErrInsufficientFunds)
                  | Some bank \<Rightarrow>
                      if \<not> CanPay bank cost then (m, ''no_funds'', [], Some ErrInsufficientFunds)
                      else
                        let order = \<lparr>bo_ID = uuid_at rt [], bo_OwnerSlot = c_IssuerSlot cmd, bo_Province = p_ID prov,
                                     bo_BuildingType = building_kind_ID kind, bo_IssuedAt = m_GameNow m,
                                     bo_CompletesAt = m_GameNow m + building_BuildTime kind\<rparr>
                        in (m\<lparr>m_Resources := mput (c_IssuerSlot cmd) (Pay bank cost) (m_Resources m),
                              m_NextBuild := mput (p_ID prov) order (m_NextBuild m),
                              m_Timeline := tl_Push \<lparr>ev_At = bo_CompletesAt order, ev_Kind = ConstructComplete,
                                ev_UnitID = bo_ID order, ev_Other = [], ev_Version = 0\<rparr> (m_Timeline m)\<rparr>,
                            ''ok'', [], None))"

section \<open>The diplomacy commands\<close>

definition resolveTarget :: "match \<Rightarrow> command \<Rightarrow> (string \<times> cmd_error) + slot" where
  "resolveTarget m cmd =
     (case Extra cmd ''target_slot'' of
        None \<Rightarrow> Inl (''missing_target'', ErrUnknownTarget)
      | Some tgt \<Rightarrow>
          if tgt = [] then Inl (''missing_target'', ErrUnknownTarget)
          else if map_of (m_Players m) tgt = None then Inl (''unknown_target'', ErrUnknownTarget)
          else if tgt = c_IssuerSlot cmd then Inl (''self_target'', ErrUnknownTarget)
          else Inr tgt)"

definition translateDiplomacyErr :: "dipl_error \<Rightarrow> string \<Rightarrow> string \<times> cmd_error" where
  "translateDiplomacyErr err action =
     (case err of
        ErrSelfTreaty \<Rightarrow> (''self_target'', ErrUnknownTarget)
      | ErrCooldown \<Rightarrow> (''cooldown'', ErrDiplomacy)
      | ErrAlreadyAtStance \<Rightarrow> (''already_at_stance'', ErrDiplomacy)
      | ErrNoPendingOffer \<Rightarrow> (''no_offer'', ErrDiplomacy)
      | ErrPactAlreadyGiven \<Rightarrow> (''pact_already_given'', ErrDiplomacy)
      | ErrPactMissing \<Rightarrow> (''pact_missing'', ErrDiplomacy)
      | ErrUnknownSlot \<Rightarrow> (action @ ''_failed'', ErrDiplomacy))"

definition emitDiplomacyEvent :: "match \<Rightarrow> command \<Rightarrow> slot \<Rightarrow> string \<Rightarrow> extra \<Rightarrow> match \<times> applied_event list" where
  "emitDiplomacyEvent m cmd tgt kind ex =
     (let m1 = bump_seq m;
          ex1 = mput ''target_slot'' (JStr tgt) (mput ''from_slot'' (JStr (c_IssuerSlot cmd)) ex)
      in (m1, [\<lparr>ae_Kind = kind, ae_OccurAt = m_GameNow m, ae_Seq = m_Seq m1, ae_UnitID = [], ae_Province = [],
                ae_Slot = c_IssuerSlot cmd, ae_Extra = ex1\<rparr>]))"

text \<open>The shape every diplomacy handler has: resolve the target, call the registry, emit.\<close>

definition diplomacy_Apply :: "match \<Rightarrow> command \<Rightarrow> string \<Rightarrow> (registry \<Rightarrow> slot \<Rightarrow> slot \<Rightarrow> registry \<times> dipl_error option) \<Rightarrow>
    string \<Rightarrow> (match \<Rightarrow> extra) \<Rightarrow> cmd_result" where
  "diplomacy_Apply m cmd action act kind ex =
     (case resolveTarget m cmd of
        Inl (code, err) \<Rightarrow> (m, code, [], Some err)
      | Inr tgt \<Rightarrow>
          (case act (m_Diplomacy m) (c_IssuerSlot cmd) tgt of
             (d, Some e) \<Rightarrow>
               let (code, mapped) = translateDiplomacyErr e action in (m\<lparr>m_Diplomacy := d\<rparr>, code, [], Some mapped)
           | (d, None) \<Rightarrow>
               let m1 = m\<lparr>m_Diplomacy := d\<rparr>; (m2, es) = emitDiplomacyEvent m1 cmd tgt kind (ex m1) in
               (m2, ''ok'', es, None)))"

definition declareWar_Apply :: "match \<Rightarrow> command \<Rightarrow> cmd_result" where
  "declareWar_Apply m cmd =
     diplomacy_Apply m cmd ''declare_war'' (\<lambda>d a b. DeclareWar d a b (m_GameNow m)) ''war_declared'' (\<lambda>_. [])"

definition proposePeace_Apply :: "match \<Rightarrow> command \<Rightarrow> cmd_result" where
  "proposePeace_Apply m cmd =
     diplomacy_Apply m cmd ''propose_peace'' (\<lambda>d a b. ProposePeace d a b (m_GameNow m)) ''peace_proposed''
       (\<lambda>_. [(''pending'', JStr ''peace'')])"

definition proposeAlliance_Apply :: "match \<Rightarrow> command \<Rightarrow> cmd_result" where
  "proposeAlliance_Apply m cmd =
     diplomacy_Apply m cmd ''propose_alliance'' (\<lambda>d a b. ProposeAlliance d a b (m_GameNow m)) ''alliance_proposed''
       (\<lambda>_. [(''pending'', JStr ''alliance'')])"

definition acceptPeace_Apply :: "match \<Rightarrow> command \<Rightarrow> cmd_result" where
  "acceptPeace_Apply m cmd =
     diplomacy_Apply m cmd ''accept_peace'' (\<lambda>d a b. AcceptPeace d a b (m_GameNow m)) ''peace_signed'' (\<lambda>_. [])"

definition acceptAlliance_Apply :: "match \<Rightarrow> command \<Rightarrow> cmd_result" where
  "acceptAlliance_Apply m cmd =
     diplomacy_Apply m cmd ''accept_alliance'' (\<lambda>d a b. AcceptAlliance d a b (m_GameNow m)) ''alliance_signed''
       (\<lambda>m1. [(''coalition'', JStr (CoalitionID (m_Diplomacy m1) (c_IssuerSlot cmd) (SlotIDs m1)))])"

definition shareMap_Apply :: "match \<Rightarrow> command \<Rightarrow> cmd_result" where
  "shareMap_Apply m cmd =
     diplomacy_Apply m cmd ''share_map'' (\<lambda>d a b. GrantPact d a b ShareMap (m_GameNow m)) ''pact_granted''
       (\<lambda>_. [(''pact'', JStr ''share_map'')])"

definition revokeShareMap_Apply :: "match \<Rightarrow> command \<Rightarrow> cmd_result" where
  "revokeShareMap_Apply m cmd =
     diplomacy_Apply m cmd ''revoke_share_map'' (\<lambda>d a b. RevokePact d a b ShareMap) ''pact_revoked''
       (\<lambda>_. [(''pact'', JStr ''share_map'')])"

definition rightOfWayGrant_Apply :: "match \<Rightarrow> command \<Rightarrow> cmd_result" where
  "rightOfWayGrant_Apply m cmd =
     diplomacy_Apply m cmd ''right_of_way_grant'' (\<lambda>d a b. GrantPact d a b RightOfWay (m_GameNow m)) ''pact_granted''
       (\<lambda>_. [(''pact'', JStr ''right_of_way'')])"

definition rightOfWayRevoke_Apply :: "match \<Rightarrow> command \<Rightarrow> cmd_result" where
  "rightOfWayRevoke_Apply m cmd =
     diplomacy_Apply m cmd ''right_of_way_revoke'' (\<lambda>d a b. RevokePact d a b RightOfWay) ''pact_revoked''
       (\<lambda>_. [(''pact'', JStr ''right_of_way'')])"

section \<open>registry.go\<close>

definition apply_handler :: "runtime \<Rightarrow> match \<Rightarrow> command \<Rightarrow> cmd_result option" where
  "apply_handler rt m cmd =
     (let k = c_Kind cmd in
      if k = ''move'' then Some (move_Apply rt m cmd)
      else if k = ''recruit'' then Some (recruit_Apply rt m cmd)
      else if k = ''construct'' then Some (construct_Apply rt m cmd)
      else if k = ''declare_war'' then Some (declareWar_Apply m cmd)
      else if k = ''propose_peace'' then Some (proposePeace_Apply m cmd)
      else if k = ''propose_alliance'' then Some (proposeAlliance_Apply m cmd)
      else if k = ''accept_peace'' then Some (acceptPeace_Apply m cmd)
      else if k = ''accept_alliance'' then Some (acceptAlliance_Apply m cmd)
      else if k = ''share_map'' then Some (shareMap_Apply m cmd)
      else if k = ''revoke_share_map'' then Some (revokeShareMap_Apply m cmd)
      else if k = ''right_of_way_grant'' then Some (rightOfWayGrant_Apply m cmd)
      else if k = ''right_of_way_revoke'' then Some (rightOfWayRevoke_Apply m cmd)
      else None)"

definition resolve_issuer :: "runtime \<Rightarrow> match \<Rightarrow> command \<Rightarrow> command" where
  "resolve_issuer rt m cmd =
     (if c_IssuerSlot cmd = [] \<and> c_UserID cmd \<noteq> [] then
        case find (\<lambda>(s, p). py_UserID p = c_UserID cmd) (go_range rt (m_Players m)) of
          Some (s, _) \<Rightarrow> cmd\<lparr>c_IssuerSlot := s\<rparr>
        | None \<Rightarrow> cmd
      else cmd)"

definition Dispatch :: "runtime \<Rightarrow> match \<Rightarrow> command \<Rightarrow> cmd_result" where
  "Dispatch rt m cmd =
     (if m_Status m \<noteq> ''active'' then (m, ''match_inactive'', [], Some ErrMatchInactive)
      else
        let cmd1 = resolve_issuer (sub rt 0) m cmd in
        if c_IssuerSlot cmd1 = [] then (m, ''no_slot'', [], Some ErrUnauthorized)
        else case apply_handler (sub rt 1) m cmd1 of
               None \<Rightarrow> (m, ''unknown_kind'', [], Some ErrUnknownCommand)
             | Some r \<Rightarrow> r)"

end
