(* ===== verification/Invariants.thy ===== *)
theory Invariants
  imports Legs Events Commands
begin

text \<open>
  The invariant \<open>match_ok\<close> is kept by every event handler, by every command and by the creation of a
  match, so it holds of every match the engine can reach.
\<close>

section \<open>The event handlers keep the invariant\<close>

lemma arrival_ok:
  assumes "match_ok m" "arrival_Apply rt m ev = Some (m', es)"
  shows "match_ok m' \<and> sim_frame m m'"
proof (cases "map_of (m_Units m) (ev_UnitID ev)")
  case None
  then show ?thesis using assms by (simp add: arrival_Apply_def)
next
  case (Some u)
  have u: "unit_ok u" by (rule units_ok_unit[OF match_okD(1)[OF assms(1)] Some])
  note body = assms(2)[unfolded arrival_Apply_def Some option.case Let_def]
  show ?thesis
  proof (cases "u_Version u \<noteq> ev_Version ev")
    case True
    then show ?thesis using body assms(1) by simp
  next
    case cur: False
    note body1 = body[unfolded if_not_P[OF cur]]
    show ?thesis
    proof (cases "u_Path u \<noteq> []")
      case True
      have "map_of (m_Units m) (u_ID u) = Some u" using Some units_okD[OF match_okD(1)[OF assms(1)] Some] by simp
      from CompleteUnitLeg_ok[OF assms(1) this body1[unfolded if_P[OF True]]] show ?thesis .
    next
      case nopath: False
      note body2 = body1[unfolded if_not_P[OF nopath]]
      show ?thesis
      proof (cases "map_of (m_Provinces m) (u_Dest u)")
        case None
        then show ?thesis using body2 assms(1) by simp
      next
        case (Some prov)
        let ?u1 = "u\<lparr>u_OriginX := p_X prov, u_OriginY := p_Y prov, u_Origin := p_ID prov,
                           u_StartedAt := ev_At ev, u_ArrivesAt := ev_At ev\<rparr>"
        let ?m1 = "put_unit ?u1 (bump_seq m)"
        have m1: "match_ok ?m1" using u assms(1) by (intro wf_intros) (simp_all add: unit_ok_def)
        obtain m2 es2 where r: "resolveProvince (sub rt 1) ?m1 prov (ev_At ev) = Some (m2, es2)"
          "\<exists>out. m' = fst (then_victory (ev_At ev) (m2, out))"
          using body2[unfolded Some option.case] by (force simp: prod_eq_iff)
        note R = resolveProvince_ok[OF r(1) m1]
        then have f: "sim_frame m m2"
          using battle_sim_frame sim_frame_trans[OF sim_frame_trans[OF sim_frame_steps(2) sim_frame_steps(1)]] by blast
        from r(2) obtain out where "m' = fst (then_victory (ev_At ev) (m2, out))" by blast
        with R then_victory_ok(1) sim_frame_trans[OF f then_victory_ok(2)] show ?thesis by auto
      qed
    qed
  qed
qed

lemma macro_pulse_slot_ok: "match_ok m \<Longrightarrow> match_ok (fst (macro_pulse_slot t (m, out) s))"
proof -
  assume m: "match_ok m"
  have "res_nonneg (mget_default no_resources (m_Resources m) s)"
    using economy_okD[OF match_okD(3)[OF m]] by (auto simp: mget_default_def split: option.splits)
  then have "res_nonneg (res_Add (mget_default no_resources (m_Resources m) s) (macroPulseRevenue m s))"
    by (intro wf_intros macroPulseRevenue_nonneg)
  from match_ok_resources[OF m this] show ?thesis by (simp add: macro_pulse_slot_def Let_def)
qed

lemma macroPulse_ok [wf_intros]:
  assumes "match_ok m"
  shows "match_ok (fst (macroPulse_Apply rt m ev))"
proof -
  have "match_ok (fst (foldl (macro_pulse_slot (ev_At ev)) (m, []) (go_keys rt (m_Resources m))))"
    by (rule foldl_invariant[where P = "\<lambda>mo. match_ok (fst mo)"]) (use assms macro_pulse_slot_ok in force)+
  from match_ok_push[OF this] show ?thesis by (simp add: macroPulse_Apply_def case_prod_beta)
qed

lemma match_ok_upd [simp]:
  "match_ok (m\<lparr>m_Buildings := bs\<rparr>) = match_ok m" "match_ok (m\<lparr>m_CleanupDone := b\<rparr>) = match_ok m"
  "match_ok (m\<lparr>m_GameNow := t\<rparr>) = match_ok m"
  by (simp_all add: match_ok_def units_ok_def provinces_ok_def economy_ok_def)

lemma match_ok_orders [wf_intros]:
  "match_ok m \<Longrightarrow> match_ok (m\<lparr>m_NextRecruit := mdel k (m_NextRecruit m)\<rparr>)"
  "match_ok m \<Longrightarrow> match_ok (m\<lparr>m_NextBuild := mdel k (m_NextBuild m)\<rparr>)"
  "match_ok m \<Longrightarrow> ro_Province ro = k \<Longrightarrow> match_ok (m\<lparr>m_NextRecruit := mput k ro (m_NextRecruit m)\<rparr>)"
  "match_ok m \<Longrightarrow> bo_Province bo = k \<Longrightarrow> match_ok (m\<lparr>m_NextBuild := mput k bo (m_NextBuild m)\<rparr>)"
  by (auto simp: match_ok_def units_ok_def provinces_ok_def economy_ok_def
      dest!: subsetD[OF set_mdel_subset] subsetD[OF set_mput_subset])

lemma refund_ok [wf_intros]: "match_ok m \<Longrightarrow> match_ok (refund_recruit m order)"
  by (auto simp: refund_recruit_def intro!: wf_intros dest: economy_okD[OF match_okD(3)] split: option.splits)

lemma recruited_unit_ok [simp]: "unit_ok (recruited_unit uuid order kind prov t)"
  by (simp add: unit_ok_def recruited_unit_def)

lemma recruitComplete_ok [wf_intros]: "match_ok m \<Longrightarrow> match_ok (fst (recruitComplete_Apply rt m ev))"
  by (auto simp: recruitComplete_Apply_def Let_def intro!: wf_intros split: option.splits)

lemma constructComplete_ok [wf_intros]: "match_ok m \<Longrightarrow> match_ok (fst (constructComplete_Apply rt m ev))"
  by (auto simp: constructComplete_Apply_def Let_def intro!: wf_intros split: option.splits)

lemma matchCleanup_ok [wf_intros]: "match_ok m \<Longrightarrow> match_ok (fst (matchCleanup_Apply m ev))"
  by (simp add: matchCleanup_Apply_def Let_def)

lemma HandleEvent_ok:
  assumes "match_ok m" "HandleEvent rt m ev = Some (m', es)"
  shows "match_ok m'"
proof (cases "ev_Kind ev")
  case Arrival
  then show ?thesis using assms arrival_ok[of m rt ev] by (auto simp: HandleEvent_def)
qed (use assms macroPulse_ok[of m rt ev] recruitComplete_ok[of m rt ev] constructComplete_ok[of m rt ev]
      matchCleanup_ok[of m ev] checkVictory_ok[of m "ev_At ev"] in
      \<open>auto simp: HandleEvent_def victoryCheck_Apply_def\<close>)

lemma match_ok_timeline: "match_ok m \<Longrightarrow> tl_ok t \<Longrightarrow> match_ok (m\<lparr>m_Timeline := t\<rparr>)"
  by (simp add: match_ok_def units_ok_def provinces_ok_def economy_ok_def)

text \<open>What handling one due event preserves, with the events emitted so far, the processing loop
  preserves, and when the loop ends nothing on the timeline is due.\<close>

lemma process_loop_invariant:
  assumes step: "\<And>rt m out ev rest m' es. rt_ok rt \<Longrightarrow> Q m out \<Longrightarrow> tl_Pop (m_Timeline m) = Some (ev, rest) \<Longrightarrow>
      ev_At ev \<le> now \<Longrightarrow> HandleEvent rt (m\<lparr>m_Timeline := rest\<rparr>) ev = Some (m', es) \<Longrightarrow> Q m' (out @ es)"
    and "rt_ok rt" "Q m out" "process_loop rt m now out = Some (m', es)"
  shows "Q m' es \<and> (\<forall>e. tl_Peek (m_Timeline m') = Some e \<longrightarrow> now < ev_At e)"
proof -
  define R where "R r \<longleftrightarrow> Q (fst r) (snd r) \<and> (\<forall>e. tl_Peek (m_Timeline (fst r)) = Some e \<longrightarrow> now < ev_At e)"
    for r :: "match \<times> applied_event list"
  have "rt_ok rt \<longrightarrow> Q m out \<longrightarrow> R r" if "process_loop rt m now out = Some r" for r
  proof (rule process_loop.raw_induct[where P = "\<lambda>rt m now' out r. now' = now \<longrightarrow> rt_ok rt \<longrightarrow> Q m out \<longrightarrow> R r",
        OF _ that, THEN mp, OF _ refl])
    fix loop rt m now' out r
    assume IH: "\<And>rt m now' out r. loop rt m now' out = Some r \<Longrightarrow> now' = now \<longrightarrow> rt_ok rt \<longrightarrow> Q m out \<longrightarrow> R r"
      and body: "(case tl_Peek (m_Timeline m) of None \<Rightarrow> Some (m, out)
          | Some nxt \<Rightarrow> if now' < ev_At nxt then Some (m, out)
              else (case tl_Pop (m_Timeline m) of None \<Rightarrow> None
                | Some (ev, rest) \<Rightarrow> Option.bind (HandleEvent (sub rt 0) (m\<lparr>m_Timeline := rest\<rparr>) ev)
                     (\<lambda>(m', applied). loop (sub rt 1) m' now' (out @ applied)))) = Some r"
    show "now' = now \<longrightarrow> rt_ok rt \<longrightarrow> Q m out \<longrightarrow> R r"
    proof (intro impI)
      assume n: "now' = now" and rt: "rt_ok rt" and Q: "Q m out"
      show "R r"
      proof (cases "tl_Peek (m_Timeline m)")
        case None
        from body[unfolded None option.case] have "r = (m, out)" by simp
        with Q None show ?thesis by (simp add: R_def tl_Peek_def)
      next
        case (Some nxt)
        show ?thesis
        proof (cases "now < ev_At nxt")
          case True
          then have "r = (m, out)" using body Some n by simp
          with True Q Some show ?thesis by (simp add: R_def)
        next
          case False
          obtain ev rest where pop: "tl_Pop (m_Timeline m) = Some (ev, rest)"
            using Some by (cases "tl_Pop (m_Timeline m)") (auto simp: tl_Peek_def)
          have ev: "ev = nxt" using Some tl_Pop_Peek[OF pop] by simp
          obtain m' es where h: "HandleEvent (sub rt 0) (m\<lparr>m_Timeline := rest\<rparr>) ev = Some (m', es)"
            and l: "loop (sub rt 1) m' now (out @ es) = Some r"
            using body Some False pop n by (auto simp: bind_eq_Some_conv)
          have "Q m' (out @ es)" using step[OF rt_ok_sub[OF rt] Q pop _ h] False ev by simp
          with IH[OF l] rt show ?thesis by simp
        qed
      qed
    qed
  qed
  from this[OF assms(4)] assms(2,3) show ?thesis by (simp add: R_def)
qed

lemma HandleEvent_pop_ok:
  assumes "match_ok m" "tl_Pop (m_Timeline m) = Some (ev, rest)"
  shows "match_ok (m\<lparr>m_Timeline := rest\<rparr>)"
  by (rule match_ok_timeline[OF assms(1) tl_Pop_ok[OF match_okD(5)[OF assms(1)] assms(2)]])

lemma nothing_due:
  assumes "match_ok m" "\<forall>e. tl_Peek (m_Timeline m) = Some e \<longrightarrow> now < ev_At e"
  shows "\<forall>e\<in>set (m_Timeline m). now < ev_At e"
proof
  fix e assume e: "e \<in> set (m_Timeline m)"
  then obtain p where p: "tl_Peek (m_Timeline m) = Some p" by (cases "tl_Peek (m_Timeline m)") auto
  with tl_Peek_min[OF match_okD(5)[OF assms(1)] p e] assms(2) show "now < ev_At e" by fastforce
qed

lemma ProcessNext_ok:
  assumes "rt_ok rt" "match_ok m" "ProcessNext rt m now = Some (m', es)"
  shows "match_ok m' \<and> (\<forall>e\<in>set (m_Timeline m'). now < ev_At e)"
proof -
  have "match_ok m' \<and> (\<forall>e. tl_Peek (m_Timeline m') = Some e \<longrightarrow> now < ev_At e)"
    by (rule process_loop_invariant[where Q = "\<lambda>m _. match_ok m", OF _ assms(1,2) assms(3)[unfolded ProcessNext_def]])
       (rule HandleEvent_ok[OF HandleEvent_pop_ok])
  then show ?thesis using nothing_due by blast
qed

section \<open>The commands keep the invariant\<close>

lemma node_target_free: "unit_ok u \<Longrightarrow> unit_ok (u\<lparr>u_Waypoints := w\<rparr>)" "unit_ok u \<Longrightarrow> unit_ok (u\<lparr>u_Version := v\<rparr>)"
  by (simp_all add: unit_ok_def)

lemma move_ok:
  assumes "match_ok m"
  shows "match_ok (fst (move_Apply rt m cmd))"
proof (cases "map_of (m_Units m) (c_UnitID cmd)")
  case None
  then show ?thesis using assms by (simp add: move_Apply_def)
next
  case (Some u)
  have u: "unit_ok u" by (rule units_ok_unit[OF match_okD(1)[OF assms] Some])
  show ?thesis
  proof (cases "u_OwnerSlot u \<noteq> c_IssuerSlot cmd \<or> u_Speed u \<le> 0")
    case True
    then show ?thesis using assms Some by (auto simp: move_Apply_def)
  next
    case owner: False
    show ?thesis
    proof (cases "parseMoveTarget (sub rt 0) m cmd")
      case (Inl e)
      then show ?thesis using assms Some owner by (auto simp: move_Apply_def)
    next
      case (Inr tgt)
      let ?u1 = "u\<lparr>u_Waypoints := u_Waypoints u @ [tgt]\<rparr>"
      let ?u2 = "?u1\<lparr>u_Version := u_Version ?u1 + 1\<rparr>"
      have u1: "unit_ok ?u1" and u2: "unit_ok ?u2" using u by (simp_all add: unit_ok_def)
      obtain m2 u3 st where w: "StartNextWaypoint (sub rt 1) (put_unit ?u2 m) ?u2 (m_GameNow m) = (m2, u3, st)"
        by (metis prod_cases3)
      have m2: "match_ok m2" using StartNextWaypoint_ok[OF match_ok_put_unit[OF assms u2] u2 _ w] by simp
      have direct: "match_ok (fst (SetUnitPath m (u\<lparr>u_Waypoints := [], u_Version := u_Version u + 1\<rparr>) legs (m_GameNow m)))" for legs
      proof (cases "legs = []")
        case True
        then show ?thesis using assms by (simp add: SetUnitPath_def)
      next
        case False
        show ?thesis
          using SetUnitPath_ok[OF assms, of "u\<lparr>u_Waypoints := [], u_Version := u_Version u + 1\<rparr>" legs "m_GameNow m"] u False
          by (cases "SetUnitPath m (u\<lparr>u_Waypoints := [], u_Version := u_Version u + 1\<rparr>) legs (m_GameNow m)") (simp add: unit_ok_def)
      qed
      show ?thesis
        using assms match_ok_put_unit[OF assms u1] w m2 direct
        by (auto simp: move_Apply_def Some Inr Let_def split: option.splits sum.splits prod.splits)
    qed
  qed
qed

text \<open>The payment of an order, its entry in the queue and its event.\<close>

lemma match_ok_order:
  assumes "match_ok m" "CanPay bank cost" "k = ro_Province ro" "k' = bo_Province bo"
  shows "match_ok (m\<lparr>m_Resources := mput s (Pay bank cost) (m_Resources m),
           m_NextRecruit := mput k ro (m_NextRecruit m), m_Timeline := tl_Push e (m_Timeline m)\<rparr>)"
    "match_ok (m\<lparr>m_Resources := mput s (Pay bank cost) (m_Resources m),
           m_NextBuild := mput k' bo (m_NextBuild m), m_Timeline := tl_Push e (m_Timeline m)\<rparr>)"
proof -
  have "match_ok (m\<lparr>m_Resources := mput s (Pay bank cost) (m_Resources m)\<rparr>)" (is "match_ok ?m")
    by (intro wf_intros assms(1,2))
  from match_ok_push[OF match_ok_orders(3)[OF this assms(3)[symmetric]], of e]
    match_ok_push[OF match_ok_orders(4)[OF this assms(4)[symmetric]], of e]
  show "match_ok (m\<lparr>m_Resources := mput s (Pay bank cost) (m_Resources m),
           m_NextRecruit := mput k ro (m_NextRecruit m), m_Timeline := tl_Push e (m_Timeline m)\<rparr>)"
    "match_ok (m\<lparr>m_Resources := mput s (Pay bank cost) (m_Resources m),
           m_NextBuild := mput k' bo (m_NextBuild m), m_Timeline := tl_Push e (m_Timeline m)\<rparr>)"
    by simp_all
qed

lemma recruit_ok: "match_ok m \<Longrightarrow> match_ok (fst (recruit_Apply rt m cmd))"
  by (auto simp: recruit_Apply_def Let_def intro!: match_ok_order(1) split: option.splits)

lemma construct_ok: "match_ok m \<Longrightarrow> match_ok (fst (construct_Apply rt m cmd))"
  by (auto simp: construct_Apply_def Let_def intro!: match_ok_order(2) split: option.splits)

lemma reg_act: "act d a b = (d', e) \<Longrightarrow> reg_ok d \<Longrightarrow> (\<And>d a b. reg_ok d \<Longrightarrow> reg_ok (fst (act d a b))) \<Longrightarrow> reg_ok d'"
  by (metis fst_conv)

lemma diplomacy_ok:
  assumes "match_ok m" "\<And>d a b. reg_ok d \<Longrightarrow> reg_ok (fst (act d a b))"
  shows "match_ok (fst (diplomacy_Apply m cmd action act kind ex))"
proof (cases "resolveTarget m cmd")
  case (Inl e)
  then show ?thesis using assms(1) by (cases e) (simp add: diplomacy_Apply_def)
next
  case (Inr tgt)
  have "reg_ok (fst (act (m_Diplomacy m) (c_IssuerSlot cmd) tgt))"
    by (rule assms(2)[OF match_okD(6)[OF assms(1)]])
  from match_ok_diplomacy[OF assms(1) this] Inr show ?thesis
    by (auto simp: diplomacy_Apply_def emitDiplomacyEvent_def Let_def split: prod.splits option.splits)
qed

lemma apply_handler_ok:
  assumes "match_ok m" "apply_handler rt m cmd = Some r"
  shows "match_ok (fst r)"
  using assms move_ok[of m rt cmd] recruit_ok[of m rt cmd] construct_ok[of m rt cmd]
  unfolding apply_handler_def Let_def declareWar_Apply_def proposePeace_Apply_def proposeAlliance_Apply_def
    acceptPeace_Apply_def acceptAlliance_Apply_def shareMap_Apply_def revokeShareMap_Apply_def
    rightOfWayGrant_Apply_def rightOfWayRevoke_Apply_def ProposePeace_def ProposeAlliance_def AcceptPeace_def AcceptAlliance_def
  by (auto split: if_splits intro!: diplomacy_ok wf_intros)

lemma Dispatch_ok [wf_intros]: "match_ok m \<Longrightarrow> match_ok (fst (Dispatch rt m cmd))"
  using apply_handler_ok[of m "sub rt 1" "resolve_issuer (sub rt 0) m cmd"]
  by (auto simp: Dispatch_def Let_def split: option.splits)

section \<open>Creation\<close>

lemma new_province_ok: "match_ok m \<Longrightarrow> match_ok (new_province m p)"
  using match_ok_put_province[of m "\<lparr>p_ID = mp_ID p, p_X = mp_X p, p_Y = mp_Y p,
          p_Owner = (if mp_HomeSlot p \<noteq> [] then mp_HomeSlot p else []), p_Capital = False\<rparr>"]
  by (simp add: new_province_def put_province_def)

lemma new_slot_ok: "match_ok m \<Longrightarrow> match_ok (new_slot asg m s)"
proof -
  assume m: "match_ok m"
  let ?m1 = "m\<lparr>m_Players := mput (msl_ID s)
            \<lparr>py_Slot = msl_ID s, py_UserID = mget_default [] asg (msl_ID s), py_Name = [],
             py_Color = msl_Color s, py_Alive = True\<rparr> (m_Players m),
          m_Resources := mput (msl_ID s) StartingResources (m_Resources m)\<rparr>"
  have m1: "match_ok ?m1"
    using match_ok_resources[OF m StartingResources_nonneg, of "msl_ID s"]
    by (simp add: match_ok_def units_ok_def provinces_ok_def economy_ok_def)
  show ?thesis
  proof (cases "map_of (m_Provinces m) (msl_Capital s)")
    case None
    then show ?thesis using m1 by (simp add: new_slot_def Let_def)
  next
    case (Some prov)
    then have "p_ID prov = msl_Capital s" using provinces_okD[OF match_okD(2)[OF m]] by simp
    with match_ok_put_province[OF m1, of "prov\<lparr>p_Owner := msl_ID s, p_Capital := True\<rparr>"] Some show ?thesis
      by (simp add: new_slot_def Let_def put_province_def)
  qed
qed

lemma new_units_ok: "new_units rt t m sus = Inr m' \<Longrightarrow> match_ok m \<Longrightarrow> match_ok m'"
proof (induction sus arbitrary: rt m)
  case (Cons su sus)
  then obtain prov where p: "map_Province (m_Map m) (su_Province su) = Inr prov" by (auto split: sum.splits)
  let ?u = "starting_unit_at (uuid_at (sub rt 0) []) t su prov"
  have "match_ok (put_unit ?u m)" by (rule match_ok_put_unit[OF Cons.prems(2)]) (simp add: unit_ok_def starting_unit_at_def)
  then show ?case using Cons.IH Cons.prems(1) p by (simp add: put_unit_def Let_def)
qed simp

lemma match_New_ok: "match_New rt decode files mid map_id asg speed t = Inr m \<Longrightarrow> match_ok m"
proof -
  assume "match_New rt decode files mid map_id asg speed t = Inr m"
  then obtain gm where n: "new_units rt t (let m2 = foldl (new_slot asg) (foldl new_province (empty_match mid map_id gm speed t)
      (map_Provinces gm)) (map_Slots gm) in m2\<lparr>m_Timeline := tl_Push \<lparr>ev_At = t + MacroPulseInterval, ev_Kind = MacroPulse,
                       ev_UnitID = [], ev_Other = [], ev_Version = 0\<rparr> (m_Timeline m2)\<rparr>) (map_StartingUnits gm) = Inr m"
    by (auto simp: match_New_def Let_def split: sum.splits)
  have "match_ok (empty_match mid map_id gm speed t)"
    by (simp add: match_ok_def units_ok_def provinces_ok_def economy_ok_def empty_match_def)
  then have "match_ok (foldl new_province (empty_match mid map_id gm speed t) (map_Provinces gm))"
    by (rule foldl_invariant) (rule new_province_ok)
  then have "match_ok (foldl (new_slot asg) (foldl new_province (empty_match mid map_id gm speed t) (map_Provinces gm)) (map_Slots gm))"
    by (rule foldl_invariant) (rule new_slot_ok)
  from match_ok_push[OF this] show ?thesis by (intro new_units_ok[OF n]) (simp add: Let_def)
qed

section \<open>Reachable matches\<close>

text \<open>What the runner does to a match: create it, process due events, apply a command after the clock
  has moved on.\<close>

inductive match_reachable :: "match \<Rightarrow> bool" where
  created: "match_New rt decode files mid map_id asg speed t = Inr m \<Longrightarrow> match_reachable m"
| processed: "match_reachable m \<Longrightarrow> rt_ok rt \<Longrightarrow> ProcessNext rt (m\<lparr>m_GameNow := now\<rparr>) now = Some (m', es) \<Longrightarrow> match_reachable m'"
| commanded: "match_reachable m \<Longrightarrow> rt_ok rt \<Longrightarrow> Dispatch rt (m\<lparr>m_GameNow := now\<rparr>) cmd = (m', res) \<Longrightarrow> match_reachable m'"

lemma match_reachable_ok: "match_reachable m \<Longrightarrow> match_ok m"
proof (induction rule: match_reachable.induct)
  case created
  then show ?case by (rule match_New_ok)
next
  case (processed m rt now m' es)
  then show ?case using ProcessNext_ok by (metis match_ok_upd(3))
next
  case (commanded m rt now cmd m' res)
  then show ?case using Dispatch_ok[of "m\<lparr>m_GameNow := now\<rparr>" rt cmd] by simp
qed
end
