(* ===== verification/Engine.thy ===== *)
theory Engine
  imports Invariants
begin

text \<open>
  The event loop: events carry consecutive sequence numbers; battles keep the routes of the surviving
  units; every due event lowers a rank, so processing ends when no battle hangs; the outcome of a
  match is final.
\<close>

section \<open>Sequence numbers\<close>

text \<open>The events of a step carry the consecutive sequence numbers after the one the match had.\<close>

fun seq_run :: "64 word \<Rightarrow> applied_event list \<Rightarrow> 64 word \<Rightarrow> bool" where
  "seq_run s [] s' \<longleftrightarrow> s' = s"
| "seq_run s (e # es) s' \<longleftrightarrow> ae_Seq e = s + 1 \<and> seq_run (s + 1) es s'"

lemma seq_run_append: "seq_run s es s1 \<Longrightarrow> seq_run s1 es' s2 \<Longrightarrow> seq_run s (es @ es') s2"
  by (induction es arbitrary: s) auto

lemma seq_run_nth:
  "seq_run s es s' \<longleftrightarrow> s' = s + of_nat (length es) \<and> (\<forall>i<length es. ae_Seq (es ! i) = s + of_nat (Suc i))"
proof (induction es arbitrary: s)
  case (Cons e es)
  have "(\<forall>i<length (e # es). ae_Seq ((e # es) ! i) = s + of_nat (Suc i)) \<longleftrightarrow>
      ae_Seq e = s + 1 \<and> (\<forall>i<length es. ae_Seq (es ! i) = s + 1 + of_nat (Suc i))"
    unfolding length_Cons All_less_Suc2 by (simp add: add.assoc)
  then show ?case unfolding seq_run.simps Cons.IH by (auto simp: add.assoc)
qed simp

lemma bump_seq_Seq [simp]: "m_Seq (bump_seq m) = m_Seq m + 1" "m_Units (bump_seq m) = m_Units m"
  by (simp_all add: bump_seq_def)

lemma write_through_Seq [simp]: "m_Seq (write_through u m) = m_Seq m"
  by (simp add: write_through_def)

lemma fight_seq:
  assumes "fight rt m ch pid tm out = Some (m', ch', es)" "seq_run s out (m_Seq m)"
  shows "seq_run s es (m_Seq m')"
proof (rule fight_invariant[where Q = "\<lambda>m' ch' es. seq_run s es (m_Seq m')", OF _ assms(2,1)])
  fix rt m ch out m' ch' es
  assume q: "seq_run s out (m_Seq m)" and r: "fight_round rt m ch pid tm = Some (m', ch', es)"
  have "seq_run (m_Seq m) es (m_Seq m')" by (rule fight_round_shape[OF r]) auto
  with q show "seq_run s (out @ es) (m_Seq m')" by (rule seq_run_append)
qed

lemma collapse_seq: "m_Seq (fst (foldl (collapse_step all) mc us)) = m_Seq (fst mc)"
proof (induction us arbitrary: mc)
  case (Cons u us)
  have "m_Seq (fst (collapse_step all mc u)) = m_Seq (fst mc)"
    by (auto simp: collapse_step_def Let_def split: prod.splits option.splits)
  with Cons show ?case by simp
qed simp

lemma capture_seq: "captureIfOwnerChanged rt m prov ch tm = (m', es) \<Longrightarrow> seq_run (m_Seq m) es (m_Seq m')"
  by (auto simp: captureIfOwnerChanged_def Let_def put_province_def split: option.splits if_splits)

lemma resolveProvince_seq:
  assumes "resolveProvince rt m prov tm = Some (m', es)"
  shows "seq_run (m_Seq m) es (m_Seq m')"
proof (cases "stationaryUnitsIn (sub rt 0) m (p_ID prov) tm = []")
  case True
  then show ?thesis using assms by (simp add: resolveProvince_def)
next
  case False
  let ?us = "stationaryUnitsIn (sub rt 0) m (p_ID prov) tm"
  obtain m1 ch where c: "collapseChampions m ?us = (m1, ch)" by fastforce
  obtain m2 ch2 out where f: "fight (sub rt 1) m1 ch (p_ID prov) tm [] = Some (m2, ch2, out)"
    using assms(1) False c by (auto simp: resolveProvince_def fightUntilOneStands_def bind_eq_Some_conv)
  obtain out2 where g: "captureIfOwnerChanged (sub rt 2) m2 prov ch2 tm = (m', out2)" "es = out @ out2"
    using assms(1) False c f by (auto simp: resolveProvince_def fightUntilOneStands_def split: prod.splits)
  have "m_Seq m1 = m_Seq m" using collapse_seq[of "SlotIDs m" "(m, [])" ?us] c by (simp add: collapseChampions_def)
  with fight_seq[OF f, of "m_Seq m"] capture_seq[OF g(1)] show ?thesis unfolding g(2) by (intro seq_run_append) simp_all
qed

lemma checkVictory_seq: "checkVictory m tm = (m', es) \<Longrightarrow> seq_run (m_Seq m) es (m_Seq m')"
  by (auto simp: checkVictory_unfold Let_def case_prod_beta split: if_splits)

lemma then_victory_seq: "seq_run s es (m_Seq m) \<Longrightarrow> seq_run s (snd (then_victory tm (m, es))) (m_Seq (fst (then_victory tm (m, es))))"
  unfolding then_victory_def case_prod_beta Let_def fst_conv snd_conv
  by (erule seq_run_append, rule checkVictory_seq) simp

lemma resolve_at_seq: "resolve_at rt m pid tm = Some (m', es) \<Longrightarrow> seq_run (m_Seq m) es (m_Seq m')"
  by (auto simp: resolve_at_def intro: resolveProvince_seq split: option.splits)

text \<open>The end of a leg and an arrival without a path have the same form: a change of the unit, perhaps a
  battle, and the victory check.\<close>

lemma battle_victory_seq:
  assumes "map_option (\<lambda>(m3, es). then_victory tm (m3, out @ es)) b = Some (m', es)" "seq_run s out (m_Seq m2)"
    "\<And>m3 es. b = Some (m3, es) \<Longrightarrow> seq_run (m_Seq m2) es (m_Seq m3)"
  shows "seq_run s es (m_Seq m')"
proof -
  obtain m3 es3 where r: "b = Some (m3, es3)" "then_victory tm (m3, out @ es3) = (m', es)" using assms(1) by auto
  from then_victory_seq[OF seq_run_append[OF assms(2) assms(3)[OF r(1)]], of tm] r(2) show ?thesis by simp
qed

definition same_route :: "game_unit \<Rightarrow> game_unit \<Rightarrow> bool" where
  "same_route u' u \<longleftrightarrow> u_Path u' = u_Path u \<and> u_PathIndex u' = u_PathIndex u \<and> u_Waypoints u' = u_Waypoints u"

text \<open>The match after the unit of an arrival has been moved on and before any battle.\<close>

definition arrived :: "match \<Rightarrow> match \<Rightarrow> bool" where
  "arrived m m2 \<longleftrightarrow> match_ok m2 \<and> move_frame m m2 \<and> m_Seq m2 = m_Seq m + 1 \<and>
     (\<exists>u u2. map_of (m_Units m) (u_ID u) = Some u \<and>
        (\<forall>i. map_of (m_Units m2) i = (if i = u_ID u then Some u2 else map_of (m_Units m) i)) \<and>
        (route_less u2 u \<and> one_arrival m m2 \<or> same_route u2 u \<and> m_Timeline m2 = m_Timeline m))"

lemma arrival_shape:
  assumes "match_ok m" "rt_ok rt"
  obtains (stale) "arrival_Apply rt m ev = Some (m, [])"
  | (moved) m2 e where "arrived m m2" "ae_Seq e = m_Seq m + 1" "arrival_Apply rt m ev = Some (then_victory (ev_At ev) (m2, [e]))"
  | (battle) m2 e rt' pid where "arrived m m2" "ae_Seq e = m_Seq m + 1" "rt_ok rt'"
      "arrival_Apply rt m ev = map_option (\<lambda>(m3, es). then_victory (ev_At ev) (m3, [e] @ es)) (resolve_at rt' m2 pid (ev_At ev))"
proof (cases "map_of (m_Units m) (ev_UnitID ev)")
  case None
  then show ?thesis using stale by (simp add: arrival_Apply_def)
next
  case (Some u)
  then have u: "map_of (m_Units m) (u_ID u) = Some u" using units_okD[OF match_okD(1)[OF assms(1)] Some] by simp
  have ok: "unit_ok u" by (rule units_ok_unit[OF match_okD(1)[OF assms(1)] Some])
  consider "u_Version u \<noteq> ev_Version ev" | "u_Version u = ev_Version ev" "u_Path u \<noteq> []"
    | "u_Version u = ev_Version ev" "u_Path u = []" "map_of (m_Provinces m) (u_Dest u) = None"
    | p where "u_Version u = ev_Version ev" "u_Path u = []" "map_of (m_Provinces m) (u_Dest u) = Some p" by blast
  then show ?thesis
  proof cases
    case 1
    then show ?thesis using stale Some by (simp add: arrival_Apply_def)
  next
    case 2
    then have eq: "arrival_Apply rt m ev = CompleteUnitLeg (sub rt 0) m u (ev_At ev)" using Some by (simp add: arrival_Apply_def)
    have "u_PathIndex u < length (u_Path u)" using ok 2 by (simp add: unit_ok_def)
    from CompleteUnitLeg_shape[OF assms(1) u this, of "sub rt 0" "ev_At ev", folded eq] obtain m2 e
      where m2: "leg_done m u m2" "ae_Seq e = m_Seq m + 1"
        and r: "arrival_Apply rt m ev = Some (then_victory (ev_At ev) (m2, [e])) \<or>
          (\<exists>i pid. arrival_Apply rt m ev =
             map_option (\<lambda>(m3, es). then_victory (ev_At ev) (m3, [e] @ es)) (resolve_at (sub (sub rt 0) i) m2 pid (ev_At ev)))"
      by blast
    have "arrived m m2" using m2(1) u unfolding arrived_def leg_done_def by blast
    with m2(2) r moved battle rt_ok_sub[OF rt_ok_sub[OF assms(2)]] show ?thesis by blast
  next
    case 3
    then show ?thesis using stale Some by (simp add: arrival_Apply_def)
  next
    case (4 p)
    define u1 where "u1 = u\<lparr>u_OriginX := p_X p, u_OriginY := p_Y p, u_Origin := p_ID p,
                           u_StartedAt := ev_At ev, u_ArrivesAt := ev_At ev\<rparr>"
    define m1 where "m1 = put_unit u1 (bump_seq m)"
    define e where "e = \<lparr>ae_Kind = ''arrival'', ae_OccurAt = ev_At ev, ae_Seq = m_Seq m1, ae_UnitID = u_ID u,
                            ae_Province = p_ID p, ae_Slot = u_OwnerSlot u, ae_Extra = []\<rparr>"
    have m1: "match_ok m1" unfolding m1_def
      by (rule match_ok_put_unit) (use assms(1) ok in \<open>simp_all add: unit_ok_def u1_def\<close>)
    have "move_frame m m1" unfolding m1_def by (rule move_frame_trans[OF move_frame_steps(2) move_frame_steps(1)])
    then have "arrived m m1"
      unfolding arrived_def using m1 u by (auto simp: m1_def u1_def same_route_def bump_seq_def)
    moreover have "arrival_Apply rt m ev =
        map_option (\<lambda>(m3, es). then_victory (ev_At ev) (m3, [e] @ es)) (resolve_at (sub rt 1) m1 (u_Dest u) (ev_At ev))"
      using 4 Some unfolding e_def m1_def u1_def
      by (simp add: arrival_Apply_def Let_def resolve_at_def put_unit_def bump_seq_def)
    moreover have "ae_Seq e = m_Seq m + 1" by (simp add: e_def m1_def bump_seq_def)
    ultimately show ?thesis using battle[OF _ _ rt_ok_sub[OF assms(2)]] by blast
  qed
qed

lemma arrival_seq:
  assumes "match_ok m" "rt_ok rt" "arrival_Apply rt m ev = Some (m', es)"
  shows "seq_run (m_Seq m) es (m_Seq m')"
  using assms(1,2)
proof (cases rule: arrival_shape[where ev = ev])
  case stale
  then show ?thesis using assms(3) by simp
next
  case (moved m2 e)
  then have "seq_run (m_Seq m) [e] (m_Seq m2)" by (simp add: arrived_def)
  moreover have "then_victory (ev_At ev) (m2, [e]) = (m', es)" using moved(3) assms(3) by simp
  ultimately show ?thesis using then_victory_seq[of "m_Seq m" "[e]" m2 "ev_At ev"] by simp
next
  case (battle m2 e rt' pid)
  then have "seq_run (m_Seq m) [e] (m_Seq m2)" by (simp add: arrived_def)
  from battle_victory_seq[OF battle(4)[symmetric, unfolded assms(3)] this] show ?thesis by (auto intro: resolve_at_seq)
qed

lemma macroPulse_seq: "macroPulse_Apply rt m ev = (m', es) \<Longrightarrow> seq_run (m_Seq m) es (m_Seq m')"
proof -
  have *: "seq_run s (snd mo) (m_Seq (fst mo)) \<Longrightarrow> seq_run s (snd (foldl (macro_pulse_slot t) mo ks)) (m_Seq (fst (foldl (macro_pulse_slot t) mo ks)))"
    for s mo t ks
  proof (induction ks arbitrary: mo)
    case (Cons k ks)
    have "seq_run s (snd (macro_pulse_slot t mo k)) (m_Seq (fst (macro_pulse_slot t mo k)))"
      using Cons.prems by (cases mo) (auto simp: macro_pulse_slot_def Let_def intro!: seq_run_append)
    from Cons.IH[OF this] show ?case by simp
  qed simp
  assume "macroPulse_Apply rt m ev = (m', es)"
  then show ?thesis using *[of "m_Seq m" "(m, [])" "ev_At ev" "go_keys rt (m_Resources m)"]
    by (auto simp: macroPulse_Apply_def case_prod_beta)
qed

lemma HandleEvent_seq:
  assumes "match_ok m" "rt_ok rt" "HandleEvent rt m ev = Some (m', es)"
  shows "seq_run (m_Seq m) es (m_Seq m')"
proof (cases "ev_Kind ev")
  case Arrival
  with assms show ?thesis by (intro arrival_seq[OF assms(1,2)]) (simp add: HandleEvent_def)
next
  case MacroPulse
  with assms show ?thesis by (intro macroPulse_seq) (simp add: HandleEvent_def)
qed (use assms in \<open>auto simp: HandleEvent_def victoryCheck_Apply_def matchCleanup_Apply_def recruitComplete_Apply_def
    constructComplete_Apply_def refund_recruit_def Let_def put_unit_def
    intro: checkVictory_seq split: option.splits if_splits\<close>)
section \<open>Battles keep the routes of the units that survive\<close>

text \<open>Every unit of the second match was in the first one, with the same route.\<close>

definition kept :: "match \<Rightarrow> match \<Rightarrow> bool" where
  "kept m0 m \<longleftrightarrow> (\<forall>i u'. map_of (m_Units m) i = Some u' \<longrightarrow> (\<exists>u. map_of (m_Units m0) i = Some u \<and> same_route u' u))"

definition champs_from :: "match \<Rightarrow> champions \<Rightarrow> bool" where
  "champs_from m0 ch \<longleftrightarrow> (\<forall>c\<in>snd ` set ch. \<exists>u. map_of (m_Units m0) (u_ID c) = Some u \<and> same_route c u)"

lemma same_route_refl [simp]: "same_route u u"
  and same_route_upd [simp]: "same_route (u\<lparr>u_HP := h\<rparr>) v = same_route u v"
    "same_route (u\<lparr>u_OwnerSlot := s\<rparr>) v = same_route u v" "same_route (u\<lparr>u_Type := t\<rparr>) v = same_route u v"
  by (simp_all add: same_route_def)

lemma kept_refl [simp]: "kept m m"
  by (auto simp: kept_def)

lemma kept_bump [simp]: "kept m0 (bump_seq m) = kept m0 m"
  by (simp add: kept_def)

lemma kept_put: "kept m0 m \<Longrightarrow> map_of (m_Units m0) (u_ID c) = Some u \<Longrightarrow> same_route c u \<Longrightarrow> kept m0 (put_unit c m)"
  by (simp add: kept_def)

lemma kept_del: "kept m0 m \<Longrightarrow> kept m0 (m\<lparr>m_Units := mdel i (m_Units m)\<rparr>)"
  by (simp add: kept_def map_of_mdel)

lemma kept_write: "kept m0 m \<Longrightarrow> map_of (m_Units m0) (u_ID c) = Some u \<Longrightarrow> same_route c u \<Longrightarrow> kept m0 (write_through c m)"
  by (simp add: write_through_def kept_put)

lemma champs_from_write: "champs_from m0 ch \<Longrightarrow> map_of (m_Units m0) (u_ID c) = Some u \<Longrightarrow> same_route c u \<Longrightarrow>
    champs_from m0 (write_champions c ch)"
  by (auto simp: champs_from_def write_champions_def)

lemma champs_from_mdel: "champs_from m0 ch \<Longrightarrow> champs_from m0 (mdel k ch)"
  by (auto simp: champs_from_def set_mdel)

lemma fight_kept:
  assumes "fight rt m ch pid tm out = Some (m', ch', es)" "kept m0 m" "champs_from m0 ch"
  shows "kept m0 m'"
proof -
  have "kept m0 m' \<and> champs_from m0 ch'"
  proof (rule fight_invariant[where Q = "\<lambda>m ch _. kept m0 m \<and> champs_from m0 ch", OF _ _ assms(1)])
    fix rt m ch out m' ch' es
    assume q: "kept m0 m \<and> champs_from m0 ch" and r: "fight_round rt m ch pid tm = Some (m', ch', es)"
    obtain w d m1 m2 ch1 where s: "w \<in> snd ` set ch" "m1 = bump_seq (write_through (w\<lparr>u_HP := u_HP w - d\<rparr>) m)"
      "m2 = bump_seq (m1\<lparr>m_Units := mdel (u_ID w) (m_Units m1)\<rparr>)" "ch1 = write_champions (w\<lparr>u_HP := u_HP w - d\<rparr>) ch"
      "m' = m2 \<and> ch' = mdel (u_OwnerSlot w) ch1 \<or> m' = m1 \<and> ch' = ch1"
      using fight_round_shape[OF r] by metis
    obtain u where u: "map_of (m_Units m0) (u_ID (w\<lparr>u_HP := u_HP w - d\<rparr>)) = Some u" "same_route (w\<lparr>u_HP := u_HP w - d\<rparr>) u"
      using q s(1) unfolding champs_from_def by auto
    have m1: "kept m0 m1" using kept_write[OF conjunct1[OF q] u] by (simp add: s(2))
    have m2: "kept m0 m2" using kept_del[OF m1] by (simp add: s(3))
    have c1: "champs_from m0 ch1" using champs_from_write[OF conjunct2[OF q] u] by (simp add: s(4))
    show "kept m0 m' \<and> champs_from m0 ch'" using s(5) m1 m2 c1 champs_from_mdel[OF c1] by blast
  qed (use assms in simp)
  then show ?thesis ..
qed

lemma collapse_step_kept:
  assumes "kept m0 m" "champs_from m0 ch" "\<exists>v. map_of (m_Units m0) (u_ID u) = Some v \<and> same_route u v"
    "collapse_step all (m, ch) u = (m', ch')"
  shows "kept m0 m' \<and> champs_from m0 ch'"
proof (cases "map_of ch (CoalitionID (m_Diplomacy m) (u_OwnerSlot u) all)")
  case None
  then show ?thesis using assms by (auto simp: collapse_step_def champs_from_def dest!: subsetD[OF set_mput_subset])
next
  case (Some ex)
  let ?c = "CoalitionID (m_Diplomacy m) (u_OwnerSlot u) all"
  obtain v where v: "map_of (m_Units m0) (u_ID ex) = Some v" "same_route ex v"
    using assms(2) map_of_SomeD[OF Some] by (force simp: champs_from_def)
  define e where "e = (let ex1 = ex\<lparr>u_HP := u_HP ex + u_HP u\<rparr> in
       if u_HP u > u_HP ex1 / 2 then ex1\<lparr>u_OwnerSlot := u_OwnerSlot u, u_Type := u_Type u\<rparr> else ex1)"
  have e: "u_ID e = u_ID ex" "same_route e ex" by (simp_all add: e_def Let_def same_route_def)
  then have er: "map_of (m_Units m0) (u_ID e) = Some v" "same_route e v" using v by (simp_all add: same_route_def)
  have eq: "m' = (put_unit e m)\<lparr>m_Units := mdel (u_ID u) (m_Units (put_unit e m))\<rparr>" "ch' = mput ?c e ch"
    using assms(4) Some by (simp_all add: collapse_step_def Let_def e_def put_unit_def split: if_splits)
  have "kept m0 m'" unfolding eq by (rule kept_del[OF kept_put[OF assms(1) er]])
  moreover have "champs_from m0 ch'"
    using assms(2) er unfolding eq champs_from_def by (auto dest!: subsetD[OF set_mput_subset])
  ultimately show ?thesis ..
qed

lemma collapse_kept:
  assumes "kept m0 m" "champs_from m0 ch" "\<And>u. u \<in> set us \<Longrightarrow> \<exists>v. map_of (m_Units m0) (u_ID u) = Some v \<and> same_route u v"
  shows "kept m0 (fst (foldl (collapse_step all) (m, ch) us)) \<and> champs_from m0 (snd (foldl (collapse_step all) (m, ch) us))"
  using assms
proof (induction us arbitrary: m ch)
  case (Cons u us)
  obtain m1 ch1 where s: "collapse_step all (m, ch) u = (m1, ch1)" by fastforce
  have "\<exists>v. map_of (m_Units m0) (u_ID u) = Some v \<and> same_route u v" using Cons.prems(3) by simp
  from collapse_step_kept[OF Cons.prems(1,2) this s] Cons.IH[of m1 ch1] Cons.prems(3) show ?case by (simp add: s)
qed simp

lemma resolveProvince_kept:
  assumes "resolveProvince rt m prov tm = Some (m', es)" "units_ok m"
  shows "kept m m'"
proof (cases "stationaryUnitsIn (sub rt 0) m (p_ID prov) tm = []")
  case True
  then show ?thesis using assms by (simp add: resolveProvince_def)
next
  case False
  let ?us = "stationaryUnitsIn (sub rt 0) m (p_ID prov) tm"
  obtain m1 ch where c: "collapseChampions m ?us = (m1, ch)" by fastforce
  obtain m2 ch2 out where f: "fight (sub rt 1) m1 ch (p_ID prov) tm [] = Some (m2, ch2, out)"
    using assms(1) False c by (auto simp: resolveProvince_def fightUntilOneStands_def bind_eq_Some_conv)
  obtain out2 where g: "captureIfOwnerChanged (sub rt 2) m2 prov ch2 tm = (m', out2)"
    using assms(1) False c f by (auto simp: resolveProvince_def fightUntilOneStands_def split: prod.splits)
  have "map_of (m_Units m) (u_ID u) = Some u" if u: "u \<in> set ?us" for u
  proof -
    obtain i where i: "(i, u) \<in> set (m_Units m)" using stationaryUnitsIn_sub[OF u] by force
    with assms(2) have "u_ID u = i" "mok (m_Units m)" by (auto simp: units_ok_def)
    with i show ?thesis by simp
  qed
  then have "kept m m1 \<and> champs_from m ch"
    using collapse_kept[of m m "[]" ?us "SlotIDs m"] c by (auto simp: collapseChampions_def champs_from_def)
  with fight_kept[OF f] have "kept m m2" by blast
  moreover have "m_Units m' = m_Units m2"
    using g by (auto simp: captureIfOwnerChanged_def Let_def put_province_def split: option.splits if_splits)
  ultimately show ?thesis by (simp add: kept_def)
qed

section \<open>What is left to do decreases\<close>

definition unit_sum :: "(game_unit \<Rightarrow> nat) \<Rightarrow> match \<Rightarrow> nat" where
  "unit_sum f m = (\<Sum>u\<leftarrow>map snd (m_Units m). f u)"

lemma unit_sum_dom:
  assumes "mok (m_Units m)"
  shows "unit_sum f m = (\<Sum>i\<in>dom (map_of (m_Units m)). f (the (map_of (m_Units m) i)))"
proof -
  have "distinct (m_Units m)" "inj_on fst (set (m_Units m))" using assms by (simp_all add: distinct_map)
  have "unit_sum f m = (\<Sum>x\<in>set (m_Units m). f (snd x))"
    unfolding unit_sum_def using \<open>distinct (m_Units m)\<close> by (simp add: sum_list_distinct_conv_sum_set comp_def)
  also have "\<dots> = (\<Sum>x\<in>set (m_Units m). f (the (map_of (m_Units m) (fst x))))"
    using assms by (intro sum.cong) (auto simp: map_of_eq_Some_iff)
  also have "\<dots> = (\<Sum>i\<in>fst ` set (m_Units m). f (the (map_of (m_Units m) i)))"
    using \<open>inj_on fst (set (m_Units m))\<close> by (simp add: sum.reindex)
  finally show ?thesis by (simp add: dom_map_of_conv_image_fst)
qed

lemma unit_sum_update:
  assumes "mok (m_Units m)" "mok (m_Units m')" "map_of (m_Units m) k = Some u"
    "\<And>i. map_of (m_Units m') i = (if i = k then Some u' else map_of (m_Units m) i)"
  shows "unit_sum f m' + f u = unit_sum f m + f u'"
proof -
  let ?D = "dom (map_of (m_Units m))"
  have D: "dom (map_of (m_Units m')) = ?D" "k \<in> ?D" "finite ?D" using assms(3) by (auto simp: assms(4) finite_dom_map_of split: if_splits)
  have "unit_sum f m' = f u' + (\<Sum>i\<in>?D - {k}. f (the (map_of (m_Units m) i)))"
    unfolding unit_sum_dom[OF assms(2)] D(1) using sum.remove[OF D(3,2), of "\<lambda>i. f (the (map_of (m_Units m') i))"]
    by (simp add: assms(4))
  moreover have "unit_sum f m = f u + (\<Sum>i\<in>?D - {k}. f (the (map_of (m_Units m) i)))"
    unfolding unit_sum_dom[OF assms(1)] using sum.remove[OF D(3,2), of "\<lambda>i. f (the (map_of (m_Units m) i))"]
    by (simp add: assms(3))
  ultimately show ?thesis by simp
qed

lemma unit_sum_kept:
  assumes "mok (m_Units m)" "mok (m_Units m')" "kept m m'" "\<And>u u'. same_route u' u \<Longrightarrow> f u' = f u"
  shows "unit_sum f m' \<le> unit_sum f m"
proof -
  have D: "dom (map_of (m_Units m')) \<subseteq> dom (map_of (m_Units m))" using assms(3) by (force simp: kept_def)
  have "unit_sum f m' = (\<Sum>i\<in>dom (map_of (m_Units m')). f (the (map_of (m_Units m) i)))"
    unfolding unit_sum_dom[OF assms(2)]
  proof (rule sum.cong[OF refl])
    fix i assume "i \<in> dom (map_of (m_Units m'))"
    then obtain u' u where "map_of (m_Units m') i = Some u'" "map_of (m_Units m) i = Some u" "same_route u' u"
      using assms(3) by (force simp: kept_def)
    then show "f (the (map_of (m_Units m') i)) = f (the (map_of (m_Units m) i))" by (simp add: assms(4))
  qed
  also have "\<dots> \<le> unit_sum f m"
    unfolding unit_sum_dom[OF assms(1)] by (rule sum_mono2[OF finite_dom_map_of D]) simp
  finally show ?thesis .
qed

lemma unit_sum_put: "unit_sum f (put_unit u m) \<le> unit_sum f m + f u"
proof -
  have "(\<Sum>u\<leftarrow>map snd (mput k v l). f u) \<le> (\<Sum>u\<leftarrow>map snd l. f u) + f v" for k v and l :: "(unit_id, game_unit) gomap"
    by (induction l) auto
  then show ?thesis by (simp add: unit_sum_def)
qed

text \<open>A due event counts once; a macro pulse once for each hour until the time processed.\<close>

definition due_weight :: "time \<Rightarrow> event \<Rightarrow> nat" where
  "due_weight now e =
     (if now < ev_At e then 0 else if ev_Kind e = MacroPulse then Suc (nat ((now - ev_At e) div Hour)) else 1)"

definition timeline_weight :: "time \<Rightarrow> timeline \<Rightarrow> nat" where
  "timeline_weight now t = sum_mset (image_mset (due_weight now) (mset t))"

lemma timeline_weight_Push: "timeline_weight now (tl_Push e t) = due_weight now e + timeline_weight now t"
  by (simp add: timeline_weight_def)

lemma timeline_weight_Pop: "tl_Pop t = Some (e, t') \<Longrightarrow> timeline_weight now t = due_weight now e + timeline_weight now t'"
  using tl_Pop_mset[of t e t'] by (simp add: timeline_weight_def)

lemma due_weight_pos: "ev_At e \<le> now \<Longrightarrow> 0 < due_weight now e"
  by (simp add: due_weight_def)

lemma due_weight_next_pulse:
  assumes "ev_At e \<le> now" "ev_Kind e = MacroPulse" "ev_At e' = ev_At e + Hour" "ev_Kind e' = MacroPulse"
  shows "due_weight now e' < due_weight now e"
proof (cases "now < ev_At e'")
  case False
  have h: "0 < Hour" by (simp add: duration_defs)
  have "(now - ev_At e) div Hour = (now - ev_At e') div Hour + 1"
    using h assms(3) div_add_self2[of Hour "now - ev_At e'"] by (simp add: algebra_simps)
  moreover have "0 \<le> (now - ev_At e') div Hour" using False h by (simp add: pos_imp_zdiv_nonneg_iff)
  ultimately show ?thesis using assms False by (simp add: due_weight_def)
qed (use assms in \<open>simp add: due_weight_def\<close>)

definition rank :: "time \<Rightarrow> match \<Rightarrow> nat \<times> nat \<times> nat \<times> nat" where
  "rank now m = ((if m_Status m = ''active'' then 1 else 0), unit_sum (\<lambda>u. length (u_Waypoints u)) m,
     unit_sum legs_left m, timeline_weight now (m_Timeline m))"

definition rank_less :: "((nat \<times> nat \<times> nat \<times> nat) \<times> nat \<times> nat \<times> nat \<times> nat) set" where
  "rank_less = less_than <*lex*> less_than <*lex*> less_than <*lex*> less_than"

lemma wf_rank_less: "wf rank_less"
  by (simp add: rank_less_def wf_lex_prod)

lemma rank_lessI:
  "a < a' \<Longrightarrow> ((a, b, c, d), (a', b', c', d')) \<in> rank_less"
  "a \<le> a' \<Longrightarrow> b < b' \<Longrightarrow> ((a, b, c, d), (a', b', c', d')) \<in> rank_less"
  "a \<le> a' \<Longrightarrow> b \<le> b' \<Longrightarrow> c < c' \<Longrightarrow> ((a, b, c, d), (a', b', c', d')) \<in> rank_less"
  "a \<le> a' \<Longrightarrow> b \<le> b' \<Longrightarrow> c \<le> c' \<Longrightarrow> d < d' \<Longrightarrow> ((a, b, c, d), (a', b', c', d')) \<in> rank_less"
  by (auto simp: rank_less_def)

lemma rank_events:
  assumes "m_Status m' = m_Status m" "unit_sum (\<lambda>u. length (u_Waypoints u)) m' \<le> unit_sum (\<lambda>u. length (u_Waypoints u)) m"
    "unit_sum legs_left m' \<le> unit_sum legs_left m" "timeline_weight now (m_Timeline m') < timeline_weight now (m_Timeline m)"
  shows "(rank now m', rank now m) \<in> rank_less"
  unfolding rank_def by (rule rank_lessI(4)) (use assms in simp_all)

lemma unit_sum_upd [simp]:
  "unit_sum f (m\<lparr>m_Timeline := t\<rparr>) = unit_sum f m" "unit_sum f (bump_seq m) = unit_sum f m"
  by (simp_all add: unit_sum_def)

lemma unit_sum_units: "m_Units m' = m_Units m \<Longrightarrow> unit_sum f m' = unit_sum f m"
  by (simp add: unit_sum_def)

lemma checkVictory_cases: "fst (checkVictory m tm) = m \<or> m_Status m = ''active'' \<and> m_Status (fst (checkVictory m tm)) = ''ended''"
  by (simp add: checkVictory_unfold Let_def case_prod_beta)

text \<open>The victory check only lowers the rank.\<close>

lemma rank_then_victory:
  assumes "(rank now m2, r) \<in> rank_less" "fst r = (if m_Status m2 = ''active'' then 1 else 0)"
  shows "(rank now (fst (then_victory tm (m2, out))), r) \<in> rank_less"
proof -
  have eq: "fst (then_victory tm (m2, out)) = fst (checkVictory m2 tm)"
    by (simp add: then_victory_def case_prod_beta)
  show ?thesis
  proof (cases "fst (checkVictory m2 tm) = m2")
    case True
    then show ?thesis using assms(1) by (simp add: eq)
  next
    case False
    then have "m_Status m2 = ''active''" "m_Status (fst (checkVictory m2 tm)) = ''ended''"
      using checkVictory_cases[of m2 tm] by blast+
    with assms(2) show ?thesis unfolding eq by (cases r) (auto simp: rank_def intro: rank_lessI(1))
  qed
qed

text \<open>An arrival that moved its unit, with the battles it led to.\<close>

lemma arrived_rank:
  assumes a: "arrived (m\<lparr>m_Timeline := rest\<rparr>) m2" and m: "match_ok m"
    and pop: "timeline_weight now rest < timeline_weight now (m_Timeline m)"
    and k: "kept m2 m3" "match_ok m3" "m_Timeline m3 = m_Timeline m2" "m_Status m3 = m_Status m2"
  shows "(rank now m3, rank now m) \<in> rank_less"
proof -
  let ?W = "unit_sum (\<lambda>u. length (u_Waypoints u))" and ?L = "unit_sum legs_left"
  let ?m = "m\<lparr>m_Timeline := rest\<rparr>"
  from a obtain u u2 where u0: "map_of (m_Units ?m) (u_ID u) = Some u"
      "\<forall>i. map_of (m_Units m2) i = (if i = u_ID u then Some u2 else map_of (m_Units ?m) i)"
      "route_less u2 u \<or> same_route u2 u \<and> m_Timeline m2 = m_Timeline ?m"
    and m2: "match_ok m2" "move_frame ?m m2"
    unfolding arrived_def by blast
  have u: "map_of (m_Units m) (u_ID u) = Some u"
      "\<And>i. map_of (m_Units m2) i = (if i = u_ID u then Some u2 else map_of (m_Units m) i)"
      "route_less u2 u \<or> same_route u2 u \<and> m_Timeline m2 = rest" "m_Status m2 = m_Status m"
    using u0 move_frame_fields(2)[OF m2(2)] by simp_all
  have mok: "mok (m_Units m)" "mok (m_Units m2)" "mok (m_Units m3)"
    using match_okD(1)[OF m] match_okD(1)[OF m2(1)] match_okD(1)[OF k(2)] by (simp_all add: units_ok_def)
  have W2: "?W m2 + length (u_Waypoints u) = ?W m + length (u_Waypoints u2)"
    by (rule unit_sum_update[OF mok(1,2) u(1) u(2), where f = "\<lambda>u. length (u_Waypoints u)"])
  have L2: "?L m2 + legs_left u = ?L m + legs_left u2"
    by (rule unit_sum_update[OF mok(1,2) u(1) u(2), where f = legs_left])
  have W3: "?W m3 \<le> ?W m2"
    by (rule unit_sum_kept[OF mok(2,3) k(1)]) (simp add: same_route_def)
  have L3: "?L m3 \<le> ?L m2"
    by (rule unit_sum_kept[OF mok(2,3) k(1)]) (simp add: same_route_def legs_left_def)
  have st: "m_Status m3 = m_Status m" using k(4) u(4) by simp
  consider "length (u_Waypoints u2) < length (u_Waypoints u)"
    | "length (u_Waypoints u2) \<le> length (u_Waypoints u)" "legs_left u2 < legs_left u"
    | "same_route u2 u" "m_Timeline m2 = rest"
    using u(3) unfolding route_less_def by blast
  then show ?thesis
  proof cases
    case 1
    then have "?W m3 < ?W m" using W2 W3 by linarith
    then show ?thesis unfolding rank_def st by (intro rank_lessI(2)) simp_all
  next
    case 2
    then have "?W m3 \<le> ?W m" "?L m3 < ?L m" using W2 W3 L2 L3 by linarith+
    then show ?thesis unfolding rank_def st by (intro rank_lessI(3)) simp_all
  next
    case 3
    then have "length (u_Waypoints u2) = length (u_Waypoints u)" "legs_left u2 = legs_left u"
      by (simp_all add: same_route_def legs_left_def)
    then have "?W m3 \<le> ?W m" "?L m3 \<le> ?L m" using W2 W3 L2 L3 by linarith+
    then show ?thesis using st pop 3(2) k(3) by (intro rank_events) simp_all
  qed
qed

lemma resolve_at_kept:
  assumes "match_ok m" "resolve_at rt m pid tm = Some (m', es)"
  shows "kept m m' \<and> match_ok m' \<and> m_Timeline m' = m_Timeline m \<and> m_Status m' = m_Status m"
proof (cases "map_of (m_Provinces m) pid")
  case None
  then show ?thesis using assms by (simp add: resolve_at_def)
next
  case (Some prov)
  then have "resolveProvince rt m prov tm = Some (m', es)" using assms(2) by (simp add: resolve_at_def)
  from resolveProvince_ok[OF this assms(1)] resolveProvince_kept[OF this match_okD(1)[OF assms(1)]] show ?thesis
    using battle_frame_fields(4,5) by blast
qed

lemma HandleEvent_rank:
  assumes "rt_ok rt" "match_ok m" "tl_Pop (m_Timeline m) = Some (ev, rest)" "ev_At ev \<le> now"
    "HandleEvent rt (m\<lparr>m_Timeline := rest\<rparr>) ev = Some (m', es)"
  shows "(rank now m', rank now m) \<in> rank_less"
proof -
  let ?m = "m\<lparr>m_Timeline := rest\<rparr>"
  have ok: "match_ok ?m" by (rule HandleEvent_pop_ok[OF assms(2,3)])
  have w: "timeline_weight now (m_Timeline m) = due_weight now ev + timeline_weight now rest" "0 < due_weight now ev"
    using timeline_weight_Pop[OF assms(3)] due_weight_pos[OF assms(4)] by simp_all
  have popped: "(rank now ?m, rank now m) \<in> rank_less" by (rule rank_events) (use w in simp_all)
  show ?thesis
  proof (cases "ev_Kind ev")
    case Arrival
    then have h: "arrival_Apply rt ?m ev = Some (m', es)" using assms(5) by (simp add: HandleEvent_def)
    have fin: "(rank now m', rank now m) \<in> rank_less"
      if "arrived ?m m2" "kept m2 m3" "match_ok m3" "m_Timeline m3 = m_Timeline m2" "m_Status m3 = m_Status m2"
        "m' = fst (then_victory (ev_At ev) (m3, out))" for m2 m3 out
    proof -
      have "m_Status m2 = m_Status m" using that(1) move_frame_fields(2)[of ?m m2] by (simp add: arrived_def)
      with that(5) show ?thesis unfolding that(6)
        by (intro rank_then_victory arrived_rank[OF that(1) assms(2) _ that(2-5)]) (use w in \<open>simp_all add: rank_def\<close>)
    qed
    from ok assms(1) show ?thesis
    proof (cases rule: arrival_shape[where ev = ev])
      case stale
      then show ?thesis using h popped by simp
    next
      case (moved m2 e)
      then have "match_ok m2" by (simp add: arrived_def)
      with fin[OF moved(1) kept_refl] moved(3) h show ?thesis by (simp add: prod_eq_iff)
    next
      case (battle m2 e rt' pid)
      then have m2: "match_ok m2" by (simp add: arrived_def)
      obtain m3 es3 where r: "resolve_at rt' m2 pid (ev_At ev) = Some (m3, es3)"
        "m' = fst (then_victory (ev_At ev) (m3, [e] @ es3))"
        using battle(4)[unfolded h] by (auto simp: prod_eq_iff dest: sym)
      from fin[OF battle(1)] resolve_at_kept[OF m2 r(1)] r(2) show ?thesis by blast
    qed
  next
    case MacroPulse
    have f: "m_Units (fst (foldl (macro_pulse_slot t) mo ks)) = m_Units (fst mo) \<and>
        m_Timeline (fst (foldl (macro_pulse_slot t) mo ks)) = m_Timeline (fst mo) \<and>
        m_Status (fst (foldl (macro_pulse_slot t) mo ks)) = m_Status (fst mo)" for t mo ks
      by (rule foldl_invariant[where P = "\<lambda>x. m_Units (fst x) = m_Units (fst mo) \<and>
         m_Timeline (fst x) = m_Timeline (fst mo) \<and> m_Status (fst x) = m_Status (fst mo)"])
         (auto simp: macro_pulse_slot_def Let_def bump_seq_def)
    let ?e = "\<lparr>ev_At = ev_At ev + MacroPulseInterval, ev_Kind = MacroPulse, ev_UnitID = [], ev_Other = [], ev_Version = 0\<rparr>"
    have m': "m_Units m' = m_Units m" "m_Timeline m' = tl_Push ?e rest" "m_Status m' = m_Status m"
      using assms(5) f[of "ev_At ev" "(?m, [])" "go_keys rt (m_Resources m)"] MacroPulse
      by (auto simp: HandleEvent_def macroPulse_Apply_def case_prod_beta)
    have "due_weight now ?e < due_weight now ev"
      by (rule due_weight_next_pulse[OF assms(4) MacroPulse]) (simp_all add: MacroPulseInterval_def)
    then show ?thesis using w m' by (intro rank_events) (simp_all add: timeline_weight_Push unit_sum_def)
  next
    case VictoryCheck
    then have "m' = fst (then_victory (ev_At ev) (?m, []))"
      using assms(5) by (simp add: HandleEvent_def victoryCheck_Apply_def then_victory_def case_prod_beta prod_eq_iff)
    then show ?thesis using rank_then_victory[OF popped] by (simp add: rank_def)
  next
    case RecruitComplete
    have put: "unit_sum (\<lambda>u. length (u_Waypoints u)) (put_unit (recruited_unit i or k p t) m'') \<le> unit_sum (\<lambda>u. length (u_Waypoints u)) m''"
      "unit_sum legs_left (put_unit (recruited_unit i or k p t) m'') \<le> unit_sum legs_left m''" for i or k p t m''
      using unit_sum_put[of "\<lambda>u. length (u_Waypoints u)" "recruited_unit i or k p t" m'']
        unit_sum_put[of legs_left "recruited_unit i or k p t" m''] by (simp_all add: recruited_unit_def legs_left_def)
    have "m_Timeline m' = rest \<and> m_Status m' = m_Status m \<and>
        (m_Units m' = m_Units m \<or> (\<exists>i or k p t m''. m_Units m' = m_Units (put_unit (recruited_unit i or k p t) m'') \<and> m_Units m'' = m_Units m))"
      using assms(5) RecruitComplete
      by (fastforce simp: HandleEvent_def recruitComplete_Apply_def refund_recruit_def Let_def bump_seq_def put_unit_def
          split: option.splits if_splits)
    then show ?thesis using w put
      by (intro rank_events) (auto simp: unit_sum_def)
  next
    case ConstructComplete
    then have "m_Timeline m' = rest \<and> m_Status m' = m_Status m \<and> m_Units m' = m_Units m"
      using assms(5) by (auto simp: HandleEvent_def constructComplete_Apply_def Let_def bump_seq_def split: option.splits if_splits)
    then show ?thesis using w by (intro rank_events) (simp_all add: unit_sum_def)
  next
    case MatchCleanup
    then have "m_Timeline m' = rest \<and> m_Status m' = m_Status m \<and> m_Units m' = m_Units m"
      using assms(5) by (auto simp: HandleEvent_def matchCleanup_Apply_def Let_def bump_seq_def split: if_splits)
    then show ?thesis using w by (intro rank_events) (simp_all add: unit_sum_def)
  qed (use assms(5) popped in \<open>simp_all add: HandleEvent_def\<close>)
qed

section \<open>Without alliances every battle ends\<close>

definition no_alliances :: "match \<Rightarrow> bool" where
  "no_alliances m \<longleftrightarrow> (\<forall>a b. Stance (m_Diplomacy m) a b \<noteq> Alliance)"

lemma no_alliances_leader: "no_alliances m \<Longrightarrow> coal_of m u = u_OwnerSlot u"
  by (simp add: no_alliances_def coal_of_def CoalitionID_Min set_Coalition reach_coalition_def alliance_edges_def)

lemma resolve_at_total:
  assumes "rt_ok rt" "match_ok m" "no_alliances m"
  shows "resolve_at rt m pid tm \<noteq> None"
proof (cases "map_of (m_Provinces m) pid")
  case None
  then show ?thesis by (simp add: resolve_at_def)
next
  case (Some prov)
  have led: "led_by_owners m (p_ID prov) tm" using no_alliances_leader[OF assms(3)] by (auto simp: led_by_owners_def)
  have "resolveProvince rt m prov tm \<noteq> None"
  proof (cases "stationaryUnitsIn (sub rt 0) m (p_ID prov) tm = []")
    case True
    then show ?thesis by (simp add: resolveProvince_def)
  next
    case False
    from resolveProvince_outcome[OF assms(1) match_okD(1)[OF assms(2)] led False] show ?thesis by force
  qed
  then show ?thesis by (simp add: resolve_at_def Some)
qed

lemma HandleEvent_total:
  assumes "rt_ok rt" "match_ok m" "no_alliances m"
  shows "HandleEvent rt m ev \<noteq> None"
proof (cases "ev_Kind ev")
  case Arrival
  from assms(2,1) show ?thesis
  proof (cases rule: arrival_shape[where ev = ev])
    case stale
    then show ?thesis using Arrival by (simp add: HandleEvent_def)
  next
    case moved
    then show ?thesis using Arrival by (simp add: HandleEvent_def)
  next
    case (battle m2 e rt' pid)
    then have "match_ok m2" "m_Diplomacy m2 = m_Diplomacy m"
      using sim_frame_fields(2)[OF move_sim_frame] by (simp_all add: arrived_def)
    with resolve_at_total[OF battle(3), of m2] assms(3) have "resolve_at rt' m2 pid (ev_At ev) \<noteq> None"
      by (simp add: no_alliances_def)
    then show ?thesis using battle(4) Arrival by (simp add: HandleEvent_def)
  qed
qed (simp_all add: HandleEvent_def)

text \<open>No event handler touches the treaties.\<close>

lemma HandleEvent_diplomacy:
  assumes "match_ok m" "HandleEvent rt m ev = Some (m', es)"
  shows "m_Diplomacy m' = m_Diplomacy m"
proof (cases "ev_Kind ev")
  case Arrival
  then show ?thesis using assms arrival_ok[of m rt ev m' es] sim_frame_fields(2) by (simp add: HandleEvent_def)
next
  case MacroPulse
  have "m_Diplomacy (fst (foldl (macro_pulse_slot t) mo ks)) = m_Diplomacy (fst mo)" for t mo ks
    by (rule foldl_invariant[where P = "\<lambda>x. m_Diplomacy (fst x) = m_Diplomacy (fst mo)"])
       (auto simp: macro_pulse_slot_def Let_def bump_seq_def)
  then show ?thesis using assms(2) MacroPulse by (auto simp: HandleEvent_def macroPulse_Apply_def case_prod_beta)
next
  case VictoryCheck
  then have "m' = fst (checkVictory m (ev_At ev))" using assms(2) by (simp add: HandleEvent_def victoryCheck_Apply_def)
  then show ?thesis by (simp add: checkVictory_frame)
qed (use assms(2) in \<open>auto simp: HandleEvent_def matchCleanup_Apply_def recruitComplete_Apply_def
    constructComplete_Apply_def refund_recruit_def Let_def put_unit_def bump_seq_def split: option.splits if_splits\<close>)

lemma process_loop_total:
  assumes "rt_ok rt" "match_ok m" "no_alliances m"
  shows "process_loop rt m now out \<noteq> None"
  using assms
proof (induction "rank now m" arbitrary: rt m out rule: wf_induct_rule[OF wf_rank_less])
  case 1
  show ?case
  proof (cases "tl_Peek (m_Timeline m)")
    case None
    then show ?thesis by (subst process_loop.simps) (simp add: tl_Peek_def)
  next
    case (Some nxt)
    show ?thesis
    proof (cases "now < ev_At nxt")
      case True
      then show ?thesis using Some by (subst process_loop.simps) simp
    next
      case False
      obtain ev rest where pop: "tl_Pop (m_Timeline m) = Some (ev, rest)"
        using Some by (cases "tl_Pop (m_Timeline m)") (auto simp: tl_Peek_def)
      have ev: "ev = nxt" using Some tl_Pop_Peek[OF pop] by simp
      let ?m = "m\<lparr>m_Timeline := rest\<rparr>"
      have ok: "match_ok ?m" by (rule HandleEvent_pop_ok[OF "1.prems"(2) pop])
      have "no_alliances ?m" using "1.prems"(3) by (simp add: no_alliances_def)
      from HandleEvent_total[OF rt_ok_sub[OF "1.prems"(1)] ok this, of 0 ev] obtain m' es
        where h: "HandleEvent (sub rt 0) ?m ev = Some (m', es)" by auto
      have "process_loop (sub rt 1) m' now (out @ es) \<noteq> None"
      proof (rule "1.hyps")
        show "(rank now m', rank now m) \<in> rank_less"
          by (rule HandleEvent_rank[OF rt_ok_sub[OF "1.prems"(1)] "1.prems"(2) pop _ h]) (use False ev in simp)
        show "match_ok m'" by (rule HandleEvent_ok[OF ok h])
        show "no_alliances m'" using HandleEvent_diplomacy[OF ok h] "1.prems"(3) by (simp add: no_alliances_def)
      qed (rule rt_ok_sub[OF "1.prems"(1)])
      then show ?thesis using Some False pop h ev by (subst process_loop.simps) simp
    qed
  qed
qed

section \<open>The outcome is final\<close>

definition outcome :: "match \<Rightarrow> string \<times> slot \<times> slot list" where
  "outcome m = (m_Status m, m_WinnerSlot m, m_WinnerCoal m)"

lemma outcome_upd [simp]: "outcome (m\<lparr>m_Timeline := t\<rparr>) = outcome m"
  by (simp add: outcome_def)

lemma then_victory_inactive: "m_Status m \<noteq> ''active'' \<Longrightarrow> fst (then_victory tm (m, out)) = m"
  by (simp add: then_victory_def checkVictory_inactive)

lemma resolve_at_outcome: "resolve_at rt m pid tm = Some (m', es) \<Longrightarrow> match_ok m \<Longrightarrow> outcome m' = outcome m"
  by (auto simp: resolve_at_def outcome_def split: option.splits dest!: resolveProvince_ok dest: battle_frame_fields(5,12,13))

lemma HandleEvent_outcome:
  assumes "rt_ok rt" "match_ok m" "m_Status m \<noteq> ''active''" "HandleEvent rt m ev = Some (m', es)"
  shows "outcome m' = outcome m"
proof (cases "ev_Kind ev")
  case Arrival
  then have h: "arrival_Apply rt m ev = Some (m', es)" using assms(4) by (simp add: HandleEvent_def)
  have a: "outcome m2 = outcome m" if "arrived m m2" for m2
    using that move_frame_fields[of m m2] by (simp add: arrived_def outcome_def)
  have fin: "outcome m' = outcome m" if "outcome m3 = outcome m" "m' = fst (then_victory tm (m3, out))" for m3 tm out
    using that assms(3) then_victory_inactive[of m3] by (simp add: outcome_def)
  from assms(2,1) show ?thesis
  proof (cases rule: arrival_shape[where ev = ev])
    case (moved m2 e)
    then have "m' = fst (then_victory (ev_At ev) (m2, [e]))" using h by (metis fst_conv option.inject)
    then show ?thesis by (rule fin[OF a[OF moved(1)]])
  next
    case (battle m2 e rt' pid)
    obtain m3 es3 where r: "resolve_at rt' m2 pid (ev_At ev) = Some (m3, es3)" "m' = fst (then_victory (ev_At ev) (m3, [e] @ es3))"
      using battle(4)[unfolded h] by (auto simp: prod_eq_iff dest: sym)
    have "match_ok m2" using battle(1) by (simp add: arrived_def)
    with resolve_at_outcome[OF r(1)] a[OF battle(1)] show ?thesis by (intro fin[OF _ r(2)]) simp
  qed (use h in simp)
next
  case MacroPulse
  have "outcome (fst (foldl (macro_pulse_slot t) mo ks)) = outcome (fst mo)" for t mo ks
    by (rule foldl_invariant[where P = "\<lambda>x. outcome (fst x) = outcome (fst mo)"])
       (auto simp: macro_pulse_slot_def Let_def bump_seq_def outcome_def)
  then show ?thesis using assms(4) MacroPulse by (auto simp: HandleEvent_def macroPulse_Apply_def case_prod_beta)
next
  case VictoryCheck
  then show ?thesis using assms(3,4) by (simp add: HandleEvent_def victoryCheck_Apply_def checkVictory_inactive)
qed (use assms(4) in \<open>auto simp: HandleEvent_def matchCleanup_Apply_def recruitComplete_Apply_def outcome_def
    constructComplete_Apply_def refund_recruit_def Let_def put_unit_def bump_seq_def split: option.splits if_splits\<close>)

section \<open>Correctness of the engine\<close>

text \<open>
  C13. The invariant of reachable matches. In every match the engine can reach by creating it,
  processing due events and applying commands: stockpiles are never negative; units are stored under
  their identifiers, have positive speed and, while they have a path, are on one of its legs; provinces
  are stored under their identifiers; each province has at most one recruitment and one construction in
  progress, stored under the province; the timeline is heap-ordered; and stances are symmetric.
\<close>

theorem reachable_match_invariant:
  assumes "match_reachable m"
  shows "(\<forall>s r. map_of (m_Resources m) s = Some r \<longrightarrow> 0 \<le> Manpower r \<and> 0 \<le> Food r \<and> 0 \<le> Iron r) \<and>
    (\<forall>i u. map_of (m_Units m) i = Some u \<longrightarrow>
       u_ID u = i \<and> 0 < u_Speed u \<and> (u_Path u = [] \<or> u_PathIndex u < length (u_Path u))) \<and>
    (\<forall>i p. map_of (m_Provinces m) i = Some p \<longrightarrow> p_ID p = i) \<and>
    (\<forall>i ord. map_of (m_NextRecruit m) i = Some ord \<longrightarrow> ro_Province ord = i) \<and>
    (\<forall>i ord. map_of (m_NextBuild m) i = Some ord \<longrightarrow> bo_Province ord = i) \<and>
    mok (m_Units m) \<and> mok (m_Provinces m) \<and> mok (m_Resources m) \<and> mok (m_Players m) \<and>
    mok (m_NextRecruit m) \<and> mok (m_NextBuild m) \<and>
    (\<forall>e\<in>set (m_Timeline m). \<forall>e'. tl_Peek (m_Timeline m) = Some e' \<longrightarrow> ev_At e' \<le> ev_At e) \<and>
    (\<forall>a b. Stance (m_Diplomacy m) a b = Stance (m_Diplomacy m) b a)"
proof -
  have ok: "match_ok m" by (rule match_reachable_ok[OF assms])
  have eco: "economy_ok m" and un: "units_ok m" and pr: "provinces_ok m" by (rule match_okD[OF ok])+
  have "0 \<le> Manpower r \<and> 0 \<le> Food r \<and> 0 \<le> Iron r" if "map_of (m_Resources m) s = Some r" for s r
    using economy_okD[OF eco that] by (simp add: res_nonneg_iff)
  moreover have "u_ID u = i \<and> 0 < u_Speed u \<and> (u_Path u = [] \<or> u_PathIndex u < length (u_Path u))"
    if "map_of (m_Units m) i = Some u" for i u
    using units_okD[OF un that] units_ok_unit[OF un that] by (simp add: unit_ok_def)
  moreover have "p_ID p = i" if "map_of (m_Provinces m) i = Some p" for i p by (rule provinces_okD[OF pr that])
  moreover have "ro_Province ord = i" if "map_of (m_NextRecruit m) i = Some ord" for i ord
    using eco map_of_SomeD[OF that] by (auto simp: economy_ok_def)
  moreover have "bo_Province ord = i" if "map_of (m_NextBuild m) i = Some ord" for i ord
    using eco map_of_SomeD[OF that] by (auto simp: economy_ok_def)
  moreover have "ev_At e' \<le> ev_At e" if "e \<in> set (m_Timeline m)" "tl_Peek (m_Timeline m) = Some e'" for e e'
    by (rule tl_Peek_min[OF match_okD(5)[OF ok] that(2,1)])
  moreover have "mok (m_Units m)" "mok (m_Provinces m)" "mok (m_Resources m)" "mok (m_Players m)" "mok (m_NextRecruit m)" "mok (m_NextBuild m)"
    using eco un pr match_okD(4)[OF ok] by (simp_all add: economy_ok_def units_ok_def provinces_ok_def)
  ultimately show ?thesis using Stance_sym by blast
qed

text \<open>A match on a small map, created as the engine creates it.\<close>

definition duel_map :: game_map where
  "duel_map = \<lparr>map_ID = ''duel'', map_Name = ''Duel'',
     map_Provinces = [\<lparr>mp_ID = ''a'', mp_X = 0, mp_Y = 0, mp_Name = ''A'', mp_HomeSlot = []\<rparr>,
                      \<lparr>mp_ID = ''b'', mp_X = 30, mp_Y = 40, mp_Name = ''B'', mp_HomeSlot = []\<rparr>],
     map_Edges = [\<lparr>me_From = ''a'', me_To = ''b''\<rparr>],
     map_Slots = [\<lparr>msl_ID = ''red'', msl_Color = ''#f00'', msl_Capital = ''a''\<rparr>,
                  \<lparr>msl_ID = ''blue'', msl_Color = ''#00f'', msl_Capital = ''b''\<rparr>],
     map_StartingUnits = [], map_SVGURL = [], map_ThumbnailURL = [], map_RulesSummary = []\<rparr>"

definition duel :: match where
  "duel = projr (match_New plain_rt (\<lambda>_. Some duel_map) [(''duel.yaml'', Some [])] ''m1'' ''duel'' [] 1 Hour)"

lemma duel_created: "match_New plain_rt (\<lambda>_. Some duel_map) [(''duel.yaml'', Some [])] ''m1'' ''duel'' [] 1 Hour = Inr duel"
  by (simp add: duel_def match_New_def Let_def duel_map_def)

lemma duel_reachable: "match_reachable duel"
  by (rule match_reachable.created[OF duel_created])

lemma duel_fields:
  "m_Units duel = []" "m_Status duel = ''active''" "m_Diplomacy duel = reg_New" "m_Seq duel = 0"
  "m_Resources duel = [(''red'', StartingResources), (''blue'', StartingResources)]"
  "m_Timeline duel = [\<lparr>ev_At = 2 * Hour, ev_Kind = MacroPulse, ev_UnitID = [], ev_Other = [], ev_Version = 0\<rparr>]"
  "m_Buildings duel = []" "m_NextRecruit duel = []" "m_NextBuild duel = []" "m_GameNow duel = Hour"
  "m_Provinces duel = [(''a'', \<lparr>p_ID = ''a'', p_X = 0, p_Y = 0, p_Owner = ''red'', p_Capital = True\<rparr>),
     (''b'', \<lparr>p_ID = ''b'', p_X = 30, p_Y = 40, p_Owner = ''blue'', p_Capital = True\<rparr>)]"
  "m_Map duel = duel_map" "mkeys (m_Players duel) = [''red'', ''blue'']"
  by (simp_all add: duel_def match_New_def Let_def duel_map_def new_slot_def new_province_def empty_match_def
      MacroPulseInterval_def tl_Push_def heap_push_def tl_New_def heap_up.simps)

theorem reachable_match_invariant_witness:
  "map_of (m_Resources duel) ''red'' = Some StartingResources \<and> 0 \<le> Iron StartingResources"
proof -
  have "map_of (m_Resources duel) ''red'' = Some StartingResources" by (simp add: duel_fields)
  with reachable_match_invariant[OF duel_reachable] show ?thesis by blast
qed

text \<open>
  C14. Event processing ends. In a reachable match with no alliance in force, processing the events due
  at any time returns: every battle ends, and no chain of arrivals, waypoints and macro pulses goes on
  for ever. Afterwards nothing on the timeline is due any more.
\<close>

theorem process_next_terminates:
  assumes "rt_ok rt" "match_reachable m" "no_alliances m"
  shows "\<exists>m' es. ProcessNext rt m now = Some (m', es) \<and> match_ok m' \<and> (\<forall>e\<in>set (m_Timeline m'). now < ev_At e)"
proof -
  have ok: "match_ok m" by (rule match_reachable_ok[OF assms(2)])
  obtain m' es where "ProcessNext rt m now = Some (m', es)"
    using process_loop_total[OF assms(1) ok assms(3), of now "[]"] by (auto simp: ProcessNext_def)
  with ProcessNext_ok[OF assms(1) ok this] show ?thesis by blast
qed

lemma duel_no_alliances: "no_alliances duel"
  by (simp add: no_alliances_def duel_fields Stance_def reg_New_def)

theorem process_next_terminates_witness:
  "\<exists>m' es. ProcessNext plain_rt duel (100 * Hour) = Some (m', es) \<and> match_ok m' \<and> (\<forall>e\<in>set (m_Timeline m'). 100 * Hour < ev_At e)"
  by (rule process_next_terminates[OF rt_ok_plain duel_reachable duel_no_alliances])

text \<open>
  C15. No event is lost or duplicated on the wire. The events of one run of the event loop carry
  consecutive sequence numbers, the first one after the match's number, the last one being the number the
  match is left with (all modulo 2 to the 64).
\<close>

theorem events_numbered_consecutively:
  assumes "rt_ok rt" "match_reachable m" "ProcessNext rt m now = Some (m', es)"
  shows "m_Seq m' = m_Seq m + of_nat (length es) \<and> (\<forall>i<length es. ae_Seq (es ! i) = m_Seq m + of_nat (Suc i))"
proof -
  have "(match_ok m' \<and> seq_run (m_Seq m) es (m_Seq m')) \<and> (\<forall>e. tl_Peek (m_Timeline m') = Some e \<longrightarrow> now < ev_At e)"
  proof (rule process_loop_invariant[where Q = "\<lambda>m' es. match_ok m' \<and> seq_run (m_Seq m) es (m_Seq m')",
        OF _ assms(1) _ assms(3)[unfolded ProcessNext_def]])
    fix rt m1 out ev rest m' es
    assume rt: "rt_ok rt" and q: "match_ok m1 \<and> seq_run (m_Seq m) out (m_Seq m1)" and pop: "tl_Pop (m_Timeline m1) = Some (ev, rest)"
      and h: "HandleEvent rt (m1\<lparr>m_Timeline := rest\<rparr>) ev = Some (m', es)"
    have ok: "match_ok (m1\<lparr>m_Timeline := rest\<rparr>)" by (rule HandleEvent_pop_ok[OF conjunct1[OF q] pop])
    have "seq_run (m_Seq m1) es (m_Seq m')" using HandleEvent_seq[OF ok rt h] by simp
    with q HandleEvent_ok[OF ok h] show "match_ok m' \<and> seq_run (m_Seq m) (out @ es) (m_Seq m')"
      by (blast intro: seq_run_append)
  qed (simp add: match_reachable_ok[OF assms(2)])
  then show ?thesis unfolding seq_run_nth by blast
qed

theorem events_numbered_consecutively_witness:
  "\<exists>m' es. ProcessNext plain_rt duel (100 * Hour) = Some (m', es) \<and> m_Seq m' = of_nat (length es)"
proof -
  have "process_loop plain_rt duel (100 * Hour) [] \<noteq> None"
    by (rule process_loop_total[OF rt_ok_plain match_reachable_ok[OF duel_reachable] duel_no_alliances])
  then obtain m' es where r: "ProcessNext plain_rt duel (100 * Hour) = Some (m', es)" by (auto simp: ProcessNext_def)
  from events_numbered_consecutively[OF rt_ok_plain duel_reachable r] r show ?thesis by (simp add: duel_fields)
qed

text \<open>
  C16. The outcome of a match is final. Once a well-formed match is no longer active, processing further
  events changes neither its status nor its winner nor the list of winners, and every command is
  rejected without any effect.
\<close>

theorem ended_is_final:
  assumes "rt_ok rt" "match_ok m" "m_Status m \<noteq> ''active''"
  shows "(\<forall>now m' es. ProcessNext rt m now = Some (m', es) \<longrightarrow>
      m_Status m' = m_Status m \<and> m_WinnerSlot m' = m_WinnerSlot m \<and> m_WinnerCoal m' = m_WinnerCoal m) \<and>
    (\<forall>cmd. Dispatch rt m cmd = (m, ''match_inactive'', [], Some ErrMatchInactive))"
proof -
  have "outcome m' = outcome m" if "ProcessNext rt m now = Some (m', es)" for now m' es
  proof -
    have "(match_ok m' \<and> outcome m' = outcome m) \<and> (\<forall>e. tl_Peek (m_Timeline m') = Some e \<longrightarrow> now < ev_At e)"
    proof (rule process_loop_invariant[where Q = "\<lambda>m' _. match_ok m' \<and> outcome m' = outcome m",
          OF _ assms(1) _ that[unfolded ProcessNext_def]])
      fix rt m1 out ev rest m' es
      assume rt: "rt_ok rt" and q: "match_ok m1 \<and> outcome m1 = outcome m" and pop: "tl_Pop (m_Timeline m1) = Some (ev, rest)"
        and h: "HandleEvent rt (m1\<lparr>m_Timeline := rest\<rparr>) ev = Some (m', es)"
      have ok: "match_ok (m1\<lparr>m_Timeline := rest\<rparr>)" by (rule HandleEvent_pop_ok[OF conjunct1[OF q] pop])
      have "m_Status (m1\<lparr>m_Timeline := rest\<rparr>) \<noteq> ''active''" using q assms(3) by (simp add: outcome_def)
      from HandleEvent_outcome[OF rt ok this h] HandleEvent_ok[OF ok h] q show "match_ok m' \<and> outcome m' = outcome m" by simp
    qed (simp add: assms(2))
    then show ?thesis by blast
  qed
  then show ?thesis using assms(3) by (simp add: outcome_def Dispatch_def)
qed

theorem ended_is_final_witness:
  "\<exists>m' es. ProcessNext plain_rt (duel\<lparr>m_Status := ''ended''\<rparr>) (100 * Hour) = Some (m', es) \<and> m_Status m' = ''ended''"
proof -
  let ?m = "duel\<lparr>m_Status := ''ended''\<rparr>"
  have ok: "match_ok ?m" using match_reachable_ok[OF duel_reachable]
    by (simp add: match_ok_def units_ok_def provinces_ok_def economy_ok_def)
  have "process_loop plain_rt ?m (100 * Hour) [] \<noteq> None"
    by (rule process_loop_total[OF rt_ok_plain ok]) (use duel_no_alliances in \<open>simp add: no_alliances_def\<close>)
  then obtain m' es where r: "ProcessNext plain_rt ?m (100 * Hour) = Some (m', es)" by (auto simp: ProcessNext_def)
  have "m_Status ?m \<noteq> ''active''" by simp
  from conjunct1[OF ended_is_final[OF rt_ok_plain ok this]] r show ?thesis by force
qed

end
