(* ===== verification/Motion.thy ===== *)
theory Motion
  imports Engine
begin

text \<open>
  Motion: the schedule a route is turned into, and the position of a unit along the leg it is on.
\<close>

section \<open>Motion\<close>

text \<open>Half-way between: the point a fraction \<open>p\<close> of the way from one point to another.\<close>

definition point_between :: "real \<Rightarrow> real \<times> real \<Rightarrow> real \<times> real \<Rightarrow> real \<times> real" where
  "point_between p a b = (fst a + (fst b - fst a) * p, snd a + (snd b - snd a) * p)"

lemma point_between_ends [simp]: "point_between 0 a b = a" "point_between 1 a b = b"
  by (simp_all add: point_between_def)

lemma time_sub_mono: "t \<le> t' \<Longrightarrow> time_sub t u \<le> time_sub t' u"
  by (simp add: time_sub_def min_def max_def)

lemma time_sub_gt: "u < t \<Longrightarrow> 0 < time_sub t u"
  by (simp add: time_sub_def min_duration_def max_duration_def)

definition progress_at :: "time \<Rightarrow> time \<Rightarrow> time \<Rightarrow> real" where
  "progress_at started arrives t =
     (if t \<le> started then 0 else if arrives \<le> t then 1
      else duration_seconds (time_sub t started) / duration_seconds (time_sub arrives started))"

lemma lerp_progress: "lerp_position s a fx fy tx ty t = point_between (progress_at s a t) (fx, fy) (tx, ty)"
proof -
  have "0 < duration_seconds (time_sub a s)" if "s < t" "t < a"
    using time_sub_gt[of s a] that by (simp add: duration_seconds_def)
  then show ?thesis by (auto simp: lerp_position_def progress_at_def point_between_def Let_def not_less)
qed

lemma progress_bounds: "0 \<le> progress_at s a t" "progress_at s a t \<le> 1"
proof -
  have "0 < time_sub t s" "time_sub t s \<le> time_sub a s" if "s < t" "t < a"
    using time_sub_gt[of s t] time_sub_mono[of t a s] that by simp_all
  then show "0 \<le> progress_at s a t" "progress_at s a t \<le> 1"
    by (fastforce simp: progress_at_def duration_seconds_def divide_le_eq_1 not_le)+
qed

lemma progress_mono: "t \<le> t' \<Longrightarrow> progress_at s a t \<le> progress_at s a t'"
proof (cases "s < t \<and> t' < a")
  case True
  assume le: "t \<le> t'"
  have "0 < duration_seconds (time_sub a s)" using True le time_sub_gt[of s a] by (simp add: duration_seconds_def)
  then show ?thesis using True le time_sub_mono[OF le, of s]
    by (simp add: progress_at_def duration_seconds_def divide_right_mono)
next
  case False
  assume le: "t \<le> t'"
  consider "t \<le> s" | "s < t" "a \<le> t'" using False by linarith
  then show ?thesis
  proof cases
    case 1
    then show ?thesis using progress_bounds(1)[of s a t'] by (simp add: progress_at_def)
  next
    case 2
    then have "progress_at s a t' = 1" using le by (simp add: progress_at_def)
    then show ?thesis using progress_bounds(2) by simp
  qed
qed

text \<open>
  C17. Motion along a leg. The position of a unit that has a path is always on the segment of its current
  leg: it is the point reached after a fraction of the leg that is 0 until the leg starts, never
  decreases with time, and is 1 once the leg's arrival time is reached.
\<close>

theorem position_on_current_leg:
  assumes "u_Path u \<noteq> []" "u_PathIndex u < length (u_Path u)"
  shows "\<exists>p. (\<forall>t. 0 \<le> p t \<and> p t \<le> (1::real) \<and>
        PositionAt u t = point_between (p t)
          (pl_FromX (u_Path u ! u_PathIndex u), pl_FromY (u_Path u ! u_PathIndex u))
          (pl_ToX (u_Path u ! u_PathIndex u), pl_ToY (u_Path u ! u_PathIndex u))) \<and>
      mono p \<and> (\<forall>t. t \<le> u_StartedAt u \<longrightarrow> p t = 0) \<and>
      (\<forall>t. u_StartedAt u < t \<longrightarrow> pl_ArrivesAt (u_Path u ! u_PathIndex u) \<le> t \<longrightarrow> p t = 1)"
proof -
  let ?l = "u_Path u ! u_PathIndex u"
  let ?p = "progress_at (u_StartedAt u) (pl_ArrivesAt ?l)"
  have "PositionAt u t = point_between (?p t) (pl_FromX ?l, pl_FromY ?l) (pl_ToX ?l, pl_ToY ?l)" for t
    using assms by (simp add: PositionAt_def Let_def lerp_progress)
  then show ?thesis
    using progress_bounds progress_mono by (intro exI[of _ ?p]) (auto simp: mono_def progress_at_def)
qed

definition sample_traveller :: game_unit where
  "sample_traveller = \<lparr>u_ID = ''u1'', u_OwnerSlot = ''red'', u_Type = ''infantry'', u_HP = 100, u_Origin = ''a'', u_Dest = ''b'',
      u_StartedAt = 0, u_ArrivesAt = 10 * Second, u_OriginX = 0, u_OriginY = 0, u_DestX = 30, u_DestY = 40, u_Speed = 5, u_Version = 1,
      u_Path = [\<lparr>pl_FromProv = ''a'', pl_ToProv = ''b'', pl_FromX = 0, pl_FromY = 0, pl_ToX = 30, pl_ToY = 40, pl_ArrivesAt = 10 * Second\<rparr>],
      u_PathIndex = 0, u_Waypoints = []\<rparr>"

theorem position_on_current_leg_witness:
  "PositionAt sample_traveller (10 * Second) = (30, 40)"
proof -
  have "0 < 10 * Second" by (simp add: duration_defs)
  moreover obtain p where "\<forall>t. PositionAt sample_traveller t = point_between (p t) (0, 0) (30, 40)"
      "\<forall>t. 0 < t \<longrightarrow> 10 * Second \<le> t \<longrightarrow> p t = 1"
    using position_on_current_leg[of sample_traveller] by (auto simp: sample_traveller_def)
  ultimately show ?thesis by simp
qed

lemma schedule_legs_nth:
  "i < length legs \<Longrightarrow> pl_FromProv (schedule_legs v t legs ! i) = lg_FromProv (legs ! i) \<and>
     pl_ToProv (schedule_legs v t legs ! i) = lg_ToProv (legs ! i) \<and>
     pl_FromX (schedule_legs v t legs ! i) = lg_FromX (legs ! i) \<and> pl_FromY (schedule_legs v t legs ! i) = lg_FromY (legs ! i) \<and>
     pl_ToX (schedule_legs v t legs ! i) = lg_ToX (legs ! i) \<and> pl_ToY (schedule_legs v t legs ! i) = lg_ToY (legs ! i)"
  by (induction legs arbitrary: t i) (auto simp: Let_def nth_Cons split: nat.splits)

lemma EuclidDistance_LegLength: "EuclidDistance (lg_FromX l) (lg_FromY l) (lg_ToX l) (lg_ToY l) = LegLength l"
  by (simp add: EuclidDistance_def LegLength_def hypot_def Let_def power2_eq_square) (simp add: algebra_simps)

lemma schedule_legs_step:
  "i < length legs \<Longrightarrow> pl_ArrivesAt (schedule_legs v t legs ! i) =
     (case i of 0 \<Rightarrow> t | Suc j \<Rightarrow> pl_ArrivesAt (schedule_legs v t legs ! j)) + travel_time (LegLength (legs ! i)) v"
proof (induction legs arbitrary: t i)
  case (Cons l legs)
  show ?case
  proof (cases i)
    case 0
    then show ?thesis by (simp add: Let_def EuclidDistance_LegLength)
  next
    case (Suc j)
    with Cons.IH[of j "t + travel_time (LegLength l) v"] Cons.prems
    show ?thesis by (cases j) (simp_all add: Let_def EuclidDistance_LegLength)
  qed
qed simp

lemma travel_time_exact:
  assumes "0 < v" "0 \<le> d" "d / v < 9223372036"
  shows "travel_time d v = max Millisecond (\<lfloor>d / v\<rfloor> * Second)"
proof -
  have f: "0 \<le> \<lfloor>d / v\<rfloor>" "\<lfloor>d / v\<rfloor> < 9223372036" using assms by (simp_all add: floor_less_iff)
  have s: "Second = 1000000000" and p: "(2::int) ^ 63 = 9223372036854775808" by (simp_all add: duration_defs)
  have "int64 (\<lfloor>d / v\<rfloor> * Second) = \<lfloor>d / v\<rfloor> * Second"
    by (rule int64_id; unfold s p; use f in linarith)
  then show ?thesis using assms by (simp add: travel_time_def trunc_def Let_def max_def)
qed

text \<open>
  C18. The schedule of a path. Giving a unit a non-empty route schedules one leg for each leg of the
  route, in order and between the same provinces and points; leg i arrives one travel time after leg
  i - 1 (after \<open>now\<close> for the first), which is the length of the leg divided by the speed, rounded down
  to whole seconds, but at least a millisecond, as long as that is less than about 292 years. The unit
  starts at the first point of the route, and its arrival is on the timeline with its current version.
\<close>

theorem travel_schedule:
  assumes "legs \<noteq> []" "0 < u_Speed u" "SetUnitPath m u legs now = (m', u')"
  shows "length (u_Path u') = length legs \<and> u_PathIndex u' = 0 \<and>
    (\<forall>i<length legs. pl_FromProv (u_Path u' ! i) = lg_FromProv (legs ! i) \<and> pl_ToProv (u_Path u' ! i) = lg_ToProv (legs ! i) \<and>
       (pl_FromX (u_Path u' ! i), pl_FromY (u_Path u' ! i)) = (lg_FromX (legs ! i), lg_FromY (legs ! i)) \<and>
       (pl_ToX (u_Path u' ! i), pl_ToY (u_Path u' ! i)) = (lg_ToX (legs ! i), lg_ToY (legs ! i)) \<and>
       (let before = (case i of 0 \<Rightarrow> now | Suc j \<Rightarrow> pl_ArrivesAt (u_Path u' ! j)) in
        before + Millisecond \<le> pl_ArrivesAt (u_Path u' ! i) \<and>
        (LegLength (legs ! i) / u_Speed u < 9223372036 \<longrightarrow>
           pl_ArrivesAt (u_Path u' ! i) = before + max Millisecond (\<lfloor>LegLength (legs ! i) / u_Speed u\<rfloor> * Second)))) \<and>
    PositionAt u' now = (lg_FromX (hd legs), lg_FromY (hd legs)) \<and>
    map_of (m_Units m') (u_ID u) = Some u' \<and>
    mset (m_Timeline m') = add_mset \<lparr>ev_At = pl_ArrivesAt (hd (u_Path u')), ev_Kind = Arrival, ev_UnitID = u_ID u,
       ev_Other = [], ev_Version = u_Version u\<rparr> (mset (m_Timeline m))"
proof -
  let ?s = "schedule_legs (u_Speed u) now legs"
  let ?u = "u\<lparr>u_PathIndex := 0, u_Path := ?s\<rparr>"
  have u': "u' = beginCurrentLeg ?u now" "m' = scheduleArrival (put_unit u' m) u'"
    using assms(1,3) by (auto simp: SetUnitPath_def Let_def)
  have len: "0 < length legs" using assms(1) by simp
  have at0: "now + Millisecond \<le> pl_ArrivesAt (?s ! 0)"
    by (rule schedule_legs_arrivals[OF nth_mem, of 0]) (use len in simp)
  have b: "u_StartedAt u' = now" "u_ArrivesAt u' = pl_ArrivesAt (?s ! 0)"
    using at0 len by (auto simp: u'(1) beginCurrentLeg_def Let_def duration_defs)
  have hd: "hd legs = legs ! 0" "hd ?s = ?s ! 0" using len by (simp_all add: hd_conv_nth)
  have "PositionAt u' now = (lg_FromX (hd legs), lg_FromY (hd legs))"
    using len b(1) schedule_legs_nth[OF len, of "u_Speed u" now] hd
    by (simp add: PositionAt_def Let_def u'(1) lerp_progress progress_at_def)
  moreover have "mset (m_Timeline m') = add_mset \<lparr>ev_At = pl_ArrivesAt (hd (u_Path u')), ev_Kind = Arrival, ev_UnitID = u_ID u,
       ev_Other = [], ev_Version = u_Version u\<rparr> (mset (m_Timeline m))"
    using len b(2) hd unfolding u'(2) by (simp add: scheduleArrival_def) (simp add: u'(1))
  moreover have "map_of (m_Units m') (u_ID u) = Some u'" unfolding u'(2) by (simp add: u'(1))
  moreover have "let before = (case i of 0 \<Rightarrow> now | Suc j \<Rightarrow> pl_ArrivesAt (?s ! j)) in
        before + Millisecond \<le> pl_ArrivesAt (?s ! i) \<and>
        (LegLength (legs ! i) / u_Speed u < 9223372036 \<longrightarrow>
           pl_ArrivesAt (?s ! i) = before + max Millisecond (\<lfloor>LegLength (legs ! i) / u_Speed u\<rfloor> * Second))"
    if "i < length legs" for i
    unfolding Let_def schedule_legs_step[OF that]
    using travel_time_pos travel_time_exact[OF assms(2), of "LegLength (legs ! i)"] by (simp add: LegLength_def hypot_def)
  moreover have P: "u_Path u' = ?s" "u_PathIndex u' = 0" by (simp_all add: u'(1))
  ultimately show ?thesis unfolding P using schedule_legs_nth[where v = "u_Speed u" and t = now] by simp
qed

definition sample_leg :: leg where
  "sample_leg = \<lparr>lg_FromProv = ''a'', lg_ToProv = ''b'', lg_FromX = 0, lg_FromY = 0, lg_ToX = 30, lg_ToY = 40\<rparr>"

theorem travel_schedule_witness:
  "u_Path (snd (SetUnitPath duel sample_traveller [sample_leg] 0)) ! 0 =
     \<lparr>pl_FromProv = ''a'', pl_ToProv = ''b'', pl_FromX = 0, pl_FromY = 0, pl_ToX = 30, pl_ToY = 40, pl_ArrivesAt = 10 * Second\<rparr>"
proof -
  have v: "0 < u_Speed sample_traveller" and l: "LegLength sample_leg / u_Speed sample_traveller = 10"
    by (simp_all add: sample_traveller_def sample_leg_def LegLength_def hypot_def power2_eq_square)
  note t = travel_schedule[OF _ v, of "[sample_leg]" duel 0 "fst (SetUnitPath duel sample_traveller [sample_leg] 0)"
      "snd (SetUnitPath duel sample_traveller [sample_leg] 0)"]
  have "max Millisecond (10 * Second) = 10 * Second" by (simp add: duration_defs)
  with t show ?thesis by (simp add: l) (simp add: sample_leg_def)
qed
end
