(* ===== verification/Isolation.thy ===== *)
theory Isolation
  imports Engine
begin

text \<open>
  A command changes only what belongs to the player who issued it.
\<close>

section \<open>Isolation of the commands\<close>

text \<open>The registry differs at most in what concerns \<open>s\<close>.\<close>

definition local_to :: "slot \<Rightarrow> registry \<Rightarrow> registry \<Rightarrow> bool" where
  "local_to s d d' \<longleftrightarrow> (\<forall>a b. a \<noteq> s \<longrightarrow> b \<noteq> s \<longrightarrow>
     Stance d' a b = Stance d a b \<and> (\<forall>k. HasPact d' a b k = HasPact d a b k))"

lemma local_to_refl [simp]: "local_to s d d"
  by (simp add: local_to_def)

lemma HasPact_upsert [simp]: "HasPact (upsert r a b st p f now cf) c d k = HasPact r c d k"
  by (simp add: HasPact_def upsert_frame)

lemma HasPact_bump [simp]: "HasPact (bumpVersion r) c d k = HasPact r c d k"
  by (simp add: HasPact_def bumpVersion_def)

lemma HasPact_revokeAll: "c \<noteq> a \<Longrightarrow> d \<noteq> a \<Longrightarrow> HasPact (revokeAllBetween r a b) c d k = HasPact r c d k"
  by (auto simp: HasPact_def revoke_pacts map_of_filter_keys between_def)

lemma local_upsert: "a \<noteq> b \<Longrightarrow> local_to a r (upsert r a b st p f now cf)"
  by (auto simp: local_to_def Stance_upsert)

lemma local_DeclareWar: "local_to a r (fst (DeclareWar r a b now))"
  by (auto simp: local_to_def DeclareWar_def Let_def Stance_upsert HasPact_revokeAll)

lemma local_propose: "local_to a r (fst (propose r a b kind now))"
  by (auto simp: propose_def Let_def local_upsert)

lemma local_accept: "local_to a r (fst (accept r a b want st now))"
  by (auto simp: accept_def local_upsert split: option.splits dest!: Treaty_distinct)

lemma local_GrantPact: "local_to a r (fst (GrantPact r a b k now))"
  by (auto simp: local_to_def GrantPact_def) (auto simp: HasPact_def bumpVersion_def Stance_def)

lemma local_RevokePact: "local_to a r (fst (RevokePact r a b k))"
  by (auto simp: local_to_def RevokePact_def) (auto simp: HasPact_def bumpVersion_def map_of_mdel Stance_def)

text \<open>What a command of slot \<open>s\<close> leaves as it was.\<close>

definition isolated :: "slot \<Rightarrow> match \<Rightarrow> match \<Rightarrow> bool" where
  "isolated s m m' \<longleftrightarrow>
     m_Provinces m' = m_Provinces m \<and> m_Players m' = m_Players m \<and> m_Buildings m' = m_Buildings m \<and>
     outcome m' = outcome m \<and> m_GameNow m' = m_GameNow m \<and> m_Map m' = m_Map m \<and> identity m' = identity m \<and>
     (\<forall>i u. map_of (m_Units m) i = Some u \<longrightarrow> u_OwnerSlot u \<noteq> s \<longrightarrow> map_of (m_Units m') i = Some u) \<and>
     (\<forall>i. map_of (m_Units m') i = None \<longleftrightarrow> map_of (m_Units m) i = None) \<and>
     (\<forall>t. t \<noteq> s \<longrightarrow> map_of (m_Resources m') t = map_of (m_Resources m) t) \<and>
     local_to s (m_Diplomacy m) (m_Diplomacy m')"

lemma isolated_refl [simp]: "isolated s m m"
  by (simp add: isolated_def)

lemma isolated_move:
  assumes "move_frame m m'" "map_of (m_Units m) i = Some u" "u_OwnerSlot u = s"
    "\<And>j. j \<noteq> i \<Longrightarrow> map_of (m_Units m') j = map_of (m_Units m) j"
    "map_of (m_Units m') i = Some u'"
  shows "isolated s m m'"
proof -
  have "map_of (m_Units m') j = Some v" if "map_of (m_Units m) j = Some v" "u_OwnerSlot v \<noteq> s" for j v
    using that assms(2-4) by (cases "j = i") auto
  moreover have "map_of (m_Units m') j = None \<longleftrightarrow> map_of (m_Units m) j = None" for j
    using assms(2,4,5) by (cases "j = i") auto
  ultimately show ?thesis
    unfolding isolated_def outcome_def
    using move_frame_fields[OF assms(1)] sim_frame_fields[OF move_sim_frame[OF assms(1)]]
      sim_identity[OF move_sim_frame[OF assms(1)]] by simp
qed

lemma move_isolated:
  assumes "match_ok m"
  shows "isolated (c_IssuerSlot cmd) m (fst (move_Apply rt m cmd))"
proof (cases "map_of (m_Units m) (c_UnitID cmd)")
  case None
  then show ?thesis by (simp add: move_Apply_def)
next
  case (Some u)
  have uid: "c_UnitID cmd = u_ID u" using units_okD[OF match_okD(1)[OF assms] Some] by simp
  have ok: "unit_ok u" by (rule units_ok_unit[OF match_okD(1)[OF assms] Some])
  show ?thesis
  proof (cases "u_OwnerSlot u \<noteq> c_IssuerSlot cmd \<or> u_Speed u \<le> 0")
    case True
    then show ?thesis using Some by (auto simp: move_Apply_def)
  next
    case owner: False
    show ?thesis
    proof (cases "parseMoveTarget (sub rt 0) m cmd")
      case (Inl e)
      then show ?thesis using Some owner by (auto simp: move_Apply_def)
    next
      case (Inr tgt)
      have iso: "isolated (c_IssuerSlot cmd) m m'"
        if "move_frame m m'" "\<And>j. map_of (m_Units m') j = (if j = u_ID u then Some u' else map_of (m_Units m) j)" for m' u'
        by (rule isolated_move[OF that(1) Some]) (use owner that(2) uid in simp_all)
      let ?u1 = "u\<lparr>u_Waypoints := u_Waypoints u @ [tgt]\<rparr>"
      let ?u2 = "?u1\<lparr>u_Version := u_Version ?u1 + 1\<rparr>"
      have u2: "unit_ok ?u2" using ok by (simp add: unit_ok_def)
      obtain m2 u3 st where w: "StartNextWaypoint (sub rt 1) (put_unit ?u2 m) ?u2 (m_GameNow m) = (m2, u3, st)"
        by (metis prod_cases3)
      have W: "move_frame (put_unit ?u2 m) m2" "\<And>i. map_of (m_Units m2) i = (if i = u_ID u then Some u3 else map_of (m_Units m) i)"
        using StartNextWaypoint_ok[OF match_ok_put_unit[OF assms u2] u2 _ w] by simp_all
      have m2: "isolated (c_IssuerSlot cmd) m m2"
        by (rule iso[OF move_frame_trans[OF move_frame_steps(1) W(1)]]) (simp add: W(2))
      have m1: "isolated (c_IssuerSlot cmd) m (put_unit ?u1 m)" by (rule iso[of _ ?u1]) simp_all
      have direct: "isolated (c_IssuerSlot cmd) m (fst (SetUnitPath m (u\<lparr>u_Waypoints := [], u_Version := u_Version u + 1\<rparr>) legs (m_GameNow m)))" for legs
      proof (cases "legs = []")
        case True
        then show ?thesis by (simp add: SetUnitPath_def)
      next
        case False
        let ?v = "u\<lparr>u_Waypoints := [], u_Version := u_Version u + 1\<rparr>"
        obtain m' u' where s: "SetUnitPath m ?v legs (m_GameNow m) = (m', u')" by fastforce
        have "0 < u_Speed ?v" using ok by (simp add: unit_ok_def)
        from SetUnitPath_ok[OF assms this False s] show ?thesis by (simp add: s) (rule iso; simp)
      qed
      show ?thesis
        using w m2 m1 direct
        by (auto simp: move_Apply_def Some Inr Let_def split: option.splits sum.splits prod.splits)
    qed
  qed
qed

lemma recruit_isolated: "isolated (c_IssuerSlot cmd) m (fst (recruit_Apply rt m cmd))"
  by (auto simp: recruit_Apply_def Let_def isolated_def outcome_def split: option.splits)

lemma construct_isolated: "isolated (c_IssuerSlot cmd) m (fst (construct_Apply rt m cmd))"
  by (auto simp: construct_Apply_def Let_def isolated_def outcome_def split: option.splits)

lemma diplomacy_isolated:
  assumes "\<And>d tgt. local_to (c_IssuerSlot cmd) d (fst (act d (c_IssuerSlot cmd) tgt))"
  shows "isolated (c_IssuerSlot cmd) m (fst (diplomacy_Apply m cmd action act kind ex))"
proof (cases "resolveTarget m cmd")
  case (Inl e)
  then show ?thesis by (cases e) (simp add: diplomacy_Apply_def)
next
  case (Inr tgt)
  obtain d e where a: "act (m_Diplomacy m) (c_IssuerSlot cmd) tgt = (d, e)" by fastforce
  have "local_to (c_IssuerSlot cmd) (m_Diplomacy m) d" using assms[of "m_Diplomacy m" tgt] a by simp
  then have iso: "isolated (c_IssuerSlot cmd) m (m\<lparr>m_Diplomacy := d\<rparr>)" "isolated (c_IssuerSlot cmd) m (bump_seq (m\<lparr>m_Diplomacy := d\<rparr>))"
    by (simp_all add: isolated_def outcome_def bump_seq_def)
  show ?thesis
    using iso by (cases e) (simp_all add: diplomacy_Apply_def Inr a emitDiplomacyEvent_def Let_def case_prod_beta)
qed

lemma apply_handler_isolated:
  assumes "match_ok m" "apply_handler rt m cmd = Some r"
  shows "isolated (c_IssuerSlot cmd) m (fst r)"
  using assms move_isolated[of m cmd rt] recruit_isolated[of cmd m rt] construct_isolated[of cmd m rt]
  unfolding apply_handler_def Let_def declareWar_Apply_def proposePeace_Apply_def proposeAlliance_Apply_def
    acceptPeace_Apply_def acceptAlliance_Apply_def shareMap_Apply_def revokeShareMap_Apply_def
    rightOfWayGrant_Apply_def rightOfWayRevoke_Apply_def ProposePeace_def ProposeAlliance_def AcceptPeace_def AcceptAlliance_def
  by (auto split: if_splits intro!: diplomacy_isolated local_DeclareWar local_propose local_accept local_GrantPact local_RevokePact)

text \<open>
  C19. Isolation of the players. A command changes only what belongs to the player who issued it: it
  never changes a province, a building, the players or the outcome of the match, nor a unit of another
  owner; it creates and destroys no unit; the stockpiles of the other slots stay as they are, and so do
  the stances and pacts between two other slots.
\<close>

theorem command_isolation:
  assumes "match_ok m" "Dispatch rt m cmd = (m', label, es, err)"
  shows "let s = c_IssuerSlot (resolve_issuer (sub rt 0) m cmd) in
    m_Provinces m' = m_Provinces m \<and> m_Buildings m' = m_Buildings m \<and> m_Players m' = m_Players m \<and>
    m_Status m' = m_Status m \<and> m_WinnerSlot m' = m_WinnerSlot m \<and> m_WinnerCoal m' = m_WinnerCoal m \<and>
    (\<forall>i u. map_of (m_Units m) i = Some u \<and> u_OwnerSlot u \<noteq> s \<longrightarrow> map_of (m_Units m') i = Some u) \<and>
    (\<forall>i. map_of (m_Units m') i = None \<longleftrightarrow> map_of (m_Units m) i = None) \<and>
    (\<forall>t. t \<noteq> s \<longrightarrow> map_of (m_Resources m') t = map_of (m_Resources m) t) \<and>
    (\<forall>a b. a \<noteq> s \<and> b \<noteq> s \<longrightarrow> Stance (m_Diplomacy m') a b = Stance (m_Diplomacy m) a b \<and>
       (\<forall>k. HasPact (m_Diplomacy m') a b k = HasPact (m_Diplomacy m) a b k))"
proof -
  let ?cmd = "resolve_issuer (sub rt 0) m cmd"
  have "isolated (c_IssuerSlot ?cmd) m m'"
    using assms(2) apply_handler_isolated[OF assms(1), of "sub rt 1" ?cmd]
    by (auto simp: Dispatch_def Let_def split: if_splits option.splits)
  then show ?thesis unfolding isolated_def outcome_def local_to_def Let_def by auto
qed

definition sample_command :: command where
  "sample_command = \<lparr>c_MatchID = ''m1'', c_UserID = [], c_IssuerSlot = ''red'', c_IdempotencyKey = [], c_Kind = ''recruit'',
     c_UnitID = ''infantry'', c_From = ''a'', c_To = [], c_IssuedAt = 0, c_Args = []\<rparr>"

theorem command_isolation_witness:
  "map_of (m_Resources (fst (Dispatch plain_rt duel sample_command))) ''blue'' = Some StartingResources"
proof -
  obtain m' l es err where d: "Dispatch plain_rt duel sample_command = (m', l, es, err)" by (metis prod_cases4)
  have "c_IssuerSlot (resolve_issuer (sub plain_rt 0) duel sample_command) = ''red''"
    by (simp add: resolve_issuer_def sample_command_def)
  with command_isolation[OF match_reachable_ok[OF duel_reachable] d]
  have "map_of (m_Resources m') ''blue'' = map_of (m_Resources duel) ''blue''" unfolding Let_def by simp
  with d show ?thesis by (simp add: duel_fields)
qed
end
