(* ===== verification/Orders.thy ===== *)
theory Orders
  imports Isolation
begin

text \<open>
  The life of an order: paid when it is given, delivered or half refunded when it is completed; and the
  revenue of a macro pulse.
\<close>

section \<open>Orders\<close>

text \<open>When a province accepts a recruitment order, and which one.\<close>

definition ordered_unit :: "command \<Rightarrow> string" where
  "ordered_unit cmd = (case Extra cmd ''type'' of Some t \<Rightarrow> t | None \<Rightarrow> c_UnitID cmd)"

definition may_recruit :: "match \<Rightarrow> command \<Rightarrow> province \<Rightarrow> unit_kind \<Rightarrow> resources \<Rightarrow> bool" where
  "may_recruit m cmd prov k bank \<longleftrightarrow>
     map_of (m_Provinces m) (c_From cmd) = Some prov \<and> p_Owner prov = c_IssuerSlot cmd \<and>
     unit_ByID (ordered_unit cmd) = Some k \<and>
     (unit_NeedsBuilding k \<noteq> [] \<longrightarrow> HasBuilding m (p_ID prov) (unit_NeedsBuilding k)) \<and>
     map_of (m_NextRecruit m) (p_ID prov) = None \<and>
     map_of (m_Resources m) (c_IssuerSlot cmd) = Some bank \<and> CanPay bank (unit_Cost k)"

lemma recruit_rejected:
  assumes "\<And>prov k bank. \<not> may_recruit m cmd prov k bank"
  shows "\<exists>label e. recruit_Apply rt m cmd = (m, label, [], Some e)"
proof (cases "map_of (m_Provinces m) (c_From cmd)")
  case (Some prov)
  note n = assms[of prov, unfolded may_recruit_def ordered_unit_def]
  show ?thesis
  proof (cases "unit_ByID (case Extra cmd ''type'' of None \<Rightarrow> c_UnitID cmd | Some t \<Rightarrow> t)")
    case None
    then show ?thesis using Some by (simp add: recruit_Apply_def)
  next
    case k: (Some k)
    show ?thesis
    proof (cases "map_of (m_Resources m) (c_IssuerSlot cmd)")
      case None
      then show ?thesis using Some k by (simp add: recruit_Apply_def Let_def)
    next
      case bank: (Some bank)
      show ?thesis using n[of k bank] Some k bank by (auto simp: recruit_Apply_def Let_def split: option.splits)
    qed
  qed
qed (simp add: recruit_Apply_def)

text \<open>
  C20. Recruitment is paid exactly once, when it is ordered. The command succeeds exactly when the
  province belongs to the issuer, the type of unit exists, the building it needs stands in the province,
  no other recruitment is in progress there, and the issuer can pay. Then the stockpile is reduced by
  exactly the cost, the order is stored under the province, its completion is on the timeline after the
  build time, and nothing else changes. Otherwise it fails and nothing changes at all.
\<close>

theorem recruit_order_effect:
  assumes "recruit_Apply rt m cmd = (m', label, es, err)"
  shows "if \<exists>prov k bank. may_recruit m cmd prov k bank
    then \<exists>prov k bank order. may_recruit m cmd prov k bank \<and> err = None \<and> es = [] \<and>
      order = \<lparr>ro_ID = uuid_at rt [], ro_OwnerSlot = c_IssuerSlot cmd, ro_Province = p_ID prov, ro_UnitType = unit_kind_ID k,
               ro_IssuedAt = m_GameNow m, ro_CompletesAt = m_GameNow m + unit_BuildTime k\<rparr> \<and>
      (\<forall>s. map_of (m_Resources m') s = (if s = c_IssuerSlot cmd then Some (Pay bank (unit_Cost k)) else map_of (m_Resources m) s)) \<and>
      (\<forall>p. map_of (m_NextRecruit m') p = (if p = p_ID prov then Some order else map_of (m_NextRecruit m) p)) \<and>
      mset (m_Timeline m') = add_mset \<lparr>ev_At = ro_CompletesAt order, ev_Kind = RecruitComplete, ev_UnitID = ro_ID order,
         ev_Other = [], ev_Version = 0\<rparr> (mset (m_Timeline m)) \<and>
      m' = m\<lparr>m_Resources := m_Resources m', m_NextRecruit := m_NextRecruit m', m_Timeline := m_Timeline m'\<rparr>
    else m' = m \<and> es = [] \<and> err \<noteq> None"
proof (cases "\<exists>prov k bank. may_recruit m cmd prov k bank")
  case True
  then obtain prov k bank where r: "may_recruit m cmd prov k bank" by blast
  have k: "unit_ByID (case Extra cmd ''type'' of None \<Rightarrow> c_UnitID cmd | Some t \<Rightarrow> t) = Some k"
    using r unfolding may_recruit_def ordered_unit_def by blast
  have "recruit_Apply rt m cmd =
     (let order = \<lparr>ro_ID = uuid_at rt [], ro_OwnerSlot = c_IssuerSlot cmd, ro_Province = p_ID prov, ro_UnitType = unit_kind_ID k,
               ro_IssuedAt = m_GameNow m, ro_CompletesAt = m_GameNow m + unit_BuildTime k\<rparr> in
      (m\<lparr>m_Resources := mput (c_IssuerSlot cmd) (Pay bank (unit_Cost k)) (m_Resources m),
         m_NextRecruit := mput (p_ID prov) order (m_NextRecruit m),
         m_Timeline := tl_Push \<lparr>ev_At = ro_CompletesAt order, ev_Kind = RecruitComplete, ev_UnitID = ro_ID order,
           ev_Other = [], ev_Version = 0\<rparr> (m_Timeline m)\<rparr>, ''ok'', [], None))"
    using r unfolding recruit_Apply_def Let_def k by (auto simp: may_recruit_def)
  then have eq: "m' = m\<lparr>m_Resources := mput (c_IssuerSlot cmd) (Pay bank (unit_Cost k)) (m_Resources m),
         m_NextRecruit := mput (p_ID prov) \<lparr>ro_ID = uuid_at rt [], ro_OwnerSlot = c_IssuerSlot cmd, ro_Province = p_ID prov,
               ro_UnitType = unit_kind_ID k, ro_IssuedAt = m_GameNow m, ro_CompletesAt = m_GameNow m + unit_BuildTime k\<rparr> (m_NextRecruit m),
         m_Timeline := tl_Push \<lparr>ev_At = m_GameNow m + unit_BuildTime k, ev_Kind = RecruitComplete, ev_UnitID = uuid_at rt [],
           ev_Other = [], ev_Version = 0\<rparr> (m_Timeline m)\<rparr>" "es = []" "err = None"
    using assms by (simp_all add: Let_def)
  show ?thesis unfolding if_P[OF True]
    by (rule exI[of _ prov], rule exI[of _ k], rule exI[of _ bank], rule exI, intro conjI, rule r, rule eq(3), rule eq(2), rule refl)
       (simp_all add: eq(1))
next
  case False
  then have "\<exists>label e. recruit_Apply rt m cmd = (m, label, [], Some e)" by (intro recruit_rejected) blast
  then have "m' = m \<and> es = [] \<and> err \<noteq> None" using assms by auto
  then show ?thesis unfolding if_not_P[OF False] .
qed

theorem recruit_order_effect_witness:
  "map_of (m_Resources (fst (recruit_Apply plain_rt duel sample_command))) ''red'' = Some (Pay StartingResources (unit_Cost Infantry))"
proof -
  obtain m' l es err where r: "recruit_Apply plain_rt duel sample_command = (m', l, es, err)" by (metis prod_cases4)
  let ?p = "\<lparr>p_ID = ''a'', p_X = 0, p_Y = 0, p_Owner = ''red'', p_Capital = True\<rparr>"
  have i: "unit_ByID ''infantry'' = Some Infantry" by (simp add: unit_ByID_Some)
  have may: "may_recruit duel sample_command p k bank \<longleftrightarrow> p = ?p \<and> k = Infantry \<and> bank = StartingResources" for p k bank
    by (auto simp: may_recruit_def duel_fields sample_command_def ordered_unit_def Extra_def i CanPay_def StartingResources_def)
  have ex: "\<exists>prov k bank. may_recruit duel sample_command prov k bank" using may by blast
  from recruit_order_effect[OF r, unfolded if_P[OF ex]] may
  have "map_of (m_Resources m') (c_IssuerSlot sample_command) = Some (Pay StartingResources (unit_Cost Infantry))" by auto
  with r show ?thesis by (simp add: sample_command_def)
qed

lemma refund_shape:
  obtains R where "refund_recruit (m\<lparr>m_NextRecruit := r\<rparr>) ord = m\<lparr>m_NextRecruit := r, m_Resources := R\<rparr>"
    "\<And>s k. unit_ByID (ro_UnitType ord) = Some k \<Longrightarrow> map_of R s = (if s = ro_OwnerSlot ord
       then map_option (\<lambda>b. res_Add b (Halved (unit_Cost k))) (map_of (m_Resources m) s) else map_of (m_Resources m) s)"
proof (cases "unit_ByID (ro_UnitType ord)")
  case None
  then show ?thesis by (intro that[of "m_Resources m"]) (simp_all add: refund_recruit_def)
next
  case (Some t)
  show ?thesis
  proof (cases "map_of (m_Resources m) (ro_OwnerSlot ord)")
    case None
    then show ?thesis using Some by (intro that[of "m_Resources m"]) (simp_all add: refund_recruit_def)
  next
    case bank: (Some b)
    then show ?thesis using Some
      by (intro that[of "mput (ro_OwnerSlot ord) (res_Add b (Halved (unit_Cost t))) (m_Resources m)"]) (simp_all add: refund_recruit_def)
  qed
qed

text \<open>
  Delivery or refund. When the event of a recruitment comes due and an order of its identifier is
  in progress, such an order is removed. If its owner still holds the province, one unit of the ordered
  type with full strength, standing in the province, is added under the new identifier; otherwise half
  of the cost is given back to the slot that ordered it, if it has a stockpile. Nothing else of the match
  but its sequence number changes. An event whose order is no longer there does nothing.
\<close>

theorem recruit_completion:
  assumes "rt_ok rt" "match_ok m" "recruitComplete_Apply rt m ev = (m', es)"
  shows "if \<forall>p ord. map_of (m_NextRecruit m) p = Some ord \<longrightarrow> ro_ID ord \<noteq> ev_UnitID ev then m' = m \<and> es = []
    else \<exists>pid ord. map_of (m_NextRecruit m) pid = Some ord \<and> ro_ID ord = ev_UnitID ev \<and>
      m_NextRecruit m' = mdel pid (m_NextRecruit m) \<and>
      m' = m\<lparr>m_NextRecruit := m_NextRecruit m', m_Units := m_Units m', m_Resources := m_Resources m', m_Seq := m_Seq m'\<rparr> \<and>
      (\<forall>k. unit_ByID (ro_UnitType ord) = Some k \<longrightarrow>
       (case map_of (m_Provinces m) pid of
          Some prov \<Rightarrow>
            if p_Owner prov = ro_OwnerSlot ord
            then \<exists>u. m_Units m' = mput (u_ID u) u (m_Units m) \<and> u_Type u = ro_UnitType ord \<and> u_OwnerSlot u = ro_OwnerSlot ord \<and>
                   u_HP u = unit_StartingHP k \<and> u_Origin u = pid \<and> u_Dest u = pid \<and> u_Path u = [] \<and> m_Resources m' = m_Resources m
            else m_Units m' = m_Units m \<and>
              (\<forall>s. map_of (m_Resources m') s = (if s = ro_OwnerSlot ord then map_option (\<lambda>b. res_Add b (Halved (unit_Cost k))) (map_of (m_Resources m) s)
                                             else map_of (m_Resources m) s))
        | None \<Rightarrow> m_Units m' = m_Units m \<and>
            (\<forall>s. map_of (m_Resources m') s = (if s = ro_OwnerSlot ord then map_option (\<lambda>b. res_Add b (Halved (unit_Cost k))) (map_of (m_Resources m) s)
                                             else map_of (m_Resources m) s))))"
proof -
  let ?Q = "\<lambda>(k, rord). ro_ID rord = ev_UnitID ev"
  let ?xs = "go_range (sub rt 0) (m_NextRecruit m)"
  have eco: "economy_ok m" by (rule match_okD(3)[OF assms(2)])
  then have mok: "mok (m_NextRecruit m)" by (simp add: economy_ok_def)
  have set: "set ?xs = set (m_NextRecruit m)" by (rule set_go_range[OF rt_ok_sub[OF assms(1)] mok])
  show ?thesis
  proof (cases "find ?Q ?xs")
    case None
    then have none: "\<forall>p ord. map_of (m_NextRecruit m) p = Some ord \<longrightarrow> ro_ID ord \<noteq> ev_UnitID ev"
      using set mok by (auto simp: find_None_iff)
    have "m' = m \<and> es = []" using assms(3) None by (simp add: recruitComplete_Apply_def)
    then show ?thesis unfolding if_P[OF none] .
  next
    case (Some x)
    obtain pid ord where x: "x = (pid, ord)" by fastforce
    have "x \<in> set ?xs" "ro_ID ord = ev_UnitID ev" using find_SomeD[OF Some] x by simp_all
    then have ord: "map_of (m_NextRecruit m) pid = Some ord" "ro_ID ord = ev_UnitID ev" using set mok x by simp_all
    then have pid: "ro_Province ord = pid" using eco by (auto simp: economy_ok_def dest!: map_of_SomeD)
    have ex: "\<not> (\<forall>p ord. map_of (m_NextRecruit m) p = Some ord \<longrightarrow> ro_ID ord \<noteq> ev_UnitID ev)" using ord by blast
    show ?thesis unfolding if_not_P[OF ex]
    proof (rule exI[of _ pid], rule exI[of _ ord], rule conjI[OF ord(1)], rule conjI[OF ord(2)])
      let ?m1 = "m\<lparr>m_NextRecruit := mdel pid (m_NextRecruit m)\<rparr>"
      note body = assms(3)[unfolded recruitComplete_Apply_def Some x option.case prod.case Let_def pid]
      consider (refunded) "m' = refund_recruit ?m1 ord"
          "case map_of (m_Provinces m) pid of None \<Rightarrow> True | Some prov \<Rightarrow> p_Owner prov \<noteq> ro_OwnerSlot ord"
        | (lost) "m' = ?m1" "unit_ByID (ro_UnitType ord) = None"
        | (unit) prov t where "map_of (m_Provinces m) pid = Some prov" "p_Owner prov = ro_OwnerSlot ord"
          "unit_ByID (ro_UnitType ord) = Some t" "m' = bump_seq (put_unit (recruited_unit (uuid_at (sub rt 1) []) ord t prov (ev_At ev)) ?m1)"
        using body by (auto split: option.splits if_splits)
      then show "m_NextRecruit m' = mdel pid (m_NextRecruit m) \<and>
        m' = m\<lparr>m_NextRecruit := m_NextRecruit m', m_Units := m_Units m', m_Resources := m_Resources m', m_Seq := m_Seq m'\<rparr> \<and>
        (\<forall>k. unit_ByID (ro_UnitType ord) = Some k \<longrightarrow> (case map_of (m_Provinces m) pid of
          Some prov \<Rightarrow>
            if p_Owner prov = ro_OwnerSlot ord
            then \<exists>u. m_Units m' = mput (u_ID u) u (m_Units m) \<and> u_Type u = ro_UnitType ord \<and> u_OwnerSlot u = ro_OwnerSlot ord \<and>
                   u_HP u = unit_StartingHP k \<and> u_Origin u = pid \<and> u_Dest u = pid \<and> u_Path u = [] \<and> m_Resources m' = m_Resources m
            else m_Units m' = m_Units m \<and>
              (\<forall>s. map_of (m_Resources m') s = (if s = ro_OwnerSlot ord then map_option (\<lambda>b. res_Add b (Halved (unit_Cost k))) (map_of (m_Resources m) s)
                                             else map_of (m_Resources m) s))
        | None \<Rightarrow> m_Units m' = m_Units m \<and>
            (\<forall>s. map_of (m_Resources m') s = (if s = ro_OwnerSlot ord then map_option (\<lambda>b. res_Add b (Halved (unit_Cost k))) (map_of (m_Resources m) s)
                                             else map_of (m_Resources m) s))))"
      proof cases
        case refunded
        obtain R where R: "refund_recruit ?m1 ord = m\<lparr>m_NextRecruit := mdel pid (m_NextRecruit m), m_Resources := R\<rparr>"
          "\<And>s k. unit_ByID (ro_UnitType ord) = Some k \<Longrightarrow> map_of R s = (if s = ro_OwnerSlot ord
             then map_option (\<lambda>b. res_Add b (Halved (unit_Cost k))) (map_of (m_Resources m) s) else map_of (m_Resources m) s)"
          by (rule refund_shape[where m = m and r = "mdel pid (m_NextRecruit m)" and ord = ord]) (rule that)
        show ?thesis using refunded(2) R(2) unfolding refunded(1) R(1) by (cases "map_of (m_Provinces m) pid") simp_all
      next
        case lost
        then show ?thesis by simp
      next
        case (unit prov t)
        have p: "p_ID prov = pid" by (rule provinces_okD[OF match_okD(2)[OF assms(2)] unit(1)])
        show ?thesis using unit(1-3) p unfolding unit(4)
          by (auto simp: bump_seq_def put_unit_def recruited_unit_def intro!: exI[of _ "recruited_unit (uuid_at (sub rt 1) []) ord t prov (ev_At ev)"])
      qed
    qed
  qed
qed

definition sample_order :: recruit_order where
  "sample_order = \<lparr>ro_ID = ''o1'', ro_OwnerSlot = ''red'', ro_Province = ''a'', ro_UnitType = ''infantry'',
     ro_IssuedAt = Hour, ro_CompletesAt = 2 * Hour\<rparr>"

definition recruiting :: match where
  "recruiting = duel\<lparr>m_NextRecruit := [(''a'', sample_order)]\<rparr>"

theorem recruit_completion_witness:
  "\<exists>u. m_Units (fst (recruitComplete_Apply plain_rt recruiting ((sample_event (2 * Hour))\<lparr>ev_Kind := RecruitComplete, ev_UnitID := ''o1''\<rparr>)))
     = [(u_ID u, u)] \<and> u_HP u = 100 \<and> u_Origin u = ''a''"
proof -
  let ?e = "(sample_event (2 * Hour))\<lparr>ev_Kind := RecruitComplete, ev_UnitID := ''o1''\<rparr>"
  obtain m' es where r: "recruitComplete_Apply plain_rt recruiting ?e = (m', es)" by fastforce
  have ok: "match_ok recruiting"
    using match_ok_orders(3)[OF match_reachable_ok[OF duel_reachable], of sample_order "''a''"]
    by (simp add: recruiting_def sample_order_def duel_fields)
  have orders: "map_of (m_NextRecruit recruiting) p = Some ord \<longleftrightarrow> p = ''a'' \<and> ord = sample_order" for p ord
    by (auto simp: recruiting_def)
  have ne: "\<not> (\<forall>p ord. map_of (m_NextRecruit recruiting) p = Some ord \<longrightarrow> ro_ID ord \<noteq> ev_UnitID ?e)"
    unfolding orders by (simp add: sample_order_def sample_event_def)
  have k: "unit_ByID ''infantry'' = Some k \<longleftrightarrow> k = Infantry" for k by (cases k) (simp_all add: unit_ByID_Some)
  have inf: "unit_ByID (ro_UnitType sample_order) = Some Infantry" by (simp add: sample_order_def k)
  note compl = recruit_completion[OF rt_ok_plain ok r, unfolded if_not_P[OF ne]]
  have "\<exists>u. m_Units m' = mput (u_ID u) u (m_Units recruiting) \<and> u_HP u = unit_StartingHP Infantry \<and> u_Origin u = ''a''"
    using compl
  proof (elim exE conjE)
    fix pid ord
    assume "map_of (m_NextRecruit recruiting) pid = Some ord"
    then have eq: "pid = ''a''" "ord = sample_order" unfolding orders by simp_all
    assume c: "\<forall>k. unit_ByID (ro_UnitType ord) = Some k \<longrightarrow> (case map_of (m_Provinces recruiting) pid of
          Some prov \<Rightarrow>
            if p_Owner prov = ro_OwnerSlot ord
            then \<exists>u. m_Units m' = mput (u_ID u) u (m_Units recruiting) \<and> u_Type u = ro_UnitType ord \<and> u_OwnerSlot u = ro_OwnerSlot ord \<and>
                   u_HP u = unit_StartingHP k \<and> u_Origin u = pid \<and> u_Dest u = pid \<and> u_Path u = [] \<and> m_Resources m' = m_Resources recruiting
            else m_Units m' = m_Units recruiting \<and>
              (\<forall>s. map_of (m_Resources m') s = (if s = ro_OwnerSlot ord then map_option (\<lambda>b. res_Add b (Halved (unit_Cost k))) (map_of (m_Resources recruiting) s)
                                             else map_of (m_Resources recruiting) s))
        | None \<Rightarrow> m_Units m' = m_Units recruiting \<and>
            (\<forall>s. map_of (m_Resources m') s = (if s = ro_OwnerSlot ord then map_option (\<lambda>b. res_Add b (Halved (unit_Cost k))) (map_of (m_Resources recruiting) s)
                                             else map_of (m_Resources recruiting) s)))"
    show ?thesis using c[unfolded eq, rule_format, OF inf] by (auto simp: recruiting_def duel_fields sample_order_def)
  qed
  then show ?thesis using r by (simp add: recruiting_def duel_fields)
qed

section \<open>The macro pulse\<close>

lemma revenue_provinces:
  "foldl (\<lambda>r p. if p_Owner p \<noteq> s then r else res_Add r ProvinceRevenue) r ps =
     \<lparr>Manpower = Manpower r + 4 * real (length (filter (\<lambda>p. p_Owner p = s) ps)),
      Food = Food r + 5 * real (length (filter (\<lambda>p. p_Owner p = s) ps)),
      Iron = Iron r + real (length (filter (\<lambda>p. p_Owner p = s) ps))\<rparr>"
  by (induction ps arbitrary: r) (simp_all add: res_Add_def ProvinceRevenue_def)

lemma building_ByID_factory: "building_ByID t = (if t = ''factory'' then Some Factory else None)"
  by (simp add: building_ByID_def building_registry_def)

lemma revenue_buildings:
  "foldl (\<lambda>r b. if b_OwnerSlot b \<noteq> s then r
                      else case building_ByID (b_Type b) of
                             Some kind \<Rightarrow> res_Add r (building_Production kind)
                           | None \<Rightarrow> r) r bs =
     \<lparr>Manpower = Manpower r + 2 * real (length (filter (\<lambda>b. b_OwnerSlot b = s \<and> b_Type b = ''factory'') bs)),
      Food = Food r,
      Iron = Iron r + 4 * real (length (filter (\<lambda>b. b_OwnerSlot b = s \<and> b_Type b = ''factory'') bs))\<rparr>"
  by (induction bs arbitrary: r) (simp_all add: res_Add_def building_ByID_factory)

definition pulse_frame :: "match \<Rightarrow> match \<Rightarrow> bool" where
  "pulse_frame m m' \<longleftrightarrow> m'\<lparr>m_Resources := m_Resources m, m_Seq := m_Seq m\<rparr> = m"

lemma pulse_frame_step: "pulse_frame m m' \<Longrightarrow> pulse_frame m (fst (macro_pulse_slot t (m', out) k))"
  by (simp add: pulse_frame_def macro_pulse_slot_def Let_def bump_seq_def)

lemma pulse_frame_fold: "pulse_frame m (fst (foldl (macro_pulse_slot t) (m, []) ks))"
  by (rule foldl_invariant[where P = "\<lambda>mo. pulse_frame m (fst mo)"])
     (simp add: pulse_frame_def, metis pulse_frame_step prod.collapse)

lemma macro_pulse_fold:
  assumes "distinct ks" "set ks \<subseteq> fst ` set (m_Resources m)"
  shows "map_of (m_Resources (fst (foldl (macro_pulse_slot t) (m, out) ks))) s =
       (if s \<in> set ks then map_option (\<lambda>b. res_Add b (macroPulseRevenue m s)) (map_of (m_Resources m) s) else map_of (m_Resources m) s) \<and>
    map ae_Slot (snd (foldl (macro_pulse_slot t) (m, out) ks)) = map ae_Slot out @ ks"
  using assms
proof (induction ks arbitrary: m out)
  case (Cons k ks)
  obtain bank where bank: "map_of (m_Resources m) k = Some bank"
    using Cons.prems(2) by (metis insert_subset list.simps(15) map_of_None_keys option.exhaust)
  define m1 where "m1 = m\<lparr>m_Resources := mput k (res_Add bank (macroPulseRevenue m k)) (m_Resources m), m_Seq := m_Seq m + 1\<rparr>"
  obtain e where step: "macro_pulse_slot t (m, out) k = (m1, out @ [e])" "ae_Slot e = k"
    by (auto simp: macro_pulse_slot_def Let_def bump_seq_def m1_def mget_default_def bank)
  have rev: "macroPulseRevenue m1 s = macroPulseRevenue m s" for s by (simp add: macroPulseRevenue_def m1_def)
  have sub: "set ks \<subseteq> fst ` set (m_Resources m1)" using Cons.prems(2) by (auto simp: m1_def)
  have d: "distinct ks" "k \<notin> set ks" using Cons.prems(1) by simp_all
  have R: "m_Resources m1 = mput k (res_Add bank (macroPulseRevenue m k)) (m_Resources m)" by (simp add: m1_def)
  show ?case using Cons.IH[OF d(1) sub, of "out @ [e]"] d(2) bank unfolding rev R by (auto simp: step)
qed simp


end
