(* ===== verification/Spatial.thy ===== *)
theory Spatial
  imports Pathdom
begin

text \<open>
  \<open>internal/domain/visibility/spatial.go\<close>: the uniform grid that narrows down which discs of sight
  may contain a point, and the proof that asking the grid gives the same answer as asking every disc.
\<close>

record vision_circle =
  vc_x :: real
  vc_y :: real
  vc_r2 :: real

record spatial_index =
  si_cellSize :: real
  si_minX :: real
  si_minY :: real
  si_cols :: int
  si_rows :: int
  si_cells :: "nat list list"

text \<open>The bounding box and the largest radius: \<open>(minX, minY, maxX, maxY, maxR)\<close>.\<close>

type_synonym box = "real \<times> real \<times> real \<times> real \<times> real"

definition box_circle :: "box \<Rightarrow> vision_circle \<Rightarrow> box" where
  "box_circle bx c = (case bx of (minX, minY, maxX, maxY, maxR) \<Rightarrow>
     let r = sqrt (vc_r2 c) in
     (if vc_x c - r < minX then vc_x c - r else minX,
      if vc_y c - r < minY then vc_y c - r else minY,
      if vc_x c + r > maxX then vc_x c + r else maxX,
      if vc_y c + r > maxY then vc_y c + r else maxY,
      if r > maxR then r else maxR))"

definition box_point :: "box \<Rightarrow> real \<times> real \<Rightarrow> box" where
  "box_point bx p = (case bx of (minX, minY, maxX, maxY, maxR) \<Rightarrow>
     (if fst p < minX then fst p else minX,
      if snd p < minY then snd p else minY,
      if fst p > maxX then fst p else maxX,
      if snd p > maxY then snd p else maxY, maxR))"

text \<open>\<open>cells[col+row*cols] = append(cells[col+row*cols], i)\<close> for the cells the disc's box meets.\<close>

definition grid_append :: "int \<Rightarrow> nat \<Rightarrow> nat list list \<Rightarrow> int \<Rightarrow> int \<Rightarrow> nat list list" where
  "grid_append cols i cells col row = (let k = nat (col + row * cols) in cells[k := cells ! k @ [i]])"

definition grid_circle :: "real \<Rightarrow> real \<Rightarrow> real \<Rightarrow> int \<Rightarrow> int \<Rightarrow> nat list list \<Rightarrow> nat \<times> vision_circle \<Rightarrow> nat list list" where
  "grid_circle cellSize minX minY cols rows cells ic = (case ic of (i, c) \<Rightarrow>
     let r = sqrt (vc_r2 c);
         c0 = trunc ((vc_x c - r - minX) / cellSize);
         c1 = trunc ((vc_x c + r - minX) / cellSize);
         r0 = trunc ((vc_y c - r - minY) / cellSize);
         r1 = trunc ((vc_y c + r - minY) / cellSize);
         c0 = (if c0 < 0 then 0 else c0);
         r0 = (if r0 < 0 then 0 else r0);
         c1 = (if c1 \<ge> cols then cols - 1 else c1);
         r1 = (if r1 \<ge> rows then rows - 1 else r1)
     in foldl (\<lambda>cells col. foldl (\<lambda>cells row. grid_append cols i cells col row) cells [r0..r1]) cells [c0..c1])"

definition newSpatialIndex :: "vision_circle list \<Rightarrow> (real \<times> real) list \<Rightarrow> spatial_index option" where
  "newSpatialIndex circles points =
     (if circles = [] then None
      else
        let (minX, minY, maxX, maxY, maxR) =
              foldl box_point (foldl box_circle (MaxFloat64, MaxFloat64, - MaxFloat64, - MaxFloat64, 0) circles) points
        in if points = [] \<and> minX = MaxFloat64 then None
           else
             let cellSize = (if maxR < 1 then 1 else maxR);
                 spanX = (if maxX - minX < cellSize then cellSize else maxX - minX);
                 spanY = (if maxY - minY < cellSize then cellSize else maxY - minY);
                 cols = trunc (spanX / cellSize) + 1;
                 rows = trunc (spanY / cellSize) + 1;
                 cols = (if cols < 1 then 1 else cols);
                 rows = (if rows < 1 then 1 else rows)
             in Some \<lparr>si_cellSize = cellSize, si_minX = minX, si_minY = minY, si_cols = cols, si_rows = rows,
                  si_cells = foldl (grid_circle cellSize minX minY cols rows) (replicate (nat (cols * rows)) [])
                    (enumerate 0 circles)\<rparr>)"

definition in_disc :: "real \<Rightarrow> real \<Rightarrow> vision_circle \<Rightarrow> bool" where
  "in_disc px py c = (let dx = px - vc_x c; dy = py - vc_y c in dx * dx + dy * dy \<le> vc_r2 c)"

definition idx_within :: "spatial_index option \<Rightarrow> real \<Rightarrow> real \<Rightarrow> vision_circle list \<Rightarrow> bool" where
  "idx_within oidx px py circles =
     (case oidx of
        None \<Rightarrow> False
      | Some idx \<Rightarrow>
          let col = trunc ((px - si_minX idx) / si_cellSize idx);
              row = trunc ((py - si_minY idx) / si_cellSize idx)
          in list_ex (\<lambda>dc. list_ex (\<lambda>dr.
               let c = col + dc; r = row + dr in
               if c < 0 \<or> r < 0 \<or> c \<ge> si_cols idx \<or> r \<ge> si_rows idx then False
               else list_ex (\<lambda>i. in_disc px py (circles ! i)) (si_cells idx ! nat (c + r * si_cols idx)))
             [-1, 0, 1]) [-1, 0, 1])"

section \<open>The bounding box\<close>

definition box_ok :: "box \<Rightarrow> vision_circle list \<Rightarrow> bool" where
  "box_ok bx cs \<longleftrightarrow> (case bx of (minX, minY, maxX, maxY, maxR) \<Rightarrow>
     (\<forall>c\<in>set cs. minX \<le> vc_x c - sqrt (vc_r2 c) \<and> vc_x c + sqrt (vc_r2 c) \<le> maxX \<and>
                 minY \<le> vc_y c - sqrt (vc_r2 c) \<and> vc_y c + sqrt (vc_r2 c) \<le> maxY))"

lemma box_circle_fold: "box_ok bx cs \<Longrightarrow> box_ok (foldl box_circle bx ds) (cs @ ds)"
proof (induction ds arbitrary: bx cs)
  case (Cons d ds)
  have "box_ok (box_circle bx d) (cs @ [d])"
    using Cons.prems by (cases bx) (fastforce simp: box_ok_def box_circle_def Let_def)
  from Cons.IH[OF this] show ?case by simp
qed simp

lemma box_point_fold: "box_ok bx cs \<Longrightarrow> box_ok (foldl box_point bx ps) cs"
proof (induction ps arbitrary: bx)
  case (Cons p ps)
  have "box_ok (box_point bx p) cs" using Cons.prems by (cases bx) (fastforce simp: box_ok_def box_point_def)
  from Cons.IH[OF this] show ?case by simp
qed simp

section \<open>The cells\<close>

lemma list_update_append_mem:
  "k' < length cells \<Longrightarrow> x \<in> set (cells ! k') \<Longrightarrow> x \<in> set ((cells[k := cells ! k @ [i]]) ! k')"
  by (cases "k = k'") simp_all

definition cells_grow :: "nat list list \<Rightarrow> nat list list \<Rightarrow> bool" where
  "cells_grow cells cells' \<longleftrightarrow> length cells' = length cells \<and> (\<forall>k<length cells. set (cells ! k) \<subseteq> set (cells' ! k))"

lemma cells_grow_refl [simp]: "cells_grow c c"
  by (simp add: cells_grow_def)

lemma cells_grow_trans: "cells_grow a b \<Longrightarrow> cells_grow b c \<Longrightarrow> cells_grow a c"
  by (simp add: cells_grow_def) (metis subset_trans)

lemma cells_grow_append: "cells_grow cells (grid_append cols i cells col row)"
  by (auto simp: cells_grow_def grid_append_def Let_def list_update_append_mem)

lemma cells_grow_fold: "(\<And>cells x. cells_grow cells (f cells x)) \<Longrightarrow> cells_grow cells (foldl f cells xs)"
  by (induction xs arbitrary: cells) (auto intro: cells_grow_trans)

lemma cells_fold_mem:
  assumes "\<And>cells x. cells_grow cells (f cells x)" "x \<in> set xs"
    "\<And>cells'. cells_grow cells cells' \<Longrightarrow> k < length cells \<Longrightarrow> i \<in> set (f cells' x ! k)" "k < length cells"
  shows "i \<in> set (foldl f cells xs ! k)"
  using assms(2-4)
proof (induction xs arbitrary: cells)
  case (Cons y xs)
  have g: "cells_grow cells (f cells y)" by (rule assms(1))
  then have k: "k < length (f cells y)" using Cons.prems(3) by (simp add: cells_grow_def)
  show ?case
  proof (cases "x = y")
    case True
    then have "i \<in> set (f cells y ! k)" using Cons.prems(2)[OF cells_grow_refl] Cons.prems(3) by simp
    moreover have "cells_grow (f cells y) (foldl f (f cells y) xs)" by (rule cells_grow_fold[OF assms(1)])
    ultimately show ?thesis using k by (auto simp: cells_grow_def)
  next
    case False
    then have "x \<in> set xs" using Cons.prems(1) by simp
    from Cons.IH[OF this _ k] Cons.prems(2) cells_grow_trans[OF g] Cons.prems(3) show ?thesis by simp
  qed
qed simp

lemma grid_circle_grow: "cells_grow cells (grid_circle cs mx my cols rows cells ic)"
  unfolding grid_circle_def Let_def case_prod_beta by (intro cells_grow_fold cells_grow_append)

lemma grid_bound:
  assumes "0 \<le> col" "col < cols" "0 \<le> row" "row < rows"
  shows "nat (col + row * cols) < nat (cols * rows)"
proof -
  have "col + row * cols < cols + row * cols" using assms(2) by simp
  also have "\<dots> = (row + 1) * cols" by (simp add: algebra_simps)
  also have "\<dots> \<le> rows * cols" using assms by (intro mult_right_mono) simp_all
  finally have "col + row * cols < cols * rows" by (simp add: mult.commute)
  moreover have "0 < cols * rows" using assms by simp
  ultimately show ?thesis using nat_mono_iff by blast
qed

text \<open>The cells a disc is entered in.\<close>

lemma grid_circle_mem:
  assumes "trunc ((vc_x c - sqrt (vc_r2 c) - mx) / cs) \<le> col" "col \<le> trunc ((vc_x c + sqrt (vc_r2 c) - mx) / cs)"
    "trunc ((vc_y c - sqrt (vc_r2 c) - my) / cs) \<le> row" "row \<le> trunc ((vc_y c + sqrt (vc_r2 c) - my) / cs)"
    "0 \<le> col" "col < cols" "0 \<le> row" "row < rows" "length cells = nat (cols * rows)"
  shows "i \<in> set (grid_circle cs mx my cols rows cells (i, c) ! nat (col + row * cols))"
proof -
  let ?k = "nat (col + row * cols)"
  have k: "?k < length cells" using grid_bound[OF assms(5-8)] assms(9) by simp
  have hit: "i \<in> set (grid_append cols i cells' col row ! ?k)" if "?k < length cells'" for cells'
    using that by (simp add: grid_append_def Let_def)
  show ?thesis
    unfolding grid_circle_def Let_def prod.case
  proof (rule cells_fold_mem[where x = col, OF _ _ _ k])
    fix cells' assume g: "cells_grow cells cells'"
    have k': "?k < length cells'" using g k by (simp add: cells_grow_def)
    show "i \<in> set (foldl (\<lambda>cells row. grid_append cols i cells col row) cells'
        [if trunc ((vc_y c - sqrt (vc_r2 c) - my) / cs) < 0 then 0 else trunc ((vc_y c - sqrt (vc_r2 c) - my) / cs)..
         if rows \<le> trunc ((vc_y c + sqrt (vc_r2 c) - my) / cs) then rows - 1 else trunc ((vc_y c + sqrt (vc_r2 c) - my) / cs)] ! ?k)"
      by (rule cells_fold_mem[where x = row, OF cells_grow_append _ _ k'])
         (use assms(3,4,7,8) hit k' in \<open>auto simp: cells_grow_def\<close>)
  qed (use assms(1,2,5,6) in \<open>auto intro!: cells_grow_fold cells_grow_append\<close>)
qed

lemma grid_mem:
  assumes "i < length ds" "length cells = nat (cols * rows)" "0 \<le> col" "col < cols" "0 \<le> row" "row < rows"
    "trunc ((vc_x (ds ! i) - sqrt (vc_r2 (ds ! i)) - mx) / cs) \<le> col" "col \<le> trunc ((vc_x (ds ! i) + sqrt (vc_r2 (ds ! i)) - mx) / cs)"
    "trunc ((vc_y (ds ! i) - sqrt (vc_r2 (ds ! i)) - my) / cs) \<le> row" "row \<le> trunc ((vc_y (ds ! i) + sqrt (vc_r2 (ds ! i)) - my) / cs)"
  shows "i \<in> set (foldl (grid_circle cs mx my cols rows) cells (enumerate 0 ds) ! nat (col + row * cols))"
proof (rule cells_fold_mem[where x = "(i, ds ! i)", OF grid_circle_grow])
  show "(i, ds ! i) \<in> set (enumerate 0 ds)" using assms(1) by (auto simp: in_set_enumerate_eq)
  fix cells' assume "cells_grow cells cells'"
  then have "length cells' = nat (cols * rows)" using assms(2) by (simp add: cells_grow_def)
  from grid_circle_mem[OF assms(7-10) assms(3-6) this] show "i \<in> set (grid_circle cs mx my cols rows cells' (i, ds ! i) ! nat (col + row * cols))" .
next
  show "nat (col + row * cols) < length cells" using grid_bound[OF assms(3-6)] assms(2) by simp
qed

text \<open>Only discs are entered.\<close>

definition cells_valid :: "nat \<Rightarrow> nat list list \<Rightarrow> bool" where
  "cells_valid n cells \<longleftrightarrow> (\<forall>k<length cells. \<forall>j\<in>set (cells ! k). j < n)"

lemma grid_append_valid:
  assumes v: "cells_valid n cells" and i: "i < n"
  shows "cells_valid n (grid_append cols i cells col row)"
proof -
  let ?k = "nat (col + row * cols)"
  have "j < n" if "k < length cells" "j \<in> set (cells[?k := cells ! ?k @ [i]] ! k)" for k j
    using that v i by (cases "k = ?k") (auto simp: cells_valid_def)
  then show ?thesis by (simp add: cells_valid_def grid_append_def Let_def)
qed

lemma cells_valid_fold:
  assumes "\<And>cells x. x \<in> set xs \<Longrightarrow> cells_valid n cells \<Longrightarrow> cells_valid n (f cells x)" "cells_valid n cells"
  shows "cells_valid n (foldl f cells xs)"
  using assms by (induction xs arbitrary: cells) auto

lemma grid_circle_valid:
  assumes "cells_valid n cells" "fst ic < n"
  shows "cells_valid n (grid_circle cs mx my cols rows cells ic)"
  unfolding grid_circle_def Let_def case_prod_beta
  by (rule cells_valid_fold[OF cells_valid_fold[OF grid_append_valid[OF _ assms(2)]] assms(1)])

lemma grid_valid:
  assumes "cells_valid (length ds) cells"
  shows "cells_valid (length ds) (foldl (grid_circle cs mx my cols rows) cells (enumerate 0 ds))"
  by (rule cells_valid_fold[OF grid_circle_valid assms]) (auto simp: in_set_enumerate_eq)

lemma grid_length: "length (foldl (grid_circle cs mx my cols rows) cells ics) = length cells"
  using cells_grow_fold[where f = "grid_circle cs mx my cols rows", OF grid_circle_grow, of cells ics] by (simp add: cells_grow_def)

section \<open>The grid is equivalent to asking every disc\<close>

lemma trunc_mono: "0 \<le> x \<Longrightarrow> x \<le> y \<Longrightarrow> trunc x \<le> trunc y"
  by (simp add: trunc_def floor_mono)

lemma in_disc_box:
  assumes "in_disc px py c"
  shows "vc_x c - sqrt (vc_r2 c) \<le> px" "px \<le> vc_x c + sqrt (vc_r2 c)"
    "vc_y c - sqrt (vc_r2 c) \<le> py" "py \<le> vc_y c + sqrt (vc_r2 c)"
proof -
  let ?r = "sqrt (vc_r2 c)"
  have d: "(px - vc_x c)\<^sup>2 + (py - vc_y c)\<^sup>2 \<le> vc_r2 c"
    using assms by (simp add: in_disc_def Let_def power2_eq_square)
  have "\<bar>px - vc_x c\<bar> \<le> ?r" by (rule real_le_rsqrt) (use d in \<open>simp, smt (verit) zero_le_power2\<close>)
  moreover have "\<bar>py - vc_y c\<bar> \<le> ?r" by (rule real_le_rsqrt) (use d in \<open>simp, smt (verit) zero_le_power2\<close>)
  ultimately show "vc_x c - ?r \<le> px" "px \<le> vc_x c + ?r" "vc_y c - ?r \<le> py" "py \<le> vc_y c + ?r" by linarith+
qed

lemma spatial_index_any:
  assumes "\<And>c. c \<in> set circles \<Longrightarrow> 0 \<le> vc_r2 c \<and> vc_x c < MaxFloat64"
  shows "idx_within (newSpatialIndex circles points) px py circles = (\<exists>c\<in>set circles. (px - vc_x c)\<^sup>2 + (py - vc_y c)\<^sup>2 \<le> vc_r2 c)"
proof (cases "circles = []")
  case True
  then show ?thesis by (simp add: newSpatialIndex_def idx_within_def)
next
  case False
  let ?b0 = "(MaxFloat64, MaxFloat64, - MaxFloat64, - MaxFloat64, 0) :: box"
  obtain minX minY maxX maxY maxR where bx: "foldl box_point (foldl box_circle ?b0 circles) points = (minX, minY, maxX, maxY, maxR)"
    by (metis prod_cases5)
  have "box_ok (minX, minY, maxX, maxY, maxR) circles"
    unfolding bx[symmetric] using box_point_fold[OF box_circle_fold[of ?b0 "[]" circles]] by (simp add: box_ok_def)
  then have B: "minX \<le> vc_x c - sqrt (vc_r2 c)" "vc_x c + sqrt (vc_r2 c) \<le> maxX"
      "minY \<le> vc_y c - sqrt (vc_r2 c)" "vc_y c + sqrt (vc_r2 c) \<le> maxY" if "c \<in> set circles" for c
    using that by (auto simp: box_ok_def)
  obtain c0 where c0: "c0 \<in> set circles" using False by (cases circles) auto
  have "minX < MaxFloat64" using B(1)[OF c0] assms[OF c0] real_sqrt_ge_zero[of "vc_r2 c0"] by linarith
  then have ne: "minX \<noteq> MaxFloat64" by simp
  define cs where "cs = (if maxR < 1 then 1 else maxR)"
  define spanX where "spanX = (if maxX - minX < cs then cs else maxX - minX)"
  define spanY where "spanY = (if maxY - minY < cs then cs else maxY - minY)"
  define cols where "cols = (if trunc (spanX / cs) + 1 < 1 then 1 else trunc (spanX / cs) + 1)"
  define rows where "rows = (if trunc (spanY / cs) + 1 < 1 then 1 else trunc (spanY / cs) + 1)"
  define cells where "cells = foldl (grid_circle cs minX minY cols rows) (replicate (nat (cols * rows)) []) (enumerate 0 circles)"
  have idx: "newSpatialIndex circles points = Some \<lparr>si_cellSize = cs, si_minX = minX, si_minY = minY, si_cols = cols, si_rows = rows, si_cells = cells\<rparr>"
    using False ne by (simp add: newSpatialIndex_def bx Let_def cs_def spanX_def spanY_def cols_def rows_def cells_def)
  have cs: "0 < cs" by (simp add: cs_def)
  have valid: "j < length circles" if "k < nat (cols * rows)" "j \<in> set (cells ! k)" for j k
    using grid_valid[of circles "replicate (nat (cols * rows)) []" cs minX minY cols rows] that
    by (simp add: cells_valid_def cells_def grid_length)
  define col where "col = trunc ((px - minX) / cs)"
  define row where "row = trunc ((py - minY) / cs)"
  have W: "idx_within (newSpatialIndex circles points) px py circles \<longleftrightarrow>
     (\<exists>dc\<in>{-1, 0, 1}. \<exists>dr\<in>{-1, 0, 1}. 0 \<le> col + dc \<and> 0 \<le> row + dr \<and> col + dc < cols \<and> row + dr < rows \<and>
        (\<exists>i\<in>set (cells ! nat (col + dc + (row + dr) * cols)). in_disc px py (circles ! i)))"
    unfolding idx idx_within_def Let_def by (auto simp: list_ex_iff col_def row_def not_le not_less)
  show ?thesis
  proof
    assume "idx_within (newSpatialIndex circles points) px py circles"
    then obtain c r i where c: "0 \<le> c" "c < cols" "0 \<le> r" "r < rows" "i \<in> set (cells ! nat (c + r * cols))" "in_disc px py (circles ! i)"
      unfolding W by blast
    from valid[OF grid_bound[OF c(1-4)] c(5)] c(6) show "\<exists>c\<in>set circles. (px - vc_x c)\<^sup>2 + (py - vc_y c)\<^sup>2 \<le> vc_r2 c"
      by (intro bexI[of _ "circles ! i"]) (simp_all add: in_disc_def Let_def power2_eq_square)
  next
    assume "\<exists>c\<in>set circles. (px - vc_x c)\<^sup>2 + (py - vc_y c)\<^sup>2 \<le> vc_r2 c"
    then obtain i where i: "i < length circles" "in_disc px py (circles ! i)"
      by (auto simp: in_set_conv_nth in_disc_def Let_def power2_eq_square)
    let ?c = "circles ! i"
    have mem: "?c \<in> set circles" using i(1) by simp
    note D = in_disc_box[OF i(2)] and Bi = B[OF mem]
    have pos: "0 \<le> (vc_x ?c - sqrt (vc_r2 ?c) - minX) / cs" "0 \<le> (vc_y ?c - sqrt (vc_r2 ?c) - minY) / cs"
      using Bi cs by simp_all
    have cx: "trunc ((vc_x ?c - sqrt (vc_r2 ?c) - minX) / cs) \<le> col" "col \<le> trunc ((vc_x ?c + sqrt (vc_r2 ?c) - minX) / cs)"
      unfolding col_def using D(1,2) Bi(1) cs pos(1) by (auto intro!: trunc_mono divide_right_mono)
    have cy: "trunc ((vc_y ?c - sqrt (vc_r2 ?c) - minY) / cs) \<le> row" "row \<le> trunc ((vc_y ?c + sqrt (vc_r2 ?c) - minY) / cs)"
      unfolding row_def using D(3,4) Bi(3) cs pos(2) by (auto intro!: trunc_mono divide_right_mono)
    have "0 \<le> trunc ((vc_x ?c - sqrt (vc_r2 ?c) - minX) / cs)" "0 \<le> trunc ((vc_y ?c - sqrt (vc_r2 ?c) - minY) / cs)"
      using pos by (simp_all add: trunc_nonneg)
    then have nn: "0 \<le> col" "0 \<le> row" using cx(1) cy(1) by linarith+
    have "0 \<le> (px - minX) / cs" "0 \<le> (py - minY) / cs" using D Bi cs by simp_all
    moreover have "(px - minX) / cs \<le> spanX / cs" "(py - minY) / cs \<le> spanY / cs"
      using D Bi cs by (auto simp: spanX_def spanY_def intro!: divide_right_mono)
    ultimately have "col \<le> trunc (spanX / cs)" "row \<le> trunc (spanY / cs)" unfolding col_def row_def by (auto intro: trunc_mono)
    then have lt: "col < cols" "row < rows" by (auto simp: cols_def rows_def)
    have "i \<in> set (cells ! nat (col + row * cols))"
      unfolding cells_def by (rule grid_mem[OF i(1) _ nn(1) lt(1) nn(2) lt(2) cx cy]) simp
    then show "idx_within (newSpatialIndex circles points) px py circles"
      unfolding W using nn lt i(2) by (intro bexI[of _ 0]) auto
  qed
qed


end
