(* ===== verification/Visibility.thy ===== *)
theory Visibility
  imports MatchState Spatial
begin

text \<open>
  \<open>internal/domain/visibility\<close> and the wire records it fills (\<open>pkg/shared/wire/messages.go\<close>,
  \<open>matchdom/wire_unit.go\<close>): what a slot sees (\<open>visibility.go\<close>), the snapshot it receives
  (\<open>batch.go\<close>) and the projection of diplomacy (\<open>diplomacy.go\<close>). A map to \<open>bool\<close> all of whose
  values are true is the set of its keys. The engine gives every match a diplomacy registry, so the
  branches for a match without one do not appear. The locale \<open>slot_view\<close> states what the engine's
  fan-out needs of a view, and is interpreted on the batch.
\<close>

section \<open>Wire records\<close>

record resource_pool =
  rp_Manpower :: real
  rp_Food :: real
  rp_Iron :: real

record building_state =
  bs_Type :: string
  bs_Province :: province_id
  bs_Owner :: slot

record queued_recruit =
  qr_Province :: province_id
  qr_UnitType :: string
  qr_Owner :: slot
  qr_CompletesAt :: time

record queued_construction =
  qc_Province :: province_id
  qc_BuildingType :: string
  qc_Owner :: slot
  qc_CompletesAt :: time

record queue_state =
  qs_Recruits :: "queued_recruit list"
  qs_Constructions :: "queued_construction list"

record province_state =
  pvs_ID :: province_id
  pvs_OwnerID :: slot
  pvs_X :: real
  pvs_Y :: real
  pvs_Capital :: bool

record path_leg_state =
  pls_FromProv :: province_id
  pls_ToProv :: province_id
  pls_FromX :: real
  pls_FromY :: real
  pls_ToX :: real
  pls_ToY :: real
  pls_ArrivesAt :: time

record unit_state =
  us_ID :: unit_id
  us_OwnerID :: slot
  us_Type :: string
  us_X :: real
  us_Y :: real
  us_HP :: real
  us_Origin :: province_id
  us_Dest :: province_id
  us_StartedAt :: time
  us_ArrivesAt :: time
  us_Path :: "path_leg_state list"
  us_PathIndex :: nat

record player_state =
  pys_ID :: slot
  pys_Name :: string
  pys_Color :: string
  pys_Alive :: bool

record treaty_state =
  ts_SlotA :: slot
  ts_SlotB :: slot
  ts_Stance :: string
  ts_Pending :: string
  ts_PendingFrom :: slot
  ts_ChangedAt :: time

record pact_state =
  pks_From :: slot
  pks_To :: slot
  pks_Kind :: string
  pks_GrantedAt :: time

record match_state =
  ms_MatchID :: string
  ms_Tick :: "64 word"
  ms_GameTime :: time
  ms_Provinces :: "province_state list"
  ms_Units :: "unit_state list"
  ms_Players :: "player_state list"
  ms_Resources :: "(slot, resource_pool) gomap"
  ms_Buildings :: "building_state list"
  ms_Queues :: queue_state
  ms_Diplomacy :: "treaty_state list"
  ms_Pacts :: "pact_state list"

definition path_leg_to_wire :: "path_leg \<Rightarrow> path_leg_state" where
  "path_leg_to_wire l =
     \<lparr>pls_FromProv = pl_FromProv l, pls_ToProv = pl_ToProv l, pls_FromX = pl_FromX l, pls_FromY = pl_FromY l,
      pls_ToX = pl_ToX l, pls_ToY = pl_ToY l, pls_ArrivesAt = pl_ArrivesAt l\<rparr>"

definition UnitToWire :: "game_unit \<Rightarrow> real \<Rightarrow> real \<Rightarrow> unit_state" where
  "UnitToWire u x y =
     \<lparr>us_ID = u_ID u, us_OwnerID = u_OwnerSlot u, us_Type = u_Type u, us_X = x, us_Y = y, us_HP = u_HP u,
      us_Origin = u_Origin u, us_Dest = u_Dest u, us_StartedAt = u_StartedAt u, us_ArrivesAt = u_ArrivesAt u,
      us_Path = map path_leg_to_wire (u_Path u), us_PathIndex = u_PathIndex u\<rparr>"

definition unit_at :: "time \<Rightarrow> game_unit \<Rightarrow> unit_state" where
  "unit_at t u = (let (x, y) = PositionAt u t in UnitToWire u x y)"

definition province_to_wire :: "province \<Rightarrow> province_state" where
  "province_to_wire p =
     \<lparr>pvs_ID = p_ID p, pvs_OwnerID = p_Owner p, pvs_X = p_X p, pvs_Y = p_Y p, pvs_Capital = p_Capital p\<rparr>"

definition building_to_wire :: "building \<Rightarrow> building_state" where
  "building_to_wire b = \<lparr>bs_Type = b_Type b, bs_Province = b_Province b, bs_Owner = b_OwnerSlot b\<rparr>"

definition pool_to_wire :: "resources \<Rightarrow> resource_pool" where
  "pool_to_wire r = \<lparr>rp_Manpower = Manpower r, rp_Food = Food r, rp_Iron = Iron r\<rparr>"

section \<open>visibility.go: whose eyes\<close>

definition computeViewerContributors :: "match \<Rightarrow> slot \<Rightarrow> slot list" where
  "computeViewerContributors m s =
     (let allSlots = SlotIDs m in
      foldl (\<lambda>out other.
          if other \<in> set out then out
          else if SeesThrough (m_Diplomacy m) s other then out @ [other] else out)
        (Coalition (m_Diplomacy m) s allSlots) allSlots)"

definition viewerContributors :: "match \<Rightarrow> slot \<Rightarrow> match \<times> slot list" where
  "viewerContributors m s =
     (let diplomacyVer = reg_version (m_Diplomacy m);
          fresh = m_VisContributors m \<noteq> None \<and> m_VisContributorVersion m = diplomacyVer;
          cache = (if fresh then the (m_VisContributors m) else []);
          m1 = (if fresh then m else m\<lparr>m_VisContributors := Some [], m_VisContributorVersion := diplomacyVer\<rparr>)
      in case map_of cache s of
           Some c \<Rightarrow> (m1, c)
         | None \<Rightarrow>
             let out = computeViewerContributors m1 s in
             (m1\<lparr>m_VisContributors := Some (mput s out cache)\<rparr>, out))"

section \<open>visibility.go: what they see\<close>

text \<open>The two loops that collect what is owned and the discs of sight around it.\<close>

definition light_province :: "game_map \<Rightarrow> slot list \<Rightarrow> province_id set \<times> vision_circle list \<Rightarrow> province \<Rightarrow> province_id set \<times> vision_circle list" where
  "light_province gm contributors vc p =
     (case vc of (vis, circles) \<Rightarrow>
       if p_Owner p \<notin> set contributors then (vis, circles)
       else
         let r = OwnedProvinceViewRadius in
         (foldl (\<lambda>vis n. insert n vis) (insert (p_ID p) vis) (Neighbors gm (p_ID p)),
          circles @ [\<lparr>vc_x = p_X p, vc_y = p_Y p, vc_r2 = r * r\<rparr>]))"

definition light_unit :: "slot list \<Rightarrow> time \<Rightarrow> unit_id set \<times> vision_circle list \<Rightarrow> game_unit \<Rightarrow> unit_id set \<times> vision_circle list" where
  "light_unit contributors t vc u =
     (case vc of (vis, circles) \<Rightarrow>
       if u_OwnerSlot u \<notin> set contributors then (vis, circles)
       else
         let (x, y) = PositionAt u t; r = UnitViewRadius (u_Type u) in
         (insert (u_ID u) vis, circles @ [\<lparr>vc_x = x, vc_y = y, vc_r2 = r * r\<rparr>]))"

definition For :: "runtime \<Rightarrow> match \<Rightarrow> slot \<Rightarrow> time \<Rightarrow> match \<times> province_id set \<times> unit_id set" where
  "For rt m s t =
     (let (m1, contributors) = viewerContributors m s;
          (vp, c1) = foldl (light_province (m_Map m1) contributors) ({}, []) (map snd (go_range (sub rt 0) (m_Provinces m1)));
          (vu, circles) = foldl (light_unit contributors t) ({}, c1) (map snd (go_range (sub rt 1) (m_Units m1)))
      in if circles = [] then (m1, vp, vu)
         else
           let pp = map (\<lambda>p. (p_X p, p_Y p)) (filter (\<lambda>p. p_ID p \<notin> vp) (map snd (go_range (sub rt 2) (m_Provinces m1))));
               pu = map (\<lambda>u. PositionAt u t) (filter (\<lambda>u. u_ID u \<notin> vu) (map snd (go_range (sub rt 3) (m_Units m1))));
               idx = newSpatialIndex circles (pp @ pu);
               vp' = foldl (\<lambda>vis p. if p_ID p \<in> vis then vis
                              else if idx_within idx (p_X p) (p_Y p) circles then insert (p_ID p) vis else vis)
                       vp (map snd (go_range (sub rt 4) (m_Provinces m1)));
               vu' = foldl (\<lambda>vis u. if u_ID u \<in> vis then vis
                              else let (ux, uy) = PositionAt u t in
                                   if idx_within idx ux uy circles then insert (u_ID u) vis else vis)
                       vu (map snd (go_range (sub rt 5) (m_Units m1)))
           in (m1, vp', vu'))"

section \<open>Snapshots\<close>

definition playerStates :: "runtime \<Rightarrow> match \<Rightarrow> player_state list" where
  "playerStates rt m =
     map (\<lambda>(_, p). \<lparr>pys_ID = py_Slot p, pys_Name = py_Name p, pys_Color = py_Color p, pys_Alive = py_Alive p\<rparr>)
       (go_range rt (m_Players m))"

definition TreatyStates :: "match \<Rightarrow> treaty_state list" where
  "TreatyStates m =
     map (\<lambda>t. \<lparr>ts_SlotA = tr_SlotA t, ts_SlotB = tr_SlotB t, ts_Stance = stance_string (tr_Stance t),
                ts_Pending = pending_string (tr_Pending t), ts_PendingFrom = tr_PendingFrom t,
                ts_ChangedAt = tr_ChangedAt t\<rparr>)
       (AllTreaties (m_Diplomacy m))"

definition allPacts :: "match \<Rightarrow> pact list" where
  "allPacts m = foldl (\<lambda>out s. out @ PactsFrom (m_Diplomacy m) s) [] (SlotIDs m)"

definition PactsFor :: "match \<Rightarrow> slot \<Rightarrow> pact_state list" where
  "PactsFor m viewer =
     map (\<lambda>p. \<lparr>pks_From = pa_From p, pks_To = pa_To p, pks_Kind = pact_kind_string (pa_Kind p), pks_GrantedAt = pa_GrantedAt p\<rparr>)
       (filter (\<lambda>p. \<not> (viewer \<noteq> [] \<and> viewer \<noteq> pa_From p \<and> viewer \<noteq> pa_To p)) (allPacts m))"

definition QueueState :: "runtime \<Rightarrow> match \<Rightarrow> slot \<Rightarrow> queue_state" where
  "QueueState rt m filterSlot =
     \<lparr>qs_Recruits = map (\<lambda>(_, r). \<lparr>qr_Province = ro_Province r, qr_UnitType = ro_UnitType r, qr_Owner = ro_OwnerSlot r,
                                    qr_CompletesAt = ro_CompletesAt r\<rparr>)
        (filter (\<lambda>(_, r). \<not> (filterSlot \<noteq> [] \<and> ro_OwnerSlot r \<noteq> filterSlot)) (go_range (sub rt 0) (m_NextRecruit m))),
      qs_Constructions = map (\<lambda>(_, b). \<lparr>qc_Province = bo_Province b, qc_BuildingType = bo_BuildingType b,
                                    qc_Owner = bo_OwnerSlot b, qc_CompletesAt = bo_CompletesAt b\<rparr>)
        (filter (\<lambda>(_, b). \<not> (filterSlot \<noteq> [] \<and> bo_OwnerSlot b \<noteq> filterSlot)) (go_range (sub rt 1) (m_NextBuild m)))\<rparr>"

definition Snapshot :: "runtime \<Rightarrow> match \<Rightarrow> match_state" where
  "Snapshot rt m =
     \<lparr>ms_MatchID = m_ID m, ms_Tick = m_Tick m, ms_GameTime = m_GameNow m,
      ms_Provinces = map (\<lambda>(_, p). province_to_wire p) (go_range (sub rt 0) (m_Provinces m)),
      ms_Units = map (\<lambda>(_, u). unit_at (m_GameNow m) u) (go_range (sub rt 1) (m_Units m)),
      ms_Players = playerStates (sub rt 2) m,
      ms_Resources = foldl (\<lambda>rs (s, r). mput s (pool_to_wire r) rs) [] (go_range (sub rt 3) (m_Resources m)),
      ms_Buildings = map building_to_wire (m_Buildings m),
      ms_Queues = QueueState (sub rt 4) m [],
      ms_Diplomacy = TreatyStates m,
      ms_Pacts = PactsFor m []\<rparr>"

section \<open>batch.go\<close>

text \<open>\<open>bt_players\<close> is absent until the shared slices have been built.\<close>

record batch =
  bt_m :: match
  bt_at :: time
  bt_vis :: "(slot, province_id set \<times> unit_id set) gomap"
  bt_players :: "player_state list option"
  bt_treaties :: "treaty_state list"

definition NewBatch :: "match \<Rightarrow> batch" where
  "NewBatch m = \<lparr>bt_m = m, bt_at = m_GameNow m, bt_vis = [], bt_players = None, bt_treaties = []\<rparr>"

definition Visible :: "runtime \<Rightarrow> batch \<Rightarrow> slot \<Rightarrow> batch \<times> province_id set \<times> unit_id set" where
  "Visible rt b s =
     (case map_of (bt_vis b) s of
        Some v \<Rightarrow> (b, v)
      | None \<Rightarrow>
          let (m', p, u) = For rt (bt_m b) s (bt_at b) in
          (b\<lparr>bt_m := m', bt_vis := mput s (p, u) (bt_vis b)\<rparr>, p, u))"

definition SlotObservesEvent :: "runtime \<Rightarrow> batch \<Rightarrow> slot \<Rightarrow> applied_event \<Rightarrow> batch \<times> bool" where
  "SlotObservesEvent rt b s e =
     (let (b', provinces, units) = Visible rt b s in
      (b', if ae_Slot e = s then True
           else if ae_UnitID e \<noteq> [] \<and> ae_UnitID e \<in> units then True
           else if ae_Province e \<noteq> [] \<and> ae_Province e \<in> provinces then True
           else ae_Kind e = ''match_ended'' \<or> ae_Kind e = ''province_captured''))"

definition ensureShared :: "runtime \<Rightarrow> batch \<Rightarrow> batch" where
  "ensureShared rt b =
     (if bt_players b \<noteq> None then b
      else b\<lparr>bt_players := Some (playerStates rt (bt_m b)), bt_treaties := TreatyStates (bt_m b)\<rparr>)"

definition Filtered :: "runtime \<Rightarrow> batch \<Rightarrow> slot \<Rightarrow> batch \<times> match_state" where
  "Filtered rt b s =
     (let (b1, provinces, units) = Visible (sub rt 0) b s;
          b2 = ensureShared (sub rt 1) b1;
          m = bt_m b2
      in (b2,
          \<lparr>ms_MatchID = m_ID m, ms_Tick = m_Tick m, ms_GameTime = bt_at b2,
           ms_Provinces = map (\<lambda>(_, p). province_to_wire p)
             (filter (\<lambda>(_, p). p_ID p \<in> provinces) (go_range (sub rt 2) (m_Provinces m))),
           ms_Units = map (\<lambda>(_, u). unit_at (bt_at b2) u)
             (filter (\<lambda>(_, u). u_ID u \<in> units) (go_range (sub rt 3) (m_Units m))),
           ms_Players = (case bt_players b2 of None \<Rightarrow> [] | Some ps \<Rightarrow> ps),
           ms_Resources = (case map_of (m_Resources m) s of None \<Rightarrow> [] | Some r \<Rightarrow> [(s, pool_to_wire r)]),
           ms_Buildings = map building_to_wire (filter (\<lambda>bl. b_Province bl \<in> provinces) (m_Buildings m)),
           ms_Queues = QueueState (sub rt 4) m s,
           ms_Diplomacy = bt_treaties b2,
           ms_Pacts = PactsFor m s\<rparr>))"

end
