(* ===== verification/Store.thy ===== *)
theory Store
  imports MapDef Visibility
begin

text \<open>
  The lobby's data (\<open>internal/domain/lobbydom\<close>, \<open>userdom\<close>), the error codes of \<open>pkg/errs\<close>, and
  the Postgres repositories \<open>internal/adapter/pgrepo\<close> (\<open>matches.go\<close>, \<open>lifecycle.go\<close>,
  \<open>users.go\<close>, \<open>stats.go\<close>), each query as the SQL statement it runs. A \<open>world\<close> is the database
  together with the messages published so far. Every statement may fail, and a failed statement may
  have been carried out all the same when only its answer was lost. UUIDs are their canonical strings,
  tables are lists of rows in insertion order, which also breaks the ties of \<open>ORDER BY\<close>.
\<close>

section \<open>pkg/errs\<close>

datatype code =
    BadRequest
  | Unauthorized
  | Forbidden
  | NotFound
  | Conflict
  | RateLimited
  | UnavailableCode
  | Internal

primrec HTTPStatus :: "code \<Rightarrow> int" where
  "HTTPStatus BadRequest = 400"
| "HTTPStatus Unauthorized = 401"
| "HTTPStatus Forbidden = 403"
| "HTTPStatus NotFound = 404"
| "HTTPStatus Conflict = 409"
| "HTTPStatus RateLimited = 429"
| "HTTPStatus UnavailableCode = 503"
| "HTTPStatus Internal = 500"

text \<open>The sentinel errors the repositories and \<open>chatdom\<close> return, and the errors of the database, the
  message bus and the map loader.\<close>

datatype base_err =
    ErrNotFound
  | ErrInvalidTransition
  | ErrPlayerNotInMatch
  | ErrUserExists
  | ErrSnapshotSeq
  | DatabaseErr
  | BusErr
  | MapErr map_error
  | ErrEmptyBody
  | ErrBodyTooLong
  | ErrControlChars
  | ErrUnknownScope
  | ErrPasswordTooShort
  | ErrTokenInvalid
  | ErrTicketInvalid
  | ErrBadUUID
  | CryptoErr

text \<open>An \<open>errs.Err\<close>, or an error passed on as it is.\<close>

datatype svc_err =
    Coded code string "base_err option"
  | Plain base_err

definition errs_New :: "code \<Rightarrow> string \<Rightarrow> svc_err" where
  "errs_New c msg = Coded c msg None"

definition errs_Wrap :: "base_err \<Rightarrow> code \<Rightarrow> string \<Rightarrow> svc_err" where
  "errs_Wrap e c msg = Coded c msg (Some e)"

section \<open>lobbydom and userdom\<close>

datatype status =
    StatusWaiting
  | StatusStarting
  | StatusActive
  | StatusEnded
  | StatusAbandoned

primrec CanTransitionTo :: "status \<Rightarrow> status \<Rightarrow> bool" where
  "CanTransitionTo StatusWaiting nxt \<longleftrightarrow> nxt = StatusStarting"
| "CanTransitionTo StatusStarting nxt \<longleftrightarrow> nxt = StatusActive"
| "CanTransitionTo StatusActive nxt \<longleftrightarrow> nxt = StatusEnded \<or> nxt = StatusAbandoned"
| "CanTransitionTo StatusEnded nxt \<longleftrightarrow> False"
| "CanTransitionTo StatusAbandoned nxt \<longleftrightarrow> False"

record lobby_match =
  lm_ID :: string
  lm_Name :: string
  lm_MapID :: string
  lm_Status :: status
  lm_CreatedBy :: user_id
  lm_CreatedAt :: time
  lm_StartedAt :: "time option"
  lm_EndedAt :: "time option"
  lm_WinnerUserID :: "user_id option"
  lm_SpeedFactor :: real

record lobby_player =
  lp_MatchID :: string
  lp_UserID :: user_id
  lp_Slot :: slot
  lp_Color :: string
  lp_Alive :: bool
  lp_ControlledByAI :: bool
  lp_LastSeenAt :: "time option"
  lp_JoinedAt :: time

record user =
  usr_ID :: user_id
  usr_Email :: string
  usr_PasswordHash :: string
  usr_DisplayName :: string
  usr_Color :: string
  usr_IsBot :: bool
  usr_CreatedAt :: time
  usr_LastLoginAt :: "time option"

section \<open>The database, the bus and their failures\<close>

text \<open>The JSON text of a snapshot is represented by the envelope it encodes.\<close>

record state_envelope =
  se_MatchID :: string
  se_Seq :: "64 word"
  se_SentAt :: time
  se_State :: "match_state option"

record snapshot_row =
  sr_MatchID :: string
  sr_Seq :: int
  sr_TakenAt :: time
  sr_Payload :: state_envelope

record stats_row =
  st_MatchID :: string
  st_DurationSec :: int
  st_TotalUnits :: nat
  st_TotalCombats :: nat
  st_CapitalsTaken :: nat
  st_PerSlot :: extra

record start_payload =
  sp_MatchID :: string
  sp_MapID :: string
  sp_Speed :: real
  sp_StartedAt :: time
  sp_SlotAssignments :: "(slot, user_id) gomap"

record end_match_payload =
  ep_MatchID :: string
  ep_Reason :: string

record takeover_event =
  te_MatchID :: string
  te_Slot :: slot
  te_PrevUserID :: user_id

record world =
  w_users :: "user list"
  w_matches :: "lobby_match list"
  w_players :: "lobby_player list"
  w_snapshots :: "snapshot_row list"
  w_stats :: "stats_row list"
  w_starts :: "start_payload list"
  w_ends :: "end_match_payload list"
  w_takeovers :: "takeover_event list"

datatype outcome = Delivered | Refused | AnswerLost

text \<open>The environment of a computation: the clock, the fresh UUIDs and the fate of each statement,
  addressed like the choices of a \<open>runtime\<close>.\<close>

record env =
  env_now :: "nat list \<Rightarrow> time"
  env_uuid :: "nat list \<Rightarrow> string"
  env_outcome :: "nat list \<Rightarrow> outcome"

definition esub :: "env \<Rightarrow> nat \<Rightarrow> env" where
  "esub env i = \<lparr>env_now = (\<lambda>p. env_now env (i # p)), env_uuid = (\<lambda>p. env_uuid env (i # p)),
     env_outcome = (\<lambda>p. env_outcome env (i # p))\<rparr>"

text \<open>Steps that change the world and either fail or return a value.\<close>

definition ret :: "'a \<Rightarrow> 's \<Rightarrow> 's \<times> ('e + 'a)" where
  "ret a s = (s, Inr a)"

definition raise :: "'e \<Rightarrow> 's \<Rightarrow> 's \<times> ('e + 'a)" where
  "raise e s = (s, Inl e)"

definition ebind :: "('s \<Rightarrow> 's \<times> ('e + 'a)) \<Rightarrow> ('a \<Rightarrow> 's \<Rightarrow> 's \<times> ('e + 'b)) \<Rightarrow> 's \<Rightarrow> 's \<times> ('e + 'b)" where
  "ebind m k s = (case m s of (s', r) \<Rightarrow> (case r of Inl e \<Rightarrow> (s', Inl e) | Inr a \<Rightarrow> k a s'))"

definition on_err :: "('e \<Rightarrow> 'f) \<Rightarrow> ('s \<Rightarrow> 's \<times> ('e + 'a)) \<Rightarrow> 's \<Rightarrow> 's \<times> ('f + 'a)" where
  "on_err f m s = (case m s of (s', r) \<Rightarrow> (s', case r of Inl e \<Rightarrow> Inl (f e) | Inr a \<Rightarrow> Inr a))"

text \<open>A statement: \<open>None\<close> when it violates a constraint.\<close>

definition statement :: "env \<Rightarrow> (world \<Rightarrow> (world \<times> 'a) option) \<Rightarrow> world \<Rightarrow> world \<times> (base_err + 'a)" where
  "statement env q w =
     (case q w of
        None \<Rightarrow> (w, Inl DatabaseErr)
      | Some (w', a) \<Rightarrow>
          (case env_outcome env [] of
             Delivered \<Rightarrow> (w', Inr a)
           | Refused \<Rightarrow> (w, Inl DatabaseErr)
           | AnswerLost \<Rightarrow> (w', Inl DatabaseErr)))"

definition reading :: "env \<Rightarrow> (world \<Rightarrow> 'a) \<Rightarrow> world \<Rightarrow> world \<times> (base_err + 'a)" where
  "reading env q = statement env (\<lambda>w. Some (w, q w))"

definition update_where :: "('r \<Rightarrow> bool) \<Rightarrow> ('r \<Rightarrow> 'r) \<Rightarrow> 'r list \<Rightarrow> 'r list" where
  "update_where P f rows = map (\<lambda>r. if P r then f r else r) rows"

definition affected :: "('r \<Rightarrow> bool) \<Rightarrow> 'r list \<Rightarrow> nat" where
  "affected P rows = length (filter P rows)"

end
