(* ===== verification/Pgrepo.thy ===== *)
theory Pgrepo
  imports Store
begin

text \<open>
  \<open>internal/adapter/pgrepo\<close>: the queries of \<open>matches.go\<close>, \<open>lifecycle.go\<close>, \<open>users.go\<close> and
  \<open>stats.go\<close>. Primary keys and foreign keys are those of \<open>internal/storage/migrations\<close>: a
  statement that violates one is \<open>None\<close>.
\<close>

section \<open>matches.go\<close>

definition match_row :: "world \<Rightarrow> string \<Rightarrow> lobby_match option" where
  "match_row w mid = find (\<lambda>m. lm_ID m = mid) (w_matches w)"

definition user_row :: "world \<Rightarrow> user_id \<Rightarrow> user option" where
  "user_row w uid = find (\<lambda>u. usr_ID u = uid) (w_users w)"

definition Matches_Create :: "env \<Rightarrow> string \<Rightarrow> string \<Rightarrow> user_id \<Rightarrow> real \<Rightarrow> world \<Rightarrow> world \<times> (base_err + lobby_match)" where
  "Matches_Create env name mapID createdBy speed =
     statement env (\<lambda>w.
       let row = \<lparr>lm_ID = env_uuid env [], lm_Name = name, lm_MapID = mapID, lm_Status = StatusWaiting, lm_CreatedBy = createdBy,
                  lm_CreatedAt = env_now env [], lm_StartedAt = None, lm_EndedAt = None, lm_WinnerUserID = None,
                  lm_SpeedFactor = speed\<rparr>
       in if user_row w createdBy = None \<or> match_row w (lm_ID row) \<noteq> None then None
          else Some (w\<lparr>w_matches := w_matches w @ [row]\<rparr>, row))"

definition Matches_Get :: "env \<Rightarrow> string \<Rightarrow> world \<Rightarrow> world \<times> (base_err + lobby_match)" where
  "Matches_Get env mid =
     ebind (reading env (\<lambda>w. match_row w mid))
       (\<lambda>row. case row of None \<Rightarrow> raise ErrNotFound | Some m \<Rightarrow> ret m)"

definition Matches_ListLobby :: "env \<Rightarrow> user_id \<Rightarrow> world \<Rightarrow> world \<times> (base_err + lobby_match list)" where
  "Matches_ListLobby env uid =
     reading env (\<lambda>w. sort_key (\<lambda>m. - lm_CreatedAt m)
       (filter (\<lambda>m. lm_Status m = StatusWaiting \<or>
                    list_ex (\<lambda>p. lp_MatchID p = lm_ID m \<and> lp_UserID p = uid) (w_players w)) (w_matches w)))"

text \<open>The row of \<open>EXCLUDED\<close> replaces slot, colour and AI control of an existing one.\<close>

definition AddPlayer :: "env \<Rightarrow> lobby_player \<Rightarrow> world \<Rightarrow> world \<times> (base_err + unit)" where
  "AddPlayer env p =
     statement env (\<lambda>w.
       if match_row w (lp_MatchID p) = None \<or> user_row w (lp_UserID p) = None then None
       else
         let same = (\<lambda>q. lp_MatchID q = lp_MatchID p \<and> lp_UserID q = lp_UserID p) in
         Some (if list_ex same (w_players w)
               then w\<lparr>w_players := update_where same
                      (\<lambda>q. q\<lparr>lp_Slot := lp_Slot p, lp_Color := lp_Color p, lp_ControlledByAI := lp_ControlledByAI p\<rparr>) (w_players w)\<rparr>
               else w\<lparr>w_players := w_players w @ [p\<lparr>lp_LastSeenAt := None, lp_JoinedAt := env_now env []\<rparr>]\<rparr>, ()))"

definition players_of :: "world \<Rightarrow> string \<Rightarrow> lobby_player list" where
  "players_of w mid = sort_key lp_Slot (filter (\<lambda>p. lp_MatchID p = mid) (w_players w))"

definition ListPlayers :: "env \<Rightarrow> string \<Rightarrow> world \<Rightarrow> world \<times> (base_err + lobby_player list)" where
  "ListPlayers env mid = reading env (\<lambda>w. players_of w mid)"

definition in_seat :: "string \<Rightarrow> slot \<Rightarrow> lobby_player \<Rightarrow> bool" where
  "in_seat mid s p \<longleftrightarrow> lp_MatchID p = mid \<and> lp_Slot p = s"

definition TouchPresence :: "env \<Rightarrow> string \<Rightarrow> slot \<Rightarrow> time \<Rightarrow> world \<Rightarrow> world \<times> (base_err + unit)" where
  "TouchPresence env mid s tm =
     statement env (\<lambda>w. Some (w\<lparr>w_players := update_where (in_seat mid s) (\<lambda>p. p\<lparr>lp_LastSeenAt := Some tm\<rparr>) (w_players w)\<rparr>, ()))"

definition MarkControlledByAI :: "env \<Rightarrow> string \<Rightarrow> slot \<Rightarrow> bool \<Rightarrow> world \<Rightarrow> world \<times> (base_err + bool)" where
  "MarkControlledByAI env mid s on =
     statement env (\<lambda>w.
       let hit = (\<lambda>p. in_seat mid s p \<and> lp_ControlledByAI p \<noteq> on) in
       Some (w\<lparr>w_players := update_where hit (\<lambda>p. p\<lparr>lp_ControlledByAI := on\<rparr>) (w_players w)\<rparr>,
             affected hit (w_players w) > 0))"

record inactive_slot =
  is_MatchID :: string
  is_UserID :: user_id
  is_Slot :: slot
  is_LastSeenAt :: "time option"

definition inactive_of :: "lobby_player \<Rightarrow> inactive_slot" where
  "inactive_of p = \<lparr>is_MatchID = lp_MatchID p, is_UserID = lp_UserID p, is_Slot = lp_Slot p, is_LastSeenAt = lp_LastSeenAt p\<rparr>"

definition match_status_is :: "world \<Rightarrow> string \<Rightarrow> status \<Rightarrow> bool" where
  "match_status_is w mid st \<longleftrightarrow> list_ex (\<lambda>m. lm_ID m = mid \<and> lm_Status m = st) (w_matches w)"

text \<open>\<open>now() - ($1 || ' seconds')::interval\<close>.\<close>

definition before_silence :: "time \<Rightarrow> int \<Rightarrow> time \<Rightarrow> bool" where
  "before_silence now secs tm \<longleftrightarrow> tm < now - secs * Second"

definition SlotsNeedingTakeover :: "env \<Rightarrow> duration \<Rightarrow> world \<Rightarrow> world \<times> (base_err + inactive_slot list)" where
  "SlotsNeedingTakeover env threshold =
     (if threshold \<le> 0 then ret []
      else reading env (\<lambda>w. map inactive_of (sort_key (\<lambda>p. (lp_MatchID p, lp_Slot p))
        (filter (\<lambda>p. match_status_is w (lp_MatchID p) StatusActive \<and> lp_Alive p \<and> \<not> lp_ControlledByAI p \<and>
             (case lp_LastSeenAt p of None \<Rightarrow> False
              | Some tm \<Rightarrow> before_silence (env_now env []) (trunc (duration_seconds threshold)) tm)) (w_players w)))))"

definition AISlots :: "env \<Rightarrow> world \<Rightarrow> world \<times> (base_err + inactive_slot list)" where
  "AISlots env =
     reading env (\<lambda>w. map inactive_of (sort_key (\<lambda>p. (lp_MatchID p, lp_Slot p))
       (filter (\<lambda>p. match_status_is w (lp_MatchID p) StatusActive \<and> lp_Alive p \<and> lp_ControlledByAI p) (w_players w))))"

definition MarkEnded :: "env \<Rightarrow> string \<Rightarrow> user_id option \<Rightarrow> world \<Rightarrow> world \<times> (base_err + unit)" where
  "MarkEnded env mid winner =
     statement env (\<lambda>w.
       if (case winner of None \<Rightarrow> False | Some u \<Rightarrow> match_row w mid \<noteq> None \<and> user_row w u = None) then None
       else Some (w\<lparr>w_matches := update_where (\<lambda>m. lm_ID m = mid)
              (\<lambda>m. m\<lparr>lm_Status := StatusEnded, lm_EndedAt := Some (env_now env []), lm_WinnerUserID := winner\<rparr>) (w_matches w)\<rparr>, ()))"

definition maxSnapshotSeq :: "64 word" where
  "maxSnapshotSeq = 2 ^ 62"

definition SaveSnapshot :: "env \<Rightarrow> string \<Rightarrow> 64 word \<Rightarrow> state_envelope \<Rightarrow> world \<Rightarrow> world \<times> (base_err + unit)" where
  "SaveSnapshot env mid sq payload =
     (if sq > maxSnapshotSeq then raise ErrSnapshotSeq
      else statement env (\<lambda>w.
        if match_row w mid = None then None
        else Some (if list_ex (\<lambda>r. sr_MatchID r = mid \<and> sr_Seq r = sint sq) (w_snapshots w) then w
                   else w\<lparr>w_snapshots := w_snapshots w @
                          [\<lparr>sr_MatchID = mid, sr_Seq = sint sq, sr_TakenAt = env_now env [], sr_Payload = payload\<rparr>]\<rparr>, ())))"

definition LatestSnapshot :: "env \<Rightarrow> string \<Rightarrow> world \<Rightarrow> world \<times> (base_err + (state_envelope option \<times> 64 word))" where
  "LatestSnapshot env mid =
     ebind (reading env (\<lambda>w. sort_key (\<lambda>r. - sr_TakenAt r) (filter (\<lambda>r. sr_MatchID r = mid) (w_snapshots w))))
       (\<lambda>rows. case rows of
          [] \<Rightarrow> ret (None, 0)
        | r # _ \<Rightarrow> if sr_Seq r < 0 then raise ErrSnapshotSeq else ret (Some (sr_Payload r), word_of_int (sr_Seq r)))"

section \<open>lifecycle.go\<close>

definition UpdateStatus :: "env \<Rightarrow> string \<Rightarrow> status \<Rightarrow> status \<Rightarrow> world \<Rightarrow> world \<times> (base_err + unit)" where
  "UpdateStatus env mid from to =
     ebind (statement env (\<lambda>w.
         let hit = (\<lambda>m. lm_ID m = mid \<and> lm_Status m = from) in
         Some (w\<lparr>w_matches := update_where hit (\<lambda>m. m\<lparr>lm_Status := to\<rparr>) (w_matches w)\<rparr>, affected hit (w_matches w))))
       (\<lambda>n. if n = 0 then raise ErrInvalidTransition else ret ())"

definition MarkStarting :: "env \<Rightarrow> string \<Rightarrow> world \<Rightarrow> world \<times> (base_err + unit)" where
  "MarkStarting env mid = UpdateStatus env mid StatusWaiting StatusStarting"

definition MarkActive :: "env \<Rightarrow> string \<Rightarrow> world \<Rightarrow> world \<times> (base_err + unit)" where
  "MarkActive env mid =
     statement env (\<lambda>w. Some (w\<lparr>w_matches := update_where (\<lambda>m. lm_ID m = mid \<and> lm_Status m = StatusStarting)
         (\<lambda>m. m\<lparr>lm_Status := StatusActive,
                 lm_StartedAt := (case lm_StartedAt m of None \<Rightarrow> Some (env_now env []) | Some tm \<Rightarrow> Some tm)\<rparr>) (w_matches w)\<rparr>, ()))"

definition MarkAbandoned :: "env \<Rightarrow> string \<Rightarrow> world \<Rightarrow> world \<times> (base_err + unit)" where
  "MarkAbandoned env mid =
     statement env (\<lambda>w. Some (w\<lparr>w_matches := update_where (\<lambda>m. lm_ID m = mid \<and> lm_Status m = StatusActive)
         (\<lambda>m. m\<lparr>lm_Status := StatusAbandoned, lm_EndedAt := Some (env_now env [])\<rparr>) (w_matches w)\<rparr>, ()))"

definition RemovePlayer :: "env \<Rightarrow> string \<Rightarrow> user_id \<Rightarrow> world \<Rightarrow> world \<times> (base_err + unit)" where
  "RemovePlayer env mid uid =
     ebind (statement env (\<lambda>w.
         let hit = (\<lambda>p. lp_MatchID p = mid \<and> lp_UserID p = uid) in
         Some (w\<lparr>w_players := filter (\<lambda>p. \<not> hit p) (w_players w)\<rparr>, affected hit (w_players w))))
       (\<lambda>n. if n = 0 then raise ErrPlayerNotInMatch else ret ())"

definition SetSlotAIControl :: "env \<Rightarrow> string \<Rightarrow> slot \<Rightarrow> bool \<Rightarrow> world \<Rightarrow> world \<times> (base_err + unit)" where
  "SetSlotAIControl env mid s on =
     statement env (\<lambda>w. Some (w\<lparr>w_players := update_where (in_seat mid s) (\<lambda>p. p\<lparr>lp_ControlledByAI := on\<rparr>) (w_players w)\<rparr>, ()))"

definition ActiveMatches :: "env \<Rightarrow> world \<Rightarrow> world \<times> (base_err + lobby_match list)" where
  "ActiveMatches env = reading env (\<lambda>w. filter (\<lambda>m. lm_Status m = StatusActive) (w_matches w))"

definition MatchAbandonedCandidate :: "env \<Rightarrow> string \<Rightarrow> int \<Rightarrow> world \<Rightarrow> world \<times> (base_err + bool)" where
  "MatchAbandonedCandidate env mid secs =
     reading env (\<lambda>w.
       \<not> list_ex (\<lambda>p. lp_MatchID p = mid \<and> lp_Alive p \<and> \<not> lp_ControlledByAI p \<and>
             (case lp_LastSeenAt p of None \<Rightarrow> True
              | Some tm \<Rightarrow> \<not> before_silence (env_now env []) secs tm)) (w_players w)
       \<and> list_ex (\<lambda>p. lp_MatchID p = mid \<and> lp_Alive p) (w_players w))"

section \<open>users.go\<close>

definition Users_Create :: "env \<Rightarrow> string \<Rightarrow> string \<Rightarrow> string \<Rightarrow> string \<Rightarrow> world \<Rightarrow> world \<times> (base_err + user)" where
  "Users_Create env email hash display color w =
     (if list_ex (\<lambda>u. usr_Email u = email) (w_users w) then
        (w, Inl (if env_outcome env [] = Delivered then ErrUserExists else DatabaseErr))
      else statement env (\<lambda>w.
        let u = \<lparr>usr_ID = env_uuid env [], usr_Email = email, usr_PasswordHash = hash, usr_DisplayName = display,
                 usr_Color = color, usr_IsBot = False, usr_CreatedAt = env_now env [], usr_LastLoginAt = None\<rparr>
        in if user_row w (usr_ID u) \<noteq> None then None else Some (w\<lparr>w_users := w_users w @ [u]\<rparr>, u)) w)"

definition Users_ByEmail :: "env \<Rightarrow> string \<Rightarrow> world \<Rightarrow> world \<times> (base_err + user)" where
  "Users_ByEmail env email =
     ebind (reading env (\<lambda>w. find (\<lambda>u. usr_Email u = email) (w_users w)))
       (\<lambda>row. case row of None \<Rightarrow> raise ErrNotFound | Some u \<Rightarrow> ret u)"

definition Users_ByID :: "env \<Rightarrow> user_id \<Rightarrow> world \<Rightarrow> world \<times> (base_err + user)" where
  "Users_ByID env uid =
     ebind (reading env (\<lambda>w. user_row w uid))
       (\<lambda>row. case row of None \<Rightarrow> raise ErrNotFound | Some u \<Rightarrow> ret u)"

definition TouchLogin :: "env \<Rightarrow> user_id \<Rightarrow> world \<Rightarrow> world \<times> (base_err + unit)" where
  "TouchLogin env uid =
     statement env (\<lambda>w. Some (w\<lparr>w_users := update_where (\<lambda>u. usr_ID u = uid)
         (\<lambda>u. u\<lparr>usr_LastLoginAt := Some (env_now env [])\<rparr>) (w_users w)\<rparr>, ()))"

definition EnsureBot :: "env \<Rightarrow> string \<Rightarrow> string \<Rightarrow> string \<Rightarrow> world \<Rightarrow> world \<times> (base_err + user)" where
  "EnsureBot env email display color =
     statement env (\<lambda>w.
       case find (\<lambda>u. usr_Email u = email) (w_users w) of
         Some u \<Rightarrow>
           Some (w\<lparr>w_users := update_where (\<lambda>u. usr_Email u = email) (\<lambda>u. u\<lparr>usr_DisplayName := display\<rparr>) (w_users w)\<rparr>,
                 u\<lparr>usr_DisplayName := display\<rparr>)
       | None \<Rightarrow>
           let u = \<lparr>usr_ID = env_uuid env [], usr_Email = email, usr_PasswordHash = [], usr_DisplayName = display,
                    usr_Color = color, usr_IsBot = True, usr_CreatedAt = env_now env [], usr_LastLoginAt = None\<rparr>
           in if user_row w (usr_ID u) \<noteq> None then None else Some (w\<lparr>w_users := w_users w @ [u]\<rparr>, u))"

definition ListBots :: "env \<Rightarrow> int \<Rightarrow> world \<Rightarrow> world \<times> (base_err + user list)" where
  "ListBots env limit =
     (let limit = (if limit \<le> 0 then 16 else limit) in
      reading env (\<lambda>w. take (nat limit) (sort_key usr_ID (filter usr_IsBot (w_users w)))))"

section \<open>stats.go\<close>

definition Stats_Upsert :: "env \<Rightarrow> stats_row \<Rightarrow> world \<Rightarrow> world \<times> (base_err + unit)" where
  "Stats_Upsert env row =
     statement env (\<lambda>w.
       if match_row w (st_MatchID row) = None then None
       else Some (if list_ex (\<lambda>r. st_MatchID r = st_MatchID row) (w_stats w)
                  then w\<lparr>w_stats := update_where (\<lambda>r. st_MatchID r = st_MatchID row) (\<lambda>_. row) (w_stats w)\<rparr>
                  else w\<lparr>w_stats := w_stats w @ [row]\<rparr>, ()))"

definition Stats_Get :: "env \<Rightarrow> string \<Rightarrow> world \<Rightarrow> world \<times> (base_err + stats_row)" where
  "Stats_Get env mid =
     ebind (reading env (\<lambda>w. find (\<lambda>r. st_MatchID r = mid) (w_stats w)))
       (\<lambda>row. case row of None \<Rightarrow> raise DatabaseErr | Some r \<Rightarrow> ret r)"

end
