(* ===== verification/Lobby.thy ===== *)
theory Lobby
  imports Pgrepo
begin

text \<open>
  \<open>internal/service/lobbysvc\<close>: creating, joining, starting and leaving matches (\<open>service.go\<close>,
  \<open>lifecycle.go\<close>). The loader of maps is a parameter \<open>load\<close>, to be \<^const>\<open>map_Load\<close> on the
  embedded files; \<open>speed\<close> and \<open>bots\<close>, whether the service was built with a pool of bots, are its
  configuration.
\<close>

type_synonym loader = "string \<Rightarrow> map_error + game_map"

record lobby_service =
  ls_load :: loader
  ls_bots :: bool
  ls_speed :: real

record match_view =
  mv_Match :: lobby_match
  mv_Players :: "lobby_player list"

type_synonym 'a lobby_act = "world \<Rightarrow> world \<times> (svc_err + 'a)"

definition slotColor :: "game_map \<Rightarrow> slot \<Rightarrow> string" where
  "slotColor mp s = (case find (\<lambda>x. msl_ID x = s) (map_Slots mp) of Some x \<Rightarrow> msl_Color x | None \<Rightarrow> ''#888888'')"

definition slotExistsOnMap :: "game_map \<Rightarrow> slot \<Rightarrow> bool" where
  "slotExistsOnMap mp s \<longleftrightarrow> list_ex (\<lambda>x. msl_ID x = s) (map_Slots mp)"

definition mapNotFound :: "base_err \<Rightarrow> svc_err" where
  "mapNotFound e = (if e = ErrNotFound then errs_New NotFound ''match not found'' else errs_Wrap e Internal ''fetching match'')"

definition load_map :: "lobby_service \<Rightarrow> string \<Rightarrow> code \<Rightarrow> string \<Rightarrow> game_map lobby_act" where
  "load_map svc mapID c msg =
     (case ls_load svc mapID of Inl e \<Rightarrow> raise (errs_Wrap (MapErr e) c msg) | Inr mp \<Rightarrow> ret mp)"

definition View :: "env \<Rightarrow> string \<Rightarrow> world \<Rightarrow> world \<times> (base_err + match_view)" where
  "View env mid =
     ebind (Matches_Get (esub env 0) mid) (\<lambda>m.
     ebind (ListPlayers (esub env 1) mid) (\<lambda>pls.
     ret \<lparr>mv_Match = m, mv_Players = pls\<rparr>))"

definition new_seat :: "string \<Rightarrow> user_id \<Rightarrow> slot \<Rightarrow> string \<Rightarrow> bool \<Rightarrow> lobby_player" where
  "new_seat mid uid s color ai =
     \<lparr>lp_MatchID = mid, lp_UserID = uid, lp_Slot = s, lp_Color = color, lp_Alive = True, lp_ControlledByAI = ai,
      lp_LastSeenAt = None, lp_JoinedAt = 0\<rparr>"

section \<open>Filling with bots and starting\<close>

text \<open>The loop that seats the bots: the map's free slots with the bots in turn. The code's index never
  passes the end of \<open>bots\<close>, which holds as many as there are free slots.\<close>

fun seat_bots :: "env \<Rightarrow> string \<Rightarrow> slot list \<Rightarrow> map_slot list \<Rightarrow> user list \<Rightarrow> unit lobby_act" where
  "seat_bots env mid occupied [] bots = ret ()"
| "seat_bots env mid occupied (sl # sls) bots =
     (if msl_ID sl \<in> set occupied then seat_bots env mid occupied sls bots
      else
        ebind (on_err (\<lambda>e. errs_Wrap e Internal ''assigning bot'')
                 (AddPlayer (esub env 0) (new_seat mid (usr_ID (hd bots)) (msl_ID sl) (msl_Color sl) True)))
          (\<lambda>_. seat_bots (esub env 1) mid occupied sls (tl bots)))"

definition free_slots :: "game_map \<Rightarrow> slot list \<Rightarrow> map_slot list" where
  "free_slots mp occupied = filter (\<lambda>sl. msl_ID sl \<notin> set occupied) (map_Slots mp)"

definition fillBots :: "env \<Rightarrow> lobby_service \<Rightarrow> string \<Rightarrow> string \<Rightarrow> unit lobby_act" where
  "fillBots env svc mid mapID =
     (if \<not> ls_bots svc then ret ()
      else
        ebind (load_map svc mapID Internal ''loading map'') (\<lambda>mp.
        ebind (on_err Plain (ListPlayers (esub env 0) mid)) (\<lambda>players.
          let occupied = map lp_Slot players;
              need = length (free_slots mp occupied)
          in if need = 0 then ret ()
             else
               ebind (on_err (\<lambda>e. errs_Wrap e Internal ''listing bots'') (ListBots (esub env 1) (int need))) (\<lambda>bots.
               if length bots < need then raise (errs_New Conflict ''not enough bot accounts configured'')
               else seat_bots (esub env 2) mid occupied (map_Slots mp) bots))))"

definition assignBotToSlot :: "env \<Rightarrow> lobby_service \<Rightarrow> string \<Rightarrow> slot \<Rightarrow> string \<Rightarrow> unit lobby_act" where
  "assignBotToSlot env svc mid s mapID =
     (if \<not> ls_bots svc then raise (errs_New Internal ''bot pool not configured'')
      else
        ebind (load_map svc mapID BadRequest ''unknown map'') (\<lambda>mp.
          let color = slotColor mp s in
          ebind (on_err (\<lambda>_. errs_New Conflict ''no bot accounts available'') (ListBots (esub env 0) 1)) (\<lambda>bots.
          if bots = [] then raise (errs_New Conflict ''no bot accounts available'')
          else on_err Plain (AddPlayer (esub env 1) (new_seat mid (usr_ID (hd bots)) s color True)))))"

definition PublishStart :: "env \<Rightarrow> start_payload \<Rightarrow> world \<Rightarrow> world \<times> (base_err + unit)" where
  "PublishStart env p w =
     (case env_outcome env [] of
        Delivered \<Rightarrow> (w\<lparr>w_starts := w_starts w @ [p]\<rparr>, Inr ())
      | Refused \<Rightarrow> (w, Inl BusErr)
      | AnswerLost \<Rightarrow> (w\<lparr>w_starts := w_starts w @ [p]\<rparr>, Inl BusErr))"

definition slot_assignments :: "lobby_player list \<Rightarrow> (slot, user_id) gomap" where
  "slot_assignments players = foldl (\<lambda>sa p. mput (lp_Slot p) (lp_UserID p) sa) [] players"

definition publishStartWithFill :: "env \<Rightarrow> lobby_service \<Rightarrow> lobby_match \<Rightarrow> match_view lobby_act" where
  "publishStartWithFill env svc m =
     ebind (on_err (\<lambda>e. if e = ErrInvalidTransition then errs_New Conflict ''already started''
                         else errs_Wrap e Internal ''marking starting'') (MarkStarting (esub env 0) (lm_ID m))) (\<lambda>_.
     ebind (fillBots (esub env 1) svc (lm_ID m) (lm_MapID m)) (\<lambda>_.
     ebind (on_err (\<lambda>e. errs_Wrap e Internal ''listing players'') (ListPlayers (esub env 2) (lm_ID m))) (\<lambda>players.
     if length players < 2 then raise (errs_New Conflict ''need at least 2 players'')
     else
       ebind (on_err (\<lambda>e. errs_Wrap e Internal ''marking active'') (MarkActive (esub env 3) (lm_ID m))) (\<lambda>_.
       ebind (on_err (\<lambda>e. errs_Wrap e Internal ''listing players after fill'') (ListPlayers (esub env 4) (lm_ID m))) (\<lambda>players.
       ebind (on_err (\<lambda>e. errs_Wrap e Internal ''publishing start'')
                (PublishStart (esub env 5)
                   \<lparr>sp_MatchID = lm_ID m, sp_MapID = lm_MapID m, sp_Speed = lm_SpeedFactor m,
                    sp_StartedAt = env_now (esub env 6) [], sp_SlotAssignments = slot_assignments players\<rparr>)) (\<lambda>_.
       on_err Plain (View (esub env 7) (lm_ID m))))))))"

section \<open>service.go\<close>

record create_input =
  ci_Name :: string
  ci_MapID :: string
  ci_Slot :: slot
  ci_UserID :: user_id
  ci_AutoStart :: "bool option"

definition autoStartEnabled :: "bool option \<Rightarrow> bool" where
  "autoStartEnabled v = (case v of None \<Rightarrow> True | Some b \<Rightarrow> b)"

text \<open>\<open>mp.Slots[0]\<close> of a map without slots panics; the service's maps have slots.\<close>

definition lobby_Create :: "env \<Rightarrow> lobby_service \<Rightarrow> create_input \<Rightarrow> match_view lobby_act" where
  "lobby_Create env svc inp =
     (let mapID = (if ci_MapID inp = [] then ''classic-4p'' else ci_MapID inp) in
      ebind (load_map svc mapID BadRequest ''unknown map'') (\<lambda>mp.
        let s = (if ci_Slot inp = [] then msl_ID (hd (map_Slots mp)) else ci_Slot inp) in
        if \<not> slotExistsOnMap mp s then raise (errs_New BadRequest ''slot does not exist on this map'')
        else
          ebind (on_err (\<lambda>e. errs_Wrap e Internal ''creating match'')
                   (Matches_Create (esub env 0) (ci_Name inp) mapID (ci_UserID inp) (ls_speed svc))) (\<lambda>m.
          ebind (on_err (\<lambda>e. errs_Wrap e Internal ''adding player'')
                   (AddPlayer (esub env 1) (new_seat (lm_ID m) (ci_UserID inp) s (slotColor mp s) False))) (\<lambda>_.
          if autoStartEnabled (ci_AutoStart inp) then
            (if \<not> ls_bots svc then raise (errs_New Internal ''bot pool not configured'')
             else publishStartWithFill (esub env 2) svc m)
          else on_err Plain (View (esub env 3) (lm_ID m))))))"

record join_input =
  ji_MatchID :: string
  ji_UserID :: user_id
  ji_Slot :: slot

record join_result =
  jr_View :: match_view
  jr_AlreadyJoined :: bool
  jr_JoinedSlot :: slot

text \<open>\<open>existing, _ := ListPlayers\<close>: a failed query counts as no players.\<close>

definition ListPlayers_or_none :: "env \<Rightarrow> string \<Rightarrow> lobby_player list lobby_act" where
  "ListPlayers_or_none env mid w =
     (case ListPlayers env mid w of (w', Inl _) \<Rightarrow> (w', Inr []) | (w', Inr ps) \<Rightarrow> (w', Inr ps))"

definition lobby_Join :: "env \<Rightarrow> lobby_service \<Rightarrow> join_input \<Rightarrow> join_result lobby_act" where
  "lobby_Join env svc inp =
     ebind (on_err mapNotFound (Matches_Get (esub env 0) (ji_MatchID inp))) (\<lambda>m.
     if lm_Status m \<noteq> StatusWaiting then raise (errs_New Conflict ''match already started'')
     else
       ebind (load_map svc (lm_MapID m) Internal ''loading map'') (\<lambda>mp.
       ebind (ListPlayers_or_none (esub env 1) (lm_ID m)) (\<lambda>existing.
       case find (\<lambda>p. lp_UserID p = ji_UserID inp) existing of
         Some p \<Rightarrow>
           ebind (on_err Plain (View (esub env 2) (lm_ID m))) (\<lambda>view.
           ret \<lparr>jr_View = view, jr_AlreadyJoined = True, jr_JoinedSlot = lp_Slot p\<rparr>)
       | None \<Rightarrow>
           let taken = map lp_Slot existing;
               chosen = (if ji_Slot inp = [] then
                           (case find (\<lambda>sl. msl_ID sl \<notin> set taken) (map_Slots mp) of Some sl \<Rightarrow> msl_ID sl | None \<Rightarrow> [])
                         else ji_Slot inp)
           in if chosen = [] \<or> chosen \<in> set taken then raise (errs_New Conflict ''no free slot'')
              else if \<not> slotExistsOnMap mp chosen then raise (errs_New BadRequest ''slot does not exist on this map'')
              else
                ebind (on_err (\<lambda>e. errs_Wrap e Internal ''adding player'')
                         (AddPlayer (esub env 3) (new_seat (lm_ID m) (ji_UserID inp) chosen (slotColor mp chosen) False))) (\<lambda>_.
                ebind (on_err Plain (View (esub env 4) (lm_ID m))) (\<lambda>view.
                ret \<lparr>jr_View = view, jr_AlreadyJoined = False, jr_JoinedSlot = chosen\<rparr>)))))"

definition lobby_Start :: "env \<Rightarrow> lobby_service \<Rightarrow> string \<Rightarrow> match_view lobby_act" where
  "lobby_Start env svc mid =
     ebind (on_err mapNotFound (Matches_Get (esub env 0) mid)) (\<lambda>m.
     if lm_Status m \<noteq> StatusWaiting then raise (errs_New Conflict ''already started'')
     else publishStartWithFill (esub env 1) svc m)"

definition lobby_Get :: "env \<Rightarrow> string \<Rightarrow> match_view lobby_act" where
  "lobby_Get env mid =
     on_err (\<lambda>e. if e = ErrNotFound then errs_New NotFound ''match not found'' else Plain e) (View env mid)"

text \<open>Matches whose view cannot be loaded are left out.\<close>

fun lobby_views :: "env \<Rightarrow> lobby_match list \<Rightarrow> match_view list lobby_act" where
  "lobby_views env [] = ret []"
| "lobby_views env (m # ms) = (\<lambda>w.
     case View (esub env 0) (lm_ID m) w of
       (w', Inl _) \<Rightarrow> lobby_views (esub env 1) ms w'
     | (w', Inr v) \<Rightarrow> ebind (lobby_views (esub env 1) ms) (\<lambda>vs. ret (v # vs)) w')"

definition lobby_ListLobby :: "env \<Rightarrow> user_id \<Rightarrow> match_view list lobby_act" where
  "lobby_ListLobby env uid =
     ebind (on_err (\<lambda>e. errs_Wrap e Internal ''listing matches'') (Matches_ListLobby (esub env 0) uid))
       (\<lambda>ms. lobby_views (esub env 1) ms)"

section \<open>lifecycle.go\<close>

definition Handoff :: "env \<Rightarrow> string \<Rightarrow> user_id \<Rightarrow> match_view lobby_act" where
  "Handoff env mid uid =
     ebind (on_err mapNotFound (Matches_Get (esub env 0) mid)) (\<lambda>m.
     if lm_Status m \<noteq> StatusActive \<and> lm_Status m \<noteq> StatusStarting then raise (errs_New Conflict ''match is not running'')
     else
       ebind (on_err (\<lambda>e. errs_Wrap e Internal ''listing players'') (ListPlayers (esub env 1) mid)) (\<lambda>players.
       let s = (case find (\<lambda>p. lp_UserID p = uid) players of Some p \<Rightarrow> lp_Slot p | None \<Rightarrow> []) in
       if s = [] then raise (errs_New NotFound ''not in match'')
       else
         ebind (on_err (\<lambda>e. errs_Wrap e Internal ''handoff failed'') (MarkControlledByAI (esub env 2) mid s True)) (\<lambda>_.
         on_err Plain (View (esub env 3) mid))))"

definition not_in_match :: "string \<Rightarrow> string \<Rightarrow> base_err \<Rightarrow> svc_err" where
  "not_in_match msg failed e = (if e = ErrPlayerNotInMatch then errs_New NotFound msg else errs_Wrap e Internal failed)"

definition Leave :: "env \<Rightarrow> string \<Rightarrow> user_id \<Rightarrow> match_view lobby_act" where
  "Leave env mid uid =
     ebind (on_err mapNotFound (Matches_Get (esub env 0) mid)) (\<lambda>m.
     if lm_Status m = StatusActive \<or> lm_Status m = StatusStarting then Handoff (esub env 1) mid uid
     else if lm_Status m \<noteq> StatusWaiting then raise (errs_New Conflict ''use handoff to leave an active match'')
     else
       ebind (on_err (not_in_match ''not in match'' ''leave failed'') (RemovePlayer (esub env 2) mid uid)) (\<lambda>_.
       on_err Plain (View (esub env 3) mid)))"

record kick_input =
  ki_MatchID :: string
  ki_ActorID :: user_id
  ki_TargetUID :: user_id

definition Kick :: "env \<Rightarrow> kick_input \<Rightarrow> match_view lobby_act" where
  "Kick env inp =
     ebind (on_err mapNotFound (Matches_Get (esub env 0) (ki_MatchID inp))) (\<lambda>m.
     if lm_CreatedBy m \<noteq> ki_ActorID inp then raise (errs_New Forbidden ''only the match creator may perform this action'')
     else if lm_Status m \<noteq> StatusWaiting then raise (errs_New Conflict ''match already started'')
     else
       ebind (on_err (not_in_match ''target not in match'' ''kick failed'') (RemovePlayer (esub env 1) (ki_MatchID inp) (ki_TargetUID inp))) (\<lambda>_.
       on_err Plain (View (esub env 2) (ki_MatchID inp))))"

record patch_slot_input =
  pi_MatchID :: string
  pi_ActorID :: user_id
  pi_Slot :: slot
  pi_EnableAI :: bool

text \<open>The loop that removes the bots of the slot, errors ignored.\<close>

fun remove_seated :: "env \<Rightarrow> string \<Rightarrow> slot \<Rightarrow> lobby_player list \<Rightarrow> unit lobby_act" where
  "remove_seated env mid s [] = ret ()"
| "remove_seated env mid s (p # ps) = (\<lambda>w.
     remove_seated (esub env 1) mid s ps
       (if lp_Slot p = s then fst (RemovePlayer (esub env 0) mid (lp_UserID p) w) else w))"

definition PatchSlotAI :: "env \<Rightarrow> lobby_service \<Rightarrow> patch_slot_input \<Rightarrow> match_view lobby_act" where
  "PatchSlotAI env svc inp =
     ebind (on_err mapNotFound (Matches_Get (esub env 0) (pi_MatchID inp))) (\<lambda>m.
     if lm_CreatedBy m \<noteq> pi_ActorID inp then raise (errs_New Forbidden ''only the match creator may perform this action'')
     else if lm_Status m \<noteq> StatusWaiting then raise (errs_New Conflict ''match already started'')
     else
       ebind (on_err (\<lambda>e. errs_Wrap e Internal ''listing players'') (ListPlayers (esub env 1) (pi_MatchID inp))) (\<lambda>players.
       if list_ex (\<lambda>p. lp_Slot p = pi_Slot inp) players then raise (errs_New Conflict ''slot is occupied'')
       else
         ebind (if pi_EnableAI inp then assignBotToSlot (esub env 2) svc (pi_MatchID inp) (pi_Slot inp) (lm_MapID m)
                else remove_seated (esub env 3) (pi_MatchID inp) (pi_Slot inp) players) (\<lambda>_.
         on_err Plain (View (esub env 4) (pi_MatchID inp)))))"

end
