(* ===== verification/Workers.thy ===== *)
theory Workers
  imports Pgrepo
begin

text \<open>
  \<open>internal/worker\<close>: the background jobs on the lobby's data. Scanning for abandoned matches
  (\<open>abandon.go\<close>) and for silent seats (\<open>presence.go\<close>), recording the end of a match and its
  statistics (\<open>finalstate.go\<close>), and keeping recovery snapshots (\<open>snapshot.go\<close>). Errors are logged
  and dropped, so a job is a function from worlds to worlds. Parsing a UUID is a parameter.
\<close>

section \<open>abandon.go\<close>

definition PublishEndMatch :: "env \<Rightarrow> end_match_payload \<Rightarrow> world \<Rightarrow> world" where
  "PublishEndMatch env p w = (if env_outcome env [] = Refused then w else w\<lparr>w_ends := w_ends w @ [p]\<rparr>)"

fun abandon_each :: "env \<Rightarrow> int \<Rightarrow> lobby_match list \<Rightarrow> world \<Rightarrow> world" where
  "abandon_each env secs [] w = w"
| "abandon_each env secs (m # ms) w =
     (case MatchAbandonedCandidate (esub env 0) (lm_ID m) secs w of
        (w1, Inr True) \<Rightarrow>
          (case MarkAbandoned (esub env 1) (lm_ID m) w1 of
             (w2, Inl _) \<Rightarrow> abandon_each (esub env 3) secs ms w2
           | (w2, Inr _) \<Rightarrow>
               abandon_each (esub env 3) secs ms
                 (PublishEndMatch (esub env 2) \<lparr>ep_MatchID = lm_ID m, ep_Reason = ''abandoned''\<rparr> w2))
      | (w1, _) \<Rightarrow> abandon_each (esub env 3) secs ms w1)"

definition abandon_threshold :: "duration \<Rightarrow> duration" where
  "abandon_threshold d = (if d \<le> 0 then 30 * Minute else d)"

definition abandon_scan :: "env \<Rightarrow> duration \<Rightarrow> world \<Rightarrow> world" where
  "abandon_scan env threshold w =
     (case ActiveMatches (esub env 0) w of
        (w1, Inl _) \<Rightarrow> w1
      | (w1, Inr ms) \<Rightarrow> abandon_each (esub env 1) (trunc (duration_seconds threshold)) ms w1)"

section \<open>presence.go\<close>

record presence_payload =
  pp_MatchID :: string
  pp_UserID :: user_id
  pp_Slot :: slot
  pp_At :: time

definition handlePresence :: "(string \<Rightarrow> string option) \<Rightarrow> env \<Rightarrow> presence_payload \<Rightarrow> world \<Rightarrow> world" where
  "handlePresence parseUUID env p w =
     (case parseUUID (pp_MatchID p) of
        None \<Rightarrow> w
      | Some mid \<Rightarrow>
          let tm = (if time_isZero (pp_At p) then env_now env [] else pp_At p)
          in fst (TouchPresence (esub env 0) mid (pp_Slot p) tm w))"

definition publishTakeoverEvent :: "env \<Rightarrow> inactive_slot \<Rightarrow> world \<Rightarrow> world" where
  "publishTakeoverEvent env s w =
     (if env_outcome env [] = Refused then w
      else w\<lparr>w_takeovers := w_takeovers w @ [\<lparr>te_MatchID = is_MatchID s, te_Slot = is_Slot s, te_PrevUserID = is_UserID s\<rparr>]\<rparr>)"

fun takeover_each :: "env \<Rightarrow> inactive_slot list \<Rightarrow> world \<Rightarrow> world" where
  "takeover_each env [] w = w"
| "takeover_each env (s # ss) w =
     (case MarkControlledByAI (esub env 0) (is_MatchID s) (is_Slot s) True w of
        (w1, Inr True) \<Rightarrow> takeover_each (esub env 2) ss (publishTakeoverEvent (esub env 1) s w1)
      | (w1, _) \<Rightarrow> takeover_each (esub env 2) ss w1)"

definition takeover_threshold :: "duration \<Rightarrow> duration" where
  "takeover_threshold d = (if d \<le> 0 then 72 * Hour else d)"

definition presence_scan :: "env \<Rightarrow> duration \<Rightarrow> world \<Rightarrow> world" where
  "presence_scan env takeoverAfter w =
     (case SlotsNeedingTakeover (esub env 0) takeoverAfter w of
        (w1, Inl _) \<Rightarrow> w1
      | (w1, Inr slots) \<Rightarrow> takeover_each (esub env 1) slots w1)"

section \<open>finalstate.go\<close>

definition uuid_Nil :: string where
  "uuid_Nil = ''00000000-0000-0000-0000-000000000000''"

definition winnerUserID :: "env \<Rightarrow> string \<Rightarrow> match_state \<Rightarrow> world \<Rightarrow> user_id" where
  "winnerUserID env mid st w =
     (case snd (ListPlayers env mid w) of
        Inl _ \<Rightarrow> uuid_Nil
      | Inr players \<Rightarrow>
          (case remdups (map pys_ID (filter pys_Alive (ms_Players st))) of
             [sole] \<Rightarrow> (case find (\<lambda>p. lp_Slot p = sole) players of Some p \<Rightarrow> lp_UserID p | None \<Rightarrow> uuid_Nil)
           | _ \<Rightarrow> uuid_Nil))"

text \<open>The first loop over the units: the count so far of each slot, and the entries of the slots that are
  players.\<close>

definition count_unit :: "(slot, nat) gomap \<times> extra \<Rightarrow> unit_state \<Rightarrow> (slot, nat) gomap \<times> extra" where
  "count_unit cs u =
     (case cs of (counts, perSlot) \<Rightarrow>
       let n = mget_default 0 counts (us_OwnerID u) + 1 in
       (mput (us_OwnerID u) n counts,
        if map_of perSlot (us_OwnerID u) \<noteq> None
        then mput (us_OwnerID u) (JObj [(''alive'', JBool True), (''units'', JNum (real n))]) perSlot
        else perSlot))"

definition set_units :: "extra \<Rightarrow> slot \<times> nat \<Rightarrow> extra" where
  "set_units perSlot sn =
     (let entry = (case map_of perSlot (fst sn) of Some (JObj fs) \<Rightarrow> fs | _ \<Rightarrow> [])
      in mput (fst sn) (JObj (mput ''units'' (JNum (real (snd sn))) entry)) perSlot)"

definition projectStats :: "string \<Rightarrow> time option \<Rightarrow> match_state \<Rightarrow> stats_row" where
  "projectStats mid startedAt st =
     (let perSlot0 = foldl (\<lambda>ps p. mput (pys_ID p) (JObj [(''alive'', JBool (pys_Alive p))]) ps) [] (ms_Players st);
          (counts, perSlot1) = foldl count_unit ([], perSlot0) (ms_Units st);
          perSlot = foldl set_units perSlot1 counts;
          duration = (case startedAt of
              None \<Rightarrow> 0
            | Some tm \<Rightarrow> if time_isZero (ms_GameTime st) then 0
                         else max 0 (trunc (duration_seconds (time_sub (ms_GameTime st) tm))))
      in \<lparr>st_MatchID = mid, st_DurationSec = duration, st_TotalUnits = length (ms_Units st), st_TotalCombats = 0,
          st_CapitalsTaken = length (filter (\<lambda>p. pvs_Capital p \<and> pvs_OwnerID p \<noteq> []) (ms_Provinces st)),
          st_PerSlot = perSlot\<rparr>)"

definition final_handle :: "(string \<Rightarrow> string option) \<Rightarrow> env \<Rightarrow> state_envelope \<Rightarrow> world \<Rightarrow> world" where
  "final_handle parseUUID env e w =
     (case se_State e of
        None \<Rightarrow> w
      | Some st \<Rightarrow>
          (case parseUUID (se_MatchID e) of
             None \<Rightarrow> w
           | Some mid \<Rightarrow>
               let w1 = fst (SaveSnapshot (esub env 0) mid (se_Seq e) e w);
                   uid = winnerUserID (esub env 1) mid st w1;
                   w2 = fst (MarkEnded (esub env 2) mid (if uid \<noteq> uuid_Nil then Some uid else None) w1);
                   started = (case snd (Matches_Get (esub env 3) mid w2) of Inl _ \<Rightarrow> None | Inr m \<Rightarrow> lm_StartedAt m)
               in fst (Stats_Upsert (esub env 4) (projectStats mid started st) w2)))"

section \<open>snapshot.go\<close>

text \<open>The worker's own state: the latest envelope of each match since the last flush.\<close>

type_synonym latest = "(string, state_envelope) gomap"

definition snapshot_receive :: "(string \<Rightarrow> string option) \<Rightarrow> state_envelope \<Rightarrow> latest \<Rightarrow> latest" where
  "snapshot_receive parseUUID e lt =
     (case parseUUID (se_MatchID e) of None \<Rightarrow> lt | Some mid \<Rightarrow> mput mid e lt)"

fun save_each :: "env \<Rightarrow> (string \<times> state_envelope) list \<Rightarrow> world \<Rightarrow> world" where
  "save_each env [] w = w"
| "save_each env ((mid, e) # es) w =
     save_each (esub env 1) es
       (if se_State e = None then w else fst (SaveSnapshot (esub env 0) mid (se_Seq e) e w))"

definition snapshot_flush :: "runtime \<Rightarrow> env \<Rightarrow> latest \<Rightarrow> world \<Rightarrow> latest \<times> world" where
  "snapshot_flush rt env lt w = ([], save_each env (go_range rt lt) w)"

end
