(* ===== verification/LobbyFacts.thy ===== *)
theory LobbyFacts
  imports Lobby Workers
begin

text \<open>
  What the lobby promises. The locale \<open>world_order\<close> states what a client of the repositories relies on,
  a preorder on worlds that every statement respects, and \<open>lobby_order\<close> adds the writing statements; both
  are interpreted on the repositories of \<open>Pgrepo\<close> with the lifecycle order, which gives the lifecycle
  for every service and job at once. Then, for environments in which every statement succeeds, the effect
  of starting and joining a match.
\<close>

section \<open>Steps that respect an order on worlds\<close>

text \<open>What a chain of statements keeps, each statement keeps: the client of the repositories needs no
  more of them than a preorder each respects.\<close>

locale world_order =
  fixes R :: "world \<Rightarrow> world \<Rightarrow> bool"
  assumes R_refl: "R w w"
    and R_trans: "R a b \<Longrightarrow> R b c \<Longrightarrow> R a c"
begin

definition keeps :: "(world \<Rightarrow> world \<times> 'a) \<Rightarrow> bool" where
  "keeps m \<longleftrightarrow> (\<forall>w. R w (fst (m w)))"

lemma keepsI: "(\<And>w. R w (fst (m w))) \<Longrightarrow> keeps m"
  by (simp add: keeps_def)

lemma keepsD: "keeps m \<Longrightarrow> m w = (w', r) \<Longrightarrow> R w w'"
  by (auto simp: keeps_def dest: spec[of _ w])

lemma keeps_ret [intro!]: "keeps (ret a)"
  by (simp add: keeps_def ret_def R_refl)

lemma keeps_raise [intro!]: "keeps (raise e)"
  by (simp add: keeps_def raise_def R_refl)

lemma keeps_ebind [intro!]: "keeps m \<Longrightarrow> (\<And>a. keeps (k a)) \<Longrightarrow> keeps (ebind m k)"
  by (auto simp: keeps_def ebind_def split: prod.splits sum.splits) (metis R_trans fst_conv)+

lemma keeps_on_err [intro!]: "keeps m \<Longrightarrow> keeps (on_err f m)"
  by (auto simp: keeps_def on_err_def split: prod.splits) (metis fst_conv)

lemma keeps_statement: "(\<And>w w' a. q w = Some (w', a) \<Longrightarrow> R w w') \<Longrightarrow> keeps (statement env q)"
  by (auto simp: keeps_def statement_def R_refl split: option.splits outcome.splits)

lemma keeps_reading [intro!]: "keeps (reading env q)"
  unfolding reading_def by (rule keeps_statement) (auto simp: R_refl)

lemma keeps_reads [intro!]:
  "keeps (Matches_Get env mid)" "keeps (ListPlayers env mid)" "keeps (Matches_ListLobby env uid)" "keeps (SlotsNeedingTakeover env d)"
  "keeps (AISlots env)" "keeps (ActiveMatches env)" "keeps (MatchAbandonedCandidate env mid n)" "keeps (ListBots env k)"
  "keeps (LatestSnapshot env mid)"
  by (auto simp: Matches_Get_def ListPlayers_def Matches_ListLobby_def SlotsNeedingTakeover_def AISlots_def ActiveMatches_def
      MatchAbandonedCandidate_def ListBots_def LatestSnapshot_def Let_def split: option.splits list.splits intro!: keeps_ebind)

lemma keeps_View [intro!]: "keeps (View env mid)"
  unfolding View_def by blast

lemma keeps_load_map [intro!]: "keeps (load_map svc mid c msg)"
  by (auto simp: load_map_def split: sum.splits)

lemma keeps_or_none [intro!]: "keeps (ListPlayers_or_none env mid)"
proof (rule keepsI)
  fix w
  have "R w (fst (ListPlayers env mid w))" using keeps_reads(2)[of env mid] by (simp add: keeps_def)
  then show "R w (fst (ListPlayers_or_none env mid w))" by (auto simp: ListPlayers_or_none_def split: prod.splits sum.splits)
qed

end

text \<open>Writing a seat, a status or the outbox is all the services do.\<close>

locale lobby_order = world_order +
  assumes R_AddPlayer: "keeps (AddPlayer env p)"
    and R_RemovePlayer: "keeps (RemovePlayer env mid uid)"
    and R_ByAI: "keeps (MarkControlledByAI env mid s on)"
    and R_Create: "keeps (Matches_Create env nm mapID uid sp)"
    and R_Starting: "keeps (MarkStarting env mid)"
    and R_Active: "keeps (MarkActive env mid)"
    and R_PublishStart: "keeps (PublishStart env pl)"
begin

lemmas R_writes [intro!] = R_AddPlayer R_RemovePlayer R_ByAI R_Create R_Starting R_Active R_PublishStart

lemma keeps_seat_bots [intro!]: "keeps (seat_bots env mid occ sls bots)"
  by (induction sls arbitrary: env bots) auto

lemma keeps_fillBots [intro!]: "keeps (fillBots env svc mid mapID)"
  unfolding fillBots_def Let_def by (auto intro!: keeps_ebind)

lemma keeps_assign [intro!]: "keeps (assignBotToSlot env svc mid s mapID)"
  unfolding assignBotToSlot_def Let_def by (auto intro!: keeps_ebind)

lemma keeps_publish [intro!]: "keeps (publishStartWithFill env svc m)"
  unfolding publishStartWithFill_def by (auto intro!: keeps_ebind)

lemma keeps_remove_seated [intro!]: "keeps (remove_seated env mid s ps)"
proof (rule keepsI)
  fix w show "R w (fst (remove_seated env mid s ps w))"
  proof (induction ps arbitrary: env w)
    case (Cons p ps)
    let ?w = "if lp_Slot p = s then fst (RemovePlayer (esub env 0) mid (lp_UserID p) w) else w"
    have "R w ?w" using R_RemovePlayer[of "esub env 0" mid "lp_UserID p"] by (auto simp: keeps_def R_refl)
    from R_trans[OF this Cons.IH] show ?case by simp
  qed (simp add: ret_def R_refl)
qed

lemma keeps_services:
  "keeps (lobby_Create env svc ci)" "keeps (lobby_Join env svc ji)" "keeps (lobby_Start env svc mid)"
  "keeps (Handoff env mid uid)" "keeps (Leave env mid uid)" "keeps (Kick env ki)" "keeps (PatchSlotAI env svc ps)"
proof -
  show h: "keeps (Handoff env mid uid)" for env
    unfolding Handoff_def Let_def by (auto intro!: keeps_ebind split: option.splits)
  show "keeps (Leave env mid uid)" unfolding Leave_def by (auto intro!: keeps_ebind h)
  show "keeps (lobby_Create env svc ci)" unfolding lobby_Create_def Let_def by (auto intro!: keeps_ebind)
  show "keeps (lobby_Join env svc ji)" unfolding lobby_Join_def Let_def by (auto intro!: keeps_ebind split: option.splits)
  show "keeps (lobby_Start env svc mid)" unfolding lobby_Start_def by (auto intro!: keeps_ebind)
  show "keeps (Kick env ki)" unfolding Kick_def by (auto intro!: keeps_ebind)
  show "keeps (PatchSlotAI env svc ps)" unfolding PatchSlotAI_def by (auto intro!: keeps_ebind)
qed

end

section \<open>The lifecycle of a match\<close>

lemma find_update_where:
  assumes "\<And>r. P (f r) = P r"
  shows "find P (update_where Q f rows) = map_option (\<lambda>r. if Q r then f r else r) (find P rows)"
  by (induction rows) (auto simp: update_where_def assms)

lemma find_append: "find P (xs @ ys) = (case find P xs of None \<Rightarrow> find P ys | Some x \<Rightarrow> Some x)"
  by (induction xs) auto

definition lifecycle_path :: "lobby_match \<Rightarrow> lobby_match \<Rightarrow> bool" where
  "lifecycle_path m m' \<longleftrightarrow> CanTransitionTo\<^sup>*\<^sup>* (lm_Status m) (lm_Status m') \<and>
     lm_ID m' = lm_ID m \<and> lm_Name m' = lm_Name m \<and> lm_MapID m' = lm_MapID m \<and> lm_CreatedBy m' = lm_CreatedBy m \<and>
     lm_CreatedAt m' = lm_CreatedAt m \<and> lm_SpeedFactor m' = lm_SpeedFactor m"

definition lifecycle :: "world \<Rightarrow> world \<Rightarrow> bool" where
  "lifecycle w w' \<longleftrightarrow> (\<forall>mid m. match_row w mid = Some m \<longrightarrow> (\<exists>m'. match_row w' mid = Some m' \<and> lifecycle_path m m'))"

lemma lifecycle_path_refl [simp]: "lifecycle_path m m"
  by (simp add: lifecycle_path_def)

lemma lifecycle_path_trans: "lifecycle_path a b \<Longrightarrow> lifecycle_path b c \<Longrightarrow> lifecycle_path a c"
  by (auto simp: lifecycle_path_def intro: rtranclp_trans)

lemma lifecycle_same: "w_matches w' = w_matches w \<Longrightarrow> lifecycle w w'"
  by (auto simp: lifecycle_def match_row_def)

interpretation lo: world_order lifecycle
proof
  fix a b c assume "lifecycle a b" "lifecycle b c"
  then show "lifecycle a c" unfolding lifecycle_def by (meson lifecycle_path_trans)
qed (simp add: lifecycle_same)

lemma lifecycle_update:
  assumes "\<And>m. lm_ID (f m) = lm_ID m" "\<And>m. Q m \<Longrightarrow> lifecycle_path m (f m)"
  shows "lifecycle w (w\<lparr>w_matches := update_where Q f (w_matches w)\<rparr>)"
  using assms by (auto simp: lifecycle_def match_row_def find_update_where)

lemma keeps_lifecycle_statement:
  "(\<And>w w' a. q w = Some (w', a) \<Longrightarrow> w_matches w' = w_matches w) \<Longrightarrow> lo.keeps (statement env q)"
  by (rule lo.keeps_statement) (rule lifecycle_same)

lemma update_path:
  "lm_Status m = a \<Longrightarrow> CanTransitionTo a b \<Longrightarrow> lifecycle_path m (m\<lparr>lm_Status := b\<rparr>)"
  "lm_Status m = a \<Longrightarrow> CanTransitionTo a b \<Longrightarrow> lifecycle_path m (m\<lparr>lm_Status := b, lm_StartedAt := t\<rparr>)"
  "lm_Status m = a \<Longrightarrow> CanTransitionTo a b \<Longrightarrow> lifecycle_path m (m\<lparr>lm_Status := b, lm_EndedAt := t\<rparr>)"
  by (auto simp: lifecycle_path_def)

interpretation ll: lobby_order lifecycle
proof unfold_locales
  show "lo.keeps (AddPlayer env p)" for env p
    unfolding AddPlayer_def by (rule keeps_lifecycle_statement) (auto simp: Let_def split: if_splits)
  show "lo.keeps (RemovePlayer env mid uid)" for env mid uid
    unfolding RemovePlayer_def Let_def by (intro lo.keeps_ebind keeps_lifecycle_statement) auto
  show "lo.keeps (MarkControlledByAI env mid s on)" for env mid s on
    unfolding MarkControlledByAI_def Let_def by (rule keeps_lifecycle_statement) auto
  show "lo.keeps (Matches_Create env nm mapID uid sp)" for env nm mapID uid sp
    unfolding Matches_Create_def Let_def
    by (rule lo.keeps_statement) (auto simp: lifecycle_def match_row_def find_append split: if_splits)
  show "lo.keeps (MarkStarting env mid)" for env mid
    unfolding MarkStarting_def UpdateStatus_def Let_def
    by (intro lo.keeps_ebind lo.keeps_statement) (auto intro!: lifecycle_update update_path)
  show "lo.keeps (MarkActive env mid)" for env mid
    unfolding MarkActive_def by (rule lo.keeps_statement) (auto intro!: lifecycle_update update_path)
  show "lo.keeps (PublishStart env pl)" for env pl
    by (rule lo.keepsI) (auto simp: PublishStart_def intro: lifecycle_same split: outcome.splits)
qed

section \<open>The background jobs\<close>

lemma keeps_MarkAbandoned: "lo.keeps (MarkAbandoned env mid)"
  unfolding MarkAbandoned_def by (rule lo.keeps_statement) (auto intro!: lifecycle_update update_path)

lemma lifecycle_abandon_each: "lifecycle w (abandon_each env secs ms w)"
proof (induction ms arbitrary: env w)
  case (Cons m ms)
  obtain w1 r where c: "MatchAbandonedCandidate (esub env 0) (lm_ID m) secs w = (w1, r)" by fastforce
  have 1: "lifecycle w w1" by (rule lo.keepsD[OF lo.keeps_reads(7) c])
  obtain w2 r2 where a: "MarkAbandoned (esub env 1) (lm_ID m) w1 = (w2, r2)" by fastforce
  have 2: "lifecycle w1 w2" by (rule lo.keepsD[OF keeps_MarkAbandoned a])
  have 3: "lifecycle w2 (PublishEndMatch e p w2)" for e p
    by (rule lifecycle_same) (simp add: PublishEndMatch_def)
  note path = lo.R_trans[OF 1 lo.R_trans[OF 2 Cons.IH]] lo.R_trans[OF 1 lo.R_trans[OF 2 lo.R_trans[OF 3 Cons.IH]]] lo.R_trans[OF 1 Cons.IH]
  show ?case using path by (auto simp: c a[unfolded One_nat_def] split: sum.splits bool.splits)
qed (simp add: lo.R_refl)

lemma lifecycle_abandon_scan: "lifecycle w (abandon_scan env d w)"
proof -
  obtain w1 r where a: "ActiveMatches (esub env 0) w = (w1, r)" by fastforce
  have "lifecycle w w1" by (rule lo.keepsD[OF lo.keeps_reads(6) a])
  then show ?thesis
    using lo.R_trans[OF _ lifecycle_abandon_each] by (auto simp: abandon_scan_def a split: sum.splits)
qed

lemma matches_ByAI: "w_matches (fst (MarkControlledByAI env mid s on w)) = w_matches w"
  by (simp add: MarkControlledByAI_def statement_def Let_def split: outcome.split)

lemma matches_takeover_each: "w_matches (takeover_each env ss w) = w_matches w"
proof (induction ss arbitrary: env w)
  case (Cons s ss)
  obtain w1 r where c: "MarkControlledByAI (esub env 0) (is_MatchID s) (is_Slot s) True w = (w1, r)" by fastforce
  have "w_matches w1 = w_matches w" using matches_ByAI[of "esub env 0" "is_MatchID s" "is_Slot s" True w] by (simp add: c)
  moreover have "w_matches (publishTakeoverEvent e x w1) = w_matches w1" for e x by (simp add: publishTakeoverEvent_def)
  ultimately show ?case using Cons.IH by (simp add: c split: sum.split bool.split)
qed simp

lemma reading_world: "fst (reading env q w) = w"
  by (simp add: reading_def statement_def split: outcome.split)

lemma fst_ret [simp]: "fst (ret a w) = w"
  by (simp add: ret_def)

lemma world_SlotsNeedingTakeover: "fst (SlotsNeedingTakeover env d w) = w"
  by (simp add: SlotsNeedingTakeover_def reading_world)

lemma lifecycle_presence_scan: "lifecycle w (presence_scan env d w)"
  using world_SlotsNeedingTakeover[of "esub env 0" d w] matches_takeover_each
  by (intro lifecycle_same) (auto simp: presence_scan_def split: prod.splits sum.splits)

lemma lifecycle_handlePresence: "lifecycle w (handlePresence pu env p w)"
  by (intro lifecycle_same) (auto simp: handlePresence_def TouchPresence_def statement_def Let_def split: option.splits outcome.splits)

lemma matches_SaveSnapshot: "w_matches (fst (SaveSnapshot env mid sq e w)) = w_matches w"
  by (simp add: SaveSnapshot_def raise_def statement_def split: outcome.split)

lemma matches_save_each: "w_matches (save_each env es w) = w_matches w"
  by (induction env es w rule: save_each.induct) (simp_all add: matches_SaveSnapshot)

section \<open>Operations on the lobby\<close>

text \<open>Everything the services and the jobs do to the lobby's data, except recording the end of a match.\<close>

datatype lobby_op =
    OpCreate create_input
  | OpJoin join_input
  | OpStart string
  | OpLeave string user_id
  | OpKick kick_input
  | OpHandoff string user_id
  | OpPatchSlotAI patch_slot_input
  | OpAbandonScan duration
  | OpPresence presence_payload
  | OpPresenceScan duration
  | OpFlush runtime "(string \<times> state_envelope) list"

fun lobby_apply :: "(string \<Rightarrow> string option) \<Rightarrow> lobby_service \<Rightarrow> env \<Rightarrow> lobby_op \<Rightarrow> world \<Rightarrow> world" where
  "lobby_apply pu svc env (OpCreate ci) w = fst (lobby_Create env svc ci w)"
| "lobby_apply pu svc env (OpJoin ji) w = fst (lobby_Join env svc ji w)"
| "lobby_apply pu svc env (OpStart mid) w = fst (lobby_Start env svc mid w)"
| "lobby_apply pu svc env (OpLeave mid uid) w = fst (Leave env mid uid w)"
| "lobby_apply pu svc env (OpKick ki) w = fst (Kick env ki w)"
| "lobby_apply pu svc env (OpHandoff mid uid) w = fst (Handoff env mid uid w)"
| "lobby_apply pu svc env (OpPatchSlotAI ps) w = fst (PatchSlotAI env svc ps w)"
| "lobby_apply pu svc env (OpAbandonScan d) w = abandon_scan env d w"
| "lobby_apply pu svc env (OpPresence p) w = handlePresence pu env p w"
| "lobby_apply pu svc env (OpPresenceScan d) w = presence_scan env d w"
| "lobby_apply pu svc env (OpFlush rt lt) w = snd (snapshot_flush rt env lt w)"

definition lobby_run :: "(string \<Rightarrow> string option) \<Rightarrow> lobby_service \<Rightarrow> (env \<times> lobby_op) list \<Rightarrow> world \<Rightarrow> world" where
  "lobby_run pu svc ops w = foldl (\<lambda>w (env, op). lobby_apply pu svc env op w) w ops"

lemma lifecycle_apply: "lifecycle w (lobby_apply pu svc env op w)"
proof (cases op)
  case (OpFlush rt lt)
  then show ?thesis by (simp add: snapshot_flush_def lifecycle_same matches_save_each)
qed (use ll.keeps_services in \<open>simp_all add: lo.keeps_def lifecycle_abandon_scan lifecycle_presence_scan lifecycle_handlePresence\<close>)

lemma lifecycle_run: "lifecycle w (lobby_run pu svc ops w)"
  by (induction ops arbitrary: w) (auto simp: lobby_run_def lo.R_refl intro: lo.R_trans[OF lifecycle_apply])

definition calm :: "time \<Rightarrow> env" where
  "calm t = \<lparr>env_now = (\<lambda>_. t), env_uuid = (\<lambda>p. ''id'' @ concat (map (\<lambda>n. CHR ''-'' # replicate n CHR ''i'') p)),
     env_outcome = (\<lambda>_. Delivered)\<rparr>"

definition env_ok :: "env \<Rightarrow> bool" where
  "env_ok env \<longleftrightarrow> (\<forall>p. env_outcome env p = Delivered)"

lemma env_ok_calm [simp]: "env_ok (calm t)"
  by (simp add: env_ok_def calm_def)

lemma env_ok_esub [simp]: "env_ok env \<Longrightarrow> env_ok (esub env i)"
  by (simp add: env_ok_def esub_def)

definition sample_user :: "user_id \<Rightarrow> bool \<Rightarrow> user" where
  "sample_user uid isBot = \<lparr>usr_ID = uid, usr_Email = uid, usr_PasswordHash = [], usr_DisplayName = uid, usr_Color = [],
     usr_IsBot = isBot, usr_CreatedAt = 0, usr_LastLoginAt = None\<rparr>"

definition sample_lobby_match :: "status \<Rightarrow> lobby_match" where
  "sample_lobby_match st = \<lparr>lm_ID = ''m'', lm_Name = [], lm_MapID = ''pair'', lm_Status = st, lm_CreatedBy = ''ann'', lm_CreatedAt = 0,
     lm_StartedAt = None, lm_EndedAt = None, lm_WinnerUserID = None, lm_SpeedFactor = 60\<rparr>"

definition sample_seat :: "user_id \<Rightarrow> slot \<Rightarrow> time option \<Rightarrow> lobby_player" where
  "sample_seat uid s seen = \<lparr>lp_MatchID = ''m'', lp_UserID = uid, lp_Slot = s, lp_Color = [], lp_Alive = True,
     lp_ControlledByAI = False, lp_LastSeenAt = seen, lp_JoinedAt = 0\<rparr>"

definition sample_world :: "status \<Rightarrow> lobby_player list \<Rightarrow> user list \<Rightarrow> world" where
  "sample_world st ps us = \<lparr>w_users = us, w_matches = [sample_lobby_match st], w_players = ps, w_snapshots = [], w_stats = [],
     w_starts = [], w_ends = [], w_takeovers = []\<rparr>"

definition pair_map :: game_map where
  "pair_map = \<lparr>map_ID = ''pair'', map_Name = ''Pair'', map_Provinces = [], map_Edges = [],
     map_Slots = [\<lparr>msl_ID = ''red'', msl_Color = ''#f00'', msl_Capital = ''a''\<rparr>,
                  \<lparr>msl_ID = ''blue'', msl_Color = ''#00f'', msl_Capital = ''b''\<rparr>],
     map_StartingUnits = [], map_SVGURL = [], map_ThumbnailURL = [], map_RulesSummary = []\<rparr>"

definition pair_service :: lobby_service where
  "pair_service = \<lparr>ls_load = (\<lambda>_. Inr pair_map), ls_bots = True, ls_speed = 60\<rparr>"

lemma sample_row [simp]: "match_row (sample_world st ps us) ''m'' = Some (sample_lobby_match st)"
  "lm_Status (sample_lobby_match st) = st" "lm_ID (sample_lobby_match st) = ''m''" "lm_MapID (sample_lobby_match st) = ''pair''"
  by (simp_all add: sample_world_def match_row_def sample_lobby_match_def)

lemma final_status: "CanTransitionTo\<^sup>*\<^sup>* st st' \<Longrightarrow> st \<in> {StatusEnded, StatusAbandoned} \<Longrightarrow> st' = st"
  by (induction rule: rtranclp_induct) auto



section \<open>Statements that succeed\<close>

lemma statement_ok: "env_ok env \<Longrightarrow> statement env q w = (case q w of None \<Rightarrow> (w, Inl DatabaseErr) | Some (w', a) \<Rightarrow> (w', Inr a))"
  by (auto simp: statement_def env_ok_def split: option.split)

lemma reading_ok [simp]: "env_ok env \<Longrightarrow> reading env q w = (w, Inr (q w))"
  by (simp add: reading_def statement_ok)

lemma ebind_Inr: "m w = (w', Inr a) \<Longrightarrow> ebind m k w = k a w'"
  and ebind_Inl: "m w = (w', Inl e) \<Longrightarrow> ebind m k w = (w', Inl e)"
  by (simp_all add: ebind_def)

lemma on_err_Inr: "m w = (w', Inr a) \<Longrightarrow> on_err f m w = (w', Inr a)"
  and on_err_Inl: "m w = (w', Inl e) \<Longrightarrow> on_err f m w = (w', Inl (f e))"
  by (simp_all add: on_err_def)

lemma Get_ok: "env_ok env \<Longrightarrow> match_row w mid = Some m \<Longrightarrow> Matches_Get env mid w = (w, Inr m)"
  by (simp add: Matches_Get_def ebind_def ret_def)

lemma ListPlayers_ok: "env_ok env \<Longrightarrow> ListPlayers env mid w = (w, Inr (players_of w mid))"
  by (simp add: ListPlayers_def)

lemma View_ok: "env_ok env \<Longrightarrow> match_row w mid = Some m \<Longrightarrow> View env mid w = (w, Inr \<lparr>mv_Match = m, mv_Players = players_of w mid\<rparr>)"
  by (simp add: View_def ebind_def Get_ok ListPlayers_ok ret_def)

definition update_match :: "string \<Rightarrow> (lobby_match \<Rightarrow> bool) \<Rightarrow> (lobby_match \<Rightarrow> lobby_match) \<Rightarrow> world \<Rightarrow> world" where
  "update_match mid Q f w = w\<lparr>w_matches := update_where (\<lambda>m. lm_ID m = mid \<and> Q m) f (w_matches w)\<rparr>"

lemma match_row_update:
  assumes "\<And>m. lm_ID (f m) = lm_ID m"
  shows "match_row (update_match mid Q f w) mid = map_option (\<lambda>m. if Q m then f m else m) (match_row w mid)"
  unfolding match_row_def update_match_def
  by (cases "find (\<lambda>m. lm_ID m = mid) (w_matches w)") (auto simp: find_update_where assms dest: find_SomeD)

lemma update_match_fields [simp]:
  "w_players (update_match mid Q f w) = w_players w" "w_users (update_match mid Q f w) = w_users w"
  "players_of (update_match mid Q f w) = players_of w" "w_starts (update_match mid Q f w) = w_starts w"
  "user_row (update_match mid Q f w) = user_row w"
  by (simp_all add: update_match_def players_of_def user_row_def fun_eq_iff)

lemma MarkStarting_ok:
  assumes "env_ok env" "match_row w mid = Some m" "lm_Status m = StatusWaiting"
  shows "MarkStarting env mid w = (update_match mid (\<lambda>m. lm_Status m = StatusWaiting) (\<lambda>m. m\<lparr>lm_Status := StatusStarting\<rparr>) w, Inr ())"
proof -
  have "m \<in> set (w_matches w) \<and> lm_ID m = mid" using assms(2) by (auto simp: match_row_def dest: find_SomeD)
  then have "affected (\<lambda>m. lm_ID m = mid \<and> lm_Status m = StatusWaiting) (w_matches w) \<noteq> 0"
    using assms(3) by (auto simp: affected_def filter_empty_conv)
  then show ?thesis
    using assms(1) by (simp add: MarkStarting_def UpdateStatus_def ebind_def statement_ok Let_def ret_def update_match_def)
qed

lemma MarkActive_ok:
  "env_ok env \<Longrightarrow> MarkActive env mid w = (update_match mid (\<lambda>m. lm_Status m = StatusStarting)
     (\<lambda>m. m\<lparr>lm_Status := StatusActive, lm_StartedAt := (case lm_StartedAt m of None \<Rightarrow> Some (env_now env []) | Some tm \<Rightarrow> Some tm)\<rparr>) w, Inr ())"
  by (simp add: MarkActive_def statement_ok update_match_def)

lemma filter_append_seat: "players_of (w\<lparr>w_players := w_players w @ ps\<rparr>) mid = sort_key lp_Slot (filter (\<lambda>p. lp_MatchID p = mid) (w_players w) @ filter (\<lambda>p. lp_MatchID p = mid) ps)"
  by (simp add: players_of_def)

lemma match_row_players [simp]: "match_row (w\<lparr>w_players := ps\<rparr>) = match_row w" "user_row (w\<lparr>w_players := ps\<rparr>) = user_row w"
  by (simp_all add: match_row_def user_row_def fun_eq_iff)

lemma set_players_of: "set (players_of w mid) = {p \<in> set (w_players w). lp_MatchID p = mid}"
  by (auto simp: players_of_def)

text \<open>A user without a seat in the match gets a new one.\<close>

lemma AddPlayer_new:
  assumes "env_ok env" "match_row w (lp_MatchID p) \<noteq> None" "user_row w (lp_UserID p) \<noteq> None"
    "\<forall>q\<in>set (w_players w). \<not> (lp_MatchID q = lp_MatchID p \<and> lp_UserID q = lp_UserID p)"
  shows "AddPlayer env p w = (w\<lparr>w_players := w_players w @ [p\<lparr>lp_LastSeenAt := None, lp_JoinedAt := env_now env []\<rparr>]\<rparr>, Inr ())"
proof -
  have "\<not> list_ex (\<lambda>q. lp_MatchID q = lp_MatchID p \<and> lp_UserID q = lp_UserID p) (w_players w)"
    using assms(4) by (auto simp: list_ex_iff)
  then show ?thesis using assms(1-3) by (simp add: AddPlayer_def statement_ok Let_def)
qed

lemma seat_bots_ok:
  assumes "env_ok env" "match_row w mid \<noteq> None" "\<forall>b\<in>set bots. user_row w (usr_ID b) \<noteq> None" "distinct (map usr_ID bots)"
    "\<forall>q\<in>set (w_players w). lp_MatchID q = mid \<longrightarrow> lp_UserID q \<notin> usr_ID ` set bots"
    "length (filter (\<lambda>sl. msl_ID sl \<notin> set occ) sls) \<le> length bots"
  shows "\<exists>new. seat_bots env mid occ sls bots w = (w\<lparr>w_players := w_players w @ new\<rparr>, Inr ())
    \<and> map lp_Slot new = map msl_ID (filter (\<lambda>sl. msl_ID sl \<notin> set occ) sls)
    \<and> map lp_UserID new = take (length new) (map usr_ID bots)
    \<and> (\<forall>p\<in>set new. lp_MatchID p = mid \<and> lp_ControlledByAI p \<and> lp_Alive p)"
  using assms
proof (induction sls arbitrary: env w bots)
  case Nil
  then show ?case by (intro exI[of _ "[]"]) (simp add: ret_def)
next
  case (Cons sl sls)
  show ?case
  proof (cases "msl_ID sl \<in> set occ")
    case True
    with Cons show ?thesis by simp
  next
    case False
    then obtain b bs where b: "bots = b # bs" using Cons.prems(6) by (cases bots) auto
    let ?p = "new_seat mid (usr_ID b) (msl_ID sl) (msl_Color sl) True"
    let ?q = "?p\<lparr>lp_LastSeenAt := None, lp_JoinedAt := env_now (esub env 0) []\<rparr>"
    let ?w = "w\<lparr>w_players := w_players w @ [?q]\<rparr>"
    have add: "AddPlayer (esub env 0) ?p w = (?w, Inr ())"
      using Cons.prems b by (intro AddPlayer_new) (auto simp: new_seat_def)
    have step: "seat_bots env mid occ (sl # sls) bots w = seat_bots (esub env 1) mid occ sls bs ?w"
      using False by (simp add: b ebind_def on_err_def add del: One_nat_def)
    have "\<exists>new. seat_bots (esub env 1) mid occ sls bs ?w = (?w\<lparr>w_players := w_players ?w @ new\<rparr>, Inr ())
      \<and> map lp_Slot new = map msl_ID (filter (\<lambda>sl. msl_ID sl \<notin> set occ) sls)
      \<and> map lp_UserID new = take (length new) (map usr_ID bs)
      \<and> (\<forall>p\<in>set new. lp_MatchID p = mid \<and> lp_ControlledByAI p \<and> lp_Alive p)"
      using Cons.prems False b by (intro Cons.IH) (auto simp: new_seat_def)
    then obtain new where new: "seat_bots (esub env 1) mid occ sls bs ?w = (?w\<lparr>w_players := w_players ?w @ new\<rparr>, Inr ())"
      "map lp_Slot new = map msl_ID (filter (\<lambda>sl. msl_ID sl \<notin> set occ) sls)"
      "map lp_UserID new = take (length new) (map usr_ID bs)"
      "\<forall>p\<in>set new. lp_MatchID p = mid \<and> lp_ControlledByAI p \<and> lp_Alive p" by blast
    have "seat_bots env mid occ (sl # sls) bots w = (w\<lparr>w_players := w_players w @ (?q # new)\<rparr>, Inr ())"
      unfolding step new(1) by simp
    moreover have "map lp_Slot (?q # new) = map msl_ID (filter (\<lambda>sl. msl_ID sl \<notin> set occ) (sl # sls))"
      using new(2) False by (simp add: new_seat_def)
    moreover have "map lp_UserID (?q # new) = take (length (?q # new)) (map usr_ID bots)"
      using new(3) b by (simp add: new_seat_def)
    moreover have "\<forall>p\<in>set (?q # new). lp_MatchID p = mid \<and> lp_ControlledByAI p \<and> lp_Alive p"
      using new(4) by (simp add: new_seat_def)
    ultimately show ?thesis by blast
  qed
qed

section \<open>Starting a match\<close>

definition bots_of :: "world \<Rightarrow> user list" where
  "bots_of w = sort_key usr_ID (filter usr_IsBot (w_users w))"

lemma user_row_mem: "u \<in> set (w_users w) \<Longrightarrow> user_row w (usr_ID u) \<noteq> None"
  by (auto simp: user_row_def find_None_iff)

lemma bots_of_props:
  assumes "distinct (map usr_ID (w_users w))"
  shows "distinct (map usr_ID (bots_of w))" "set (bots_of w) = {u \<in> set (w_users w). usr_IsBot u}"
  using assms by (auto simp: bots_of_def distinct_map intro: inj_on_subset)

lemma ListBots_ok: "env_ok env \<Longrightarrow> 0 < n \<Longrightarrow> ListBots env (int n) w = (w, Inr (take n (bots_of w)))"
  by (simp add: ListBots_def bots_of_def)

definition fillable :: "world \<Rightarrow> string \<Rightarrow> game_map \<Rightarrow> bool" where
  "fillable w mid mp \<longleftrightarrow> length (free_slots mp (map lp_Slot (players_of w mid))) \<le> length (filter usr_IsBot (w_users w))"

lemma fillBots_ok:
  assumes "env_ok env" "ls_bots svc" "ls_load svc mapID = Inr mp" "match_row w mid \<noteq> None"
    "distinct (map usr_ID (w_users w))" "fillable w mid mp"
    "\<forall>p\<in>set (players_of w mid). \<forall>u\<in>set (w_users w). usr_IsBot u \<longrightarrow> lp_UserID p \<noteq> usr_ID u"
  shows "\<exists>new. fillBots env svc mid mapID w = (w\<lparr>w_players := w_players w @ new\<rparr>, Inr ())
    \<and> map lp_Slot new = map msl_ID (free_slots mp (map lp_Slot (players_of w mid)))
    \<and> distinct (map lp_UserID new)
    \<and> (\<forall>p\<in>set new. lp_MatchID p = mid \<and> lp_ControlledByAI p \<and> lp_Alive p \<and> (\<exists>u\<in>set (w_users w). usr_IsBot u \<and> usr_ID u = lp_UserID p))"
proof -
  let ?occ = "map lp_Slot (players_of w mid)"
  let ?need = "length (free_slots mp ?occ)"
  have load: "load_map svc mapID Internal ''loading map'' w = (w, Inr mp)" by (simp add: load_map_def assms(3) ret_def)
  have env: "env_ok (esub env i)" for i using assms(1) by simp
  show ?thesis
  proof (cases "?need = 0")
    case True
    then have "fillBots env svc mid mapID w = (w, Inr ())"
      using assms(2) by (simp add: fillBots_def ebind_def on_err_def load ListPlayers_ok[OF env] Let_def ret_def)
    with True show ?thesis by (intro exI[of _ "[]"]) simp
  next
    case False
    let ?bots = "take ?need (bots_of w)"
    have len: "length ?bots = ?need" using assms(6) by (simp add: fillable_def bots_of_def)
    note B = bots_of_props[OF assms(5)]
    have sub: "set ?bots \<subseteq> {u \<in> set (w_users w). usr_IsBot u}" using set_take_subset[of ?need "bots_of w"] B(2) by blast
    have "fillBots env svc mid mapID w = seat_bots (esub env 2) mid ?occ (map_Slots mp) ?bots w"
      using assms(2) False len
      by (simp add: fillBots_def ebind_def on_err_def load ListPlayers_ok[OF env] ListBots_ok[OF env] Let_def)
    moreover have "\<exists>new. seat_bots (esub env 2) mid ?occ (map_Slots mp) ?bots w = (w\<lparr>w_players := w_players w @ new\<rparr>, Inr ())
      \<and> map lp_Slot new = map msl_ID (filter (\<lambda>sl. msl_ID sl \<notin> set ?occ) (map_Slots mp))
      \<and> map lp_UserID new = take (length new) (map usr_ID ?bots)
      \<and> (\<forall>p\<in>set new. lp_MatchID p = mid \<and> lp_ControlledByAI p \<and> lp_Alive p)"
    proof (rule seat_bots_ok[OF env assms(4)])
      show "\<forall>b\<in>set ?bots. user_row w (usr_ID b) \<noteq> None" using sub user_row_mem by blast
      show "distinct (map usr_ID ?bots)" using B(1) by (simp add: take_map[symmetric] distinct_take)
      show "\<forall>q\<in>set (w_players w). lp_MatchID q = mid \<longrightarrow> lp_UserID q \<notin> usr_ID ` set ?bots"
        using assms(7) sub by (auto simp: set_players_of dest!: subsetD)
      show "length (filter (\<lambda>sl. msl_ID sl \<notin> set ?occ) (map_Slots mp)) \<le> length ?bots"
        using len by (simp add: free_slots_def)
    qed
    ultimately obtain new where new: "fillBots env svc mid mapID w = (w\<lparr>w_players := w_players w @ new\<rparr>, Inr ())"
      "map lp_Slot new = map msl_ID (free_slots mp ?occ)" "map lp_UserID new = take (length new) (map usr_ID ?bots)"
      "\<forall>p\<in>set new. lp_MatchID p = mid \<and> lp_ControlledByAI p \<and> lp_Alive p" by (auto simp: free_slots_def)
    have "distinct (map lp_UserID new)" unfolding new(3) using B(1) by (simp add: take_map[symmetric] distinct_take)
    moreover have "\<exists>u\<in>set (w_users w). usr_IsBot u \<and> usr_ID u = lp_UserID p" if "p \<in> set new" for p
    proof -
      have "lp_UserID p \<in> set (take (length new) (map usr_ID ?bots))" using that unfolding new(3)[symmetric] by simp
      then have "lp_UserID p \<in> usr_ID ` set ?bots" by (metis in_set_takeD set_map)
      then obtain u where "u \<in> set ?bots" "usr_ID u = lp_UserID p" by auto
      with sub show ?thesis by blast
    qed
    ultimately show ?thesis using new(1,2,4) by blast
  qed
qed

lemma slot_assignments_keys: "fst ` set (foldl (\<lambda>sa p. mput (lp_Slot p) (lp_UserID p) sa) acc ps) = fst ` set acc \<union> lp_Slot ` set ps"
  by (induction ps arbitrary: acc) auto

lemma slot_assignments_other:
  "s \<notin> lp_Slot ` set ps \<Longrightarrow> map_of (foldl (\<lambda>sa p. mput (lp_Slot p) (lp_UserID p) sa) acc ps) s = map_of acc s"
  by (induction ps arbitrary: acc) auto

lemma slot_assignments_of:
  "distinct (map lp_Slot ps) \<Longrightarrow> q \<in> set ps \<Longrightarrow> map_of (foldl (\<lambda>sa p. mput (lp_Slot p) (lp_UserID p) sa) acc ps) (lp_Slot q) = Some (lp_UserID q)"
proof (induction ps arbitrary: acc)
  case (Cons p ps)
  then show ?case by (cases "q = p") (auto simp: slot_assignments_other)
qed simp

text \<open>Seats that are on the map, with what the bots fill, are the map's slots.\<close>

lemma all_slots:
  assumes "set occ \<subseteq> set (map msl_ID (map_Slots mp))" "distinct occ" "distinct (map msl_ID (map_Slots mp))"
  shows "distinct (occ @ map msl_ID (free_slots mp occ))" "set (occ @ map msl_ID (free_slots mp occ)) = set (map msl_ID (map_Slots mp))"
  using assms by (auto simp: free_slots_def distinct_map_filter)

lemma Start_step:
  assumes "env_ok env" "match_row w mid = Some m" "lm_Status m = StatusWaiting"
  shows "lobby_Start env svc mid w = publishStartWithFill (esub env 1) svc m w"
  using assms by (simp add: lobby_Start_def ebind_def on_err_def Get_ok)

definition starting :: "string \<Rightarrow> world \<Rightarrow> world" where
  "starting mid = update_match mid (\<lambda>m. lm_Status m = StatusWaiting) (\<lambda>m. m\<lparr>lm_Status := StatusStarting\<rparr>)"

lemma starting_row: "match_row w mid = Some m \<Longrightarrow> lm_Status m = StatusWaiting \<Longrightarrow> match_row (starting mid w) mid = Some (m\<lparr>lm_Status := StatusStarting\<rparr>)"
  unfolding starting_def by (subst match_row_update) simp_all

lemma starting_fields [simp]: "w_players (starting mid w) = w_players w" "w_users (starting mid w) = w_users w"
  "players_of (starting mid w) = players_of w" "w_starts (starting mid w) = w_starts w" "fillable (starting mid w) = fillable w"
  "user_row (starting mid w) = user_row w"
  by (simp_all add: starting_def fillable_def fun_eq_iff)

lemma publish_after_fill:
  assumes "env_ok env" "match_row w mid = Some m" "lm_Status m = StatusWaiting" "lm_ID m = mid"
    and fill: "fillBots (esub env 1) svc mid (lm_MapID m) (starting mid w) = (w2, Inr ())"
    and row: "match_row w2 mid = Some m2" "lm_Status m2 = StatusStarting" and n: "2 \<le> length (players_of w2 mid)"
  shows "\<exists>w' m3 p. publishStartWithFill env svc m w = (w', Inr \<lparr>mv_Match = m3, mv_Players = players_of w' mid\<rparr>)
    \<and> match_row w' mid = Some m3 \<and> lm_Status m3 = StatusActive \<and> players_of w' mid = players_of w2 mid \<and> w_players w' = w_players w2
    \<and> w_starts w' = w_starts w2 @ [p] \<and> sp_MatchID p = mid \<and> sp_MapID p = lm_MapID m \<and> sp_Speed p = lm_SpeedFactor m
    \<and> sp_SlotAssignments p = slot_assignments (players_of w2 mid)"
proof -
  have env: "env_ok (esub env i)" for i using assms(1) by simp
  let ?Q = "\<lambda>m. lm_Status m = StatusStarting"
  let ?f = "\<lambda>m. m\<lparr>lm_Status := StatusActive, lm_StartedAt := (case lm_StartedAt m of None \<Rightarrow> Some (env_now (esub env 3) []) | Some tm \<Rightarrow> Some tm)\<rparr>"
  define w3 where "w3 = update_match mid ?Q ?f w2"
  have row3: "match_row w3 mid = Some (?f m2)" unfolding w3_def using row by (subst match_row_update) simp_all
  have pl: "players_of w3 = players_of w2" "w_starts w3 = w_starts w2" "w_players w3 = w_players w2" by (simp_all add: w3_def)
  define p where "p = \<lparr>sp_MatchID = mid, sp_MapID = lm_MapID m, sp_Speed = lm_SpeedFactor m,
      sp_StartedAt = env_now (esub env 6) [], sp_SlotAssignments = slot_assignments (players_of w2 mid)\<rparr>"
  define w4 where "w4 = w3\<lparr>w_starts := w_starts w3 @ [p]\<rparr>"
  have start: "MarkStarting (esub env 0) mid w = (starting mid w, Inr ())"
    unfolding starting_def by (rule MarkStarting_ok[OF env assms(2,3)])
  have active: "MarkActive (esub env 3) mid w2 = (w3, Inr ())" unfolding w3_def by (rule MarkActive_ok[OF env])
  have pub: "PublishStart (esub env 5) p w3 = (w4, Inr ())"
    using env[of 5] by (simp add: PublishStart_def env_ok_def w4_def)
  have row4: "match_row w4 mid = Some (?f m2)" using row3 by (simp add: w4_def match_row_def)
  have pl4: "players_of w4 = players_of w2" using pl by (simp add: w4_def players_of_def fun_eq_iff)
  have "publishStartWithFill env svc m w = (w4, Inr \<lparr>mv_Match = ?f m2, mv_Players = players_of w4 mid\<rparr>)"
    unfolding publishStartWithFill_def assms(4)
    using n by (simp add: ebind_def on_err_def start fill[unfolded One_nat_def] ListPlayers_ok[OF env] active pl p_def[symmetric] pub View_ok[OF env row4])
  then show ?thesis
    using row4 pl4 pl by (intro exI[of _ w4] exI[of _ "?f m2"] exI[of _ p]) (simp add: p_def w4_def)
qed

text \<open>
  C29. Starting fills the match. When the map is known, at least two slots wide, every seat taken is a slot
  of the map of its own, enough bots exist for the free slots and none of the bots sits in this match
  already, starting a waiting match succeeds: the match becomes active, every slot of the map is seated
  exactly once, the seats that were taken are untouched and the others go to distinct bots, and exactly one
  start message is published, which assigns each slot to the user seated there.
\<close>

theorem start_fills_every_slot:
  assumes "env_ok env" "match_row w mid = Some m" "lm_Status m = StatusWaiting"
    and "ls_bots svc" "ls_load svc (lm_MapID m) = Inr mp" "distinct (map msl_ID (map_Slots mp))" "2 \<le> length (map_Slots mp)"
    and "distinct (map usr_ID (w_users w))" "fillable w mid mp"
    and "\<forall>p\<in>set (players_of w mid). \<forall>u\<in>set (w_users w). usr_IsBot u \<longrightarrow> lp_UserID p \<noteq> usr_ID u"
    and "distinct (map lp_Slot (players_of w mid))" "set (map lp_Slot (players_of w mid)) \<subseteq> set (map msl_ID (map_Slots mp))"
  shows "\<exists>w' m' new p. lobby_Start env svc mid w = (w', Inr \<lparr>mv_Match = m', mv_Players = players_of w' mid\<rparr>)
    \<and> match_row w' mid = Some m' \<and> lm_Status m' = StatusActive
    \<and> w_players w' = w_players w @ new \<and> distinct (map lp_UserID new)
    \<and> (\<forall>q\<in>set new. lp_MatchID q = mid \<and> lp_ControlledByAI q \<and> (\<exists>u\<in>set (w_users w). usr_IsBot u \<and> usr_ID u = lp_UserID q))
    \<and> distinct (map lp_Slot (players_of w' mid)) \<and> set (map lp_Slot (players_of w' mid)) = set (map msl_ID (map_Slots mp))
    \<and> w_starts w' = w_starts w @ [p] \<and> sp_MatchID p = mid \<and> sp_MapID p = lm_MapID m \<and> sp_Speed p = lm_SpeedFactor m
    \<and> (\<forall>s. map_of (sp_SlotAssignments p) s = map_option lp_UserID (find (\<lambda>q. lp_Slot q = s) (players_of w' mid)))"
proof -
  have env: "env_ok (esub env i)" for i using assms(1) by simp
  have ID: "lm_ID m = mid" using assms(2) by (auto simp: match_row_def dest: find_SomeD)
  note row1 = starting_row[OF assms(2,3)]
  let ?occ = "map lp_Slot (players_of w mid)"
  obtain new where fill: "fillBots (esub (esub env 1) 1) svc mid (lm_MapID m) (starting mid w) = (starting mid w\<lparr>w_players := w_players w @ new\<rparr>, Inr ())"
    and new: "map lp_Slot new = map msl_ID (free_slots mp ?occ)" "distinct (map lp_UserID new)"
      "\<forall>p\<in>set new. lp_MatchID p = mid \<and> lp_ControlledByAI p \<and> lp_Alive p \<and> (\<exists>u\<in>set (w_users w). usr_IsBot u \<and> usr_ID u = lp_UserID p)"
    using fillBots_ok[of "esub (esub env 1) 1" svc "lm_MapID m" mp "starting mid w" mid] env assms(4,5,8-10) row1 by auto
  let ?w2 = "starting mid w\<lparr>w_players := w_players w @ new\<rparr>"
  have pl: "players_of ?w2 mid = sort_key lp_Slot (filter (\<lambda>p. lp_MatchID p = mid) (w_players w) @ new)"
    using new(3) by (simp add: players_of_def filter_id_conv)
  have occ: "mset ?occ = mset (map lp_Slot (filter (\<lambda>p. lp_MatchID p = mid) (w_players w)))" by (simp add: players_of_def)
  have ms: "mset (map lp_Slot (players_of ?w2 mid)) = mset (?occ @ map msl_ID (free_slots mp ?occ))"
    unfolding pl using occ new(1)[symmetric] by simp
  note all = all_slots[OF assms(12,11,6)]
  have d2: "distinct (map lp_Slot (players_of ?w2 mid))" using ms all(1) mset_eq_imp_distinct_iff by blast
  have s2: "set (map lp_Slot (players_of ?w2 mid)) = set (map msl_ID (map_Slots mp))" using mset_eq_setD[OF ms] all(2) by simp
  have "length (players_of ?w2 mid) = card (set (map lp_Slot (players_of ?w2 mid)))" using distinct_card[OF d2] by simp
  also have "\<dots> = length (map_Slots mp)" unfolding s2 using distinct_card[OF assms(6)] by simp
  finally have n: "2 \<le> length (players_of ?w2 mid)" using assms(7) by simp
  have row2: "match_row ?w2 mid = Some (m\<lparr>lm_Status := StatusStarting\<rparr>)" using row1 by simp
  obtain w' m3 p where P: "publishStartWithFill (esub env 1) svc m w = (w', Inr \<lparr>mv_Match = m3, mv_Players = players_of w' mid\<rparr>)"
    "match_row w' mid = Some m3" "lm_Status m3 = StatusActive" "players_of w' mid = players_of ?w2 mid" "w_players w' = w_players ?w2"
    "w_starts w' = w_starts ?w2 @ [p]" "sp_MatchID p = mid" "sp_MapID p = lm_MapID m" "sp_Speed p = lm_SpeedFactor m"
    "sp_SlotAssignments p = slot_assignments (players_of ?w2 mid)"
    using publish_after_fill[OF env assms(2,3) ID fill row2 _ n] by auto
  have sa: "map_of (sp_SlotAssignments p) s = map_option lp_UserID (find (\<lambda>q. lp_Slot q = s) (players_of w' mid))" for s
  proof (cases "find (\<lambda>q. lp_Slot q = s) (players_of ?w2 mid)")
    case None
    then have "s \<notin> lp_Slot ` set (players_of ?w2 mid)" by (auto simp: find_None_iff)
    then show ?thesis unfolding P(10,4) using None by (simp add: slot_assignments_def slot_assignments_other)
  next
    case (Some q)
    then have "q \<in> set (players_of ?w2 mid)" "lp_Slot q = s" by (auto dest: find_SomeD)
    then show ?thesis unfolding P(10,4) using Some slot_assignments_of[OF d2] by (auto simp: slot_assignments_def)
  qed
  have "lobby_Start env svc mid w = (w', Inr \<lparr>mv_Match = m3, mv_Players = players_of w' mid\<rparr>)"
    using Start_step[OF assms(1-3)] P(1) by simp
  moreover have "w_players w' = w_players w @ new" "w_starts w' = w_starts w @ [p]" using P(5,6) by simp_all
  moreover have "distinct (map lp_Slot (players_of w' mid))" "set (map lp_Slot (players_of w' mid)) = set (map msl_ID (map_Slots mp))"
    using d2 s2 P(4) by simp_all
  ultimately show ?thesis using P(2,3,7-9) new(2,3) sa by blast
qed

definition waiting_pair :: world where
  "waiting_pair = sample_world StatusWaiting [sample_seat ''ann'' ''red'' None] [sample_user ''ann'' False, sample_user ''bot1'' True]"

lemma waiting_simps [simp]:
  "w_users waiting_pair = [sample_user ''ann'' False, sample_user ''bot1'' True]"
  "players_of waiting_pair ''m'' = [sample_seat ''ann'' ''red'' None]" "w_players waiting_pair = [sample_seat ''ann'' ''red'' None]"
  "match_row waiting_pair ''m'' = Some (sample_lobby_match StatusWaiting)"
  "usr_ID (sample_user u b) = u" "usr_IsBot (sample_user u b) = b" "lp_Slot (sample_seat u s t) = s" "lp_UserID (sample_seat u s t) = u"
  "lp_MatchID (sample_seat u s t) = ''m''" "map msl_ID (map_Slots pair_map) = [''red'', ''blue'']" "w_starts waiting_pair = []"
  "ls_bots pair_service" "ls_load pair_service i = Inr pair_map"
  by (simp_all add: waiting_pair_def sample_world_def players_of_def sample_user_def sample_seat_def match_row_def
      sample_lobby_match_def pair_map_def pair_service_def)

theorem start_fills_every_slot_witness:
  "\<exists>w' m' p. snd (lobby_Start (calm 7) pair_service ''m'' waiting_pair) = Inr \<lparr>mv_Match = m', mv_Players = players_of w' ''m''\<rparr>
     \<and> lm_Status m' = StatusActive \<and> set (map lp_Slot (players_of w' ''m'')) = {''red'', ''blue''} \<and> w_starts w' = [p]"
proof -
  have "fillable waiting_pair ''m'' pair_map"
    by (simp add: fillable_def free_slots_def pair_map_def)
  moreover have "2 \<le> length (map_Slots pair_map)" by (simp add: pair_map_def)
  ultimately show ?thesis
    using start_fills_every_slot[of "calm 7" waiting_pair "''m''" "sample_lobby_match StatusWaiting" pair_service pair_map]
    by (simp del: map_map) (metis snd_conv)
qed

lemma never_waiting_again: "CanTransitionTo\<^sup>*\<^sup>* st st' \<Longrightarrow> st \<noteq> StatusWaiting \<Longrightarrow> st' \<noteq> StatusWaiting"
proof (induction rule: rtranclp_induct)
  case (step y z)
  then show ?case by (cases y) auto
qed

text \<open>
  C30. A failed start strands the match. When a waiting match has fewer bots to draw on than free slots,
  starting it fails with a conflict, but leaves it marked as starting; from then on, whatever happens in the
  lobby, every attempt to start it fails.
\<close>

theorem failed_start_strands_match:
  assumes "env_ok env" "match_row w mid = Some m" "lm_Status m = StatusWaiting"
    and "ls_bots svc" "ls_load svc (lm_MapID m) = Inr mp" "\<not> fillable w mid mp"
    and "lobby_Start env svc mid w = (w', r)"
  shows "r = Inl (Coded Conflict ''not enough bot accounts configured'' None)
    \<and> match_row w' mid = Some (m\<lparr>lm_Status := StatusStarting\<rparr>)
    \<and> (\<forall>pu ops env'. \<exists>e. snd (lobby_Start env' svc mid (lobby_run pu svc ops w')) = Inl e)"
proof -
  have env: "env_ok (esub env i)" for i using assms(1) by simp
  have ID: "lm_ID m = mid" using assms(2) by (auto simp: match_row_def dest: find_SomeD)
  have start: "MarkStarting (esub (esub env 1) 0) mid w = (starting mid w, Inr ())"
    unfolding starting_def by (rule MarkStarting_ok[OF _ assms(2,3)]) (use assms(1) in simp)
  let ?need = "length (free_slots mp (map lp_Slot (players_of w mid)))"
  have short: "\<not> ?need \<le> length (filter usr_IsBot (w_users w))" using assms(6) by (simp add: fillable_def)
  have bots: "ListBots e (int ?need) (starting mid w) = (starting mid w, Inr (bots_of w))" if "env_ok e" for e
  proof -
    have "0 < ?need" using short by (cases "?need") simp_all
    from ListBots_ok[OF that this, of "starting mid w"] short show ?thesis by (simp add: bots_of_def)
  qed
  have len: "length (bots_of w) < ?need" using short by (simp add: bots_of_def)
  have ne: "free_slots mp (map lp_Slot (players_of w mid)) \<noteq> []" using short by auto
  have load: "load_map svc (lm_MapID m) Internal ''loading map'' v = (v, Inr mp)" for v by (simp add: load_map_def assms(5) ret_def)
  have "fillBots (esub (esub env 1) 1) svc mid (lm_MapID m) (starting mid w)
      = (starting mid w, Inl (Coded Conflict ''not enough bot accounts configured'' None))"
    using assms(1,4) len short ne
    by (simp add: fillBots_def ebind_def on_err_def load ListPlayers_ok Let_def bots raise_def errs_New_def)
  then have res: "lobby_Start env svc mid w = (starting mid w, Inl (Coded Conflict ''not enough bot accounts configured'' None))"
    unfolding Start_step[OF assms(1-3)] publishStartWithFill_def ID by (simp add: ebind_def on_err_def start[simplified])
  have row: "match_row w' mid = Some (m\<lparr>lm_Status := StatusStarting\<rparr>)"
    using starting_row[OF assms(2,3)] assms(7) res by simp
  have "\<exists>e. snd (lobby_Start env' svc mid (lobby_run pu svc ops w')) = Inl e" for pu ops env'
  proof -
    let ?v = "lobby_run pu svc ops w'"
    obtain m' where m': "match_row ?v mid = Some m'" "CanTransitionTo\<^sup>*\<^sup>* StatusStarting (lm_Status m')"
      using lifecycle_run[of w' pu svc ops] row unfolding lifecycle_def lifecycle_path_def by fastforce
    have "lm_Status m' \<noteq> StatusWaiting" by (rule never_waiting_again[OF m'(2)]) simp
    then show ?thesis
      using m'(1) by (auto simp: lobby_Start_def ebind_def on_err_def Matches_Get_def reading_def statement_def ret_def raise_def
          split: outcome.splits)
  qed
  with res row assms(7) show ?thesis by simp
qed

theorem failed_start_strands_match_witness:
  "snd (lobby_Start (calm 7) pair_service ''m'' (sample_world StatusWaiting [sample_seat ''ann'' ''red'' None] [sample_user ''ann'' False]))
     = Inl (Coded Conflict ''not enough bot accounts configured'' None)"
proof -
  let ?w = "sample_world StatusWaiting [sample_seat ''ann'' ''red'' None] [sample_user ''ann'' False]"
  have "\<not> fillable ?w ''m'' pair_map"
    by (simp add: fillable_def players_of_def free_slots_def pair_map_def sample_world_def)
  from failed_start_strands_match[OF env_ok_calm sample_row(1) sample_row(2) waiting_simps(12) waiting_simps(13) this] show ?thesis
    by (metis prod.collapse)
qed

section \<open>Joining\<close>

definition join_slot :: "game_map \<Rightarrow> slot list \<Rightarrow> slot \<Rightarrow> slot" where
  "join_slot mp taken s =
     (if s \<noteq> [] then s else case find (\<lambda>sl. msl_ID sl \<notin> set taken) (map_Slots mp) of Some sl \<Rightarrow> msl_ID sl | None \<Rightarrow> [])"

definition joined :: "env \<Rightarrow> game_map \<Rightarrow> string \<Rightarrow> user_id \<Rightarrow> slot \<Rightarrow> world \<Rightarrow> world" where
  "joined env mp mid uid c w = w\<lparr>w_players := w_players w @
     [(new_seat mid uid c (slotColor mp c) False)\<lparr>lp_LastSeenAt := None, lp_JoinedAt := env_now (esub env 3) []\<rparr>]\<rparr>"

lemma joined_seat:
  "\<exists>p. joined env mp mid uid c w = w\<lparr>w_players := w_players w @ [p]\<rparr> \<and> lp_MatchID p = mid \<and> lp_UserID p = uid \<and> lp_Slot p = c
     \<and> lp_Color p = slotColor mp c \<and> lp_Alive p \<and> \<not> lp_ControlledByAI p"
  unfolding joined_def by (rule exI, rule conjI, rule refl) (simp add: new_seat_def)

lemma join_eq:
  assumes "env_ok env" "match_row w mid = Some m" "ls_load svc (lm_MapID m) = Inr mp" "user_row w uid \<noteq> None"
  shows "lobby_Join env svc \<lparr>ji_MatchID = mid, ji_UserID = uid, ji_Slot = s\<rparr> w =
    (if lm_Status m \<noteq> StatusWaiting then (w, Inl (errs_New Conflict ''match already started''))
     else case find (\<lambda>p. lp_UserID p = uid) (players_of w mid) of
       Some p \<Rightarrow> (w, Inr \<lparr>jr_View = \<lparr>mv_Match = m, mv_Players = players_of w mid\<rparr>, jr_AlreadyJoined = True, jr_JoinedSlot = lp_Slot p\<rparr>)
     | None \<Rightarrow>
         let c = join_slot mp (map lp_Slot (players_of w mid)) s in
         if c = [] \<or> c \<in> lp_Slot ` set (players_of w mid) then (w, Inl (errs_New Conflict ''no free slot''))
         else if \<not> slotExistsOnMap mp c then (w, Inl (errs_New BadRequest ''slot does not exist on this map''))
         else (joined env mp mid uid c w,
               Inr \<lparr>jr_View = \<lparr>mv_Match = m, mv_Players = players_of (joined env mp mid uid c w) mid\<rparr>, jr_AlreadyJoined = False, jr_JoinedSlot = c\<rparr>))"
proof -
  have env: "env_ok (esub env i)" for i using assms(1) by simp
  have ID: "lm_ID m = mid" using assms(2) by (auto simp: match_row_def dest: find_SomeD)
  have load: "load_map svc (lm_MapID m) Internal ''loading map'' v = (v, Inr mp)" for v by (simp add: load_map_def assms(3) ret_def)
  have list: "ListPlayers_or_none (esub env i) mid v = (v, Inr (players_of v mid))" for i v
    by (simp add: ListPlayers_or_none_def ListPlayers_ok[OF env])
  have add: "AddPlayer (esub env 3) (new_seat mid uid c (slotColor mp c) False) w = (joined env mp mid uid c w, Inr ())"
    if "find (\<lambda>p. lp_UserID p = uid) (players_of w mid) = None" for c
    unfolding joined_def by (rule AddPlayer_new) (use assms that in \<open>auto simp: new_seat_def find_None_iff set_players_of\<close>)
  have row: "match_row (joined env mp mid uid c w) mid = Some m" for c using assms(2) by (simp add: joined_def)
  note ev = lobby_Join_def ebind_def on_err_def raise_def ret_def Let_def Get_ok[OF env assms(2)] load list ID View_ok[OF env assms(2)]
  show ?thesis
  proof (cases "find (\<lambda>p. lp_UserID p = uid) (players_of w mid)")
    case (Some p)
    then show ?thesis by (simp add: ev)
  next
    case None
    show ?thesis by (simp add: ev None join_slot_def add[OF None] View_ok[OF env row])
  qed
qed



end
