(* ===== verification/Jobs.thy ===== *)
theory Jobs
  imports LobbyFacts
begin

text \<open>
  What the background jobs do to the lobby's data when every statement succeeds: recording the end of a
  match, saving and loading snapshots, and exactly which matches the abandonment scan and which seats the
  takeover scan change.
\<close>

section \<open>Recording the end of a match\<close>

lemma users_SaveSnapshot: "w_users (fst (SaveSnapshot env mid sq e w)) = w_users w" "w_players (fst (SaveSnapshot env mid sq e w)) = w_players w"
  by (simp_all add: SaveSnapshot_def raise_def statement_def split: outcome.split)

lemma matches_Stats: "w_matches (fst (Stats_Upsert env row w)) = w_matches w"
  by (simp add: Stats_Upsert_def statement_def split: outcome.split)

definition sole_winner :: "match_state \<Rightarrow> lobby_player list \<Rightarrow> user_id option" where
  "sole_winner st players =
     (case remdups (map pys_ID (filter pys_Alive (ms_Players st))) of
        [sole] \<Rightarrow> map_option lp_UserID (find (\<lambda>p. lp_Slot p = sole) players)
      | _ \<Rightarrow> None)"

lemma winnerUserID_ok:
  "env_ok env \<Longrightarrow> winnerUserID env mid st w = (case sole_winner st (players_of w mid) of None \<Rightarrow> uuid_Nil | Some u \<Rightarrow> u)"
  by (simp add: winnerUserID_def sole_winner_def ListPlayers_ok split: list.split option.split)

lemma sole_winner_player: "sole_winner st (players_of w mid) = Some u \<Longrightarrow> \<exists>p\<in>set (w_players w). lp_UserID p = u"
  by (auto simp: sole_winner_def set_players_of split: list.splits dest!: find_SomeD)

lemma MarkEnded_ok:
  assumes "env_ok env" "\<And>u. winner = Some u \<Longrightarrow> user_row w u \<noteq> None"
  shows "MarkEnded env mid winner w = (update_match mid (\<lambda>_. True)
     (\<lambda>m. m\<lparr>lm_Status := StatusEnded, lm_EndedAt := Some (env_now env []), lm_WinnerUserID := winner\<rparr>) w, Inr ())"
  using assms by (auto simp: MarkEnded_def statement_ok update_match_def split: option.splits)

text \<open>
  C32. The end of a match is recorded whatever its status. When the final state of a known match arrives,
  its row is marked ended, with the user of the only player still alive as the winner and with no winner
  when two players are, even if the match had been abandoned, or had never started, from where the domain
  allows no such transition.
\<close>

theorem final_state_overrides_status:
  assumes "env_ok env" "match_row w mid = Some m" "se_State e = Some st" "parseUUID (se_MatchID e) = Some mid"
    and "\<forall>p\<in>set (w_players w). user_row w (lp_UserID p) \<noteq> None \<and> lp_UserID p \<noteq> uuid_Nil"
  shows "\<exists>m'. match_row (final_handle parseUUID env e w) mid = Some m' \<and> lm_Status m' = StatusEnded
    \<and> lm_WinnerUserID m' = sole_winner st (players_of w mid)
    \<and> (\<forall>p\<in>set (ms_Players st). \<forall>q\<in>set (ms_Players st). pys_Alive p \<and> pys_Alive q \<and> pys_ID p \<noteq> pys_ID q \<longrightarrow> lm_WinnerUserID m' = None)
    \<and> (lm_Status m \<noteq> StatusActive \<longrightarrow> \<not> CanTransitionTo (lm_Status m) StatusEnded)"
proof -
  have env: "env_ok (esub env i)" for i using assms(1) by simp
  define w1 where "w1 = fst (SaveSnapshot (esub env 0) mid (se_Seq e) e w)"
  have w1: "w_matches w1 = w_matches w" "w_users w1 = w_users w" "w_players w1 = w_players w"
    by (simp_all add: w1_def matches_SaveSnapshot users_SaveSnapshot)
  have row1: "match_row w1 mid = Some m" using assms(2) w1 by (simp add: match_row_def)
  have pl: "players_of w1 = players_of w" using w1 by (simp add: players_of_def fun_eq_iff)
  let ?win = "sole_winner st (players_of w mid)"
  have winner: "user_row w1 u \<noteq> None \<and> u \<noteq> uuid_Nil" if "?win = Some u" for u
    using sole_winner_player[OF that] assms(5) w1 by (auto simp: user_row_def)
  have uid: "(if winnerUserID (esub env 1) mid st w1 \<noteq> uuid_Nil then Some (winnerUserID (esub env 1) mid st w1) else None) = ?win"
    using winner unfolding winnerUserID_ok[OF env] pl by (cases ?win) auto
  let ?f = "\<lambda>m. m\<lparr>lm_Status := StatusEnded, lm_EndedAt := Some (env_now (esub env 2) []), lm_WinnerUserID := ?win\<rparr>"
  have "MarkEnded (esub env 2) mid ?win w1 = (update_match mid (\<lambda>_. True) ?f w1, Inr ())"
    by (rule MarkEnded_ok[OF env]) (use winner in blast)
  then have fin: "\<exists>row. final_handle parseUUID env e w = fst (Stats_Upsert (esub env 4) row (update_match mid (\<lambda>_. True) ?f w1))"
    unfolding final_handle_def assms(3,4) option.case Let_def w1_def[symmetric] uid by simp (rule exI, rule refl)
  then have "match_row (final_handle parseUUID env e w) mid = match_row (update_match mid (\<lambda>_. True) ?f w1) mid"
    by (auto simp: match_row_def matches_Stats)
  also have "\<dots> = Some (?f m)" using row1 by (subst match_row_update) simp_all
  finally have row: "match_row (final_handle parseUUID env e w) mid = Some (?f m)" .
  have two: "?win = None" if "p \<in> set (ms_Players st)" "q \<in> set (ms_Players st)" "pys_Alive p" "pys_Alive q" "pys_ID p \<noteq> pys_ID q" for p q
  proof -
    let ?l = "remdups (map pys_ID (filter pys_Alive (ms_Players st)))"
    have "pys_ID p \<in> set ?l" "pys_ID q \<in> set ?l" using that by auto
    then show ?thesis using that(5) by (cases ?l; cases "tl ?l") (auto simp: sole_winner_def)
  qed
  have "\<not> CanTransitionTo (lm_Status m) StatusEnded" if "lm_Status m \<noteq> StatusActive"
    using that by (cases "lm_Status m") auto
  with row two show ?thesis by (intro exI[of _ "?f m"]) auto
qed

section \<open>Snapshots\<close>

lemma sort_key_least:
  assumes "x \<in> set xs" "\<And>y. y \<in> set xs \<Longrightarrow> y \<noteq> x \<Longrightarrow> (k x :: 'k :: linorder) < k y"
  shows "\<exists>ys. sort_key k xs = x # ys"
proof -
  have "sort_key k xs \<noteq> []" using assms(1) by (metis empty_iff empty_set set_sort)
  then obtain y ys where s: "sort_key k xs = y # ys" by (cases "sort_key k xs") auto
  have "set (y # ys) = set xs" unfolding s[symmetric] by simp
  then have y: "y \<in> set xs" and x: "x \<in> set (y # ys)" using assms(1) by auto
  have "sorted (map k (y # ys))" unfolding s[symmetric] by (rule sorted_sort_key)
  with x have "k y \<le> k x" by auto
  then have "y = x" using assms(2)[OF y] by (cases "y = x") auto
  with s show ?thesis by blast
qed

text \<open>
  Snapshots round-trip. Saving a snapshot of a known match whose sequence number fits the column, has not
  been saved yet and is newer than the others, and then loading the latest one, gives back that
  snapshot and its sequence number.
\<close>

theorem snapshot_roundtrip:
  assumes "env_ok env" "env_ok env'" "match_row w mid \<noteq> None" "sq \<le> 2 ^ 62"
    and "\<forall>r\<in>set (w_snapshots w). sr_MatchID r = mid \<longrightarrow> sr_Seq r \<noteq> uint sq \<and> sr_TakenAt r < env_now env []"
    and "SaveSnapshot env mid sq e w = (w', r)"
  shows "r = Inr () \<and> LatestSnapshot env' mid w' = (w', Inr (Some e, sq))"
proof -
  have "uint sq \<le> uint (2 ^ 62 :: 64 word)" using assms(4) by (simp only: word_le_def)
  then have "uint sq < 2 ^ 63" by simp
  then have s: "sint sq = uint sq" using signed_take_bit_int_eq_self[of 63 "uint sq"] order_trans[OF _ uint_ge_0, of "- (2 ^ 63)" sq] by (simp add: sint_uint)
  have nn: "\<not> sint sq < 0" unfolding s by simp
  let ?row = "\<lparr>sr_MatchID = mid, sr_Seq = sint sq, sr_TakenAt = env_now env [], sr_Payload = e\<rparr>"
  have new: "\<not> list_ex (\<lambda>r. sr_MatchID r = mid \<and> sr_Seq r = sint sq) (w_snapshots w)"
    using assms(5) s by (auto simp: list_ex_iff)
  have sv: "SaveSnapshot env mid sq e w = (w\<lparr>w_snapshots := w_snapshots w @ [?row]\<rparr>, Inr ())"
    using assms(1,3,4) new by (auto simp: SaveSnapshot_def maxSnapshotSeq_def statement_ok not_less)
  let ?rows = "filter (\<lambda>r. sr_MatchID r = mid) (w_snapshots w) @ [?row]"
  obtain ys where ys: "sort_key (\<lambda>r. - sr_TakenAt r) ?rows = ?row # ys"
    using sort_key_least[of ?row ?rows "\<lambda>r. - sr_TakenAt r"] assms(5) by fastforce
  have "LatestSnapshot env' mid w' = (w', Inr (Some e, word_of_int (sint sq)))"
    using assms(2,6) sv nn ys by (auto simp: LatestSnapshot_def ebind_def ret_def)
  then show ?thesis using assms(6) sv by simp
qed

section \<open>Scans\<close>

text \<open>Every clock reading in a run of a job gives the same time.\<close>

definition still :: "env \<Rightarrow> time \<Rightarrow> bool" where
  "still env now \<longleftrightarrow> (\<forall>p. env_now env p = now)"

lemma still_esub [simp]: "still env now \<Longrightarrow> still (esub env i) now"
  by (simp add: still_def esub_def)

lemma still_calm [simp]: "still (calm t) t"
  by (simp add: still_def calm_def)

text \<open>Some player is alive, and every one under human control was last seen more than \<open>secs\<close> seconds ago.\<close>

definition silent :: "world \<Rightarrow> time \<Rightarrow> int \<Rightarrow> string \<Rightarrow> bool" where
  "silent w now secs mid \<longleftrightarrow>
     (\<exists>p\<in>set (w_players w). lp_MatchID p = mid \<and> lp_Alive p) \<and>
     (\<forall>p\<in>set (w_players w). lp_MatchID p = mid \<and> lp_Alive p \<and> \<not> lp_ControlledByAI p \<longrightarrow>
        (\<exists>tm. lp_LastSeenAt p = Some tm \<and> tm < now - secs * Second))"

lemma Candidate_ok:
  assumes "env_ok env" "still env now"
  shows "MatchAbandonedCandidate env mid secs w = (w, Inr (silent w now secs mid))"
proof -
  have "(case lp_LastSeenAt p of None \<Rightarrow> True | Some tm \<Rightarrow> \<not> before_silence now secs tm)
      \<longleftrightarrow> \<not> (\<exists>tm. lp_LastSeenAt p = Some tm \<and> tm < now - secs * Second)" for p
    by (auto simp: before_silence_def split: option.splits)
  moreover have "env_now env [] = now" using assms(2) by (simp add: still_def)
  ultimately show ?thesis
    using assms(1) by (simp add: MatchAbandonedCandidate_def silent_def list_ex_iff) blast
qed

definition abandon_rows :: "time \<Rightarrow> string set \<Rightarrow> world \<Rightarrow> world" where
  "abandon_rows now mids w = w\<lparr>w_matches := update_where (\<lambda>m. lm_ID m \<in> mids \<and> lm_Status m = StatusActive)
     (\<lambda>m. m\<lparr>lm_Status := StatusAbandoned, lm_EndedAt := Some now\<rparr>) (w_matches w)\<rparr>"

lemma silent_rows [simp]: "silent (abandon_rows now mids w) = silent w" "silent (w\<lparr>w_ends := es\<rparr>) = silent w"
  by (simp_all add: silent_def abandon_rows_def fun_eq_iff)

lemma abandon_rows_rows: "abandon_rows now a (w\<lparr>w_ends := es\<rparr>) = (abandon_rows now a w)\<lparr>w_ends := es\<rparr>"
  "abandon_rows now b (abandon_rows now a w) = abandon_rows now (a \<union> b) w" "w_ends (abandon_rows now a w) = w_ends w"
proof -
  let ?f = "\<lambda>m. m\<lparr>lm_Status := StatusAbandoned, lm_EndedAt := Some now\<rparr>"
  have "update_where (\<lambda>m. lm_ID m \<in> b \<and> lm_Status m = StatusActive) ?f (update_where (\<lambda>m. lm_ID m \<in> a \<and> lm_Status m = StatusActive) ?f ms)
      = update_where (\<lambda>m. lm_ID m \<in> a \<union> b \<and> lm_Status m = StatusActive) ?f ms" for ms
    by (auto simp: update_where_def)
  from arg_cong[OF this[of "w_matches w"], of "\<lambda>ms. w\<lparr>w_matches := ms\<rparr>"]
  show "abandon_rows now b (abandon_rows now a w) = abandon_rows now (a \<union> b) w" by (simp add: abandon_rows_def)
qed (simp_all add: abandon_rows_def)

lemma MarkAbandoned_ok: "env_ok env \<Longrightarrow> still env now \<Longrightarrow> MarkAbandoned env mid w = (abandon_rows now {mid} w, Inr ())"
  by (simp add: MarkAbandoned_def statement_ok abandon_rows_def still_def)

definition end_messages :: "lobby_match list \<Rightarrow> end_match_payload list" where
  "end_messages ms = map (\<lambda>m. \<lparr>ep_MatchID = lm_ID m, ep_Reason = ''abandoned''\<rparr>) ms"

lemma abandon_each_ok:
  assumes "env_ok env" "still env now"
  shows "abandon_each env secs ms w =
    (abandon_rows now (lm_ID ` {m \<in> set ms. silent w now secs (lm_ID m)}) w)
      \<lparr>w_ends := w_ends w @ end_messages (filter (\<lambda>m. silent w now secs (lm_ID m)) ms)\<rparr>"
  using assms
proof (induction ms arbitrary: env w)
  case Nil
  then show ?case by (simp add: abandon_rows_def end_messages_def update_where_def)
next
  case (Cons m ms)
  have env: "env_ok (esub env i)" "still (esub env i) now" for i using Cons.prems by simp_all
  note cand = Candidate_ok[OF env, of _ "lm_ID m" secs w]
  show ?case
  proof (cases "silent w now secs (lm_ID m)")
    case False
    then have "{x \<in> set (m # ms). silent w now secs (lm_ID x)} = {x \<in> set ms. silent w now secs (lm_ID x)}" by auto
    with False Cons.IH[OF env] show ?thesis by (simp add: cand)
  next
    case True
    let ?w2 = "(abandon_rows now {lm_ID m} w)\<lparr>w_ends := w_ends w @ [\<lparr>ep_MatchID = lm_ID m, ep_Reason = ''abandoned''\<rparr>]\<rparr>"
    have "abandon_each env secs (m # ms) w = abandon_each (esub env 3) secs ms ?w2"
      using True env(1)[of 2] by (simp add: cand MarkAbandoned_ok[OF env, simplified] PublishEndMatch_def env_ok_def abandon_rows_rows)
    also have "\<dots> = (abandon_rows now (lm_ID ` {x \<in> set ms. silent w now secs (lm_ID x)}) ?w2)
      \<lparr>w_ends := w_ends ?w2 @ end_messages (filter (\<lambda>x. silent w now secs (lm_ID x)) ms)\<rparr>"
      unfolding Cons.IH[OF env] by simp
    finally have e: "abandon_each env secs (m # ms) w = \<dots>" .
    have "{x \<in> set (m # ms). silent w now secs (lm_ID x)} = insert m {x \<in> set ms. silent w now secs (lm_ID x)}"
      using True by auto
    then show ?thesis unfolding e using True by (simp add: abandon_rows_rows end_messages_def)
  qed
qed


definition due :: "world \<Rightarrow> time \<Rightarrow> int \<Rightarrow> lobby_player \<Rightarrow> bool" where
  "due w now secs p \<longleftrightarrow> match_status_is w (lp_MatchID p) StatusActive \<and> lp_Alive p \<and> \<not> lp_ControlledByAI p \<and>
     (\<exists>tm. lp_LastSeenAt p = Some tm \<and> tm < now - secs * Second)"

definition seat_key :: "lobby_player \<Rightarrow> string \<times> slot" where
  "seat_key p = (lp_MatchID p, lp_Slot p)"

definition takeover_of :: "lobby_player \<Rightarrow> takeover_event" where
  "takeover_of p = \<lparr>te_MatchID = lp_MatchID p, te_Slot = lp_Slot p, te_PrevUserID = lp_UserID p\<rparr>"

lemma Slots_ok:
  assumes "env_ok env" "still env now" "0 < threshold"
  shows "SlotsNeedingTakeover env threshold w
    = (w, Inr (map inactive_of (sort_key seat_key (filter (due w now (trunc (duration_seconds threshold))) (w_players w)))))"
proof -
  have c: "(case lp_LastSeenAt p of None \<Rightarrow> False | Some tm \<Rightarrow> before_silence (env_now env []) secs tm)
      \<longleftrightarrow> (\<exists>tm. lp_LastSeenAt p = Some tm \<and> tm < now - secs * Second)" for p secs
    using assms(2) by (auto simp: before_silence_def still_def split: option.splits)
  show ?thesis
    unfolding SlotsNeedingTakeover_def due_def[abs_def] seat_key_def[abs_def] c using assms(1,3) by simp
qed

definition hand_over :: "(string \<times> slot) set \<Rightarrow> world \<Rightarrow> world" where
  "hand_over K w = w\<lparr>w_players := update_where (\<lambda>p. seat_key p \<in> K \<and> \<not> lp_ControlledByAI p) (\<lambda>p. p\<lparr>lp_ControlledByAI := True\<rparr>) (w_players w)\<rparr>"

lemma seat_key_upd [simp]: "seat_key (p\<lparr>lp_ControlledByAI := b\<rparr>) = seat_key p"
  by (simp add: seat_key_def)

lemma ByAI_ok:
  assumes "env_ok env" "p \<in> set (w_players w)" "seat_key p = (mid, s)" "\<not> lp_ControlledByAI p"
  shows "MarkControlledByAI env mid s True w = (hand_over {(mid, s)} w, Inr True)"
proof -
  have "in_seat mid s q \<longleftrightarrow> seat_key q = (mid, s)" for q by (simp add: in_seat_def seat_key_def)
  moreover have "filter (\<lambda>q. seat_key q = (mid, s) \<and> \<not> lp_ControlledByAI q) (w_players w) \<noteq> []"
    using assms(2-4) by (auto simp: filter_empty_conv)
  ultimately show ?thesis
    using assms(1) by (simp add: MarkControlledByAI_def statement_ok hand_over_def affected_def Let_def)
qed

lemma hand_over_twice:
  "hand_over b (w\<lparr>w_takeovers := ts\<rparr>) = (hand_over b w)\<lparr>w_takeovers := ts\<rparr>"
  "w_takeovers (hand_over b w) = w_takeovers w"
  "hand_over b (hand_over a w) = hand_over (a \<union> b) w"
proof -
  let ?f = "\<lambda>p. p\<lparr>lp_ControlledByAI := True\<rparr>"
  have "update_where (\<lambda>p. seat_key p \<in> b \<and> \<not> lp_ControlledByAI p) ?f (update_where (\<lambda>p. seat_key p \<in> a \<and> \<not> lp_ControlledByAI p) ?f ps)
      = update_where (\<lambda>p. seat_key p \<in> a \<union> b \<and> \<not> lp_ControlledByAI p) ?f ps" for ps
    by (auto simp: update_where_def)
  from arg_cong[OF this[of "w_players w"], of "\<lambda>ps. w\<lparr>w_players := ps\<rparr>"]
  show "hand_over b (hand_over a w) = hand_over (a \<union> b) w" by (simp add: hand_over_def)
qed (simp_all add: hand_over_def)

lemma takeover_each_ok:
  assumes "env_ok env" "distinct (map seat_key ps)" "\<forall>p\<in>set ps. p \<in> set (w_players w) \<and> \<not> lp_ControlledByAI p"
  shows "takeover_each env (map inactive_of ps) w
    = (hand_over (seat_key ` set ps) w)\<lparr>w_takeovers := w_takeovers w @ map takeover_of ps\<rparr>"
  using assms
proof (induction ps arbitrary: env w)
  case Nil
  then show ?case by (simp add: hand_over_def update_where_def)
next
  case (Cons p ps)
  have env: "env_ok (esub env i)" for i using Cons.prems by simp
  have mark: "MarkControlledByAI (esub env 0) (lp_MatchID p) (lp_Slot p) True w = (hand_over {seat_key p} w, Inr True)"
    unfolding seat_key_def by (rule ByAI_ok[OF env]) (use Cons.prems in \<open>auto simp: seat_key_def\<close>)
  let ?w = "(hand_over {seat_key p} w)\<lparr>w_takeovers := w_takeovers w @ [takeover_of p]\<rparr>"
  have "takeover_each env (map inactive_of (p # ps)) w = takeover_each (esub env 2) (map inactive_of ps) ?w"
    using env[of 1] by (simp add: inactive_of_def mark publishTakeoverEvent_def takeover_of_def env_ok_def hand_over_twice)
  also have "\<dots> = (hand_over (seat_key ` set ps) ?w)\<lparr>w_takeovers := w_takeovers ?w @ map takeover_of ps\<rparr>"
  proof (rule Cons.IH[OF env])
    show "\<forall>q\<in>set ps. q \<in> set (w_players ?w) \<and> \<not> lp_ControlledByAI q"
    proof
      fix q assume q: "q \<in> set ps"
      then have "q \<in> set (w_players w)" "\<not> lp_ControlledByAI q" "seat_key q \<noteq> seat_key p"
        using Cons.prems(2,3) by (simp, simp, metis distinct.simps(2) image_eqI list.simps(9) set_map)
      then show "q \<in> set (w_players ?w) \<and> \<not> lp_ControlledByAI q"
        by (auto simp: hand_over_def update_where_def image_iff intro: bexI[of _ q])
    qed
  qed (use Cons.prems in simp)
  finally show ?case by (simp add: hand_over_twice insert_is_Un[symmetric])
qed

text \<open>
  The takeover scan is exact. With one clock reading, no failing statement, and every slot of a match
  seated once, the scan hands to the AI exactly the living human seats of active matches that have been seen,
  but not within the threshold, announces each of them once, and changes nothing else. A seat never seen
  is never taken over.
\<close>

theorem takeover_scan_exact:
  assumes "env_ok env" "still env now" "0 < threshold" "distinct (map seat_key (w_players w))"
  shows "let isDue = due w now (trunc (duration_seconds threshold)); w' = presence_scan env threshold w in
     w_players w' = map (\<lambda>p. if isDue p then p\<lparr>lp_ControlledByAI := True\<rparr> else p) (w_players w)
     \<and> mset (w_takeovers w') = mset (w_takeovers w) + mset (map takeover_of (filter isDue (w_players w)))
     \<and> w_matches w' = w_matches w \<and> w_users w' = w_users w \<and> w_starts w' = w_starts w \<and> w_ends w' = w_ends w"
proof -
  let ?due = "due w now (trunc (duration_seconds threshold))"
  let ?ps = "sort_key seat_key (filter ?due (w_players w))"
  have env: "env_ok (esub env i)" "still (esub env i) now" for i using assms by simp_all
  have d: "distinct (map seat_key ?ps)"
  proof -
    have "distinct (map seat_key (filter ?due (w_players w)))" using assms(4) by (simp add: distinct_map_filter)
    moreover have "mset (map seat_key ?ps) = mset (map seat_key (filter ?due (w_players w)))" by simp
    ultimately show ?thesis using mset_eq_imp_distinct_iff by blast
  qed
  have "\<forall>p\<in>set ?ps. p \<in> set (w_players w) \<and> \<not> lp_ControlledByAI p" by (auto simp: due_def)
  note each = takeover_each_ok[OF env(1) d this]
  have scan: "presence_scan env threshold w = (hand_over (seat_key ` set ?ps) w)\<lparr>w_takeovers := w_takeovers w @ map takeover_of ?ps\<rparr>"
    by (simp add: presence_scan_def Slots_ok[OF env assms(3)] each del: One_nat_def)
  have key: "seat_key p \<in> seat_key ` set ?ps \<and> \<not> lp_ControlledByAI p \<longleftrightarrow> ?due p" if "p \<in> set (w_players w)" for p
  proof -
    have "p = q" if "q \<in> set (w_players w)" "seat_key p = seat_key q" for q
      using assms(4) \<open>p \<in> set (w_players w)\<close> that by (auto simp: distinct_map inj_on_def)
    then show ?thesis using that by (auto simp: due_def)
  qed
  have "w_players (hand_over (seat_key ` set ?ps) w) = map (\<lambda>p. if ?due p then p\<lparr>lp_ControlledByAI := True\<rparr> else p) (w_players w)"
    unfolding hand_over_def update_where_def using key by (auto intro!: map_cong)
  then show ?thesis
    unfolding Let_def scan by (simp add: hand_over_def)
qed

section \<open>Examples\<close>

definition busy_world :: world where
  "busy_world = sample_world StatusActive [sample_seat ''ann'' ''red'' (Some 0), sample_seat ''bob'' ''blue'' (Some (4 * Hour))]
     [sample_user ''ann'' False, sample_user ''bob'' False]"

definition final_envelope :: state_envelope where
  "final_envelope = \<lparr>se_MatchID = ''m'', se_Seq = 9, se_SentAt = 0,
     se_State = Some \<lparr>ms_MatchID = ''m'', ms_Tick = 0, ms_GameTime = 0, ms_Provinces = [], ms_Units = [],
       ms_Players = [\<lparr>pys_ID = ''red'', pys_Name = [], pys_Color = [], pys_Alive = True\<rparr>,
                     \<lparr>pys_ID = ''blue'', pys_Name = [], pys_Color = [], pys_Alive = True\<rparr>],
       ms_Resources = [], ms_Buildings = [], ms_Queues = \<lparr>qs_Recruits = [], qs_Constructions = []\<rparr>, ms_Diplomacy = [], ms_Pacts = []\<rparr>\<rparr>"

theorem final_state_overrides_status_witness:
  "\<exists>m'. match_row (final_handle Some (calm 1) final_envelope (sample_world StatusAbandoned [] [])) ''m'' = Some m' \<and> lm_Status m' = StatusEnded
     \<and> \<not> CanTransitionTo StatusAbandoned StatusEnded"
  using final_state_overrides_status[OF env_ok_calm sample_row(1)[of StatusAbandoned "[]" "[]"], of final_envelope _ Some 1]
  by (auto simp: final_envelope_def sample_world_def)

theorem snapshot_roundtrip_witness:
  "LatestSnapshot (calm 2) ''m'' (fst (SaveSnapshot (calm 1) ''m'' 9 final_envelope (sample_world StatusActive [] [])))
     = (fst (SaveSnapshot (calm 1) ''m'' 9 final_envelope (sample_world StatusActive [] [])), Inr (Some final_envelope, 9))"
proof -
  have "match_row (sample_world StatusActive [] []) ''m'' \<noteq> None" "(9 :: 64 word) \<le> 2 ^ 62"
    "\<forall>r\<in>set (w_snapshots (sample_world StatusActive [] [])). sr_MatchID r = ''m'' \<longrightarrow> sr_Seq r \<noteq> uint (9 :: 64 word) \<and> sr_TakenAt r < env_now (calm 1) []"
    by (simp, simp, simp add: sample_world_def)
  from snapshot_roundtrip[OF env_ok_calm[of 1] env_ok_calm[of 2] this prod.collapse[symmetric], of final_envelope] show ?thesis by blast
qed


theorem takeover_scan_exact_witness:
  "map lp_ControlledByAI (w_players (presence_scan (calm (5 * Hour)) (2 * Hour) busy_world)) = [True, False]"
proof -
  have t: "trunc (duration_seconds (2 * Hour)) = 7200" by (simp add: trunc_def duration_seconds_def duration_defs)
  have p: "w_players busy_world = [sample_seat ''ann'' ''red'' (Some 0), sample_seat ''bob'' ''blue'' (Some (4 * Hour))]"
    by (simp add: busy_world_def sample_world_def)
  have d: "due busy_world (5 * Hour) 7200 (sample_seat ''ann'' ''red'' (Some 0))"
    "\<not> due busy_world (5 * Hour) 7200 (sample_seat ''bob'' ''blue'' (Some (4 * Hour)))"
    by (simp_all add: due_def match_status_is_def busy_world_def sample_world_def sample_seat_def sample_lobby_match_def duration_defs)
  have "0 < 2 * Hour" "distinct (map seat_key (w_players busy_world))" by (simp_all add: duration_defs p seat_key_def)
  from takeover_scan_exact[OF env_ok_calm still_calm this] show ?thesis
    unfolding Let_def t p using d by (simp add: sample_seat_def)
qed

end
