(* ===== verification/Vision.thy ===== *)
theory Vision
  imports Visibility
begin

text \<open>
  What the visibility code computes: the viewers of a slot and their cache, the provinces and units it
  sees, the independence of a batch's answers from one another, who is told of an event, and what a
  filtered snapshot contains.
\<close>

section \<open>The contributors\<close>

lemma compute_fold:
  "set (foldl (\<lambda>out other. if other \<in> set out then out else if Q other then out @ [other] else out) c xs)
     = set c \<union> {x \<in> set xs. Q x}"
  by (induction xs arbitrary: c) auto

definition viewers :: "match \<Rightarrow> slot \<Rightarrow> slot set" where
  "viewers m s = set (Coalition (m_Diplomacy m) s (SlotIDs m)) \<union> {x \<in> set (SlotIDs m). HasPact (m_Diplomacy m) x s ShareMap}"

lemma Coalition_ally: "x \<in> set all \<Longrightarrow> Stance r s x = Alliance \<Longrightarrow> x \<in> set (Coalition r s all)"
  by (auto simp: set_Coalition reach_coalition_def alliance_edges_def)

lemma set_compute: "set (computeViewerContributors m s) = viewers m s"
  using Coalition_ally[of _ "SlotIDs m" "m_Diplomacy m" s]
  by (auto simp: computeViewerContributors_def viewers_def Let_def compute_fold SeesThrough_def HasPact_def)

lemma self_viewer: "s \<in> viewers m s"
  by (simp add: viewers_def)

section \<open>The cache of contributors\<close>

definition contributors_under :: "registry \<Rightarrow> slot list \<Rightarrow> slot \<Rightarrow> slot list" where
  "contributors_under r allSlots s =
     foldl (\<lambda>out other. if other \<in> set out then out else if SeesThrough r s other then out @ [other] else out)
       (Coalition r s allSlots) allSlots"

lemma compute_under: "computeViewerContributors m s = contributors_under (m_Diplomacy m) (SlotIDs m) s"
  by (simp add: computeViewerContributors_def contributors_under_def Let_def)

text \<open>The cache was filled under the registry \<open>r\<close>, and records its version.\<close>

definition cache_of :: "registry \<Rightarrow> match \<Rightarrow> bool" where
  "cache_of r m \<longleftrightarrow> (\<forall>cs. m_VisContributors m = Some cs \<longrightarrow>
     m_VisContributorVersion m = reg_version r \<and>
     (\<forall>s c. map_of cs s = Some c \<longrightarrow> c = contributors_under r (SlotIDs m) s))"

text \<open>The two matches differ at most in the cache.\<close>

definition same_match :: "match \<Rightarrow> match \<Rightarrow> bool" where
  "same_match m' m \<longleftrightarrow> (\<exists>v c. m' = m\<lparr>m_VisContributors := c, m_VisContributorVersion := v\<rparr>)"

lemma same_match_refl [simp]: "same_match m m"
  unfolding same_match_def by (rule exI[of _ "m_VisContributorVersion m"], rule exI[of _ "m_VisContributors m"]) simp

lemma same_match_trans: "same_match c b \<Longrightarrow> same_match b a \<Longrightarrow> same_match c a"
  unfolding same_match_def by (elim exE, simp) (rule exI, rule exI, rule refl)

lemma same_matchD:
  assumes "same_match m' m"
  shows "m_Diplomacy m' = m_Diplomacy m" "m_Players m' = m_Players m" "m_Provinces m' = m_Provinces m" "m_Units m' = m_Units m"
    "m_Map m' = m_Map m" "m_Buildings m' = m_Buildings m" "m_Resources m' = m_Resources m" "m_NextRecruit m' = m_NextRecruit m"
    "m_NextBuild m' = m_NextBuild m" "m_ID m' = m_ID m" "m_Tick m' = m_Tick m" "m_GameNow m' = m_GameNow m" "m_Timeline m' = m_Timeline m"
  using assms by (auto simp: same_match_def)

lemma SlotIDs_upd [simp]:
  "SlotIDs (m\<lparr>m_VisContributors := a\<rparr>) = SlotIDs m" "SlotIDs (m\<lparr>m_VisContributorVersion := v\<rparr>) = SlotIDs m"
  by (simp_all add: SlotIDs_def)

lemma compute_upd [simp]:
  "computeViewerContributors (m\<lparr>m_VisContributors := a\<rparr>) s = computeViewerContributors m s"
  "computeViewerContributors (m\<lparr>m_VisContributorVersion := v\<rparr>) s = computeViewerContributors m s"
  by (simp_all add: compute_under)

text \<open>What \<open>viewerContributors\<close> does when its cache holds and when it does not.\<close>

lemma viewerContributors_fresh:
  assumes "m_VisContributors m = Some cs" "m_VisContributorVersion m = reg_version (m_Diplomacy m)"
  shows "viewerContributors m s =
    (case map_of cs s of
       Some c \<Rightarrow> (m, c)
     | None \<Rightarrow> (m\<lparr>m_VisContributors := Some (mput s (computeViewerContributors m s) cs)\<rparr>, computeViewerContributors m s))"
  using assms by (cases "map_of cs s") (simp_all add: viewerContributors_def Let_def)

lemma viewerContributors_stale:
  assumes "\<not> (\<exists>cs. m_VisContributors m = Some cs \<and> m_VisContributorVersion m = reg_version (m_Diplomacy m))"
  shows "viewerContributors m s =
    (m\<lparr>m_VisContributors := Some [(s, computeViewerContributors m s)], m_VisContributorVersion := reg_version (m_Diplomacy m)\<rparr>,
     computeViewerContributors m s)"
  using assms by (auto simp: viewerContributors_def Let_def)

lemma viewerContributors_spec:
  assumes "cache_of r m" "m_Diplomacy m = reg_run ops r" "length ops < 2 ^ 62"
  shows "snd (viewerContributors m s) = computeViewerContributors m s \<and> same_match (fst (viewerContributors m s)) m
    \<and> cache_of (m_Diplomacy m) (fst (viewerContributors m s))"
proof (cases "\<exists>cs. m_VisContributors m = Some cs \<and> m_VisContributorVersion m = reg_version (m_Diplomacy m)")
  case True
  then obtain cs where cs: "m_VisContributors m = Some cs" "m_VisContributorVersion m = reg_version (m_Diplomacy m)" by blast
  have "reg_version (reg_run ops r) = reg_version r" using cs assms(1,2) by (simp add: cache_of_def)
  from reg_run_same_version[OF assms(3) this] assms(2) have r: "m_Diplomacy m = r" by simp
  have entry: "c = computeViewerContributors m s'" if "map_of cs s' = Some c" for s' c
    using assms(1) cs that r by (simp add: cache_of_def compute_under)
  show ?thesis
  proof (cases "map_of cs s")
    case None
    have "same_match (m\<lparr>m_VisContributors := Some (mput s (computeViewerContributors m s) cs)\<rparr>) m"
      unfolding same_match_def by (rule exI[of _ "m_VisContributorVersion m"], rule exI) simp
    then show ?thesis
      using entry by (simp add: viewerContributors_fresh[OF cs] None cache_of_def cs compute_under)
  next
    case (Some c)
    have "cache_of (m_Diplomacy m) m" using assms(1) r by simp
    then show ?thesis using entry[OF Some] by (simp add: viewerContributors_fresh[OF cs] Some)
  qed
next
  case False
  have "same_match (m\<lparr>m_VisContributors := Some [(s, computeViewerContributors m s)], m_VisContributorVersion := reg_version (m_Diplomacy m)\<rparr>) m"
    unfolding same_match_def by blast
  then show ?thesis
    by (simp add: viewerContributors_stale[OF False] cache_of_def compute_under)
qed

section \<open>The loops of \<open>For\<close>\<close>

lemma insert_fold: "foldl (\<lambda>vis n. insert n vis) V ns = V \<union> set ns"
  by (induction ns arbitrary: V) auto

definition province_circle :: "province \<Rightarrow> vision_circle" where
  "province_circle p = \<lparr>vc_x = p_X p, vc_y = p_Y p, vc_r2 = OwnedProvinceViewRadius * OwnedProvinceViewRadius\<rparr>"

definition unit_circle :: "time \<Rightarrow> game_unit \<Rightarrow> vision_circle" where
  "unit_circle t u = \<lparr>vc_x = fst (PositionAt u t), vc_y = snd (PositionAt u t), vc_r2 = UnitViewRadius (u_Type u) * UnitViewRadius (u_Type u)\<rparr>"

lemma light_province_step: "light_province gm cs (V, C) p =
    (if p_Owner p \<in> set cs then (insert (p_ID p) V \<union> set (Neighbors gm (p_ID p)), C @ [province_circle p]) else (V, C))"
  by (simp add: light_province_def Let_def insert_fold province_circle_def)

lemma light_unit_step: "light_unit cs t (V, C) u =
    (if u_OwnerSlot u \<in> set cs then (insert (u_ID u) V, C @ [unit_circle t u]) else (V, C))"
  by (simp add: light_unit_def Let_def unit_circle_def case_prod_beta)

lemma light_provinces:
  "foldl (light_province gm cs) (V, C) ps =
     (V \<union> (\<Union>p\<in>{p \<in> set ps. p_Owner p \<in> set cs}. insert (p_ID p) (set (Neighbors gm (p_ID p)))),
      C @ map province_circle (filter (\<lambda>p. p_Owner p \<in> set cs) ps))"
  by (induction ps arbitrary: V C) (auto simp: light_province_step)

lemma light_units:
  "foldl (light_unit cs t) (V, C) us =
     (V \<union> u_ID ` {u \<in> set us. u_OwnerSlot u \<in> set cs},
      C @ map (unit_circle t) (filter (\<lambda>u. u_OwnerSlot u \<in> set cs) us))"
  by (induction us arbitrary: V C) (auto simp: light_unit_step)

lemma spot_fold:
  "foldl (\<lambda>vis x. if f x \<in> vis then vis else if Q x then insert (f x) vis else vis) V xs = V \<union> f ` {x \<in> set xs. Q x}"
  by (induction xs arbitrary: V) auto

section \<open>What is seen\<close>

text \<open>A point lies in the sight of one of the slots of \<open>V\<close>.\<close>

definition in_sight :: "match \<Rightarrow> slot set \<Rightarrow> time \<Rightarrow> real \<times> real \<Rightarrow> bool" where
  "in_sight m V t pt \<longleftrightarrow>
     (\<exists>p\<in>snd ` set (m_Provinces m). p_Owner p \<in> V \<and>
        (fst pt - p_X p)\<^sup>2 + (snd pt - p_Y p)\<^sup>2 \<le> OwnedProvinceViewRadius\<^sup>2) \<or>
     (\<exists>u\<in>snd ` set (m_Units m). u_OwnerSlot u \<in> V \<and>
        (fst pt - fst (PositionAt u t))\<^sup>2 + (snd pt - snd (PositionAt u t))\<^sup>2 \<le> (UnitViewRadius (u_Type u))\<^sup>2)"

definition seen_provinces :: "match \<Rightarrow> slot \<Rightarrow> time \<Rightarrow> province_id set" where
  "seen_provinces m s t =
     {q. \<exists>p\<in>snd ` set (m_Provinces m). p_Owner p \<in> viewers m s \<and> HasEdge (m_Map m) (p_ID p) q}
     \<union> p_ID ` {p \<in> snd ` set (m_Provinces m). in_sight m (viewers m s) t (p_X p, p_Y p)}"

definition seen_units :: "match \<Rightarrow> slot \<Rightarrow> time \<Rightarrow> unit_id set" where
  "seen_units m s t = u_ID ` {u \<in> snd ` set (m_Units m). in_sight m (viewers m s) t (PositionAt u t)}"

definition on_board :: "match \<Rightarrow> time \<Rightarrow> bool" where
  "on_board m t \<longleftrightarrow> (\<forall>p\<in>snd ` set (m_Provinces m). p_X p < MaxFloat64) \<and> (\<forall>u\<in>snd ` set (m_Units m). fst (PositionAt u t) < MaxFloat64)"

lemma same_match_seen:
  assumes "same_match m' m"
  shows "seen_provinces m' s t = seen_provinces m s t" "seen_units m' s t = seen_units m s t" "on_board m' t = on_board m t"
    "viewers m' s = viewers m s"
  by (simp_all add: seen_provinces_def seen_units_def in_sight_def viewers_def SlotIDs_def on_board_def same_matchD[OF assms])

lemma own_in_sight:
  "p \<in> snd ` set (m_Provinces m) \<Longrightarrow> p_Owner p \<in> V \<Longrightarrow> in_sight m V t (p_X p, p_Y p)"
  "u \<in> snd ` set (m_Units m) \<Longrightarrow> u_OwnerSlot u \<in> V \<Longrightarrow> in_sight m V t (PositionAt u t)"
  by (auto simp: in_sight_def)

lemma circles_in_sight:
  "in_sight m V t (x, y) \<longleftrightarrow>
     (\<exists>c\<in>province_circle ` {p \<in> snd ` set (m_Provinces m). p_Owner p \<in> V} \<union> unit_circle t ` {u \<in> snd ` set (m_Units m). u_OwnerSlot u \<in> V}.
        (x - vc_x c)\<^sup>2 + (y - vc_y c)\<^sup>2 \<le> vc_r2 c)"
  unfolding in_sight_def Un_iff bex_Un image_iff by (auto simp: province_circle_def unit_circle_def power2_eq_square)

lemma For_spec:
  assumes rt: "rt_ok rt" and ok: "match_ok m" and b: "on_board m t"
    and vc: "viewerContributors m s = (m1, cs)" "set cs = viewers m s" "same_match m1 m"
  shows "For rt m s t = (m1, seen_provinces m s t, seen_units m s t)"
proof -
  have mok: "mok (m_Provinces m)" "mok (m_Units m)" using ok by (auto simp: match_ok_def units_ok_def provinces_ok_def)
  note same = same_matchD[OF vc(3)]
  define ps where "ps i = map snd (go_range (sub rt i) (m_Provinces m))" for i
  define us where "us i = map snd (go_range (sub rt i) (m_Units m))" for i
  have sets: "set (ps i) = snd ` set (m_Provinces m)" "set (us i) = snd ` set (m_Units m)" for i
    using mok rt by (simp_all add: ps_def us_def set_go_range)
  let ?V = "viewers m s"
  let ?vp = "\<Union>p\<in>{p \<in> snd ` set (m_Provinces m). p_Owner p \<in> ?V}. insert (p_ID p) (set (Neighbors (m_Map m) (p_ID p)))"
  let ?vu = "u_ID ` {u \<in> snd ` set (m_Units m). u_OwnerSlot u \<in> ?V}"
  let ?C = "map province_circle (filter (\<lambda>p. p_Owner p \<in> ?V) (ps 0)) @ map (unit_circle t) (filter (\<lambda>u. u_OwnerSlot u \<in> ?V) (us 1))"
  have C: "set ?C = province_circle ` {p \<in> snd ` set (m_Provinces m). p_Owner p \<in> ?V} \<union> unit_circle t ` {u \<in> snd ` set (m_Units m). u_OwnerSlot u \<in> ?V}"
    by (simp add: sets)
  have fin: "0 \<le> vc_r2 c \<and> vc_x c < MaxFloat64" if "c \<in> set ?C" for c
    using that b unfolding C by (auto simp: province_circle_def unit_circle_def on_board_def)
  have idx: "idx_within (newSpatialIndex ?C pts) x y ?C = in_sight m ?V t (x, y)" for pts x y
    unfolding circles_in_sight C[symmetric] by (rule spatial_index_any) (rule fin)
  let ?pp = "map (\<lambda>p. (p_X p, p_Y p)) (filter (\<lambda>p. p_ID p \<notin> ?vp) (ps 2))"
  let ?pu = "map (\<lambda>u. PositionAt u t) (filter (\<lambda>u. u_ID u \<notin> ?vu) (us 3))"
  have F: "For rt m s t = (if ?C = [] then (m1, ?vp, ?vu)
      else (m1, ?vp \<union> p_ID ` {p \<in> snd ` set (m_Provinces m). in_sight m ?V t (p_X p, p_Y p)},
                ?vu \<union> u_ID ` {u \<in> snd ` set (m_Units m). in_sight m ?V t (PositionAt u t)}))"
    unfolding For_def vc(1) Let_def prod.case same light_provinces light_units ps_def[symmetric] us_def[symmetric] vc(2) sets
      Un_empty_left append_Nil case_prod_beta idx spot_fold prod.collapse fst_conv snd_conv
    by (simp only: if_distrib[of "\<lambda>f. f _"] cong: if_cong)
  have vp: "?vp \<subseteq> seen_provinces m s t"
    using own_in_sight(1)[of _ m ?V t] by (auto simp: seen_provinces_def set_Neighbors)
  have vu: "?vu \<subseteq> seen_units m s t"
    using own_in_sight(2)[of _ m ?V t] by (auto simp: seen_units_def)
  show ?thesis
  proof (cases "?C = []")
    case True
    then have "set ?C = {}" by simp
    then have none: "\<not> in_sight m ?V t pt" for pt by (cases pt) (simp add: circles_in_sight C[symmetric])
    have "{p \<in> snd ` set (m_Provinces m). p_Owner p \<in> ?V} = {} \<and> {u \<in> snd ` set (m_Units m). u_OwnerSlot u \<in> ?V} = {}"
      using \<open>set ?C = {}\<close> unfolding C by simp
    moreover from this have "seen_provinces m s t = {}" "seen_units m s t = {}"
      using none by (auto simp: seen_provinces_def seen_units_def)
    ultimately show ?thesis unfolding F using True by simp
  next
    case False
    have "?vp \<union> p_ID ` {p \<in> snd ` set (m_Provinces m). in_sight m ?V t (p_X p, p_Y p)} = seen_provinces m s t"
      using vp by (auto simp: seen_provinces_def set_Neighbors)
    moreover have "?vu \<union> u_ID ` {u \<in> snd ` set (m_Units m). in_sight m ?V t (PositionAt u t)} = seen_units m s t"
      using vu by (auto simp: seen_units_def)
    ultimately show ?thesis unfolding F if_not_P[OF False] by (simp only:)
  qed
qed

section \<open>The cache in use\<close>

text \<open>The cache is absent, or was filled under a registry from which fewer than \<open>2^62\<close> operations lead
  to the present one.\<close>

definition cache_ok :: "match \<Rightarrow> bool" where
  "cache_ok m \<longleftrightarrow> (\<exists>r ops. cache_of r m \<and> m_Diplomacy m = reg_run ops r \<and> length ops < 2 ^ 62)"

lemma reg_run_Nil [simp]: "reg_run [] r = r"
  by (simp add: reg_run_def)

lemma cache_ok_now: "cache_of (m_Diplomacy m) m \<Longrightarrow> cache_ok m"
  unfolding cache_ok_def by (rule exI[of _ "m_Diplomacy m"], rule exI[of _ "[]"]) simp

lemma cache_ok_None: "m_VisContributors m = None \<Longrightarrow> cache_ok m"
  by (rule cache_ok_now) (simp add: cache_of_def)

lemma match_ok_same: "same_match m' m \<Longrightarrow> match_ok m' = match_ok m"
  by (simp add: match_ok_def units_ok_def provinces_ok_def economy_ok_def same_matchD)

lemma viewerContributors_ok:
  assumes "cache_ok m" "viewerContributors m s = (m1, cs)"
  shows "set cs = viewers m s \<and> same_match m1 m \<and> cache_ok m1"
proof -
  obtain r ops where c: "cache_of r m" "m_Diplomacy m = reg_run ops r" "length ops < 2 ^ 62"
    using assms(1) unfolding cache_ok_def by blast
  have cs: "cs = computeViewerContributors m s" and same: "same_match m1 m" and of: "cache_of (m_Diplomacy m) m1"
    using viewerContributors_spec[OF c, of s] assms(2) by simp_all
  have "m_Diplomacy m1 = m_Diplomacy m" by (rule same_matchD(1)[OF same])
  with of have "cache_of (m_Diplomacy m1) m1" by simp
  with cs same show ?thesis by (simp add: set_compute cache_ok_now)
qed

lemma For_ok:
  assumes "rt_ok rt" "match_ok m" "cache_ok m" "on_board m t" "For rt m s t = (m1, P, U)"
  shows "P = seen_provinces m s t \<and> U = seen_units m s t \<and> same_match m1 m \<and> cache_ok m1"
proof -
  obtain m1' cs where v: "viewerContributors m s = (m1', cs)" by fastforce
  have vok: "set cs = viewers m s" "same_match m1' m" "cache_ok m1'" using viewerContributors_ok[OF assms(3) v] by blast+
  show ?thesis using For_spec[OF assms(1,2,4) v vok(1,2)] assms(5) vok by simp
qed


section \<open>A match in the fog\<close>

definition fog_map :: game_map where
  "fog_map = \<lparr>map_ID = ''fog'', map_Name = ''Fog'',
     map_Provinces = [\<lparr>mp_ID = ''a'', mp_X = 0, mp_Y = 0, mp_Name = ''A'', mp_HomeSlot = []\<rparr>,
                      \<lparr>mp_ID = ''b'', mp_X = 1000, mp_Y = 0, mp_Name = ''B'', mp_HomeSlot = []\<rparr>,
                      \<lparr>mp_ID = ''c'', mp_X = 300, mp_Y = 0, mp_Name = ''C'', mp_HomeSlot = []\<rparr>],
     map_Edges = [\<lparr>me_From = ''a'', me_To = ''c''\<rparr>],
     map_Slots = [\<lparr>msl_ID = ''red'', msl_Color = ''#f00'', msl_Capital = ''a''\<rparr>,
                  \<lparr>msl_ID = ''blue'', msl_Color = ''#00f'', msl_Capital = ''b''\<rparr>],
     map_StartingUnits = [\<lparr>su_Slot = ''red'', su_Type = ''armor'', su_Province = ''a'', su_HP = 50\<rparr>],
     map_SVGURL = [], map_ThumbnailURL = [], map_RulesSummary = []\<rparr>"

definition armor_at :: "unit_id \<Rightarrow> slot \<Rightarrow> province_id \<Rightarrow> real \<Rightarrow> game_unit" where
  "armor_at i s p x =
     \<lparr>u_ID = i, u_OwnerSlot = s, u_Type = ''armor'', u_HP = 50, u_Origin = p, u_Dest = p, u_StartedAt = 0, u_ArrivesAt = 0,
      u_OriginX = x, u_OriginY = 0, u_DestX = x, u_DestY = 0, u_Speed = 1, u_Version = 1,
      u_Path = [], u_PathIndex = 0, u_Waypoints = []\<rparr>"

definition fog_match :: match where
  "fog_match = (empty_match ''m1'' ''fog'' fog_map 60 0)\<lparr>
     m_Players := [(''red'', \<lparr>py_Slot = ''red'', py_UserID = [], py_Name = [], py_Color = [], py_Alive = True\<rparr>),
                   (''blue'', \<lparr>py_Slot = ''blue'', py_UserID = [], py_Name = [], py_Color = [], py_Alive = True\<rparr>)],
     m_Provinces := [(''a'', \<lparr>p_ID = ''a'', p_X = 0, p_Y = 0, p_Owner = ''red'', p_Capital = True\<rparr>),
                     (''b'', \<lparr>p_ID = ''b'', p_X = 1000, p_Y = 0, p_Owner = ''blue'', p_Capital = True\<rparr>),
                     (''c'', \<lparr>p_ID = ''c'', p_X = 300, p_Y = 0, p_Owner = [], p_Capital = False\<rparr>)],
     m_Units := [(''t1'', armor_at ''t1'' ''red'' ''a'' 0), (''t2'', armor_at ''t2'' ''blue'' ''b'' 1000)],
     m_Resources := [(''red'', StartingResources), (''blue'', StartingResources)]\<rparr>"

lemma fog_simps [simp]:
  "m_Diplomacy fog_match = reg_New" "m_GameNow fog_match = 0" "m_Map fog_match = fog_map" "m_Buildings fog_match = []"
  "m_NextRecruit fog_match = []" "m_NextBuild fog_match = []" "m_VisContributors fog_match = None" "m_Timeline fog_match = []"
  "m_Players fog_match = [(''red'', \<lparr>py_Slot = ''red'', py_UserID = [], py_Name = [], py_Color = [], py_Alive = True\<rparr>),
                   (''blue'', \<lparr>py_Slot = ''blue'', py_UserID = [], py_Name = [], py_Color = [], py_Alive = True\<rparr>)]"
  "m_Provinces fog_match = [(''a'', \<lparr>p_ID = ''a'', p_X = 0, p_Y = 0, p_Owner = ''red'', p_Capital = True\<rparr>),
                     (''b'', \<lparr>p_ID = ''b'', p_X = 1000, p_Y = 0, p_Owner = ''blue'', p_Capital = True\<rparr>),
                     (''c'', \<lparr>p_ID = ''c'', p_X = 300, p_Y = 0, p_Owner = [], p_Capital = False\<rparr>)]"
  "m_Units fog_match = [(''t1'', armor_at ''t1'' ''red'' ''a'' 0), (''t2'', armor_at ''t2'' ''blue'' ''b'' 1000)]"
  "m_Resources fog_match = [(''red'', StartingResources), (''blue'', StartingResources)]"
  by (simp_all add: fog_match_def empty_match_def tl_New_def)

lemma armor_simps [simp]:
  "u_ID (armor_at i s p x) = i" "u_OwnerSlot (armor_at i s p x) = s" "u_Type (armor_at i s p x) = ''armor''"
  "PositionAt (armor_at i s p x) t = (x, 0)" "unit_ok (armor_at i s p x)"
  by (simp_all add: armor_at_def PositionAt_def unit_ok_def)

lemma tl_ok_Nil: "tl_ok []"
  by (simp add: tl_ok_def heap_ordered_def)

lemma fog_ok: "match_ok fog_match" "cache_ok fog_match" "on_board fog_match 0" "cache_of reg_New fog_match"
  by (simp_all add: match_ok_def units_ok_def provinces_ok_def economy_ok_def on_board_def MaxFloat64_def cache_ok_None
      tl_ok_Nil cache_of_def StartingResources_nonneg)

lemma fog_viewers: "viewers fog_match ''red'' = {''red''}"
proof -
  have "Coalition reg_New ''red'' (SlotIDs fog_match) = [''red'']" unfolding SlotIDs_def fog_simps by code_simp
  then show ?thesis by (auto simp: viewers_def SlotIDs_def HasPact_def reg_New_def)
qed

lemma snd_filter: "{x \<in> snd ` set l. P x} = set (filter P (map snd l))"
  by auto

lemma fog_seen: "seen_provinces fog_match ''red'' 0 = {''a'', ''c''}" "seen_units fog_match ''red'' 0 = {''t1''}"
  unfolding seen_provinces_def seen_units_def fog_viewers snd_filter
  by (auto simp: in_sight_def fog_map_def HasEdge_def OwnedProvinceViewRadius_def UnitViewRadius_def)



section \<open>Batches\<close>

datatype batch_query =
    QVisible slot
  | QObserves slot applied_event
  | QFiltered slot

fun batch_step :: "runtime \<Rightarrow> batch \<Rightarrow> batch_query \<Rightarrow> batch" where
  "batch_step rt b (QVisible s) = fst (Visible rt b s)"
| "batch_step rt b (QObserves s e) = fst (SlotObservesEvent rt b s e)"
| "batch_step rt b (QFiltered s) = fst (Filtered rt b s)"

definition batch_view :: "batch \<Rightarrow> slot \<Rightarrow> province_id set \<times> unit_id set" where
  "batch_view b s = (seen_provinces (bt_m b) s (bt_at b), seen_units (bt_m b) s (bt_at b))"

definition batch_ok :: "batch \<Rightarrow> bool" where
  "batch_ok b \<longleftrightarrow> match_ok (bt_m b) \<and> cache_ok (bt_m b) \<and> on_board (bt_m b) (bt_at b) \<and>
     (\<forall>s v. map_of (bt_vis b) s = Some v \<longrightarrow> v = batch_view b s) \<and>
     (\<forall>ps. bt_players b = Some ps \<longrightarrow> bt_treaties b = TreatyStates (bt_m b))"

text \<open>What the publisher needs of a view: asking for one slot changes no answer.\<close>

locale slot_view =
  fixes valid :: "'r \<Rightarrow> bool"
    and inv :: "'b \<Rightarrow> bool"
    and step :: "'r \<Rightarrow> 'b \<Rightarrow> 'q \<Rightarrow> 'b"
    and view :: "'b \<Rightarrow> 'v"
  assumes step_inv: "valid r \<Longrightarrow> inv b \<Longrightarrow> inv (step r b q)"
    and step_view: "valid r \<Longrightarrow> inv b \<Longrightarrow> view (step r b q) = view b"
begin

lemma run_view:
  "\<forall>rq\<in>set rqs. valid (fst rq) \<Longrightarrow> inv b \<Longrightarrow>
     inv (foldl (\<lambda>b rq. step (fst rq) b (snd rq)) b rqs) \<and> view (foldl (\<lambda>b rq. step (fst rq) b (snd rq)) b rqs) = view b"
  by (induction rqs arbitrary: b) (auto simp: step_inv step_view)

end

lemma Visible_ok:
  assumes "rt_ok rt" "batch_ok b" "Visible rt b s = (b', P, U)"
  shows "(P, U) = batch_view b s \<and> batch_ok b' \<and> same_match (bt_m b') (bt_m b) \<and> bt_at b' = bt_at b"
proof (cases "map_of (bt_vis b) s")
  case None
  obtain m' p u where F: "For rt (bt_m b) s (bt_at b) = (m', p, u)" by (metis prod_cases3)
  have ok: "match_ok (bt_m b)" "cache_ok (bt_m b)" "on_board (bt_m b) (bt_at b)" using assms(2) by (auto simp: batch_ok_def)
  have r: "p = seen_provinces (bt_m b) s (bt_at b)" "u = seen_units (bt_m b) s (bt_at b)" "same_match m' (bt_m b)" "cache_ok m'"
    using For_ok[OF assms(1) ok F] by blast+
  have b': "b' = b\<lparr>bt_m := m', bt_vis := mput s (p, u) (bt_vis b)\<rparr>" "P = p" "U = u"
    using assms(3) None F by (auto simp: Visible_def)
  have "batch_view b' s' = batch_view b s'" for s'
    by (simp add: batch_view_def b' same_match_seen[OF r(3)])
  moreover have "TreatyStates m' = TreatyStates (bt_m b)" by (simp add: TreatyStates_def same_matchD[OF r(3)])
  ultimately have "batch_ok b'"
    using assms(2) r ok by (auto simp: batch_ok_def b' match_ok_same[OF r(3)] same_match_seen[OF r(3)] batch_view_def)
  then show ?thesis using r by (simp add: b' batch_view_def)
next
  case (Some v)
  then have "v = batch_view b s" using assms(2) unfolding batch_ok_def by blast
  moreover have "b' = b" "v = (P, U)" using assms(3) Some by (simp_all add: Visible_def)
  ultimately show ?thesis using assms(2) by simp
qed

definition batch_frame :: "batch \<Rightarrow> batch \<Rightarrow> bool" where
  "batch_frame b' b \<longleftrightarrow> batch_ok b' \<and> same_match (bt_m b') (bt_m b) \<and> bt_at b' = bt_at b"

lemma ensureShared_frame: "batch_ok b \<Longrightarrow> batch_frame (ensureShared rt b) b"
  by (auto simp: batch_frame_def ensureShared_def batch_ok_def batch_view_def)

lemma batch_frame_view: "batch_frame b' b \<Longrightarrow> batch_view b' = batch_view b"
  by (auto simp: batch_frame_def batch_view_def same_match_seen fun_eq_iff)

lemma batch_frame_trans: "batch_frame c b \<Longrightarrow> batch_frame b a \<Longrightarrow> batch_frame c a"
  by (auto simp: batch_frame_def intro: same_match_trans)

lemma Visible_frame: "rt_ok rt \<Longrightarrow> batch_ok b \<Longrightarrow> batch_frame (fst (Visible rt b s)) b"
  using Visible_ok[of rt b s] by (cases "Visible rt b s") (auto simp: batch_frame_def)

lemma batch_step_frame: "rt_ok rt \<Longrightarrow> batch_ok b \<Longrightarrow> batch_frame (batch_step rt b q) b"
proof (cases q)
  case (QFiltered s)
  assume rt: "rt_ok rt" and b: "batch_ok b"
  have v: "batch_frame (fst (Visible (sub rt 0) b s)) b" using Visible_frame[OF rt_ok_sub[OF rt] b] .
  then have "batch_frame (ensureShared (sub rt 1) (fst (Visible (sub rt 0) b s))) (fst (Visible (sub rt 0) b s))"
    by (intro ensureShared_frame) (simp add: batch_frame_def)
  from batch_frame_trans[OF this v] show ?thesis by (simp add: QFiltered Filtered_def Let_def case_prod_beta)
qed (use Visible_frame in \<open>auto simp: SlotObservesEvent_def case_prod_beta\<close>)

interpretation bv: slot_view rt_ok batch_ok batch_step batch_view
  using batch_step_frame by unfold_locales (auto simp: batch_frame_def intro: batch_frame_view)

definition batch_run :: "batch \<Rightarrow> (runtime \<times> batch_query) list \<Rightarrow> batch" where
  "batch_run b rqs = foldl (\<lambda>b rq. batch_step (fst rq) b (snd rq)) b rqs"

definition batch_of :: "match \<Rightarrow> time \<Rightarrow> batch \<Rightarrow> bool" where
  "batch_of m t b \<longleftrightarrow> batch_ok b \<and> same_match (bt_m b) m \<and> bt_at b = t"

lemma batch_run_of:
  assumes "\<forall>rq\<in>set rqs. rt_ok (fst rq)" "batch_of m t b"
  shows "batch_of m t (batch_run b rqs)"
  using assms
proof (induction rqs arbitrary: b)
  case (Cons rq rqs)
  have "batch_frame (batch_step (fst rq) b (snd rq)) b" using Cons.prems by (intro batch_step_frame) (simp_all add: batch_of_def)
  then have "batch_of m t (batch_step (fst rq) b (snd rq))"
    using Cons.prems by (auto simp: batch_of_def batch_frame_def intro: same_match_trans)
  with Cons show ?case by (simp add: batch_run_def)
qed (simp add: batch_run_def)

lemma NewBatch_ok: "match_ok m \<Longrightarrow> cache_ok m \<Longrightarrow> on_board m (m_GameNow m) \<Longrightarrow> batch_ok (NewBatch m)"
  by (simp add: NewBatch_def batch_ok_def)

lemma batch_start: "match_ok m \<Longrightarrow> cache_ok m \<Longrightarrow> on_board m (m_GameNow m) \<Longrightarrow> batch_of m (m_GameNow m) (NewBatch m)"
  by (simp add: batch_of_def NewBatch_ok) (simp add: NewBatch_def)

lemma batch_of_view: "batch_of m t b \<Longrightarrow> batch_view b s = (seen_provinces m s t, seen_units m s t)"
  by (simp add: batch_of_def batch_view_def same_match_seen)



text \<open>
  Who is told of an event. At any point of a batch, a slot is told of an event exactly when the event
  is its own, or concerns a unit or a province it sees, or is the end of the match or the capture of a
  province.
\<close>

theorem observes_event_iff:
  assumes "match_ok m" "cache_ok m" "on_board m (m_GameNow m)"
    and "rt_ok rt" "\<forall>rq\<in>set rqs. rt_ok (fst rq)"
  shows "snd (SlotObservesEvent rt (batch_run (NewBatch m) rqs) s e) \<longleftrightarrow>
    ae_Slot e = s \<or> (ae_UnitID e \<noteq> [] \<and> ae_UnitID e \<in> seen_units m s (m_GameNow m)) \<or>
    (ae_Province e \<noteq> [] \<and> ae_Province e \<in> seen_provinces m s (m_GameNow m)) \<or>
    ae_Kind e \<in> {''match_ended'', ''province_captured''}"
proof -
  let ?b = "batch_run (NewBatch m) rqs"
  have b: "batch_of m (m_GameNow m) ?b" by (rule batch_run_of[OF assms(5) batch_start[OF assms(1-3)]])
  obtain b' P U where v: "Visible rt ?b s = (b', P, U)" by (metis prod_cases3)
  have "batch_ok ?b" using b by (simp add: batch_of_def)
  from Visible_ok[OF assms(4) this v] batch_of_view[OF b, of s] show ?thesis
    by (auto simp: SlotObservesEvent_def v)
qed

definition fog_event :: applied_event where
  "fog_event = \<lparr>ae_Kind = ''combat_damage'', ae_OccurAt = 0, ae_Seq = 1, ae_UnitID = ''t2'', ae_Province = [], ae_Slot = ''blue'', ae_Extra = []\<rparr>"

theorem observes_event_iff_witness:
  "\<not> snd (SlotObservesEvent plain_rt (batch_run (NewBatch fog_match) [(plain_rt, QObserves ''blue'' fog_event)]) ''red'' fog_event)"
  by (subst observes_event_iff) (simp_all add: fog_ok fog_seen fog_event_def)

section \<open>The filtered snapshot\<close>

lemma foldl_append_concat: "foldl (\<lambda>out s. out @ f s) acc xs = acc @ concat (map f xs)"
  by (induction xs arbitrary: acc) auto

lemma set_allPacts:
  "set (allPacts m) = {p \<in> snd ` set (reg_pacts (m_Diplomacy m)). pa_From p \<in> fst ` set (m_Players m)}"
  by (auto simp: allPacts_def foldl_append_concat PactsFrom_def SlotIDs_def)

definition pact_to_wire :: "pact \<Rightarrow> pact_state" where
  "pact_to_wire p = \<lparr>pks_From = pa_From p, pks_To = pa_To p, pks_Kind = pact_kind_string (pa_Kind p), pks_GrantedAt = pa_GrantedAt p\<rparr>"

definition recruit_to_wire :: "recruit_order \<Rightarrow> queued_recruit" where
  "recruit_to_wire r = \<lparr>qr_Province = ro_Province r, qr_UnitType = ro_UnitType r, qr_Owner = ro_OwnerSlot r, qr_CompletesAt = ro_CompletesAt r\<rparr>"

definition build_to_wire :: "build_order \<Rightarrow> queued_construction" where
  "build_to_wire b = \<lparr>qc_Province = bo_Province b, qc_BuildingType = bo_BuildingType b, qc_Owner = bo_OwnerSlot b, qc_CompletesAt = bo_CompletesAt b\<rparr>"

lemma set_PactsFor: "v \<noteq> [] \<Longrightarrow> set (PactsFor m v) = pact_to_wire ` {p \<in> set (allPacts m). v = pa_From p \<or> v = pa_To p}"
  by (auto simp: PactsFor_def pact_to_wire_def)

lemma QueueState_own:
  assumes "rt_ok rt" "mok (m_NextRecruit m)" "mok (m_NextBuild m)" "s \<noteq> []"
  shows "set (qs_Recruits (QueueState rt m s)) = recruit_to_wire ` {r \<in> snd ` set (m_NextRecruit m). ro_OwnerSlot r = s}"
    "set (qs_Constructions (QueueState rt m s)) = build_to_wire ` {b \<in> snd ` set (m_NextBuild m). bo_OwnerSlot b = s}"
  using assms by (force simp: QueueState_def set_go_range recruit_to_wire_def build_to_wire_def)+

text \<open>A snapshot that shows the match \<open>m\<close> as the slot \<open>s\<close> may see it.\<close>

definition fog_view :: "match \<Rightarrow> slot \<Rightarrow> match_state \<Rightarrow> bool" where
  "fog_view m s w \<longleftrightarrow>
     set (ms_Provinces w) = province_to_wire ` {p \<in> snd ` set (m_Provinces m). p_ID p \<in> seen_provinces m s (m_GameNow m)}
    \<and> set (ms_Units w) = unit_at (m_GameNow m) ` {u \<in> snd ` set (m_Units m). u_ID u \<in> seen_units m s (m_GameNow m)}
    \<and> set (ms_Buildings w) = building_to_wire ` {c \<in> set (m_Buildings m). b_Province c \<in> seen_provinces m s (m_GameNow m)}
    \<and> map_of (ms_Resources w) = (\<lambda>x. if x = s then map_option pool_to_wire (map_of (m_Resources m) s) else None)
    \<and> set (qs_Recruits (ms_Queues w)) = recruit_to_wire ` {r \<in> snd ` set (m_NextRecruit m). ro_OwnerSlot r = s}
    \<and> set (qs_Constructions (ms_Queues w)) = build_to_wire ` {c \<in> snd ` set (m_NextBuild m). bo_OwnerSlot c = s}
    \<and> set (ms_Pacts w) = pact_to_wire ` {p \<in> set (allPacts m). s = pa_From p \<or> s = pa_To p}
    \<and> ms_Diplomacy w = TreatyStates m \<and> ms_GameTime w = m_GameNow m"

lemma Filtered_fog:
  assumes "match_ok m" "rt_ok rt" "s \<noteq> []" and b: "batch_of m (m_GameNow m) b"
    and F: "Filtered rt b s = (b', w)"
  shows "fog_view m s w \<and> batch_of m (m_GameNow m) b'"
proof -
  obtain b1 P U where v: "Visible (sub rt 0) b s = (b1, P, U)" by (metis prod_cases3)
  have okb: "batch_ok b" using b by (simp add: batch_of_def)
  have V: "P = seen_provinces m s (m_GameNow m)" "U = seen_units m s (m_GameNow m)" "batch_ok b1"
      "same_match (bt_m b1) (bt_m b)" "bt_at b1 = m_GameNow m"
    using Visible_ok[OF rt_ok_sub[OF assms(2)] okb v] batch_of_view[OF b, of s] b by (simp_all add: batch_of_def)
  define b2 where "b2 = ensureShared (sub rt 1) b1"
  have f: "batch_frame b2 b1" unfolding b2_def by (rule ensureShared_frame[OF V(3)])
  have same: "same_match (bt_m b2) m"
    using f V(4) b by (auto simp: batch_frame_def batch_of_def intro: same_match_trans)
  have at2: "bt_at b2 = m_GameNow m" using f V(5) by (simp add: batch_frame_def)
  have ok2: "batch_ok b2" "bt_players b2 \<noteq> None" using f by (simp_all add: batch_frame_def b2_def ensureShared_def)
  then have tr: "bt_treaties b2 = TreatyStates m"
    by (auto simp: batch_ok_def TreatyStates_def same_matchD[OF same])
  note S = same_matchD[OF same]
  have mok: "mok (m_Provinces m)" "mok (m_Units m)" "mok (m_NextRecruit m)" "mok (m_NextBuild m)"
    using assms(1) by (auto simp: match_ok_def units_ok_def provinces_ok_def economy_ok_def)
  have Q: "QueueState r (bt_m b2) s = QueueState r m s" for r by (simp add: QueueState_def S)
  have Pa: "PactsFor (bt_m b2) s = PactsFor m s" by (simp add: PactsFor_def allPacts_def SlotIDs_def S)
  have w: "w = snd (Filtered rt b s)" using F by simp
  have "fst (Filtered rt b s) = b2" by (simp add: Filtered_def v Let_def b2_def)
  then have b': "b' = b2" using F by simp
  note R = set_go_range[OF rt_ok_sub[OF assms(2)]]
  have "fog_view m s w"
    unfolding fog_view_def w Filtered_def v Let_def prod.case snd_conv b2_def[symmetric] match_state.simps
    by (intro conjI) (auto simp: S Q Pa R mok V(1,2) tr at2 QueueState_own[OF rt_ok_sub[OF assms(2)] mok(3,4) assms(3)]
      set_PactsFor[OF assms(3)] fun_eq_iff image_iff split: option.splits, (force+)?)
  then show ?thesis using ok2 same at2 by (simp add: batch_of_def b')
qed

text \<open>
  The fog of war. At any point of a batch, the snapshot filtered for a slot of the match holds the
  provinces and the units the slot sees and no others, each as it is at that instant, the buildings that stand
  in those provinces, the stockpile and the orders of the slot itself and of nobody else, and the pacts it
  granted or was granted.
\<close>

theorem filtered_is_fog_of_war:
  assumes "match_ok m" "cache_ok m" "on_board m (m_GameNow m)"
    and "rt_ok rt" "\<forall>rq\<in>set rqs. rt_ok (fst rq)" "s \<noteq> []"
    and "Filtered rt (batch_run (NewBatch m) rqs) s = (b, w)"
  shows "set (ms_Provinces w) = province_to_wire ` {p \<in> snd ` set (m_Provinces m). p_ID p \<in> seen_provinces m s (m_GameNow m)}
    \<and> set (ms_Units w) = unit_at (m_GameNow m) ` {u \<in> snd ` set (m_Units m). u_ID u \<in> seen_units m s (m_GameNow m)}
    \<and> set (ms_Buildings w) = building_to_wire ` {c \<in> set (m_Buildings m). b_Province c \<in> seen_provinces m s (m_GameNow m)}
    \<and> map_of (ms_Resources w) = (\<lambda>x. if x = s then map_option pool_to_wire (map_of (m_Resources m) s) else None)
    \<and> set (qs_Recruits (ms_Queues w)) = recruit_to_wire ` {r \<in> snd ` set (m_NextRecruit m). ro_OwnerSlot r = s}
    \<and> set (qs_Constructions (ms_Queues w)) = build_to_wire ` {c \<in> snd ` set (m_NextBuild m). bo_OwnerSlot c = s}
    \<and> set (ms_Pacts w) = pact_to_wire ` {p \<in> set (allPacts m). s = pa_From p \<or> s = pa_To p}
    \<and> ms_Diplomacy w = TreatyStates m \<and> ms_GameTime w = m_GameNow m"
  using Filtered_fog[OF assms(1,4,6) batch_run_of[OF assms(5) batch_start[OF assms(1-3)]] assms(7)]
  by (simp add: fog_view_def)

theorem filtered_is_fog_of_war_witness:
  "set (ms_Units (snd (Filtered plain_rt (batch_run (NewBatch fog_match) [(plain_rt, QVisible ''blue'')]) ''red'')))
     = {unit_at 0 (armor_at ''t1'' ''red'' ''a'' 0)}"
proof -
  let ?f = "Filtered plain_rt (batch_run (NewBatch fog_match) [(plain_rt, QVisible ''blue'')]) ''red''"
  have "?f = (fst ?f, snd ?f)" by simp
  from filtered_is_fog_of_war[OF fog_ok(1,2) _ rt_ok_plain _ _ this] fog_ok(3)
  have "set (ms_Units (snd ?f)) = unit_at 0 ` {u \<in> snd ` set (m_Units fog_match). u_ID u \<in> {''t1''}}"
    by (simp add: fog_seen)
  also have "{u \<in> snd ` set (m_Units fog_match). u_ID u \<in> {''t1''}} = {armor_at ''t1'' ''red'' ''a'' 0}" by auto
  finally show ?thesis by simp
qed

end
