(* ===== verification/Runner.thy ===== *)
theory Runner
  imports Vision Store Engine
begin

text \<open>
  \<open>internal/service/enginesvc\<close> with the handlers \<open>internal/engine/server.go\<close> hangs on it, and the
  slot index of \<open>internal/adapter/redisrepo\<close>: the process that hosts matches. The matches live in a
  store of handles, and \<open>r.matches\<close> maps an identifier to the index of its handle. One turn of the
  \<open>select\<close> of a match loop, and one message delivered to the process, is one step. The outbox
  records the calls the runner makes to its broadcaster, whose errors the code drops. Metrics and
  logging are left out. Reading a match in \<open>BroadcastInitial\<close> and \<open>ForceEnd\<close> is a step of its own,
  although the code does it without synchronisation with the loop of the match.
\<close>

section \<open>Messages\<close>

record wire_event =
  we_Kind :: string
  we_OccurAt :: time
  we_UnitID :: unit_id
  we_Province :: province_id
  we_Extra :: extra

record event_envelope =
  ee_MatchID :: string
  ee_Seq :: "64 word"
  ee_SentAt :: time
  ee_Event :: wire_event

datatype publication =
    PublicState string state_envelope
  | SlotState string slot state_envelope
  | PublicEvent string event_envelope
  | SlotEvent string slot event_envelope
  | FinalState string state_envelope

record command_payload =
  cp_MatchID :: string
  cp_UserID :: user_id
  cp_Slot :: slot
  cp_IdempotencyKey :: string
  cp_Kind :: string
  cp_UnitID :: string
  cp_From :: province_id
  cp_To :: province_id
  cp_IssuedAt :: time
  cp_Args :: "(string, string) gomap"

section \<open>redisrepo/slots.go\<close>

text \<open>The entries expire after a day: a lookup that finds nothing covers an expired one.\<close>

definition slotKey :: "string \<Rightarrow> user_id \<Rightarrow> string" where
  "slotKey mid uid = ''match:'' @ mid @ '':user:'' @ uid @ '':slot''"

definition SetUserSlot :: "env \<Rightarrow> string \<Rightarrow> user_id \<Rightarrow> slot \<Rightarrow> (string, slot) gomap \<Rightarrow> (string, slot) gomap" where
  "SetUserSlot env mid uid s idx =
     (if uid = [] \<or> s = [] then idx
      else if env_outcome env [] = Refused then idx
      else mput (slotKey mid uid) s idx)"

definition LookupUserSlot :: "env \<Rightarrow> (string, slot) gomap \<Rightarrow> string \<Rightarrow> user_id \<Rightarrow> slot option" where
  "LookupUserSlot env idx mid uid =
     (if env_outcome env [] \<noteq> Delivered then None else Some (mget_default [] idx (slotKey mid uid)))"

section \<open>The state of the runner\<close>

text \<open>\<open>h_resync\<close> is whether the channel of capacity one holds a request, \<open>h_cancelled\<close> whether the
  context is done and \<open>h_exited\<close> whether the goroutine has returned.\<close>

record match_handle =
  h_match :: match
  h_cmds :: "command list"
  h_resync :: bool
  h_cancelled :: bool
  h_exited :: bool

record runner =
  rn_broadcaster :: bool
  rn_index :: "(string, slot) gomap"
  rn_matches :: "(string, nat) gomap"
  rn_handles :: "match_handle list"
  rn_outbox :: "publication list"

definition NewRunner :: "bool \<Rightarrow> runner" where
  "NewRunner bc = \<lparr>rn_broadcaster = bc, rn_index = [], rn_matches = [], rn_handles = [], rn_outbox = []\<rparr>"

definition cmdQueueSize :: nat where
  "cmdQueueSize = 64"

definition update_handle :: "nat \<Rightarrow> (match_handle \<Rightarrow> match_handle) \<Rightarrow> runner \<Rightarrow> runner" where
  "update_handle i f r = r\<lparr>rn_handles := (rn_handles r)[i := f (rn_handles r ! i)]\<rparr>"

definition publish :: "publication list \<Rightarrow> runner \<Rightarrow> runner" where
  "publish ps r = r\<lparr>rn_outbox := rn_outbox r @ ps\<rparr>"

definition EnsureMatch :: "match \<Rightarrow> runner \<Rightarrow> runner" where
  "EnsureMatch m r =
     (if map_of (rn_matches r) (m_ID m) \<noteq> None then r
      else
        r\<lparr>rn_handles := rn_handles r @ [\<lparr>h_match = m, h_cmds = [], h_resync = False, h_cancelled = False, h_exited = False\<rparr>],
          rn_matches := mput (m_ID m) (length (rn_handles r)) (rn_matches r)\<rparr>)"

datatype submit_error = ErrNotHosted | ErrQueueFull

definition Submit :: "command \<Rightarrow> runner \<Rightarrow> runner \<times> submit_error option" where
  "Submit cmd r =
     (case map_of (rn_matches r) (c_MatchID cmd) of
        None \<Rightarrow> (r, Some ErrNotHosted)
      | Some i \<Rightarrow>
          if length (h_cmds (rn_handles r ! i)) < cmdQueueSize
          then (update_handle i (\<lambda>h. h\<lparr>h_cmds := h_cmds h @ [cmd]\<rparr>) r, None)
          else (r, Some ErrQueueFull))"

definition IsHosted :: "runner \<Rightarrow> string \<Rightarrow> bool" where
  "IsHosted r mid \<longleftrightarrow> map_of (rn_matches r) mid \<noteq> None"

definition Rebroadcast :: "string \<Rightarrow> runner \<Rightarrow> runner" where
  "Rebroadcast mid r =
     (case map_of (rn_matches r) mid of
        None \<Rightarrow> r
      | Some i \<Rightarrow> update_handle i (\<lambda>h. h\<lparr>h_resync := True\<rparr>) r)"

definition runner_Stop :: "string \<Rightarrow> runner \<Rightarrow> runner" where
  "runner_Stop mid r =
     (case map_of (rn_matches r) mid of
        None \<Rightarrow> r
      | Some i \<Rightarrow> update_handle i (\<lambda>h. h\<lparr>h_cancelled := True\<rparr>) (r\<lparr>rn_matches := mdel mid (rn_matches r)\<rparr>))"

section \<open>Publishing\<close>

definition state_message :: "env \<Rightarrow> match \<Rightarrow> match_state \<Rightarrow> state_envelope" where
  "state_message env m st =
     \<lparr>se_MatchID = m_ID m, se_Seq = m_Seq m, se_SentAt = env_now env [], se_State = Some st\<rparr>"

definition event_message :: "env \<Rightarrow> match \<Rightarrow> applied_event \<Rightarrow> event_envelope" where
  "event_message env m e =
     \<lparr>ee_MatchID = m_ID m, ee_Seq = ae_Seq e, ee_SentAt = env_now env [],
      ee_Event = \<lparr>we_Kind = ae_Kind e, we_OccurAt = ae_OccurAt e, we_UnitID = ae_UnitID e,
                  we_Province = ae_Province e, we_Extra = ae_Extra e\<rparr>\<rparr>"

text \<open>The loop over the players that sends each the snapshot filtered for it.\<close>

definition publish_filtered :: "env \<Rightarrow> runtime \<Rightarrow> batch \<times> publication list \<Rightarrow> nat \<times> slot \<Rightarrow> batch \<times> publication list" where
  "publish_filtered env rt bo js =
     (let (b', st) = Filtered (sub rt (fst js)) (fst bo) (snd js) in
      (b', snd bo @ [SlotState (m_ID (bt_m b')) (snd js) (state_message (esub env (fst js)) (bt_m b') st)]))"

definition slot_states :: "env \<Rightarrow> runtime \<Rightarrow> batch \<Rightarrow> batch \<times> publication list" where
  "slot_states env rt b =
     foldl (publish_filtered env (sub rt 1)) (b, []) (enumerate 0 (go_keys (sub rt 0) (m_Players (bt_m b))))"

definition broadcastState :: "env \<Rightarrow> runtime \<Rightarrow> batch \<Rightarrow> batch \<times> publication list" where
  "broadcastState env rt b =
     (let m = bt_m b; public = PublicState (m_ID m) (state_message (esub env 0) m (Snapshot (sub rt 0) m));
          (b', out) = slot_states (esub env 1) (sub rt 1) b
      in (b', public # out))"

definition publishFinalState :: "env \<Rightarrow> runtime \<Rightarrow> bool \<Rightarrow> match \<Rightarrow> match \<times> publication list" where
  "publishFinalState env rt bc m =
     (if \<not> bc then (m, [])
      else
        let final = FinalState (m_ID m) (state_message (esub env 0) m (Snapshot (sub rt 0) m));
            (b', out) = slot_states (esub env 1) (sub rt 1) (NewBatch m)
        in (bt_m b', final # out))"

definition offer_event :: "runtime \<Rightarrow> applied_event \<Rightarrow> event_envelope \<Rightarrow> batch \<times> publication list \<Rightarrow> nat \<times> slot \<Rightarrow> batch \<times> publication list" where
  "offer_event rt e msg bo js =
     (let (b', observed) = SlotObservesEvent (sub rt (fst js)) (fst bo) (snd js) e in
      (b', if observed then snd bo @ [SlotEvent (m_ID (bt_m b')) (snd js) msg] else snd bo))"

definition publishEventPerSlot :: "env \<Rightarrow> runtime \<Rightarrow> batch \<times> publication list \<Rightarrow> nat \<times> applied_event \<Rightarrow> batch \<times> publication list" where
  "publishEventPerSlot env rt bo je =
     (let m = bt_m (fst bo); msg = event_message (esub env (fst je)) m (snd je); rt' = sub rt (fst je) in
      foldl (offer_event (sub rt' 1) (snd je) msg) (fst bo, snd bo @ [PublicEvent (m_ID m) msg])
        (enumerate 0 (go_keys (sub rt' 0) (m_Players m))))"

definition broadcastEvents :: "env \<Rightarrow> runtime \<Rightarrow> bool \<Rightarrow> match \<Rightarrow> applied_event list \<Rightarrow> match \<times> publication list" where
  "broadcastEvents env rt bc m es =
     (if \<not> bc then (m, [])
      else
        let (b1, out1) = foldl (publishEventPerSlot (esub env 0) (sub rt 0)) (NewBatch m, []) (enumerate 0 es);
            (b2, out2) = broadcastState (esub env 1) (sub rt 1) b1
        in (bt_m b2, out1 @ out2))"

definition BroadcastInitial :: "env \<Rightarrow> runtime \<Rightarrow> bool \<Rightarrow> match \<Rightarrow> match \<times> publication list" where
  "BroadcastInitial env rt bc m =
     (if \<not> bc then (m, []) else let (b, out) = broadcastState env rt (NewBatch m) in (bt_m b, out))"

section \<open>The loop of a match\<close>

definition advanceTime :: "time \<Rightarrow> match \<Rightarrow> match" where
  "advanceTime now m =
     m\<lparr>m_GameNow := m_GameStart m + int64 (trunc (real_of_int (time_sub now (m_StartedAt m)) * m_Speed m))\<rparr>"

text \<open>The three cases of the \<open>select\<close> that do some work: the match afterwards, what was published, and
  whether the turn goes on to the check for the end of the match (a rejected command does not). \<open>None\<close>
  is a turn that does not return.\<close>

definition on_command :: "env \<Rightarrow> runtime \<Rightarrow> bool \<Rightarrow> match \<Rightarrow> command \<Rightarrow> (match \<times> publication list \<times> bool) option" where
  "on_command env rt bc m cmd =
     (let (m1, label, immediate, err) = Dispatch (sub rt 0) (advanceTime (env_now env [0]) m) cmd in
      if err \<noteq> None then Some (m1, [], False)
      else
        Option.bind (ProcessNext (sub rt 1) m1 (m_GameNow m1)) (\<lambda>(m2, due).
          let (m3, out) = broadcastEvents (esub env 1) (sub rt 2) bc m2 (immediate @ due) in Some (m3, out, True)))"

definition on_tick :: "env \<Rightarrow> runtime \<Rightarrow> bool \<Rightarrow> match \<Rightarrow> (match \<times> publication list \<times> bool) option" where
  "on_tick env rt bc m =
     (let m1 = advanceTime (env_now env [0]) m in
      Option.bind (ProcessNext (sub rt 1) m1 (m_GameNow m1)) (\<lambda>(m2, due).
        if due = [] then Some (m2, [], True)
        else let (m3, out) = broadcastEvents (esub env 1) (sub rt 2) bc m2 due in Some (m3, out, True)))"

definition on_resync :: "env \<Rightarrow> runtime \<Rightarrow> bool \<Rightarrow> match \<Rightarrow> match \<times> publication list \<times> bool" where
  "on_resync env rt bc m =
     (let m1 = advanceTime (env_now env [0]) m in
      if \<not> bc then (m1, [], True)
      else let (b, out) = broadcastState (esub env 1) rt (NewBatch m1) in (bt_m b, out, True))"

definition end_check :: "env \<Rightarrow> runtime \<Rightarrow> nat \<Rightarrow> runner \<Rightarrow> runner" where
  "end_check env rt i r =
     (let m = h_match (rn_handles r ! i) in
      if m_Status m = ''ended'' \<and> m_CleanupDone m then
        let (m', out) = publishFinalState env rt (rn_broadcaster r) m;
            r1 = publish out (update_handle i (\<lambda>h. h\<lparr>h_match := m'\<rparr>) r)
        in update_handle i (\<lambda>h. h\<lparr>h_exited := True\<rparr>) (runner_Stop (m_ID m') r1)
      else r)"

datatype signal = SigDone | SigCommand | SigTick | SigResync

text \<open>A timer tick is always possible; \<open>select\<close> picks any of the ready cases.\<close>

fun ready :: "signal \<Rightarrow> match_handle \<Rightarrow> bool" where
  "ready SigDone h \<longleftrightarrow> h_cancelled h"
| "ready SigCommand h \<longleftrightarrow> h_cmds h \<noteq> []"
| "ready SigTick h \<longleftrightarrow> True"
| "ready SigResync h \<longleftrightarrow> h_resync h"

definition after_turn :: "env \<Rightarrow> runtime \<Rightarrow> nat \<Rightarrow> (match_handle \<Rightarrow> match_handle) \<Rightarrow> runner \<Rightarrow> match \<times> publication list \<times> bool \<Rightarrow> runner" where
  "after_turn env rt i f r res =
     (case res of (m', out, check) \<Rightarrow>
        let r1 = publish out (update_handle i (\<lambda>h. (f h)\<lparr>h_match := m'\<rparr>) r) in
        if check then end_check env rt i r1 else r1)"

definition loop_turn :: "env \<Rightarrow> runtime \<Rightarrow> nat \<Rightarrow> signal \<Rightarrow> runner \<Rightarrow> runner option" where
  "loop_turn env rt i sig r =
     (let h = rn_handles r ! i; bc = rn_broadcaster r; fin = after_turn (esub env 1) (sub rt 1) i in
      case sig of
        SigDone \<Rightarrow> Some (update_handle i (\<lambda>h. h\<lparr>h_exited := True\<rparr>) r)
      | SigCommand \<Rightarrow>
          map_option (fin (\<lambda>h. h\<lparr>h_cmds := tl (h_cmds h)\<rparr>) r)
            (on_command (esub env 0) (sub rt 0) bc (h_match h) (hd (h_cmds h)))
      | SigTick \<Rightarrow> map_option (fin (\<lambda>h. h) r) (on_tick (esub env 0) (sub rt 0) bc (h_match h))
      | SigResync \<Rightarrow> Some (fin (\<lambda>h. h\<lparr>h_resync := False\<rparr>) r (on_resync (esub env 0) (sub rt 0) bc (h_match h))))"

definition ForceEnd :: "env \<Rightarrow> runtime \<Rightarrow> string \<Rightarrow> runner \<Rightarrow> runner" where
  "ForceEnd env rt mid r =
     (case map_of (rn_matches r) mid of
        None \<Rightarrow> r
      | Some i \<Rightarrow>
          let m = (h_match (rn_handles r ! i))\<lparr>m_Status := ''ended'', m_CleanupDone := True\<rparr>;
              (m', out) = publishFinalState env rt (rn_broadcaster r) m
          in runner_Stop mid (publish out (update_handle i (\<lambda>h. h\<lparr>h_match := m'\<rparr>) r)))"

section \<open>engine/server.go\<close>

definition startHandler :: "env \<Rightarrow> runtime \<Rightarrow> (string \<Rightarrow> game_map option) \<Rightarrow> (string \<times> string option) list \<Rightarrow> start_payload \<Rightarrow>
    runner \<Rightarrow> runner \<times> new_error option" where
  "startHandler env rt decode files p r =
     (case match_New (sub rt 0) decode files (sp_MatchID p) (sp_MapID p) (sp_SlotAssignments p) (sp_Speed p) (sp_StartedAt p) of
        Inl e \<Rightarrow> (r, Some e)
      | Inr m \<Rightarrow>
          let idx = foldl (\<lambda>idx (j, s, uid). SetUserSlot (esub (esub env 0) j) (sp_MatchID p) uid s idx) (rn_index r)
                      (enumerate 0 (go_range (sub rt 1) (sp_SlotAssignments p)));
              r1 = r\<lparr>rn_index := idx\<rparr>;
              r2 = EnsureMatch m r1;
              (m', out) = BroadcastInitial (esub env 1) (sub rt 2) (rn_broadcaster r) m;
              r3 = (if IsHosted r1 (m_ID m) then r2 else update_handle (length (rn_handles r)) (\<lambda>h. h\<lparr>h_match := m'\<rparr>) r2)
          in (publish out r3, None))"

definition commandHandler :: "command_payload \<Rightarrow> runner \<Rightarrow> runner \<times> submit_error option" where
  "commandHandler p r =
     Submit \<lparr>c_MatchID = cp_MatchID p, c_UserID = cp_UserID p, c_IssuerSlot = cp_Slot p,
             c_IdempotencyKey = cp_IdempotencyKey p, c_Kind = cp_Kind p, c_UnitID = cp_UnitID p,
             c_From = cp_From p, c_To = cp_To p, c_IssuedAt = cp_IssuedAt p, c_Args = cp_Args p\<rparr> r"

section \<open>Steps\<close>

inductive runner_step :: "runner \<Rightarrow> runner \<Rightarrow> bool" where
  started: "rt_ok rt \<Longrightarrow> runner_step r (fst (startHandler env rt decode files p r))"
| commanded: "runner_step r (fst (commandHandler p r))"
| resynced: "runner_step r (Rebroadcast mid r)"
| forced: "rt_ok rt \<Longrightarrow> runner_step r (ForceEnd env rt mid r)"
| turned: "rt_ok rt \<Longrightarrow> i < length (rn_handles r) \<Longrightarrow> \<not> h_exited (rn_handles r ! i) \<Longrightarrow> ready sig (rn_handles r ! i) \<Longrightarrow>
    loop_turn env rt i sig r = Some r' \<Longrightarrow> runner_step r r'"

end
