(* ===== verification/Chat.thy ===== *)
theory Chat
  imports Pgrepo "HOL-Library.Sublist"
begin

text \<open>
  In-match chat: scopes and bodies (\<open>internal/domain/chatdom\<close>), the service that validates, throttles,
  stores and publishes (\<open>internal/service/chatsvc\<close>) and its table (\<open>pgrepo/chat.go\<close>). Strings are
  lists of bytes, so the white space and the control characters of \<open>unicode\<close> are their UTF-8
  encodings. \<open>uuid.Parse\<close>, from a library outside the repository, is a parameter.
\<close>

section \<open>Go's strings package\<close>

fun split_on :: "char \<Rightarrow> string \<Rightarrow> string list" where
  "split_on c [] = [[]]"
| "split_on c (x # xs) =
     (if x = c then [] # split_on c xs else (x # hd (split_on c xs)) # tl (split_on c xs))"

text \<open>The encodings of the code points of \<open>unicode.IsSpace\<close>.\<close>

definition white_space :: "string list" where
  "white_space =
     map (\<lambda>n. [char_of (n :: nat)]) [9, 10, 11, 12, 13, 32] @
     [[char_of (0xC2 :: nat), char_of (0x85 :: nat)], [char_of (0xC2 :: nat), char_of (0xA0 :: nat)],
      [char_of (0xE1 :: nat), char_of (0x9A :: nat), char_of (0x80 :: nat)]] @
     map (\<lambda>n. [char_of (0xE2 :: nat), char_of (0x80 :: nat), char_of (n :: nat)]) ([0x80..<0x8B] @ [0xA8, 0xA9, 0xAF]) @
     [[char_of (0xE2 :: nat), char_of (0x81 :: nat), char_of (0x9F :: nat)],
      [char_of (0xE3 :: nat), char_of (0x80 :: nat), char_of (0x80 :: nat)]]"

function drop_leading :: "string list \<Rightarrow> string \<Rightarrow> string" where
  "drop_leading ws s =
     (case find (\<lambda>w. w \<noteq> [] \<and> prefix w s) ws of None \<Rightarrow> s | Some w \<Rightarrow> drop_leading ws (drop (length w) s))"
  by pat_completeness auto
termination
  by (relation "measure (\<lambda>(ws, s). length s)") (auto dest!: find_SomeD simp: prefix_def)

declare drop_leading.simps [simp del]

definition TrimSpace :: "string \<Rightarrow> string" where
  "TrimSpace s = rev (drop_leading (map rev white_space) (rev (drop_leading white_space s)))"

text \<open>The control characters: U+0000 to U+001F, U+007F, and U+0080 to U+009F, of two bytes.\<close>

fun has_control :: "string \<Rightarrow> bool" where
  "has_control [] = False"
| "has_control (c # s) =
     (let n = of_char c :: nat in
      (n < 32 \<and> n \<noteq> 10 \<and> n \<noteq> 9) \<or> n = 127 \<or>
      (n = 0xC2 \<and> (case s of [] \<Rightarrow> False | d # _ \<Rightarrow> 0x80 \<le> (of_char d :: nat) \<and> (of_char d :: nat) \<le> 0x9F)) \<or>
      has_control s)"

section \<open>chatdom.go\<close>

datatype channel_kind = ChannelWorld | ChannelCoalition | ChannelDM

definition MaxBodyBytes :: nat where
  "MaxBodyBytes = 1024"

record chat_message =
  cm_ID :: string
  cm_MatchID :: string
  cm_Scope :: string
  cm_AuthorID :: user_id
  cm_AuthorSlot :: slot
  cm_Body :: string
  cm_SentAt :: time

record history_query =
  hq_MatchID :: string
  hq_Scope :: string
  hq_Before :: time
  hq_Limit :: int

definition WorldScope :: "string \<Rightarrow> string" where
  "WorldScope mid = ''world:'' @ mid"

definition CoalitionScope :: "string \<Rightarrow> slot \<Rightarrow> string" where
  "CoalitionScope mid coalitionID = ''coal:'' @ mid @ '':'' @ coalitionID"

definition DMScope :: "string \<Rightarrow> user_id \<Rightarrow> user_id \<Rightarrow> string" where
  "DMScope mid a b = (let pair = sort [a, b] in ''dm:'' @ mid @ '':'' @ (pair ! 0) @ '':'' @ (pair ! 1))"

definition ParseScope :: "string \<Rightarrow> base_err + (channel_kind \<times> string list)" where
  "ParseScope scope =
     (let parts = split_on (CHR '':'') scope in
      if length parts < 2 then Inl ErrUnknownScope
      else if hd parts = ''world'' then
        if length parts \<noteq> 2 then Inl ErrUnknownScope else Inr (ChannelWorld, tl parts)
      else if hd parts = ''coal'' then
        if length parts \<noteq> 3 then Inl ErrUnknownScope else Inr (ChannelCoalition, tl parts)
      else if hd parts = ''dm'' then
        if length parts \<noteq> 4 then Inl ErrUnknownScope else Inr (ChannelDM, tl parts)
      else Inl ErrUnknownScope)"

definition ValidateBody :: "string \<Rightarrow> base_err + string" where
  "ValidateBody raw =
     (let body = TrimSpace raw in
      if body = [] then Inl ErrEmptyBody
      else if length body > MaxBodyBytes then Inl ErrBodyTooLong
      else if has_control body then Inl ErrControlChars
      else Inr body)"

section \<open>throttle.go\<close>

record chat_bucket =
  cb_tokens :: real
  cb_cap :: real
  cb_refillPer :: real
  cb_last :: time

definition newBucket :: "real \<Rightarrow> time \<Rightarrow> chat_bucket" where
  "newBucket rate now = \<lparr>cb_tokens = rate, cb_cap = rate, cb_refillPer = rate, cb_last = now\<rparr>"

definition bucket_take :: "time \<Rightarrow> chat_bucket \<Rightarrow> chat_bucket \<times> bool" where
  "bucket_take now b =
     (let elapsed = duration_seconds (time_sub now (cb_last b));
          filled = cb_tokens b + elapsed * cb_refillPer b;
          tokens = (if filled > cb_cap b then cb_cap b else filled);
          b1 = b\<lparr>cb_last := now, cb_tokens := tokens\<rparr>
      in if tokens < 1 then (b1, False) else (b1\<lparr>cb_tokens := tokens - 1\<rparr>, True))"

definition MessagesPerSecond :: real where
  "MessagesPerSecond = 5"

section \<open>pgrepo/chat.go and the state of the service\<close>

record chat_inbound =
  ci_ID :: string
  ci_MatchID :: string
  ci_Scope :: string
  ci_AuthorID :: user_id
  ci_AuthorName :: string
  ci_AuthorSlot :: slot
  ci_Body :: string
  ci_SentAt :: time

record chat_service =
  cs_world :: world
  cs_messages :: "chat_message list"
  cs_throttle :: "(user_id, chat_bucket) gomap"
  cs_published :: "(string \<times> chat_inbound) list"

text \<open>The table refers to the matches and the users; the primary key is the message's identifier.\<close>

definition Chat_Insert :: "env \<Rightarrow> chat_message \<Rightarrow> chat_service \<Rightarrow> chat_service \<times> (base_err + unit)" where
  "Chat_Insert env m s =
     (if match_row (cs_world s) (cm_MatchID m) = None \<or> user_row (cs_world s) (cm_AuthorID m) = None \<or>
         list_ex (\<lambda>x. cm_ID x = cm_ID m) (cs_messages s)
      then (s, Inl DatabaseErr)
      else
        let s' = s\<lparr>cs_messages := cs_messages s @ [m]\<rparr> in
        case env_outcome env [] of
          Delivered \<Rightarrow> (s', Inr ())
        | Refused \<Rightarrow> (s, Inl DatabaseErr)
        | AnswerLost \<Rightarrow> (s', Inl DatabaseErr))"

definition Chat_History :: "env \<Rightarrow> history_query \<Rightarrow> chat_service \<Rightarrow> chat_service \<times> (base_err + chat_message list)" where
  "Chat_History env q s =
     (let limit = (if hq_Limit q \<le> 0 \<or> hq_Limit q > 200 then 50 else hq_Limit q);
          before = (if time_isZero (hq_Before q) then env_now env [] + Hour else hq_Before q);
          rows = filter (\<lambda>m. cm_MatchID m = hq_MatchID q \<and> cm_Scope m = hq_Scope q \<and> cm_SentAt m < before) (cs_messages s)
      in (s, if env_outcome env [] = Delivered
             then Inr (take (nat limit) (sort_key (\<lambda>m. - cm_SentAt m) rows))
             else Inl DatabaseErr))"

section \<open>service.go\<close>

record send_input =
  sd_MatchID :: string
  sd_AuthorID :: user_id
  sd_AuthorSlot :: slot
  sd_Scope :: string
  sd_Body :: string

type_synonym 'a chat_act = "chat_service \<Rightarrow> chat_service \<times> (svc_err + 'a)"

definition allow :: "time \<Rightarrow> time \<Rightarrow> user_id \<Rightarrow> chat_service \<Rightarrow> chat_service \<times> bool" where
  "allow created now uid s =
     (let b = (case map_of (cs_throttle s) uid of Some b \<Rightarrow> b | None \<Rightarrow> newBucket MessagesPerSecond created);
          (b', ok) = bucket_take now b
      in (s\<lparr>cs_throttle := mput uid b' (cs_throttle s)\<rparr>, ok))"

definition isPlayer :: "lobby_player list \<Rightarrow> user_id \<Rightarrow> slot \<Rightarrow> bool" where
  "isPlayer players uid s \<longleftrightarrow> list_ex (\<lambda>p. lp_UserID p = uid \<and> (s = [] \<or> lp_Slot p = s)) players"

definition dmPartnerIsPlayer :: "(string \<Rightarrow> string option) \<Rightarrow> send_input \<Rightarrow> string list \<Rightarrow> lobby_player list \<Rightarrow> svc_err option" where
  "dmPartnerIsPlayer parseUUID inp parts players =
     (case (parseUUID (parts ! 1), parseUUID (parts ! 2)) of
        (Some a, Some b) \<Rightarrow>
          let partner = (if a = sd_AuthorID inp then b else a) in
          if list_ex (\<lambda>p. lp_UserID p = partner) players then None
          else Some (errs_New NotFound ''dm partner is not in this match'')
      | _ \<Rightarrow> Some (errs_New BadRequest ''invalid dm participants''))"

definition checkScope :: "(string \<Rightarrow> string option) \<Rightarrow> env \<Rightarrow> send_input \<Rightarrow> channel_kind \<Rightarrow> string list \<Rightarrow> chat_service \<Rightarrow> svc_err option" where
  "checkScope parseUUID env inp kind parts s =
     (case snd (ListPlayers env (sd_MatchID inp) (cs_world s)) of
        Inl e \<Rightarrow> Some (errs_Wrap e Internal ''loading players'')
      | Inr players \<Rightarrow>
          if \<not> isPlayer players (sd_AuthorID inp) (sd_AuthorSlot inp)
          then Some (errs_New Forbidden ''not a member of this match'')
          else if parts ! 0 \<noteq> sd_MatchID inp then Some (errs_New BadRequest ''scope match id mismatch'')
          else
            (case kind of
               ChannelWorld \<Rightarrow> None
             | ChannelCoalition \<Rightarrow> None
             | ChannelDM \<Rightarrow>
                 if \<not> sublist (sd_AuthorID inp) (sd_Scope inp)
                 then Some (errs_New Forbidden ''author not a DM participant'')
                 else dmPartnerIsPlayer parseUUID inp parts players))"

definition dmPerUserScope :: "string \<Rightarrow> user_id \<Rightarrow> string" where
  "dmPerUserScope mid uid = ''dm:'' @ mid @ '':inbox:'' @ uid"

definition publish_chat :: "env \<Rightarrow> string \<Rightarrow> chat_inbound \<Rightarrow> chat_service \<Rightarrow> chat_service \<times> (base_err + unit)" where
  "publish_chat env scope msg s =
     (let s' = s\<lparr>cs_published := cs_published s @ [(scope, msg)]\<rparr> in
      case env_outcome env [] of
        Delivered \<Rightarrow> (s', Inr ())
      | Refused \<Rightarrow> (s, Inl BusErr)
      | AnswerLost \<Rightarrow> (s', Inl BusErr))"

definition fanout :: "env \<Rightarrow> chat_message \<Rightarrow> channel_kind \<Rightarrow> string list \<Rightarrow> chat_service \<Rightarrow> chat_service \<times> (base_err + unit)" where
  "fanout env m kind parts =
     (let msg = \<lparr>ci_ID = cm_ID m, ci_MatchID = cm_MatchID m, ci_Scope = cm_Scope m, ci_AuthorID = cm_AuthorID m,
                 ci_AuthorName = [], ci_AuthorSlot = cm_AuthorSlot m, ci_Body = cm_Body m, ci_SentAt = cm_SentAt m\<rparr>
      in case kind of
           ChannelDM \<Rightarrow>
             let dmA = dmPerUserScope (cm_MatchID m) (parts ! 1); dmB = dmPerUserScope (cm_MatchID m) (parts ! 2) in
             ebind (publish_chat (esub env 0) dmA msg) (\<lambda>_.
             if dmA \<noteq> dmB then publish_chat (esub env 1) dmB msg else ret ())
         | _ \<Rightarrow> publish_chat (esub env 0) (cm_Scope m) msg)"

text \<open>The clock is read for a new bucket, for the bucket, and for the message.\<close>

definition Send :: "(string \<Rightarrow> string option) \<Rightarrow> env \<Rightarrow> send_input \<Rightarrow> chat_message chat_act" where
  "Send parseUUID env inp s =
     (case ValidateBody (sd_Body inp) of
        Inl e \<Rightarrow> (s, Inl (errs_Wrap e BadRequest ''invalid body''))
      | Inr body \<Rightarrow>
          (case ParseScope (sd_Scope inp) of
             Inl e \<Rightarrow> (s, Inl (errs_Wrap e BadRequest ''invalid scope''))
           | Inr (kind, parts) \<Rightarrow>
               (case checkScope parseUUID (esub env 0) inp kind parts s of
                  Some e \<Rightarrow> (s, Inl e)
                | None \<Rightarrow>
                    let (s1, ok) = allow (env_now env [0]) (env_now env [1]) (sd_AuthorID inp) s in
                    if \<not> ok then (s1, Inl (errs_New RateLimited ''chat rate exceeded''))
                    else
                      let m = \<lparr>cm_ID = env_uuid env [], cm_MatchID = sd_MatchID inp, cm_Scope = sd_Scope inp,
                               cm_AuthorID = sd_AuthorID inp, cm_AuthorSlot = sd_AuthorSlot inp, cm_Body = body,
                               cm_SentAt = env_now env [2]\<rparr>
                      in case Chat_Insert (esub env 1) m s1 of
                           (s2, Inl e) \<Rightarrow> (s2, Inl (errs_Wrap e Internal ''persisting chat message''))
                         | (s2, Inr _) \<Rightarrow> (fst (fanout (esub env 2) m kind parts s2), Inr m))))"

definition chat_History :: "env \<Rightarrow> history_query \<Rightarrow> chat_message list chat_act" where
  "chat_History env q = on_err (\<lambda>e. errs_Wrap e Internal ''loading chat history'') (Chat_History env q)"

end
