(* ===== verification/Gateway.thy ===== *)
theory Gateway
  imports Runner Chat Workers
begin

text \<open>
  \<open>internal/gateway\<close>: the WebSocket sessions between the clients and the message bus, with the subjects
  and the publisher of \<open>internal/adapter/natsbridge\<close>. A message on the bus is its subject and its body.
  Whether a subscription covers a subject is decided by the bus, which is not part of the repository: it is
  the parameter \<open>covers\<close>. A reply that waits for room in the send queue is put there at once; only the
  relay of a bus message looks at the room left, and drops the message when there is none.
\<close>

section \<open>natsbridge/subjects.go and chat.go: subjects\<close>

definition CmdSubject :: "string \<Rightarrow> string" where
  "CmdSubject mid = ''match.'' @ mid @ ''.cmd''"

definition StartSubject :: "string \<Rightarrow> string" where
  "StartSubject mid = ''match.'' @ mid @ ''.start''"

definition ResyncSubject :: "string \<Rightarrow> string" where
  "ResyncSubject mid = ''match.'' @ mid @ ''.resync''"

definition PublicStateSubject :: "string \<Rightarrow> string" where
  "PublicStateSubject mid = ''match.'' @ mid @ ''.state''"

definition PublicEventSubject :: "string \<Rightarrow> string" where
  "PublicEventSubject mid = ''match.'' @ mid @ ''.event''"

definition SlotStateSubject :: "string \<Rightarrow> slot \<Rightarrow> string" where
  "SlotStateSubject mid s = ''match.'' @ mid @ ''.slot.'' @ s @ ''.state''"

definition SlotEventSubject :: "string \<Rightarrow> slot \<Rightarrow> string" where
  "SlotEventSubject mid s = ''match.'' @ mid @ ''.slot.'' @ s @ ''.event''"

definition FinalStateSubject :: "string \<Rightarrow> string" where
  "FinalStateSubject mid = ''match.'' @ mid @ ''.state.final''"

definition EndMatchSubject :: "string \<Rightarrow> string" where
  "EndMatchSubject mid = ''match.'' @ mid @ ''.end''"

definition PresenceSubject :: "string \<Rightarrow> slot \<Rightarrow> string" where
  "PresenceSubject mid s = ''match.'' @ mid @ ''.presence.'' @ s"

definition ChatIngressSubject :: "string \<Rightarrow> string" where
  "ChatIngressSubject mid = ''chat.'' @ mid @ ''.ingress''"

definition ChatScopeSubject :: "string \<Rightarrow> string" where
  "ChatScopeSubject scope = ''chat.scope.'' @ map (\<lambda>c. if c = CHR '':'' then CHR ''.'' else c) scope"

definition ChatScopeWildcardForUser :: "user_id \<Rightarrow> string" where
  "ChatScopeWildcardForUser uid = ''chat.scope.dm.*.inbox.'' @ uid"

section \<open>natsbridge/publisher.go\<close>

record chat_ingress_payload =
  cip_MatchID :: string
  cip_AuthorID :: user_id
  cip_AuthorSlot :: slot
  cip_Scope :: string
  cip_Body :: string

datatype bus_body =
    BodyState state_envelope
  | BodyEvent event_envelope
  | BodyChat chat_inbound
  | BodyCommand command_payload
  | BodyStart start_payload
  | BodyResync string
  | BodyEndMatch end_match_payload
  | BodyPresence presence_payload
  | BodyChatIngress chat_ingress_payload

type_synonym bus_message = "string \<times> bus_body"

text \<open>The messages the engine publishes.\<close>

fun publication_message :: "publication \<Rightarrow> bus_message" where
  "publication_message (PublicState mid st) = (PublicStateSubject mid, BodyState st)"
| "publication_message (SlotState mid s st) = (SlotStateSubject mid s, BodyState st)"
| "publication_message (PublicEvent mid e) = (PublicEventSubject mid, BodyEvent e)"
| "publication_message (SlotEvent mid s e) = (SlotEventSubject mid s, BodyEvent e)"
| "publication_message (FinalState mid st) = (FinalStateSubject mid, BodyState st)"

text \<open>The messages the gateway, the lobby service and the workers publish.\<close>

definition command_message :: "command_payload \<Rightarrow> bus_message" where
  "command_message p = (CmdSubject (cp_MatchID p), BodyCommand p)"

definition start_message :: "start_payload \<Rightarrow> bus_message" where
  "start_message p = (StartSubject (sp_MatchID p), BodyStart p)"

definition resync_message :: "string \<Rightarrow> bus_message" where
  "resync_message mid = (ResyncSubject mid, BodyResync mid)"

definition end_match_message :: "end_match_payload \<Rightarrow> bus_message" where
  "end_match_message p = (EndMatchSubject (ep_MatchID p), BodyEndMatch p)"

definition presence_messages :: "presence_payload \<Rightarrow> bus_message list" where
  "presence_messages p =
     (if pp_MatchID p = [] \<or> pp_Slot p = [] then [] else [(PresenceSubject (pp_MatchID p) (pp_Slot p), BodyPresence p)])"

definition chat_ingress_message :: "chat_ingress_payload \<Rightarrow> bus_message" where
  "chat_ingress_message p = (ChatIngressSubject (cip_MatchID p), BodyChatIngress p)"

definition chat_message_on_bus :: "string \<Rightarrow> chat_inbound \<Rightarrow> bus_message" where
  "chat_message_on_bus scope msg = (ChatScopeSubject scope, BodyChat msg)"

section \<open>ratelimit.go\<close>

record token_bucket =
  tb_capacity :: int
  tb_tokens :: int
  tb_last :: time
  tb_refill :: duration

definition newTokenBucket :: "int \<Rightarrow> duration \<Rightarrow> time \<Rightarrow> token_bucket" where
  "newTokenBucket capacity refill now = \<lparr>tb_capacity = capacity, tb_tokens = capacity, tb_last = now, tb_refill = refill\<rparr>"

definition Allow :: "time \<Rightarrow> token_bucket \<Rightarrow> token_bucket \<times> bool" where
  "Allow now b =
     (let b1 = (if time_sub now (tb_last b) \<ge> tb_refill b then b\<lparr>tb_tokens := tb_capacity b, tb_last := now\<rparr> else b)
      in if tb_tokens b1 \<le> 0 then (b1, False) else (b1\<lparr>tb_tokens := tb_tokens b1 - 1\<rparr>, True))"

section \<open>The state of a session\<close>

datatype sub_handler = StateFanOut | FanOut | CoalitionFanOut

datatype server_message =
    Relayed bus_body
  | HelloAck string time
  | Pong time
  | ErrorReply string string time

record chat_state =
  ch_coalitionLead :: slot
  ch_matchID :: string
  ch_userID :: user_id

record conn =
  cn_id :: string
  cn_user :: user_id
  cn_send :: "server_message list"
  cn_matchID :: string
  cn_slot :: slot
  cn_subs :: "(string \<times> sub_handler) list"
  cn_rate :: token_bucket
  cn_closed :: bool
  cn_chat :: "chat_state option"

definition clientSendBacklog :: nat where
  "clientSendBacklog = 64"

definition WireVersion :: int where
  "WireVersion = 3"

definition new_conn :: "string \<Rightarrow> user_id \<Rightarrow> string \<Rightarrow> int \<Rightarrow> time \<Rightarrow> conn" where
  "new_conn cid uid mid rateLimit now =
     \<lparr>cn_id = cid, cn_user = uid, cn_send = [], cn_matchID = mid, cn_slot = [], cn_subs = [],
      cn_rate = newTokenBucket rateLimit Second now, cn_closed = False, cn_chat = None\<rparr>"

definition reply :: "server_message \<Rightarrow> conn \<Rightarrow> conn" where
  "reply msg c = c\<lparr>cn_send := cn_send c @ [msg]\<rparr>"

definition sendError :: "time \<Rightarrow> string \<Rightarrow> string \<Rightarrow> conn \<Rightarrow> conn" where
  "sendError now code msg = reply (ErrorReply code msg now)"

definition conn_close :: "conn \<Rightarrow> conn" where
  "conn_close c = (if cn_closed c then c else c\<lparr>cn_closed := True, cn_subs := []\<rparr>)"

section \<open>chat.go\<close>

definition worldScope :: "string \<Rightarrow> string" where
  "worldScope mid = ''world:'' @ mid"

definition coalitionScope :: "string \<Rightarrow> slot \<Rightarrow> string" where
  "coalitionScope mid lead = ''coal:'' @ mid @ '':'' @ lead"

definition coalitionWildcard :: "string \<Rightarrow> string" where
  "coalitionWildcard mid = ''chat.scope.coal.'' @ mid @ ''.*''"

definition dmScopeForPair :: "string \<Rightarrow> user_id \<Rightarrow> user_id \<Rightarrow> string" where
  "dmScopeForPair mid a b =
     (let (x, y) = (if a > b then (b, a) else (a, b)) in ''dm:'' @ mid @ '':'' @ x @ '':'' @ y)"

text \<open>One treaty of the inner loop, with the allies found so far and the stack, its top first.\<close>

definition ally_step :: "slot \<Rightarrow> slot list \<times> slot list \<Rightarrow> treaty_state \<Rightarrow> slot list \<times> slot list" where
  "ally_step cur st t =
     (case st of (allies, stack) \<Rightarrow>
        if ts_Stance t \<noteq> ''alliance'' then (allies, stack)
        else
          let ally = (if cur = ts_SlotA t then ts_SlotB t else if cur = ts_SlotB t then ts_SlotA t else []) in
          if ally = [] \<or> ally \<in> set allies then (allies, stack) else (ally # allies, ally # stack))"

definition endpoints :: "treaty_state list \<Rightarrow> slot set" where
  "endpoints ts = ts_SlotA ` set ts \<union> ts_SlotB ` set ts"

lemma ally_step_bound:
  assumes "ally_step cur (allies, stack) t = (allies', stack')"
  shows "allies' = allies \<and> stack' = stack \<or> (\<exists>x\<in>{ts_SlotA t, ts_SlotB t} - set allies. allies' = x # allies \<and> stack' = x # stack)"
  using assms by (auto simp: ally_step_def Let_def split: if_splits)

lemma ally_fold_bound:
  assumes "foldl (ally_step cur) (allies, stack) ts = (allies', stack')"
  shows "\<exists>new. allies' = new @ allies \<and> stack' = new @ stack \<and> distinct new \<and> set new \<subseteq> endpoints ts - set allies"
  using assms
proof (induction ts arbitrary: allies stack)
  case (Cons t ts)
  obtain a1 s1 where one: "ally_step cur (allies, stack) t = (a1, s1)" by fastforce
  from Cons.IH[of a1 s1] Cons.prems one obtain new where
    new: "allies' = new @ a1" "stack' = new @ s1" "distinct new" "set new \<subseteq> endpoints ts - set a1" by auto
  from ally_step_bound[OF one] show ?case
  proof
    assume "a1 = allies \<and> s1 = stack"
    with new show ?thesis by (auto simp: endpoints_def)
  next
    assume "\<exists>x\<in>{ts_SlotA t, ts_SlotB t} - set allies. a1 = x # allies \<and> s1 = x # stack"
    then obtain x where "x \<in> {ts_SlotA t, ts_SlotB t} - set allies" "a1 = x # allies" "s1 = x # stack" by blast
    with new show ?thesis by (intro exI[of _ "new @ [x]"]) (auto simp: endpoints_def)
  qed
qed simp

function ally_search :: "treaty_state list \<Rightarrow> slot list \<Rightarrow> slot list \<Rightarrow> slot list" where
  "ally_search ts allies [] = allies"
| "ally_search ts allies (cur # stack) =
     (let (allies', stack') = foldl (ally_step cur) (allies, stack) ts in ally_search ts allies' stack')"
  by pat_completeness auto
termination
proof (relation "measures [\<lambda>(ts, allies, _). card (endpoints ts - set allies), \<lambda>(_, _, stack). length stack]")
  fix ts allies :: "slot list" and tsl cur stack x allies' stack'
  assume "x = foldl (ally_step cur) (allies, stack) tsl" "(allies', stack') = x"
  then obtain new where new: "allies' = new @ allies" "stack' = new @ stack" "distinct new" "set new \<subseteq> endpoints tsl - set allies"
    using ally_fold_bound[of cur allies stack tsl allies' stack'] by auto
  show "((tsl, allies', stack'), tsl, allies, cur # stack)
      \<in> measures [\<lambda>(ts, allies, _). card (endpoints ts - set allies), \<lambda>(_, _, stack). length stack]"
  proof (cases "new = []")
    case False
    then have "endpoints tsl - set allies' \<subset> endpoints tsl - set allies" using new by (cases new) auto
    moreover have "finite (endpoints tsl - set allies)" by (simp add: endpoints_def)
    ultimately show ?thesis by (simp add: psubset_card_mono)
  qed (use new in simp)
qed simp

definition coalitionLeaderFor :: "slot \<Rightarrow> player_state list \<Rightarrow> treaty_state list \<Rightarrow> slot" where
  "coalitionLeaderFor s players treaties =
     (let allies = ally_search treaties [s] [s] in
      foldl (\<lambda>leader p. if pys_ID p \<in> set allies \<and> pys_ID p < leader then pys_ID p else leader) s players)"

definition maybeUpdateCoalitionFromState :: "bus_body \<Rightarrow> conn \<Rightarrow> conn" where
  "maybeUpdateCoalitionFromState body c =
     (case cn_chat c of
        None \<Rightarrow> c
      | Some ch \<Rightarrow>
          if cn_slot c = [] then c
          else
            (case body of
               BodyState env \<Rightarrow>
                 (case se_State env of
                    None \<Rightarrow> c
                  | Some st \<Rightarrow>
                      c\<lparr>cn_chat := Some (ch\<lparr>ch_coalitionLead := coalitionLeaderFor (cn_slot c) (ms_Players st) (ms_Diplomacy st)\<rparr>)\<rparr>)
             | _ \<Rightarrow> c))"

definition subscribe_ok :: "env \<Rightarrow> nat \<Rightarrow> bool" where
  "subscribe_ok env i \<longleftrightarrow> env_outcome env [i] = Delivered"

definition subscribeChat :: "env \<Rightarrow> string \<Rightarrow> conn \<Rightarrow> conn \<times> bool" where
  "subscribeChat env mid c =
     (let ch = (case cn_chat c of Some ch \<Rightarrow> ch | None \<Rightarrow> \<lparr>ch_coalitionLead = [], ch_matchID = mid, ch_userID = cn_user c\<rparr>);
          c1 = c\<lparr>cn_chat := Some ch\<rparr>
      in if subscribe_ok env 0 \<and> subscribe_ok env 1 \<and> subscribe_ok env 2
         then (c1\<lparr>cn_subs := cn_subs c1 @ [(ChatScopeSubject (worldScope mid), FanOut),
                    (ChatScopeWildcardForUser (ch_userID ch), FanOut), (coalitionWildcard mid, CoalitionFanOut)]\<rparr>, True)
         else (c1, False))"

section \<open>hub.go: subscriptions and relays\<close>

definition subscribeMatch :: "env \<Rightarrow> (string, slot) gomap \<Rightarrow> string \<Rightarrow> conn \<Rightarrow> conn \<times> bool" where
  "subscribeMatch env idx mid c =
     (let s = (case LookupUserSlot (esub env 0) idx mid (cn_user c) of Some s \<Rightarrow> s | None \<Rightarrow> []);
          c1 = c\<lparr>cn_slot := s\<rparr>;
          stateSubject = (if s \<noteq> [] then SlotStateSubject mid s else PublicStateSubject mid);
          eventSubject = (if s \<noteq> [] then SlotEventSubject mid s else PublicEventSubject mid)
      in if \<not> (subscribe_ok env 1 \<and> subscribe_ok env 2) then (c1, False)
         else subscribeChat (esub env 3) mid
                (c1\<lparr>cn_subs := cn_subs c1 @ [(stateSubject, StateFanOut), (eventSubject, FanOut)]\<rparr>))"

definition fanOut :: "bus_body \<Rightarrow> conn \<Rightarrow> conn" where
  "fanOut body c = (if length (cn_send c) < clientSendBacklog then reply (Relayed body) c else c)"

definition stateFanOut :: "bus_body \<Rightarrow> conn \<Rightarrow> conn" where
  "stateFanOut body c = fanOut body (maybeUpdateCoalitionFromState body c)"

definition chatCoalitionFanOut :: "string \<Rightarrow> bus_body \<Rightarrow> conn \<Rightarrow> conn" where
  "chatCoalitionFanOut subject body c =
     (case cn_chat c of
        None \<Rightarrow> c
      | Some ch \<Rightarrow>
          if ch_coalitionLead ch = [] then c
          else if subject \<noteq> ChatScopeSubject (coalitionScope (ch_matchID ch) (ch_coalitionLead ch)) then c
          else fanOut body c)"

text \<open>The bus hands a message to each subscription that covers its subject.\<close>

definition run_handler :: "bus_message \<Rightarrow> conn \<Rightarrow> string \<times> sub_handler \<Rightarrow> conn" where
  "run_handler msg c sb =
     (case snd sb of
        StateFanOut \<Rightarrow> stateFanOut (snd msg) c
      | FanOut \<Rightarrow> fanOut (snd msg) c
      | CoalitionFanOut \<Rightarrow> chatCoalitionFanOut (fst msg) (snd msg) c)"

definition receive :: "(string \<Rightarrow> string \<Rightarrow> bool) \<Rightarrow> bus_message \<Rightarrow> conn \<Rightarrow> conn" where
  "receive covers msg c = foldl (run_handler msg) c (filter (\<lambda>sb. covers (fst sb) (fst msg)) (cn_subs c))"

section \<open>hub.go and chat.go: messages from the client\<close>

record wire_command =
  wc_Kind :: string
  wc_UnitID :: string
  wc_From :: province_id
  wc_To :: province_id
  wc_IssuedAt :: time
  wc_Idempotency :: string
  wc_Args :: "(string, string) gomap"

record chat_outbound =
  co_Scope :: string
  co_TargetUserID :: user_id
  co_Body :: string

record client_envelope =
  ce_Type :: string
  ce_WireVersion :: int
  ce_MatchID :: string
  ce_Command :: "wire_command option"
  ce_Chat :: "chat_outbound option"

text \<open>A handler returns the session, and the messages it hands to the publisher, each of which may fail.\<close>

definition try_publish :: "env \<Rightarrow> bus_message \<Rightarrow> (conn \<Rightarrow> conn) \<Rightarrow> conn \<Rightarrow> conn \<times> bus_message list" where
  "try_publish env msg on_error c =
     (case env_outcome env [] of
        Delivered \<Rightarrow> (c, [msg])
      | Refused \<Rightarrow> (on_error c, [])
      | AnswerLost \<Rightarrow> (on_error c, [msg]))"

definition publishPresence :: "env \<Rightarrow> conn \<Rightarrow> bus_message list" where
  "publishPresence env c =
     (if cn_matchID c = [] \<or> cn_slot c = [] \<or> env_outcome env [] = Refused then []
      else presence_messages \<lparr>pp_MatchID = cn_matchID c, pp_UserID = cn_user c, pp_Slot = cn_slot c, pp_At = env_now env []\<rparr>)"

definition handleHello :: "env \<Rightarrow> (string, slot) gomap \<Rightarrow> client_envelope \<Rightarrow> conn \<Rightarrow> conn \<times> bus_message list" where
  "handleHello env idx m c =
     (let now = env_now env [0] in
      if ce_WireVersion m \<noteq> 0 \<and> ce_WireVersion m \<noteq> WireVersion
      then (sendError now ''wire_version'' ''client wire version is incompatible with server'' c, [])
      else if ce_MatchID m = [] then (sendError now ''missing_match'' ''hello must include match_id'' c, [])
      else
        let (c1, ok) = (if cn_matchID c = [] then subscribeMatch (esub env 1) idx (ce_MatchID m) c else (c, True)) in
        if \<not> ok then (sendError now ''subscribe_failed'' ''nats'' c1, [])
        else
          let c2 = (if cn_matchID c = [] then c1\<lparr>cn_matchID := ce_MatchID m\<rparr> else c1)
          in (reply (HelloAck (ce_MatchID m) now) c2, publishPresence (esub env 2) c2))"

definition handleCommand :: "env \<Rightarrow> client_envelope \<Rightarrow> conn \<Rightarrow> conn \<times> bus_message list" where
  "handleCommand env m c =
     (let now = env_now env [0] in
      case ce_Command m of
        None \<Rightarrow> (sendError now ''missing_command'' ''command body required'' c, [])
      | Some cmd \<Rightarrow>
          if cn_matchID c = [] \<or> ce_MatchID m \<noteq> cn_matchID c
          then (sendError now ''wrong_match'' ''command must target the connected match'' c, [])
          else
            let (rate, ok) = Allow (env_now env [1]) (cn_rate c); c1 = c\<lparr>cn_rate := rate\<rparr> in
            if \<not> ok then (sendError now ''rate_limited'' [] c1, [])
            else
              try_publish (esub env 2)
                (command_message \<lparr>cp_MatchID = cn_matchID c, cp_UserID = cn_user c, cp_Slot = cn_slot c,
                   cp_IdempotencyKey = wc_Idempotency cmd, cp_Kind = wc_Kind cmd, cp_UnitID = wc_UnitID cmd,
                   cp_From = wc_From cmd, cp_To = wc_To cmd, cp_IssuedAt = wc_IssuedAt cmd, cp_Args = wc_Args cmd\<rparr>)
                (sendError now ''publish_failed'' ''nats'') c1)"

definition scopeFromOutbound :: "chat_outbound \<Rightarrow> conn \<Rightarrow> string + string" where
  "scopeFromOutbound out c =
     (if co_Scope out = ''world'' then Inr (worldScope (cn_matchID c))
      else if co_Scope out = ''coalition'' then
        let lead = (case cn_chat c of Some ch \<Rightarrow> ch_coalitionLead ch | None \<Rightarrow> []) in
        Inr (coalitionScope (cn_matchID c) (if lead = [] then cn_slot c else lead))
      else if co_Scope out = ''dm'' then
        if co_TargetUserID out = [] then Inl ''dm requires target_user_id''
        else Inr (dmScopeForPair (cn_matchID c) (cn_user c) (co_TargetUserID out))
      else Inl ''unknown scope'')"

definition handleClientChat :: "env \<Rightarrow> client_envelope \<Rightarrow> conn \<Rightarrow> conn \<times> bus_message list" where
  "handleClientChat env m c =
     (let now = env_now env [0] in
      if cn_matchID c = [] \<or> (ce_MatchID m \<noteq> [] \<and> ce_MatchID m \<noteq> cn_matchID c)
      then (sendError now ''wrong_match'' ''chat must target the connected match'' c, [])
      else
        case ce_Chat m of
          None \<Rightarrow> (sendError now ''missing_chat'' ''chat body required'' c, [])
        | Some out \<Rightarrow>
            if co_Body out = [] then (sendError now ''missing_chat'' ''chat body required'' c, [])
            else
              let (rate, ok) = Allow (env_now env [1]) (cn_rate c); c1 = c\<lparr>cn_rate := rate\<rparr> in
              if \<not> ok then (sendError now ''rate_limited'' [] c1, [])
              else
                (case scopeFromOutbound out c1 of
                   Inl e \<Rightarrow> (sendError now ''bad_scope'' e c1, [])
                 | Inr scope \<Rightarrow>
                     try_publish (esub env 2)
                       (chat_ingress_message \<lparr>cip_MatchID = cn_matchID c, cip_AuthorID = cn_user c, cip_AuthorSlot = cn_slot c,
                          cip_Scope = scope, cip_Body = co_Body out\<rparr>)
                       (sendError now ''publish_failed'' ''nats'') c1))"

text \<open>One turn of the read loop; \<open>None\<close> is text that is not a JSON envelope.\<close>

definition read_turn :: "env \<Rightarrow> (string, slot) gomap \<Rightarrow> client_envelope option \<Rightarrow> conn \<Rightarrow> conn \<times> bus_message list" where
  "read_turn env idx raw c =
     (case raw of
        None \<Rightarrow> (sendError (env_now env [0]) ''bad_json'' ''json'' c, [])
      | Some m \<Rightarrow>
          if ce_Type m = ''hello'' then handleHello (esub env 1) idx m c
          else if ce_Type m = ''ping'' then (reply (Pong (env_now env [0])) c, [])
          else if ce_Type m = ''command'' then handleCommand (esub env 1) m c
          else if ce_Type m = ''chat'' then handleClientChat (esub env 1) m c
          else if ce_Type m = ''resync'' then
            (reply (HelloAck [] (env_now env [0])) c,
             if cn_matchID c \<noteq> [] \<and> env_outcome env [1] \<noteq> Refused then [resync_message (cn_matchID c)] else [])
          else if ce_Type m = ''goodbye'' then (conn_close c, [])
          else (sendError (env_now env [0]) ''unknown_type'' (ce_Type m) c, []))"

text \<open>One turn of the write loop: the next message to the socket, which may fail.\<close>

definition write_turn :: "bool \<Rightarrow> conn \<Rightarrow> conn \<times> server_message option" where
  "write_turn socket_ok c =
     (if cn_closed c then (c, None)
      else case cn_send c of
        [] \<Rightarrow> (c, None)
      | msg # rest \<Rightarrow>
          let c1 = c\<lparr>cn_send := rest\<rparr> in
          if socket_ok then (c1, Some msg) else (conn_close c1, None))"

section \<open>hub.go: the hub\<close>

record hub =
  hb_rateLimit :: int
  hb_connections :: "(string, conn) gomap"

definition hub_register :: "conn \<Rightarrow> hub \<Rightarrow> hub" where
  "hub_register c h = h\<lparr>hb_connections := mput (cn_id c) c (hb_connections h)\<rparr>"

definition hub_unregister :: "conn \<Rightarrow> hub \<Rightarrow> hub" where
  "hub_unregister c h = h\<lparr>hb_connections := mdel (cn_id c) (hb_connections h)\<rparr>"

datatype ws_result = WsUnauthorized string | WsUpgradeFailed | WsSubscribeFailed | WsConnected

text \<open>The broker of tickets is a parameter: it redeems a ticket once, for the user it was issued to.\<close>

definition handleWS :: "env \<Rightarrow> (string \<Rightarrow> user_id option) \<Rightarrow> (string, slot) gomap \<Rightarrow> string \<Rightarrow> string \<Rightarrow> hub \<Rightarrow> hub \<times> ws_result" where
  "handleWS env redeem idx ticketID mid h =
     (if ticketID = [] then (h, WsUnauthorized ''ticket required'')
      else case redeem ticketID of
        None \<Rightarrow> (h, WsUnauthorized ''invalid ticket'')
      | Some uid \<Rightarrow>
          if env_outcome env [0] \<noteq> Delivered then (h, WsUpgradeFailed)
          else
            let c = new_conn (env_uuid env []) uid mid (hb_rateLimit h) (env_now env []); h1 = hub_register c h in
            if mid = [] then (h1, WsConnected)
            else
              let (c1, ok) = subscribeMatch (esub env 1) idx mid c in
              if ok then (hub_register c1 h1, WsConnected) else (hub_unregister c1 h1, WsSubscribeFailed))"

definition shutdown :: "hub \<Rightarrow> hub" where
  "shutdown h = h\<lparr>hb_connections := []\<rparr>"

end
