(* ===== verification/Bot.thy ===== *)
theory Bot
  imports Gateway
begin

text \<open>
  \<open>internal/aibot\<close>: the pool of service accounts (\<open>pool.go\<close>), the decisions of a bot
  (\<open>heuristic/heuristic.go\<close>), one session's reaction to a message (\<open>session.go\<close>) and the
  reconciliation of sessions with the seats the AI controls (\<open>runner.go\<close>). The random source and the
  order an unstable sort leaves equal keys in are the \<open>choices\<close>, addressed by a path like the runtime.
\<close>

section \<open>pool.go\<close>

record bot_pool =
  bp_bots :: "user_id list"
  bp_next :: nat

definition newBotPool :: "user_id list \<Rightarrow> bot_pool" where
  "newBotPool bots = \<lparr>bp_bots = bots, bp_next = 0\<rparr>"

text \<open>\<open>None\<close> is \<open>ErrNoBotsAvailable\<close>.\<close>

definition pool_take :: "bot_pool \<Rightarrow> bot_pool \<times> user_id option" where
  "pool_take p =
     (if bp_bots p = [] then (p, None)
      else (p\<lparr>bp_next := bp_next p + 1\<rparr>, Some (bp_bots p ! (bp_next p mod length (bp_bots p)))))"

definition pool_reload :: "user_id list \<Rightarrow> bot_pool \<Rightarrow> bot_pool" where
  "pool_reload bots p = \<lparr>bp_bots = bots, bp_next = (if bots \<noteq> [] then bp_next p mod length bots else 0)\<rparr>"

definition pool_size :: "bot_pool \<Rightarrow> nat" where
  "pool_size p = length (bp_bots p)"

section \<open>Choices and the format of an instant\<close>

record choices =
  ch_perm :: "nat list \<Rightarrow> nat \<Rightarrow> nat list"
  ch_int :: "nat list \<Rightarrow> nat \<Rightarrow> nat"

definition csub :: "choices \<Rightarrow> nat \<Rightarrow> choices" where
  "csub ch i = \<lparr>ch_perm = (\<lambda>p. ch_perm ch (i # p)), ch_int = (\<lambda>p. ch_int ch (i # p))\<rparr>"

text \<open>\<open>ch_perm\<close> is a permutation of the indices below its argument, \<open>ch_int\<close> a number below its own.\<close>

definition choices_ok :: "choices \<Rightarrow> bool" where
  "choices_ok ch \<longleftrightarrow> (\<forall>p n. mset (ch_perm ch p n) = mset [0..<n]) \<and> (\<forall>p n. 0 < n \<longrightarrow> ch_int ch p n < n)"

definition Shuffle :: "choices \<Rightarrow> 'a list \<Rightarrow> 'a list" where
  "Shuffle ch xs = map (\<lambda>i. xs ! i) (ch_perm ch [] (length xs))"

fun digits :: "nat \<Rightarrow> nat \<Rightarrow> string" where
  "digits 0 n = []"
| "digits (Suc k) n = digits k (n div 10) @ [char_of (48 + n mod 10)]"

definition leap_year :: "int \<Rightarrow> bool" where
  "leap_year y \<longleftrightarrow> y mod 4 = 0 \<and> (y mod 100 \<noteq> 0 \<or> y mod 400 = 0)"

fun month_and_day :: "int list \<Rightarrow> int \<Rightarrow> int \<Rightarrow> int \<times> int" where
  "month_and_day [] mth d = (mth, d + 1)"
| "month_and_day (len # lens) mth d = (if d < len then (mth, d + 1) else month_and_day lens (mth + 1) (d - len))"

text \<open>The Gregorian date of a day, counted from the first of January of the year 1.\<close>

definition civil_date :: "int \<Rightarrow> int \<times> int \<times> int" where
  "civil_date d =
     (let n400 = d div 146097; r400 = d mod 146097;
          n100 = min 3 (r400 div 36524); r100 = r400 - n100 * 36524;
          n4 = r100 div 1461; r4 = r100 mod 1461;
          n1 = min 3 (r4 div 365);
          y = 400 * n400 + 100 * n100 + 4 * n4 + n1 + 1;
          (mth, day) = month_and_day [31, if leap_year y then 29 else 28, 31, 30, 31, 30, 31, 31, 30, 31, 30, 31] 1 (r4 - n1 * 365)
      in (y, mth, day))"

text \<open>\<open>Format("20060102T150405.000000Z")\<close>, for the years up to 9999.\<close>

definition format_instant :: "time \<Rightarrow> string" where
  "format_instant t =
     (let (y, mth, d) = civil_date (t div (24 * Hour)); secs = (t mod (24 * Hour)) div Second
      in digits 4 (nat y) @ digits 2 (nat mth) @ digits 2 (nat d) @ ''T''
         @ digits 2 (nat (secs div 3600)) @ digits 2 (nat (secs div 60 mod 60)) @ digits 2 (nat (secs mod 60))
         @ ''.'' @ digits 6 (nat (t mod Second div 1000)) @ ''Z'')"

section \<open>heuristic.go\<close>

definition MaxCommandsPerDecision :: nat where
  "MaxCommandsPerDecision = 6"

definition MinManpowerForRecruit :: real where
  "MinManpowerForRecruit = 12"

definition findCapital :: "match_state \<Rightarrow> slot \<Rightarrow> province_state option" where
  "findCapital st s = find (\<lambda>p. pvs_OwnerID p = s \<and> pvs_Capital p) (ms_Provinces st)"

definition closestOwnUnit :: "match_state \<Rightarrow> slot \<Rightarrow> real \<Rightarrow> real \<Rightarrow> unit_state option" where
  "closestOwnUnit st s x y =
     fst (foldl (\<lambda>(best, bestD) u.
        if us_OwnerID u \<noteq> s then (best, bestD)
        else let d = hypot (us_X u - x) (us_Y u - y) in
             if d < bestD then (Some u, d) else (best, bestD))
       (None, MaxFloat64) (ms_Units st))"

definition ownedProvinces :: "match_state \<Rightarrow> slot \<Rightarrow> province_state list" where
  "ownedProvinces st s = filter (\<lambda>p. pvs_OwnerID p = s) (ms_Provinces st)"

definition otherSlot :: "slot \<Rightarrow> slot \<Rightarrow> slot \<Rightarrow> slot" where
  "otherSlot s a b = (if s = a then b else if s = b then a else [])"

definition hostileProvinces :: "match_state \<Rightarrow> slot \<Rightarrow> province_id set" where
  "hostileProvinces st s =
     (let stance = foldl (\<lambda>sm t. let x = otherSlot s (ts_SlotA t) (ts_SlotB t) in
                              if x = [] then sm else mput x (ts_Stance t) sm) [] (ms_Diplomacy st)
      in foldl (\<lambda>out p.
           if pvs_OwnerID p = [] \<or> pvs_OwnerID p = s then out
           else let x = mget_default [] stance (pvs_OwnerID p) in
                if x = ''peace'' \<or> x = ''alliance'' then out else insert (pvs_ID p) out)
         {} (ms_Provinces st))"

definition provinceByID :: "match_state \<Rightarrow> province_id \<Rightarrow> province_state option" where
  "provinceByID st i = find (\<lambda>p. pvs_ID p = i) (ms_Provinces st)"

text \<open>The sort by distance is not stable: equal candidates may end in any order.\<close>

definition closestHostileNeighbour :: "choices \<Rightarrow> match_state \<Rightarrow> province_id set \<Rightarrow> province_id \<Rightarrow> province_id" where
  "closestHostileNeighbour ch st hostile origin =
     (if hostile = {} then []
      else case provinceByID st origin of
        None \<Rightarrow> []
      | Some src \<Rightarrow>
          let cands = map (\<lambda>p. (pvs_ID p, hypot (pvs_X p - pvs_X src) (pvs_Y p - pvs_Y src)))
                        (filter (\<lambda>p. pvs_ID p \<in> hostile) (ms_Provinces st))
          in case sort_key snd (Shuffle ch cands) of [] \<Rightarrow> [] | c # _ \<Rightarrow> fst c)"

definition currentProvince :: "unit_state \<Rightarrow> province_id" where
  "currentProvince u = (if us_Origin u \<noteq> [] then us_Origin u else us_Dest u)"

definition isOnProvince :: "unit_state \<Rightarrow> province_state \<Rightarrow> bool" where
  "isOnProvince u p \<longleftrightarrow>
     (us_Origin u \<noteq> [] \<and> us_Origin u = pvs_ID p \<and> (us_Dest u = [] \<or> us_Dest u = pvs_ID p)) \<or>
     (\<bar>us_X u - pvs_X p\<bar> < 1 / 2 \<and> \<bar>us_Y u - pvs_Y p\<bar> < 1 / 2)"

definition bot_isMoving :: "unit_state \<Rightarrow> time \<Rightarrow> bool" where
  "bot_isMoving u now =
     (if time_isZero (us_ArrivesAt u) then False else if us_Origin u = us_Dest u then False else now < us_ArrivesAt u)"

definition idem :: "time \<Rightarrow> string \<Rightarrow> string \<Rightarrow> string" where
  "idem now kind tag = kind @ '':'' @ tag @ '':'' @ format_instant now"

text \<open>The letters of a tag, from a source of random numbers (a session always has one).\<close>

definition randomTag :: "choices \<Rightarrow> string" where
  "randomTag ch = map (\<lambda>i. char_of (97 + ch_int ch [i] 26)) [0..<12]"

definition no_command :: wire_command where
  "no_command = \<lparr>wc_Kind = [], wc_UnitID = [], wc_From = [], wc_To = [], wc_IssuedAt = 0, wc_Idempotency = [], wc_Args = []\<rparr>"

definition newCommand :: "time \<Rightarrow> choices \<Rightarrow> string \<Rightarrow> wire_command \<Rightarrow> wire_command" where
  "newCommand now ch kind base =
     base\<lparr>wc_Kind := kind, wc_IssuedAt := now, wc_Idempotency := idem now kind (randomTag ch)\<rparr>"

definition defendCapital :: "choices \<Rightarrow> match_state \<Rightarrow> slot \<Rightarrow> time \<Rightarrow> wire_command list" where
  "defendCapital ch st s now =
     (case findCapital st s of
        None \<Rightarrow> []
      | Some capital \<Rightarrow>
          if list_ex (\<lambda>u. us_OwnerID u = s \<and> isOnProvince u capital) (ms_Units st) then []
          else case closestOwnUnit st s (pvs_X capital) (pvs_Y capital) of
            None \<Rightarrow> []
          | Some u \<Rightarrow>
              if us_Origin u = pvs_ID capital then []
              else [newCommand now ch ''move''
                      (no_command\<lparr>wc_UnitID := us_ID u, wc_From := currentProvince u, wc_To := pvs_ID capital\<rparr>)])"

definition recruitIfPossible :: "choices \<Rightarrow> match_state \<Rightarrow> slot \<Rightarrow> time \<Rightarrow> wire_command list" where
  "recruitIfPossible ch st s now =
     (case map_of (ms_Resources st) s of
        None \<Rightarrow> []
      | Some bank \<Rightarrow>
          if rp_Manpower bank < MinManpowerForRecruit then []
          else
            let queued = {qr_Province q | q. q \<in> set (qs_Recruits (ms_Queues st)) \<and> qr_Owner q = s};
                provs = Shuffle (csub ch 0) (ownedProvinces st s)
            in case find (\<lambda>p. pvs_ID p \<notin> queued) provs of
                 None \<Rightarrow> []
               | Some p \<Rightarrow> [newCommand now (csub ch 1) ''recruit''
                             (no_command\<lparr>wc_From := pvs_ID p, wc_Args := [(''type'', ''infantry'')]\<rparr>)])"

text \<open>One unit of the loop, which stops once six commands are collected.\<close>

definition dispatch_unit :: "choices \<Rightarrow> match_state \<Rightarrow> slot \<Rightarrow> time \<Rightarrow> province_id set \<Rightarrow> wire_command list \<Rightarrow> nat \<times> unit_state \<Rightarrow> wire_command list" where
  "dispatch_unit ch st s now hostile cmds iu =
     (case iu of (i, u) \<Rightarrow>
        if length cmds \<ge> MaxCommandsPerDecision then cmds
        else if us_OwnerID u \<noteq> s \<or> bot_isMoving u now then cmds
        else
          let origin = currentProvince u in
          if origin = [] then cmds
          else
            let tgt = closestHostileNeighbour (csub (csub ch i) 0) st hostile origin in
            if tgt = [] then cmds
            else cmds @ [newCommand now (csub (csub ch i) 1) ''move''
                           (no_command\<lparr>wc_UnitID := us_ID u, wc_From := origin, wc_To := tgt\<rparr>)])"

definition dispatchIdleUnits :: "choices \<Rightarrow> match_state \<Rightarrow> slot \<Rightarrow> time \<Rightarrow> wire_command list" where
  "dispatchIdleUnits ch st s now =
     foldl (dispatch_unit ch st s now (hostileProvinces st s)) [] (enumerate 0 (ms_Units st))"

definition peace_offered :: "slot \<Rightarrow> treaty_state \<Rightarrow> bool" where
  "peace_offered s t \<longleftrightarrow> ts_Pending t \<noteq> [] \<and> ts_Pending t \<noteq> ''alliance'' \<and>
     (ts_SlotA t = s \<or> ts_SlotB t = s) \<and> ts_PendingFrom t \<noteq> s"

definition diplomacyMoves :: "match_state \<Rightarrow> slot \<Rightarrow> time \<Rightarrow> wire_command list" where
  "diplomacyMoves st s now =
     (case find (peace_offered s) (ms_Diplomacy st) of
        None \<Rightarrow> []
      | Some t \<Rightarrow>
          [no_command\<lparr>wc_Kind := ''accept_peace'', wc_IssuedAt := now,
             wc_Idempotency := idem now ''accept_peace'' (ts_SlotA t @ ts_SlotB t),
             wc_Args := [(''target_slot'', otherSlot s (ts_SlotA t) (ts_SlotB t))]\<rparr>])"

definition Decide :: "choices \<Rightarrow> time \<Rightarrow> match_state option \<Rightarrow> slot \<Rightarrow> wire_command list" where
  "Decide ch now state s =
     (case state of
        None \<Rightarrow> []
      | Some st \<Rightarrow>
          if s = [] then []
          else take MaxCommandsPerDecision
                 (defendCapital (csub ch 0) st s now @ recruitIfPossible (csub ch 1) st s now
                  @ dispatchIdleUnits (csub ch 2) st s now @ diplomacyMoves st s now))"

section \<open>session.go\<close>

record bot_session =
  bn_matchID :: string
  bn_slot :: slot
  bn_botUID :: user_id
  bn_state :: "match_state option"
  bn_lastAt :: time
  bn_ws :: bool

definition newSession :: "string \<Rightarrow> slot \<Rightarrow> user_id \<Rightarrow> bot_session" where
  "newSession mid s uid = \<lparr>bn_matchID = mid, bn_slot = s, bn_botUID = uid, bn_state = None, bn_lastAt = 0, bn_ws = False\<rparr>"

definition sessionThrottle :: duration where
  "sessionThrottle = 750 * Millisecond"

text \<open>The commands are written one after the other; the first write that fails ends the round, and may or
  may not have reached the gateway.\<close>

fun write_commands :: "env \<Rightarrow> nat \<Rightarrow> client_envelope list \<Rightarrow> client_envelope list" where
  "write_commands env k [] = []"
| "write_commands env k (e # es) =
     (case env_outcome env [k] of
        Delivered \<Rightarrow> e # write_commands env (Suc k) es
      | Refused \<Rightarrow> []
      | AnswerLost \<Rightarrow> [e])"

definition onState :: "env \<Rightarrow> choices \<Rightarrow> match_state \<Rightarrow> bot_session \<Rightarrow> bot_session \<times> client_envelope list" where
  "onState env ch st b =
     (let b1 = b\<lparr>bn_state := Some st\<rparr> in
      if time_sub (env_now env [0]) (bn_lastAt b1) < sessionThrottle then (b1, [])
      else
        let b2 = b1\<lparr>bn_lastAt := env_now env [1]\<rparr> in
        if \<not> bn_ws b2 then (b2, [])
        else (b2, write_commands (esub env 0) 0
                    (map (\<lambda>c. \<lparr>ce_Type = ''command'', ce_WireVersion = 0, ce_MatchID = bn_matchID b2,
                               ce_Command = Some c, ce_Chat = None\<rparr>)
                       (Decide ch (env_now env [2]) (Some st) (bn_slot b2)))))"

text \<open>\<open>None\<close> is a message that is not JSON.\<close>

definition handleEnvelope :: "env \<Rightarrow> choices \<Rightarrow> server_message option \<Rightarrow> bot_session \<Rightarrow> bot_session \<times> client_envelope list" where
  "handleEnvelope env ch msg b =
     (case msg of
        Some (Relayed (BodyState e)) \<Rightarrow> (case se_State e of Some st \<Rightarrow> onState env ch st b | None \<Rightarrow> (b, []))
      | _ \<Rightarrow> (b, []))"

section \<open>runner.go\<close>

text \<open>A task is one run of \<open>runSession\<close>: the seat it plays, the account it plays as, whether its context is
  cancelled and whether it has returned. The map of sessions leads from a seat to the task whose
  \<open>CancelFunc\<close> it holds.\<close>

type_synonym session_key = "string \<times> slot"

record bot_task =
  bt_seat :: inactive_slot
  bt_bot :: user_id
  bt_cancelled :: bool
  bt_exited :: bool

record bot_runner =
  br_pool :: bot_pool
  br_sessions :: "(session_key, nat) gomap"
  br_tasks :: "bot_task list"

definition new_bot_runner :: bot_runner where
  "new_bot_runner = \<lparr>br_pool = newBotPool [], br_sessions = [], br_tasks = []\<rparr>"

definition seat_key :: "inactive_slot \<Rightarrow> session_key" where
  "seat_key s = (is_MatchID s, is_Slot s)"

text \<open>\<open>None\<close> is a failed request.\<close>

definition refreshPool :: "user_id list option \<Rightarrow> bot_runner \<Rightarrow> bot_runner" where
  "refreshPool bots r = (case bots of None \<Rightarrow> r | Some bs \<Rightarrow> r\<lparr>br_pool := pool_reload bs (br_pool r)\<rparr>)"

definition cancel_task :: "nat \<Rightarrow> bot_runner \<Rightarrow> bot_runner" where
  "cancel_task i r = r\<lparr>br_tasks := (br_tasks r)[i := (br_tasks r ! i)\<lparr>bt_cancelled := True\<rparr>]\<rparr>"

text \<open>The first loop of a scan cancels what is no longer wanted, the second starts what is missing. Both
  range over maps, in any order.\<close>

definition cancel_unwanted :: "(session_key, inactive_slot) gomap \<Rightarrow> bot_runner \<Rightarrow> session_key \<times> nat \<Rightarrow> bot_runner" where
  "cancel_unwanted wanted r ki =
     (case ki of (k, i) \<Rightarrow>
        if map_of wanted k = None then (cancel_task i r)\<lparr>br_sessions := mdel k (br_sessions r)\<rparr> else r)"

definition start_missing :: "bot_runner \<Rightarrow> session_key \<times> inactive_slot \<Rightarrow> bot_runner" where
  "start_missing r ks =
     (case ks of (k, s) \<Rightarrow>
        if map_of (br_sessions r) k \<noteq> None then r
        else case pool_take (br_pool r) of
          (p, None) \<Rightarrow> r\<lparr>br_pool := p\<rparr>
        | (p, Some bot_id) \<Rightarrow>
            r\<lparr>br_pool := p, br_sessions := mput k (length (br_tasks r)) (br_sessions r),
              br_tasks := br_tasks r @ [\<lparr>bt_seat = s, bt_bot = bot_id, bt_cancelled = False, bt_exited = False\<rparr>]\<rparr>)"

definition scan_bots :: "choices \<Rightarrow> inactive_slot list option \<Rightarrow> bot_runner \<Rightarrow> bot_runner" where
  "scan_bots ch slots r =
     (case slots of
        None \<Rightarrow> r
      | Some ss \<Rightarrow>
          let wanted = foldl (\<lambda>w s. mput (seat_key s) s w) [] ss;
              r1 = foldl (cancel_unwanted wanted) r (Shuffle (csub ch 0) (br_sessions r))
          in foldl start_missing r1 (Shuffle (csub ch 1) wanted))"

text \<open>The goroutine of a task returns: its deferred function removes the entry of its seat.\<close>

definition session_exit :: "nat \<Rightarrow> bot_runner \<Rightarrow> bot_runner" where
  "session_exit i r =
     r\<lparr>br_tasks := (br_tasks r)[i := (br_tasks r ! i)\<lparr>bt_exited := True\<rparr>],
       br_sessions := mdel (seat_key (bt_seat (br_tasks r ! i))) (br_sessions r)\<rparr>"

definition bot_shutdown :: "bot_runner \<Rightarrow> bot_runner" where
  "bot_shutdown r =
     (let r1 = foldl (\<lambda>r (k, i). cancel_task i r) r (br_sessions r) in r1\<lparr>br_sessions := []\<rparr>)"

end
