(* ===== verification/Hosting.thy ===== *)
theory Hosting
  imports Runner Isolation
begin

text \<open>
  Facts about the engine process: publishing changes nothing of a match but its cache, every turn keeps
  the invariant and the identity of its match, and the invariant that ties the map of hosted matches to
  the running loops. The properties are C36 and C37.
\<close>

section \<open>The caches do not matter\<close>

lemma same_match_fields:
  assumes "same_match m' m"
  shows "m_Status m' = m_Status m" "m_Seq m' = m_Seq m" "m_StartedAt m' = m_StartedAt m" "m_GameStart m' = m_GameStart m"
    "m_Speed m' = m_Speed m" "m_CleanupDone m' = m_CleanupDone m" "m_WinnerSlot m' = m_WinnerSlot m" "m_WinnerCoal m' = m_WinnerCoal m"
  using assms by (auto simp: same_match_def)

lemma same_match_cache [simp]: "same_match (m\<lparr>m_VisContributors := c\<rparr>) m" "same_match (m\<lparr>m_VisContributorVersion := v, m_VisContributors := c\<rparr>) m"
  by (cases m; force simp: same_match_def)+

lemma viewerContributors_same: "same_match (fst (viewerContributors m s)) m"
  by (auto simp: viewerContributors_def Let_def split: option.splits)

lemma For_same: "same_match (fst (For rt m s t)) m"
  using viewerContributors_same[of m s]
  by (cases "viewerContributors m s") (auto simp: For_def Let_def case_prod_beta)

lemma Visible_same: "same_match (bt_m (fst (Visible rt b s))) (bt_m b)"
  using For_same[of rt "bt_m b" s "bt_at b"]
  by (cases "For rt (bt_m b) s (bt_at b)") (auto simp: Visible_def split: option.splits)

lemma SlotObservesEvent_same: "same_match (bt_m (fst (SlotObservesEvent rt b s e))) (bt_m b)"
  using Visible_same[of rt b s] by (simp add: SlotObservesEvent_def Let_def case_prod_beta)

lemma Filtered_same: "same_match (bt_m (fst (Filtered rt b s))) (bt_m b)"
  using Visible_same[of "sub rt 0" b s] by (simp add: Filtered_def Let_def case_prod_beta ensureShared_def)

lemma fold_same:
  assumes "\<And>bo j. same_match (bt_m (fst (f bo j))) (bt_m (fst bo))"
  shows "same_match (bt_m (fst (foldl f bo js))) (bt_m (fst bo))"
proof (induction js arbitrary: bo)
  case (Cons j js)
  show ?case using same_match_trans[OF Cons[of "f bo j"] assms[of bo j]] by simp
qed simp

lemma slot_states_same: "same_match (bt_m (fst (slot_states env rt b))) (bt_m b)"
  unfolding slot_states_def
  by (rule same_match_trans[OF fold_same]) (simp_all add: publish_filtered_def case_prod_beta Filtered_same)

lemma broadcastState_same: "same_match (bt_m (fst (broadcastState env rt b))) (bt_m b)"
  using slot_states_same[of "esub env 1" "sub rt 1" b] by (simp add: broadcastState_def Let_def case_prod_beta)

lemma NewBatch_m [simp]: "bt_m (NewBatch m) = m"
  by (simp add: NewBatch_def)

lemma publishFinalState_same: "same_match (fst (publishFinalState env rt bc m)) m"
  using slot_states_same[of "esub env 1" "sub rt 1" "NewBatch m"] by (simp add: publishFinalState_def Let_def case_prod_beta)

lemma offer_same: "same_match (bt_m (fst (offer_event rt e msg bo js))) (bt_m (fst bo))"
  using SlotObservesEvent_same[of "sub rt (fst js)" "fst bo" "snd js" e] by (simp add: offer_event_def case_prod_beta)

lemma publishEventPerSlot_same: "same_match (bt_m (fst (publishEventPerSlot env rt bo je))) (bt_m (fst bo))"
  unfolding publishEventPerSlot_def Let_def by (rule same_match_trans[OF fold_same]) (simp_all add: offer_same)

lemma broadcastEvents_same: "same_match (fst (broadcastEvents env rt bc m es)) m"
proof -
  let ?f = "foldl (publishEventPerSlot (esub env 0) (sub rt 0)) (NewBatch m, []) (enumerate 0 es)"
  have "same_match (bt_m (fst ?f)) m"
    using fold_same[of "publishEventPerSlot (esub env 0) (sub rt 0)" "(NewBatch m, [])"] publishEventPerSlot_same by simp
  then show ?thesis
    by (auto simp: broadcastEvents_def Let_def case_prod_beta intro: same_match_trans[OF broadcastState_same])
qed

lemma BroadcastInitial_same: "same_match (fst (BroadcastInitial env rt bc m)) m"
  using broadcastState_same[of env rt "NewBatch m"] by (simp add: BroadcastInitial_def case_prod_beta)

section \<open>A match keeps its identity\<close>

lemma same_identity: "same_match m' m \<Longrightarrow> identity m' = identity m"
  by (auto simp: identity_def same_match_def)

lemma HandleEvent_identity:
  assumes "match_ok m" "HandleEvent rt m ev = Some (m', es)"
  shows "identity m' = identity m"
proof (cases "ev_Kind ev")
  case Arrival
  then show ?thesis using assms arrival_ok[of m rt ev] sim_identity by (auto simp: HandleEvent_def)
next
  case MacroPulse
  have "identity (fst (foldl (macro_pulse_slot t) mo ks)) = identity (fst mo)" for t mo ks
    by (rule foldl_invariant[where P = "\<lambda>x. identity (fst x) = identity (fst mo)"])
       (auto simp: macro_pulse_slot_def Let_def)
  then show ?thesis using assms(2) MacroPulse by (auto simp: HandleEvent_def macroPulse_Apply_def case_prod_beta)
next
  case VictoryCheck
  then show ?thesis using assms(2) sim_identity[OF sim_frame_victory[of m "ev_At ev"]]
    by (simp add: HandleEvent_def victoryCheck_Apply_def)
qed (use assms(2) in \<open>auto simp: HandleEvent_def matchCleanup_Apply_def recruitComplete_Apply_def
    constructComplete_Apply_def refund_recruit_def Let_def split: option.splits if_splits\<close>)

text \<open>What every operation on a match guarantees.\<close>

definition evolves :: "match \<Rightarrow> match \<Rightarrow> bool" where
  "evolves m m' \<longleftrightarrow> match_ok m' \<and> identity m' = identity m"

lemma evolves_trans: "evolves m m' \<Longrightarrow> evolves m' m'' \<Longrightarrow> evolves m m''"
  by (simp add: evolves_def)

lemma evolves_same: "match_ok m \<Longrightarrow> same_match m' m \<Longrightarrow> evolves m m'"
  by (simp add: evolves_def match_ok_same same_identity)

lemma evolves_ID: "evolves m m' \<Longrightarrow> m_ID m' = m_ID m"
  by (simp add: evolves_def identity_def)

lemma ProcessNext_evolves:
  assumes "rt_ok rt" "match_ok m" "ProcessNext rt m now = Some (m', es)"
  shows "evolves m m'"
  unfolding evolves_def
proof (rule process_loop_invariant[where Q = "\<lambda>m' _. match_ok m' \<and> identity m' = identity m",
      OF _ assms(1) _ assms(3)[unfolded ProcessNext_def], THEN conjunct1])
  fix rt m1 out ev rest m2 es
  assume "match_ok m1 \<and> identity m1 = identity m" "tl_Pop (m_Timeline m1) = Some (ev, rest)"
    and h: "HandleEvent rt (m1\<lparr>m_Timeline := rest\<rparr>) ev = Some (m2, es)"
  then have ok: "match_ok (m1\<lparr>m_Timeline := rest\<rparr>)" "identity m1 = identity m" using HandleEvent_pop_ok by auto
  then show "match_ok m2 \<and> identity m2 = identity m"
    using HandleEvent_ok[OF ok(1) h] HandleEvent_identity[OF ok(1) h] by simp
qed (use assms in simp)

lemma Dispatch_evolves:
  assumes "match_ok m" "Dispatch rt m cmd = (m', res)"
  shows "evolves m m'"
proof -
  have "isolated (c_IssuerSlot (resolve_issuer (sub rt 0) m cmd)) m m'"
    using assms apply_handler_isolated[OF assms(1), of "sub rt 1" "resolve_issuer (sub rt 0) m cmd"]
    by (auto simp: Dispatch_def Let_def split: if_splits option.splits)
  then show ?thesis using Dispatch_ok[OF assms(1), of rt cmd] assms(2) by (simp add: evolves_def isolated_def)
qed

lemma advanceTime_evolves: "match_ok m \<Longrightarrow> evolves m (advanceTime now m)"
  by (simp add: advanceTime_def evolves_def)

lemma turn_evolves:
  assumes rt: "rt_ok rt" and m: "match_ok m"
  shows "on_command env rt bc m cmd = Some (m', out, c) \<Longrightarrow> evolves m m'"
    "on_tick env rt bc m = Some (m', out, c) \<Longrightarrow> evolves m m'"
    "on_resync env rt bc m = (m', out, c) \<Longrightarrow> evolves m m'"
proof -
  note at = advanceTime_evolves[OF m, of "env_now env [0]"]
  then have at_ok: "match_ok (advanceTime (env_now env [0]) m)" by (simp add: evolves_def)
  have shown: "evolves m m3" if "evolves m m2" "same_match m3 m2" for m2 m3
    using that evolves_trans evolves_same evolves_def by blast
  show "evolves m m'" if "on_command env rt bc m cmd = Some (m', out, c)"
  proof -
    obtain m1 l im err where d: "Dispatch (sub rt 0) (advanceTime (env_now env [0]) m) cmd = (m1, l, im, err)" by (metis prod_cases4)
    have e1: "evolves m m1" using evolves_trans[OF at Dispatch_evolves[OF at_ok d]] .
    show ?thesis
    proof (cases "err = None")
      case True
      with that d obtain m2 due where p: "ProcessNext (sub rt 1) m1 (m_GameNow m1) = Some (m2, due)"
        and m': "m' = fst (broadcastEvents (esub env 1) (sub rt 2) bc m2 (im @ due))"
        by (auto simp: on_command_def bind_eq_Some_conv case_prod_beta)
      have "evolves m1 m2" by (rule ProcessNext_evolves[OF rt_ok_sub[OF rt] _ p]) (use e1 in \<open>simp add: evolves_def\<close>)
      from shown[OF evolves_trans[OF e1 this] broadcastEvents_same] show ?thesis unfolding m' .
    qed (use that d e1 in \<open>simp add: on_command_def\<close>)
  qed
  show "evolves m m'" if "on_tick env rt bc m = Some (m', out, c)"
  proof -
    from that obtain m2 due where p: "ProcessNext (sub rt 1) (advanceTime (env_now env [0]) m) (m_GameNow (advanceTime (env_now env [0]) m)) = Some (m2, due)"
      and m': "m' = (if due = [] then m2 else fst (broadcastEvents (esub env 1) (sub rt 2) bc m2 due))"
      by (auto simp: on_tick_def Let_def bind_eq_Some_conv case_prod_beta split: if_splits)
    have "evolves m m2" by (rule evolves_trans[OF at ProcessNext_evolves[OF rt_ok_sub[OF rt] at_ok p]])
    then show ?thesis unfolding m' using shown broadcastEvents_same by simp
  qed
  show "evolves m m'" if "on_resync env rt bc m = (m', out, c)"
    using that at shown[OF at, of "bt_m (fst (broadcastState (esub env 1) rt (NewBatch (advanceTime (env_now env [0]) m))))"]
      broadcastState_same[of "esub env 1" rt "NewBatch (advanceTime (env_now env [0]) m)"]
    by (auto simp: on_resync_def Let_def case_prod_beta split: if_splits)
qed

section \<open>The invariant of the runner\<close>

definition handle_ok :: "match_handle \<Rightarrow> bool" where
  "handle_ok h \<longleftrightarrow> match_ok (h_match h) \<and> length (h_cmds h) \<le> cmdQueueSize \<and> (\<forall>c\<in>set (h_cmds h). c_MatchID c = m_ID (h_match h))"

definition live :: "match_handle \<Rightarrow> bool" where
  "live h \<longleftrightarrow> \<not> h_cancelled h \<and> \<not> h_exited h"

definition handle_id :: "runner \<Rightarrow> nat \<Rightarrow> string" where
  "handle_id r i = m_ID (h_match (rn_handles r ! i))"

definition runner_ok :: "runner \<Rightarrow> bool" where
  "runner_ok r \<longleftrightarrow> (\<forall>h\<in>set (rn_handles r). handle_ok h) \<and>
     (\<forall>mid i. map_of (rn_matches r) mid = Some i \<longrightarrow> i < length (rn_handles r) \<and> handle_id r i = mid) \<and>
     (\<forall>i<length (rn_handles r). live (rn_handles r ! i) \<longleftrightarrow> map_of (rn_matches r) (handle_id r i) = Some i)"

lemma runner_okD:
  assumes "runner_ok r"
  shows "map_of (rn_matches r) mid = Some i \<Longrightarrow> i < length (rn_handles r) \<and> handle_id r i = mid"
    "i < length (rn_handles r) \<Longrightarrow> live (rn_handles r ! i) \<longleftrightarrow> map_of (rn_matches r) (handle_id r i) = Some i"
    "i < length (rn_handles r) \<Longrightarrow> handle_ok (rn_handles r ! i)"
  using assms unfolding runner_ok_def by auto

lemma publish_simps [simp]:
  "rn_handles (publish ps r) = rn_handles r" "rn_matches (publish ps r) = rn_matches r" "rn_broadcaster (publish ps r) = rn_broadcaster r"
  "runner_ok (publish ps r) = runner_ok r" "runner_ok (r\<lparr>rn_index := idx\<rparr>) = runner_ok r"
  by (simp_all add: publish_def runner_ok_def handle_id_def)

lemma update_handle_simps [simp]:
  "length (rn_handles (update_handle i f r)) = length (rn_handles r)" "rn_matches (update_handle i f r) = rn_matches r"
  "rn_broadcaster (update_handle i f r) = rn_broadcaster r"
  "i < length (rn_handles r) \<Longrightarrow> rn_handles (update_handle i f r) ! i = f (rn_handles r ! i)"
  "j \<noteq> i \<Longrightarrow> rn_handles (update_handle i f r) ! j = rn_handles r ! j"
  by (simp_all add: update_handle_def)

lemma handles_update:
  "(\<forall>h\<in>set hs. P h) \<Longrightarrow> P x \<Longrightarrow> \<forall>h\<in>set (hs[i := x]). P h"
  using set_update_subset_insert[of hs i x] by blast

lemma handle_ok_flags [simp]:
  "handle_ok (h\<lparr>h_cancelled := b\<rparr>) = handle_ok h" "handle_ok (h\<lparr>h_exited := b\<rparr>) = handle_ok h" "handle_ok (h\<lparr>h_resync := b\<rparr>) = handle_ok h"
  by (simp_all add: handle_ok_def)

lemma runner_ok_update:
  assumes "runner_ok r" "i < length (rn_handles r)" "handle_ok (f (rn_handles r ! i))"
    and "m_ID (h_match (f (rn_handles r ! i))) = handle_id r i" "live (f (rn_handles r ! i)) = live (rn_handles r ! i)"
  shows "runner_ok (update_handle i f r)"
proof -
  have id: "handle_id (update_handle i f r) j = handle_id r j" for j
    using assms(2,4) by (cases "j = i") (simp_all add: handle_id_def)
  have live: "live (rn_handles (update_handle i f r) ! j) = live (rn_handles r ! j)" if "j < length (rn_handles r)" for j
    using assms(2,5) by (cases "j = i") simp_all
  have "\<forall>h\<in>set (rn_handles (update_handle i f r)). handle_ok h"
    using handles_update[of "rn_handles r" handle_ok, OF _ assms(3)] assms(1) by (simp add: update_handle_def runner_ok_def)
  then show ?thesis using assms(1) live unfolding runner_ok_def id by simp
qed

lemma runner_ok_Stop:
  assumes "runner_ok r"
  shows "runner_ok (runner_Stop mid r)" "map_of (rn_matches (runner_Stop mid r)) mid = None"
    "length (rn_handles (runner_Stop mid r)) = length (rn_handles r)" "handle_id (runner_Stop mid r) i = handle_id r i"
proof -
  have *: "runner_ok (runner_Stop mid r) \<and> map_of (rn_matches (runner_Stop mid r)) mid = None
      \<and> length (rn_handles (runner_Stop mid r)) = length (rn_handles r) \<and> (\<forall>i. handle_id (runner_Stop mid r) i = handle_id r i)"
  proof (cases "map_of (rn_matches r) mid")
    case None
    with assms show ?thesis by (simp add: runner_Stop_def)
  next
    case (Some k)
    let ?s = "update_handle k (\<lambda>h. h\<lparr>h_cancelled := True\<rparr>) (r\<lparr>rn_matches := mdel mid (rn_matches r)\<rparr>)"
    have k: "k < length (rn_handles r)" "handle_id r k = mid" using runner_okD(1)[OF assms Some] by simp_all
    have id: "handle_id ?s j = handle_id r j" for j
      using k(1) by (cases "j = k") (simp_all add: handle_id_def update_handle_def)
    have hs: "\<forall>h\<in>set (rn_handles ?s). handle_ok h"
      using handles_update[of "rn_handles r" handle_ok "(rn_handles r ! k)\<lparr>h_cancelled := True\<rparr>" k] assms k(1)
      by (simp add: update_handle_def runner_ok_def)
    have live: "live (rn_handles ?s ! j) \<longleftrightarrow> map_of (rn_matches ?s) (handle_id ?s j) = Some j" if "j < length (rn_handles r)" for j
    proof (cases "j = k")
      case True
      then show ?thesis using k unfolding id by (simp add: live_def map_of_mdel update_handle_def)
    next
      case False
      have "handle_id r j = mid \<Longrightarrow> map_of (rn_matches r) mid \<noteq> Some j" using Some False by simp
      then show ?thesis using runner_okD(2)[OF assms that] False unfolding id by (auto simp: map_of_mdel update_handle_def)
    qed
    have "runner_ok ?s"
      unfolding runner_ok_def
    proof (intro conjI ballI allI impI)
      fix mid' i assume "map_of (rn_matches ?s) mid' = Some i"
      then have "map_of (rn_matches r) mid' = Some i" by (simp add: map_of_mdel split: if_splits)
      from runner_okD(1)[OF assms this] show "i < length (rn_handles ?s)" "handle_id ?s i = mid'" unfolding id by simp_all
    qed (use hs live in simp_all)
    then show ?thesis unfolding runner_Stop_def Some option.case using id by (simp add: map_of_mdel)
  qed
  then show "runner_ok (runner_Stop mid r)" "map_of (rn_matches (runner_Stop mid r)) mid = None"
    "length (rn_handles (runner_Stop mid r)) = length (rn_handles r)" "handle_id (runner_Stop mid r) i = handle_id r i" by blast+
qed

lemma runner_ok_Ensure:
  assumes "runner_ok r" "match_ok m"
  shows "runner_ok (EnsureMatch m r)"
proof (cases "map_of (rn_matches r) (m_ID m)")
  case None
  let ?h = "\<lparr>h_match = m, h_cmds = [], h_resync = False, h_cancelled = False, h_exited = False\<rparr>"
  let ?s = "r\<lparr>rn_handles := rn_handles r @ [?h], rn_matches := mput (m_ID m) (length (rn_handles r)) (rn_matches r)\<rparr>"
  have id: "handle_id ?s j = (if j < length (rn_handles r) then handle_id r j else m_ID m)" if "j \<le> length (rn_handles r)" for j
    using that by (auto simp: handle_id_def nth_append)
  have "runner_ok ?s"
    unfolding runner_ok_def
  proof (intro conjI ballI allI impI)
    fix h assume "h \<in> set (rn_handles ?s)"
    then show "handle_ok h" using assms by (auto simp: runner_ok_def handle_ok_def)
  next
    fix mid i assume *: "map_of (rn_matches ?s) mid = Some i"
    then show "i < length (rn_handles ?s)" "handle_id ?s i = mid"
      using runner_okD(1)[OF assms(1), of mid i] by (auto simp: handle_id_def nth_append split: if_splits)
  next
    fix j assume j: "j < length (rn_handles ?s)"
    show "live (rn_handles ?s ! j) \<longleftrightarrow> map_of (rn_matches ?s) (handle_id ?s j) = Some j"
    proof (cases "j < length (rn_handles r)")
      case True
      then show ?thesis using runner_okD(2)[OF assms(1) True] None id[of j] by (auto simp: nth_append)
    next
      case False
      then have "j = length (rn_handles r)" using j by simp
      then show ?thesis using id[of j] by (simp add: live_def)
    qed
  qed
  then show ?thesis by (simp add: EnsureMatch_def None)
qed (use assms in \<open>simp add: EnsureMatch_def\<close>)

lemma set_tl: "set (tl xs) \<subseteq> set xs"
  by (cases xs) auto

lemma handle_ok_evolves:
  assumes "handle_ok h" "evolves (h_match h) m'" "set (h_cmds h') \<subseteq> set (h_cmds h)" "length (h_cmds h') \<le> length (h_cmds h)"
  shows "handle_ok (h'\<lparr>h_match := m'\<rparr>)"
  using assms evolves_ID[OF assms(2)] by (auto simp: handle_ok_def evolves_def)

lemma runner_ok_match:
  assumes "runner_ok r" "i < length (rn_handles r)" "evolves (h_match (rn_handles r ! i)) m'"
    and "\<And>h. live (f h) = live h" "\<And>h. set (h_cmds (f h)) \<subseteq> set (h_cmds h)" "\<And>h. length (h_cmds (f h)) \<le> length (h_cmds h)"
  shows "runner_ok (update_handle i (\<lambda>h. (f h)\<lparr>h_match := m'\<rparr>) r)"
proof (rule runner_ok_update[OF assms(1,2)])
  show "handle_ok ((f (rn_handles r ! i))\<lparr>h_match := m'\<rparr>)"
    by (rule handle_ok_evolves[OF runner_okD(3)[OF assms(1,2)] assms(3,5,6)])
  show "live ((f (rn_handles r ! i))\<lparr>h_match := m'\<rparr>) = live (rn_handles r ! i)"
    using assms(4)[of "rn_handles r ! i"] by (simp add: live_def)
qed (use evolves_ID[OF assms(3)] in \<open>simp add: handle_id_def\<close>)

lemma runner_ok_exit:
  assumes "runner_ok r" "i < length (rn_handles r)" "map_of (rn_matches r) (handle_id r i) \<noteq> Some i"
  shows "runner_ok (update_handle i (\<lambda>h. h\<lparr>h_exited := True\<rparr>) r)"
  by (rule runner_ok_update[OF assms(1,2)])
     (use runner_okD[OF assms(1)] assms(2,3) in \<open>auto simp: handle_id_def live_def\<close>)

lemma end_check_ok:
  assumes "runner_ok r" "i < length (rn_handles r)"
  shows "runner_ok (end_check env rt i r)"
proof -
  let ?m = "h_match (rn_handles r ! i)"
  obtain m' out where p: "publishFinalState env rt (rn_broadcaster r) ?m = (m', out)" by fastforce
  have "same_match m' ?m" using publishFinalState_same[of env rt "rn_broadcaster r" ?m] p by simp
  then have e: "evolves ?m m'" using evolves_same runner_okD(3)[OF assms] by (simp add: handle_ok_def)
  let ?r1 = "publish out (update_handle i (\<lambda>h. h\<lparr>h_match := m'\<rparr>) r)"
  have r1: "runner_ok ?r1" "handle_id ?r1 i = m_ID m'"
    using runner_ok_match[OF assms e, of "\<lambda>h. h"] assms(2) by (simp_all add: handle_id_def)
  have "runner_ok (update_handle i (\<lambda>h. h\<lparr>h_exited := True\<rparr>) (runner_Stop (m_ID m') ?r1))"
    using runner_ok_Stop[OF r1(1), of "m_ID m'"] r1(2) assms(2) by (intro runner_ok_exit) simp_all
  then show ?thesis using p assms(1) by (simp add: end_check_def Let_def)
qed

lemma after_turn_ok:
  assumes "runner_ok r" "i < length (rn_handles r)" "evolves (h_match (rn_handles r ! i)) (fst res)"
    and "\<And>h. live (f h) = live h" "\<And>h. set (h_cmds (f h)) \<subseteq> set (h_cmds h)" "\<And>h. length (h_cmds (f h)) \<le> length (h_cmds h)"
  shows "runner_ok (after_turn env rt i f r res)"
proof -
  have "runner_ok (publish (fst (snd res)) (update_handle i (\<lambda>h. (f h)\<lparr>h_match := fst res\<rparr>) r))"
    using runner_ok_match[OF assms] by simp
  with end_check_ok[OF this] assms(2) show ?thesis by (simp add: after_turn_def case_prod_beta Let_def)
qed

lemma loop_turn_ok:
  assumes "runner_ok r" "i < length (rn_handles r)" "rt_ok rt" "ready sig (rn_handles r ! i)" "loop_turn env rt i sig r = Some r'"
  shows "runner_ok r'"
proof -
  let ?h = "rn_handles r ! i"
  have ok: "match_ok (h_match ?h)" using runner_okD(3)[OF assms(1,2)] by (simp add: handle_ok_def)
  note ev = turn_evolves[OF rt_ok_sub[OF assms(3)] ok]
  note at = after_turn_ok[OF assms(1,2)]
  show ?thesis
  proof (cases sig)
    case SigDone
    have "\<not> live ?h" using assms(4) SigDone by (simp add: live_def)
    then show ?thesis using runner_ok_exit[OF assms(1,2)] runner_okD(2)[OF assms(1,2)] assms(5) SigDone
      by (auto simp: loop_turn_def Let_def)
  next
    case SigCommand
    then obtain res where "on_command (esub env 0) (sub rt 0) (rn_broadcaster r) (h_match ?h) (hd (h_cmds ?h)) = Some res"
      "r' = after_turn (esub env 1) (sub rt 1) i (\<lambda>h. h\<lparr>h_cmds := tl (h_cmds h)\<rparr>) r res"
      using assms(5) by (auto simp: loop_turn_def Let_def)
    then show ?thesis using at ev(1) by (cases res) (auto simp: live_def dest: subsetD[OF set_tl] intro!: at)
  next
    case SigTick
    then obtain res where "on_tick (esub env 0) (sub rt 0) (rn_broadcaster r) (h_match ?h) = Some res"
      "r' = after_turn (esub env 1) (sub rt 1) i (\<lambda>h. h) r res"
      using assms(5) by (auto simp: loop_turn_def Let_def)
    then show ?thesis using at ev(2) by (cases res) (auto intro!: at)
  next
    case SigResync
    let ?res = "on_resync (esub env 0) (sub rt 0) (rn_broadcaster r) (h_match ?h)"
    have "r' = after_turn (esub env 1) (sub rt 1) i (\<lambda>h. h\<lparr>h_resync := False\<rparr>) r ?res"
      using assms(5) SigResync by (simp add: loop_turn_def Let_def)
    then show ?thesis by (cases ?res) (auto simp: live_def intro!: at ev(3))
  qed
qed

lemma Submit_ok:
  assumes "runner_ok r"
  shows "runner_ok (fst (Submit cmd r))"
proof (cases "map_of (rn_matches r) (c_MatchID cmd)")
  case (Some i)
  note i = runner_okD(1)[OF assms Some]
  have "runner_ok (update_handle i (\<lambda>h. h\<lparr>h_cmds := h_cmds h @ [cmd]\<rparr>) r)" if "length (h_cmds (rn_handles r ! i)) < cmdQueueSize"
    using runner_okD(3)[OF assms conjunct1[OF i]] i that
    by (intro runner_ok_update[OF assms conjunct1[OF i]]) (auto simp: handle_ok_def handle_id_def live_def)
  then show ?thesis using Some assms by (simp add: Submit_def)
qed (use assms in \<open>simp add: Submit_def\<close>)

lemma Rebroadcast_ok:
  assumes "runner_ok r"
  shows "runner_ok (Rebroadcast mid r)"
proof (cases "map_of (rn_matches r) mid")
  case (Some i)
  note i = runner_okD(1)[OF assms Some]
  show ?thesis unfolding Rebroadcast_def Some option.case
    using runner_okD(3)[OF assms conjunct1[OF i]]
    by (intro runner_ok_update[OF assms conjunct1[OF i]]) (simp_all add: handle_id_def live_def)
qed (use assms in \<open>simp add: Rebroadcast_def\<close>)

lemma ForceEnd_ok:
  assumes "runner_ok r"
  shows "runner_ok (ForceEnd env rt mid r)"
proof (cases "map_of (rn_matches r) mid")
  case (Some i)
  note i = runner_okD(1)[OF assms Some]
  let ?m = "(h_match (rn_handles r ! i))\<lparr>m_Status := ''ended'', m_CleanupDone := True\<rparr>"
  obtain m' out where p: "publishFinalState env rt (rn_broadcaster r) ?m = (m', out)" by fastforce
  have "same_match m' ?m" using publishFinalState_same[of env rt "rn_broadcaster r" ?m] p by simp
  moreover have ok: "match_ok (h_match (rn_handles r ! i))" using runner_okD(3)[OF assms conjunct1[OF i]] by (simp add: handle_ok_def)
  then have "match_ok ?m" by (simp add: match_ok_def units_ok_def provinces_ok_def economy_ok_def)
  ultimately have "evolves (h_match (rn_handles r ! i)) m'"
    by (simp add: evolves_def match_ok_same same_identity)
  from runner_ok_match[OF assms conjunct1[OF i] this, of "\<lambda>h. h"]
  show ?thesis using p by (simp add: ForceEnd_def Some Let_def runner_ok_Stop)
qed (use assms in \<open>simp add: ForceEnd_def\<close>)

lemma startHandler_ok:
  assumes "runner_ok r"
  shows "runner_ok (fst (startHandler env rt decode files p r))"
proof (cases "match_New (sub rt 0) decode files (sp_MatchID p) (sp_MapID p) (sp_SlotAssignments p) (sp_Speed p) (sp_StartedAt p)")
  case (Inr m)
  have m: "match_ok m" by (rule match_New_ok[OF Inr])
  obtain m' out where b: "BroadcastInitial (esub env 1) (sub rt 2) (rn_broadcaster r) m = (m', out)" by fastforce
  have "same_match m' m" using BroadcastInitial_same[of "esub env 1" "sub rt 2" "rn_broadcaster r" m] b by simp
  then have e: "evolves m m'" using evolves_same[OF m] by blast
  have "runner_ok (update_handle (length (rn_handles r)) (\<lambda>h. h\<lparr>h_match := m'\<rparr>) (EnsureMatch m r1))"
    if "runner_ok r1" "map_of (rn_matches r1) (m_ID m) = None" "rn_handles r1 = rn_handles r" for r1
    using that e by (intro runner_ok_match[of _ _ _ "\<lambda>h. h", OF runner_ok_Ensure[OF that(1) m]]) (simp_all add: EnsureMatch_def)
  then show ?thesis
    using assms by (auto simp: startHandler_def Inr Let_def b IsHosted_def simp del: One_nat_def intro!: runner_ok_Ensure m)
qed (use assms in \<open>simp add: startHandler_def\<close>)

lemma runner_step_ok: "runner_step r r' \<Longrightarrow> runner_ok r \<Longrightarrow> runner_ok r'"
  by (induction rule: runner_step.induct)
     (auto simp: commandHandler_def intro: Submit_ok startHandler_ok Rebroadcast_ok ForceEnd_ok loop_turn_ok)

lemma runner_reachable_ok: "runner_step\<^sup>*\<^sup>* (NewRunner bc) r \<Longrightarrow> runner_ok r"
  by (induction rule: rtranclp_induct) (auto intro: runner_step_ok, simp add: runner_ok_def NewRunner_def)

section \<open>What a publish cycle sends\<close>

definition observes :: "match \<Rightarrow> slot \<Rightarrow> applied_event \<Rightarrow> bool" where
  "observes m s e \<longleftrightarrow> ae_Slot e = s \<or> (ae_UnitID e \<noteq> [] \<and> ae_UnitID e \<in> seen_units m s (m_GameNow m)) \<or>
     (ae_Province e \<noteq> [] \<and> ae_Province e \<in> seen_provinces m s (m_GameNow m)) \<or>
     ae_Kind e \<in> {''match_ended'', ''province_captured''}"

definition slot_events :: "slot \<Rightarrow> publication list \<Rightarrow> event_envelope list" where
  "slot_events s ps = List.map_filter (\<lambda>p. case p of SlotEvent _ s' msg \<Rightarrow> if s' = s then Some msg else None | _ \<Rightarrow> None) ps"

definition public_events :: "publication list \<Rightarrow> event_envelope list" where
  "public_events ps = List.map_filter (\<lambda>p. case p of PublicEvent _ msg \<Rightarrow> Some msg | _ \<Rightarrow> None) ps"

definition slot_snapshots :: "slot \<Rightarrow> publication list \<Rightarrow> match_state option list" where
  "slot_snapshots s ps = List.map_filter (\<lambda>p. case p of SlotState _ s' msg \<Rightarrow> if s' = s then Some (se_State msg) else None | _ \<Rightarrow> None) ps"

text \<open>The content of an event message, without the time it was sent.\<close>

definition message_content :: "event_envelope \<Rightarrow> string \<times> 64 word \<times> wire_event" where
  "message_content msg = (ee_MatchID msg, ee_Seq msg, ee_Event msg)"

definition event_content :: "match \<Rightarrow> applied_event \<Rightarrow> string \<times> 64 word \<times> wire_event" where
  "event_content m e = (m_ID m, ae_Seq e, \<lparr>we_Kind = ae_Kind e, we_OccurAt = ae_OccurAt e, we_UnitID = ae_UnitID e,
     we_Province = ae_Province e, we_Extra = ae_Extra e\<rparr>)"

fun pub_match :: "publication \<Rightarrow> string" where
  "pub_match (PublicState mid st) = mid"
| "pub_match (SlotState mid s st) = mid"
| "pub_match (PublicEvent mid e) = mid"
| "pub_match (SlotEvent mid s e) = mid"
| "pub_match (FinalState mid st) = mid"

lemma sent_append [simp]:
  "slot_events s (ps @ qs) = slot_events s ps @ slot_events s qs" "slot_snapshots s (ps @ qs) = slot_snapshots s ps @ slot_snapshots s qs"
  "public_events (ps @ qs) = public_events ps @ public_events qs"
  by (simp_all add: slot_events_def slot_snapshots_def public_events_def map_filter_def)

lemma sent_simps [simp]:
  "slot_events s [] = []" "slot_snapshots s [] = []" "public_events [] = []"
  "slot_events s (PublicEvent i msg # ps) = slot_events s ps" "slot_events s (PublicState i st # ps) = slot_events s ps"
  "slot_events s (SlotState i s' st # ps) = slot_events s ps" "slot_events s (SlotEvent i s' msg # ps) = (if s' = s then msg # slot_events s ps else slot_events s ps)"
  "slot_snapshots s (PublicEvent i msg # ps) = slot_snapshots s ps" "slot_snapshots s (PublicState i st # ps) = slot_snapshots s ps"
  "slot_snapshots s (SlotEvent i s' msg # ps) = slot_snapshots s ps"
  "slot_snapshots s (SlotState i s' st # ps) = (if s' = s then se_State st # slot_snapshots s ps else slot_snapshots s ps)"
  "public_events (PublicEvent i msg # ps) = msg # public_events ps" "public_events (PublicState i st # ps) = public_events ps"
  "public_events (SlotEvent i s' msg # ps) = public_events ps" "public_events (SlotState i s' st # ps) = public_events ps"
  by (simp_all add: slot_events_def slot_snapshots_def public_events_def map_filter_simps)

lemma SlotObservesEvent_of:
  assumes "rt_ok rt" "batch_of m (m_GameNow m) b"
  shows "batch_of m (m_GameNow m) (fst (SlotObservesEvent rt b s e)) \<and> (snd (SlotObservesEvent rt b s e) \<longleftrightarrow> observes m s e)"
proof -
  obtain b' P U where v: "Visible rt b s = (b', P, U)" by (metis prod_cases3)
  have ok: "batch_ok b" using assms(2) by (simp add: batch_of_def)
  have "(P, U) = (seen_provinces m s (m_GameNow m), seen_units m s (m_GameNow m)) \<and> batch_of m (m_GameNow m) b'"
    using Visible_ok[OF assms(1) ok v] batch_of_view[OF assms(2), of s] assms(2)
    by (auto simp: batch_of_def intro: same_match_trans)
  then show ?thesis by (auto simp: SlotObservesEvent_def v Let_def observes_def)
qed

lemma batch_of_ID:
  assumes "batch_of m t b"
  shows "m_ID (bt_m b) = m_ID m" "m_Players (bt_m b) = m_Players m" "same_match (bt_m b) m"
  using assms same_matchD[of "bt_m b" m] unfolding batch_of_def by blast+

lemma offer_fold:
  assumes "rt_ok rt" "batch_of m (m_GameNow m) b"
  shows "batch_of m (m_GameNow m) (fst (foldl (offer_event rt e msg) (b, out) js)) \<and>
    snd (foldl (offer_event rt e msg) (b, out) js) = out @ map (\<lambda>s. SlotEvent (m_ID m) s msg) (filter (\<lambda>s. observes m s e) (map snd js))"
  using assms(2)
proof (induction js arbitrary: b out)
  case (Cons j js)
  let ?o = "SlotObservesEvent (sub rt (fst j)) b (snd j) e"
  note o = SlotObservesEvent_of[OF rt_ok_sub[OF assms(1)] Cons.prems, of "fst j" "snd j" e]
  have step: "offer_event rt e msg (b, out) j = (fst ?o, if observes m (snd j) e then out @ [SlotEvent (m_ID m) (snd j) msg] else out)"
    using o batch_of_ID by (auto simp: offer_event_def case_prod_beta)
  show ?case unfolding foldl_Cons step using Cons.IH[OF conjunct1[OF o]] by simp
qed simp

lemma filter_in_keys: "distinct xs \<Longrightarrow> filter (\<lambda>x. x = s \<and> P x) xs = (if s \<in> set xs \<and> P s then [s] else [])"
  by (induction xs) auto

lemma sent_events [simp]:
  "public_events (map (\<lambda>s. SlotEvent i s msg) xs) = []" "slot_snapshots s (map (\<lambda>s. SlotEvent i s msg) xs) = []"
  "slot_events s (map (\<lambda>s. SlotEvent i s msg) xs) = map (\<lambda>_. msg) (filter (\<lambda>x. x = s) xs)"
  by (induction xs) auto

lemma content_message [simp]: "same_match m' m \<Longrightarrow> message_content (event_message env m' e) = event_content m e"
  using same_matchD(10)[of m' m] by (simp add: message_content_def event_message_def event_content_def)

lemma event_sent:
  assumes "rt_ok rt" "mok (m_Players m)" "batch_of m (m_GameNow m) b"
    and "publishEventPerSlot env rt (b, out) je = (b', out')"
  shows "batch_of m (m_GameNow m) b' \<and> slot_snapshots s out' = slot_snapshots s out
    \<and> map message_content (public_events out') = map message_content (public_events out) @ [event_content m (snd je)]
    \<and> map message_content (slot_events s out') = map message_content (slot_events s out)
         @ (if s \<in> fst ` set (m_Players m) \<and> observes m s (snd je) then [event_content m (snd je)] else [])
    \<and> (\<forall>p\<in>set out'. p \<in> set out \<or> pub_match p = m_ID m)"
proof -
  let ?ks = "go_keys (sub (sub rt (fst je)) 0) (m_Players m)"
  let ?msg = "event_message (esub env (fst je)) (bt_m b) (snd je)"
  have ks: "distinct ?ks" "set ?ks = fst ` set (m_Players m)" using assms(1,2) by auto
  note f = offer_fold[OF rt_ok_sub[OF rt_ok_sub[OF assms(1)]] assms(3), of "fst je" 1 "snd je" ?msg
      "out @ [PublicEvent (m_ID m) ?msg]" "enumerate 0 ?ks"]
  have same: "same_match (bt_m b) m" using assms(3) by (simp add: batch_of_def)
  have one: "filter (\<lambda>x. x = s) (filter (\<lambda>s. observes m s (snd je)) ?ks) = (if s \<in> fst ` set (m_Players m) \<and> observes m s (snd je) then [s] else [])"
    using filter_in_keys[OF ks(1), of s "\<lambda>s. observes m s (snd je)"] ks(2) by (simp add: conj_commute)
  have r: "b' = fst (publishEventPerSlot env rt (b, out) je)" "out' = snd (publishEventPerSlot env rt (b, out) je)"
    using assms(4) by simp_all
  have ids: "\<forall>p\<in>set out'. p \<in> set out \<or> pub_match p = m_ID m"
    using f unfolding r publishEventPerSlot_def Let_def fst_conv snd_conv batch_of_ID[OF assms(3)] by auto
  show ?thesis
    using f same one unfolding r publishEventPerSlot_def Let_def fst_conv snd_conv batch_of_ID[OF assms(3)]
    by (intro conjI ids[unfolded r publishEventPerSlot_def Let_def fst_conv snd_conv batch_of_ID[OF assms(3)]]) simp_all
qed

lemma events_sent:
  assumes "rt_ok rt" "mok (m_Players m)" "batch_of m (m_GameNow m) b"
    and "foldl (publishEventPerSlot env rt) (b, out) jes = (b', out')"
  shows "batch_of m (m_GameNow m) b' \<and> slot_snapshots s out' = slot_snapshots s out
    \<and> map message_content (public_events out') = map message_content (public_events out) @ map (event_content m) (map snd jes)
    \<and> map message_content (slot_events s out') = map message_content (slot_events s out)
         @ map (event_content m) (filter (\<lambda>e. s \<in> fst ` set (m_Players m) \<and> observes m s e) (map snd jes))
    \<and> (\<forall>p\<in>set out'. p \<in> set out \<or> pub_match p = m_ID m)"
  using assms(3,4)
proof (induction jes arbitrary: b out)
  case (Cons je jes)
  obtain b1 out1 where p: "publishEventPerSlot env rt (b, out) je = (b1, out1)" by fastforce
  note one = event_sent[OF assms(1,2) Cons.prems(1) p, of s]
  have "foldl (publishEventPerSlot env rt) (b1, out1) jes = (b', out')" using Cons.prems(2) p by simp
  from Cons.IH[OF conjunct1[OF one] this] one show ?case by auto
qed simp

lemma filtered_sent:
  assumes "rt_ok rt" "match_ok m" "\<forall>x\<in>set (map snd js). x \<noteq> []" "batch_of m (m_GameNow m) b"
    and "foldl (publish_filtered env rt) (b, out) js = (b', out')"
  shows "batch_of m (m_GameNow m) b' \<and> public_events out' = public_events out \<and> slot_events s out' = slot_events s out
    \<and> (\<forall>p\<in>set out'. p \<in> set out \<or> pub_match p = m_ID m)
    \<and> (\<exists>ws. slot_snapshots s out' = slot_snapshots s out @ map Some ws \<and> length ws = length (filter (\<lambda>x. x = s) (map snd js))
        \<and> (\<forall>w\<in>set ws. fog_view m s w))"
  using assms(3-5)
proof (induction js arbitrary: b out)
  case (Cons j js)
  obtain b1 w where F: "Filtered (sub rt (fst j)) b (snd j) = (b1, w)" by fastforce
  have one: "fog_view m (snd j) w \<and> batch_of m (m_GameNow m) b1"
    by (rule Filtered_fog[OF assms(2) rt_ok_sub[OF assms(1)] _ Cons.prems(2) F]) (use Cons.prems(1) in simp)
  have step: "publish_filtered env rt (b, out) j = (b1, out @ [SlotState (m_ID (bt_m b1)) (snd j) (state_message (esub env (fst j)) (bt_m b1) w)])"
    by (simp add: publish_filtered_def F)
  let ?out = "out @ [SlotState (m_ID (bt_m b1)) (snd j) (state_message (esub env (fst j)) (bt_m b1) w)]"
  have ih: "batch_of m (m_GameNow m) b' \<and> public_events out' = public_events ?out \<and> slot_events s out' = slot_events s ?out
    \<and> (\<forall>p\<in>set out'. p \<in> set ?out \<or> pub_match p = m_ID m)
    \<and> (\<exists>ws. slot_snapshots s out' = slot_snapshots s ?out @ map Some ws \<and> length ws = length (filter (\<lambda>x. x = s) (map snd js))
        \<and> (\<forall>w\<in>set ws. fog_view m s w))"
    using Cons.prems one step by (intro Cons.IH) simp_all
  then obtain ws where ws: "slot_snapshots s out' = slot_snapshots s ?out @ map Some ws"
    "length ws = length (filter (\<lambda>x. x = s) (map snd js))" "\<forall>w\<in>set ws. fog_view m s w" by blast
  have "\<exists>ws'. slot_snapshots s out' = slot_snapshots s out @ map Some ws' \<and> length ws' = length (filter (\<lambda>x. x = s) (map snd (j # js)))
        \<and> (\<forall>w\<in>set ws'. fog_view m s w)"
    by (rule exI[of _ "(if snd j = s then w # ws else ws)"]) (use ws one in \<open>auto simp: state_message_def\<close>)
  with ih batch_of_ID(1)[OF conjunct2[OF one]] show ?case by auto
qed simp

lemma broadcast_sends:
  assumes "rt_ok rt" "match_ok m" "cache_ok m" "on_board m (m_GameNow m)" "[] \<notin> fst ` set (m_Players m)"
    and "broadcastEvents env rt True m es = (m', out)"
  shows "same_match m' m
    \<and> map message_content (public_events out) = map (event_content m) es
    \<and> (if s \<in> fst ` set (m_Players m)
        then map message_content (slot_events s out) = map (event_content m) (filter (observes m s) es)
          \<and> (\<exists>w. slot_snapshots s out = [Some w] \<and> fog_view m s w)
        else slot_events s out = [] \<and> slot_snapshots s out = [])
    \<and> (\<forall>p\<in>set out. pub_match p = m_ID m)"
proof -
  have mok: "mok (m_Players m)" using assms(2) by (simp add: match_ok_def)
  have b0: "batch_of m (m_GameNow m) (NewBatch m)" by (rule batch_start[OF assms(2-4)])
  obtain b1 out1 where e: "foldl (publishEventPerSlot (esub env 0) (sub rt 0)) (NewBatch m, []) (enumerate 0 es) = (b1, out1)" by fastforce
  note E = events_sent[OF rt_ok_sub[OF assms(1)] mok b0 e, of s]
  let ?rt = "sub (sub rt 1) 1"
  have rt: "rt_ok (sub ?rt 1)" "rt_ok (sub ?rt 0)" using assms(1) by blast+
  let ?ks = "go_keys (sub ?rt 0) (m_Players m)"
  have ks: "distinct ?ks" "set ?ks = fst ` set (m_Players m)" using rt(2) mok by simp_all
  obtain b2 out2 where f: "foldl (publish_filtered (esub (esub env 1) 1) (sub ?rt 1)) (b1, []) (enumerate 0 ?ks) = (b2, out2)" by fastforce
  have "\<forall>x\<in>set ?ks. x \<noteq> []" unfolding ks(2) using assms(5) by metis
  then have "\<forall>x\<in>set (map snd (enumerate 0 ?ks)). x \<noteq> []" by simp
  note F = filtered_sent[OF rt(1) assms(2) this conjunct1[OF E] f, of s]
  have len: "length (filter (\<lambda>x. x = s) ?ks) = (if s \<in> fst ` set (m_Players m) then 1 else 0)"
    using filter_in_keys[OF ks(1), of s "\<lambda>_. True"] ks(2) by simp
  define pub where "pub = state_message (esub (esub env 1) 0) (bt_m b1) (Snapshot (sub (sub rt 1) 0) (bt_m b1))"
  have out: "out = out1 @ PublicState (m_ID (bt_m b1)) pub # out2" "m' = bt_m b2"
    using assms(6) e f batch_of_ID(2)[OF conjunct1[OF E]]
    by (simp_all add: broadcastEvents_def broadcastState_def slot_states_def pub_def Let_def del: One_nat_def)
  obtain ws where ws: "slot_snapshots s out2 = map Some ws" "length ws = (if s \<in> fst ` set (m_Players m) then 1 else 0)"
      "\<forall>w\<in>set ws. fog_view m s w"
    using F len by auto
  then have "if s \<in> fst ` set (m_Players m) then \<exists>w. slot_snapshots s out2 = [Some w] \<and> fog_view m s w else slot_snapshots s out2 = []"
    by (cases ws; cases "s \<in> fst ` set (m_Players m)") simp_all
  then show ?thesis
    using E F batch_of_ID(1,3) unfolding out by (auto simp: filter_False)
qed


definition quiet_env :: env where
  "quiet_env = \<lparr>env_now = (\<lambda>_. 0), env_uuid = (\<lambda>_. []), env_outcome = (\<lambda>_. Delivered)\<rparr>"


text \<open>
  C37. The invariant of the engine process. Whatever messages arrive and however the match loops
  interleave: a match is hosted exactly when one loop, and no other, runs for it uncancelled; every
  match of the process keeps the invariant of reachable matches; and each holds at most 64 commands,
  all addressed to it.
\<close>

theorem one_loop_per_hosted_match:
  assumes "runner_step\<^sup>*\<^sup>* (NewRunner bc) r"
  shows "(IsHosted r mid \<longleftrightarrow> (\<exists>!i. i < length (rn_handles r) \<and> m_ID (h_match (rn_handles r ! i)) = mid
        \<and> \<not> h_cancelled (rn_handles r ! i) \<and> \<not> h_exited (rn_handles r ! i)))
    \<and> (\<forall>h\<in>set (rn_handles r). match_ok (h_match h) \<and> length (h_cmds h) \<le> 64
        \<and> (\<forall>c\<in>set (h_cmds h). c_MatchID c = m_ID (h_match h)))"
proof -
  have ok: "runner_ok r" by (rule runner_reachable_ok[OF assms])
  have "(i < length (rn_handles r) \<and> m_ID (h_match (rn_handles r ! i)) = mid \<and> \<not> h_cancelled (rn_handles r ! i) \<and> \<not> h_exited (rn_handles r ! i))
      \<longleftrightarrow> map_of (rn_matches r) mid = Some i" for i
    using runner_okD(1)[OF ok, of mid i] runner_okD(2)[OF ok, of i] unfolding live_def handle_id_def by blast
  moreover have "IsHosted r mid \<longleftrightarrow> (\<exists>!i. map_of (rn_matches r) mid = Some i)"
    unfolding IsHosted_def by (cases "map_of (rn_matches r) mid") (blast, simp)
  ultimately have "IsHosted r mid \<longleftrightarrow> (\<exists>!i. i < length (rn_handles r) \<and> m_ID (h_match (rn_handles r ! i)) = mid
        \<and> \<not> h_cancelled (rn_handles r ! i) \<and> \<not> h_exited (rn_handles r ! i))"
    by (simp only:)
  then show ?thesis using ok unfolding runner_ok_def handle_ok_def cmdQueueSize_def by blast
qed

text \<open>A runtime whose first branch is \<open>plain_rt\<close>.\<close>

definition first_plain :: runtime where
  "first_plain = \<lparr>range_order = (\<lambda>_ ks. ks), uuid_at = (\<lambda>p. uuid_at plain_rt (tl p))\<rparr>"

lemma first_plain_simps: "sub first_plain 0 = plain_rt" "rt_ok first_plain"
  by (simp_all add: first_plain_def sub_def plain_rt_def rt_ok_def)

definition duel_start :: start_payload where
  "duel_start = \<lparr>sp_MatchID = ''m1'', sp_MapID = ''duel'', sp_Speed = 1, sp_StartedAt = Hour, sp_SlotAssignments = []\<rparr>"

theorem one_loop_per_hosted_match_witness:
  "\<exists>!i. i < length (rn_handles (fst (startHandler quiet_env first_plain (\<lambda>_. Some duel_map) [(''duel.yaml'', Some [])] duel_start (NewRunner True))))
     \<and> m_ID (h_match (rn_handles (fst (startHandler quiet_env first_plain (\<lambda>_. Some duel_map) [(''duel.yaml'', Some [])] duel_start (NewRunner True))) ! i)) = ''m1''
     \<and> \<not> h_cancelled (rn_handles (fst (startHandler quiet_env first_plain (\<lambda>_. Some duel_map) [(''duel.yaml'', Some [])] duel_start (NewRunner True))) ! i)
     \<and> \<not> h_exited (rn_handles (fst (startHandler quiet_env first_plain (\<lambda>_. Some duel_map) [(''duel.yaml'', Some [])] duel_start (NewRunner True))) ! i)"
proof -
  let ?r = "fst (startHandler quiet_env first_plain (\<lambda>_. Some duel_map) [(''duel.yaml'', Some [])] duel_start (NewRunner True))"
  have "runner_step\<^sup>*\<^sup>* (NewRunner True) ?r" 
    by (rule r_into_rtranclp) (rule started[OF first_plain_simps(2)])
  moreover have "m_ID duel = ''m1''"
    by (simp add: duel_def match_New_def Let_def duel_map_def new_slot_def new_province_def empty_match_def)
  then have "IsHosted ?r ''m1''"
    by (simp add: startHandler_def duel_start_def first_plain_simps(1) duel_created Let_def case_prod_beta NewRunner_def EnsureMatch_def IsHosted_def)
  ultimately show ?thesis using one_loop_per_hosted_match[of True ?r "''m1''"] by blast
qed

end
