(* ===== verification/Chatting.thy ===== *)
theory Chatting
  imports Chat LobbyFacts
begin

text \<open>
  Facts about chat: scopes parse back to what they were built from, the throttle as a token bucket, and the
  effect of a request. The properties are C39 and C40.
\<close>

section \<open>Scopes\<close>

lemma split_on_nonempty [simp]: "split_on c s \<noteq> []"
  by (cases s) simp_all

lemma split_on_free [simp]: "c \<notin> set s \<Longrightarrow> split_on c s = [s]"
  by (induction s) auto

lemma split_on_app [simp]: "c \<notin> set s \<Longrightarrow> split_on c (s @ c # rest) = s # split_on c rest"
  by (induction s) auto

lemma split_on_join: "foldr (\<lambda>p acc. p @ c # acc) (butlast (split_on c s)) (last (split_on c s)) = s"
proof (induction s)
  case (Cons x s)
  show ?case
  proof (cases "split_on c s")
    case (Cons p ps)
    with Cons.IH show ?thesis by (cases ps) auto
  qed simp
qed simp

lemma ParseScope_World: "CHR '':'' \<notin> set mid \<Longrightarrow> ParseScope (WorldScope mid) = Inr (ChannelWorld, [mid])"
  by (simp add: ParseScope_def WorldScope_def Let_def)

lemma ParseScope_Coalition: "CHR '':'' \<notin> set mid \<Longrightarrow> CHR '':'' \<notin> set c \<Longrightarrow>
    ParseScope (CoalitionScope mid c) = Inr (ChannelCoalition, [mid, c])"
  by (simp add: ParseScope_def CoalitionScope_def Let_def)

lemma ParseScope_DM:
  assumes "CHR '':'' \<notin> set mid" "CHR '':'' \<notin> set a" "CHR '':'' \<notin> set b"
  shows "ParseScope (DMScope mid a b) = Inr (ChannelDM, [mid, min a b, max a b])"
  using assms by (cases "a \<le> b") (auto simp: ParseScope_def DMScope_def Let_def min_def max_def)

lemma ParseScope_shape:
  assumes "ParseScope scope = Inr (kind, parts)"
  shows "(kind = ChannelWorld \<and> (\<exists>m. parts = [m] \<and> scope = WorldScope m))
    \<or> (kind = ChannelCoalition \<and> (\<exists>m c. parts = [m, c] \<and> scope = CoalitionScope m c))
    \<or> (kind = ChannelDM \<and> (\<exists>m a b. parts = [m, a, b] \<and> scope = ''dm:'' @ m @ '':'' @ a @ '':'' @ b))"
proof -
  have j: "foldr (\<lambda>p acc. p @ CHR '':'' # acc) (butlast (split_on (CHR '':'') scope)) (last (split_on (CHR '':'') scope)) = scope"
    by (rule split_on_join)
  obtain p ps where s: "split_on (CHR '':'') scope = p # ps" by (cases "split_on (CHR '':'') scope") simp_all
  have l: "(\<exists>a. ps = [a]) \<or> (\<exists>a b. ps = [a, b]) \<or> (\<exists>a b c. ps = [a, b, c]) \<or> length ps \<notin> {1, 2, 3}"
    by (cases ps rule: list.exhaust; cases "tl ps" rule: list.exhaust; cases "tl (tl ps)" rule: list.exhaust; cases "tl (tl (tl ps))") auto
  show ?thesis
    using assms j l by (auto simp: ParseScope_def Let_def s WorldScope_def CoalitionScope_def split: if_splits)
qed

section \<open>The rate limit\<close>

definition bucket_ok :: "time \<Rightarrow> chat_bucket \<Rightarrow> bool" where
  "bucket_ok t b \<longleftrightarrow> 0 \<le> cb_tokens b \<and> cb_tokens b \<le> 5 \<and> cb_cap b = 5 \<and> cb_refillPer b = 5 \<and> cb_last b \<le> t"

lemma seconds_le: "u \<le> t \<Longrightarrow> 0 \<le> duration_seconds (time_sub t u) \<and> duration_seconds (time_sub t u) \<le> duration_seconds (t - u)"
  by (auto simp: duration_seconds_def time_sub_def max_duration_def min_duration_def Second_def Millisecond_def divide_right_mono)

lemma bucket_take_ok:
  assumes "bucket_ok t b" "t \<le> now" "bucket_take now b = (b', ok)"
  shows "bucket_ok now b' \<and> cb_last b' = now \<and> cb_tokens b' + of_bool ok \<le> 5
    \<and> cb_tokens b' + of_bool ok \<le> cb_tokens b + 5 * duration_seconds (now - cb_last b)"
proof -
  have "cb_last b \<le> now" using assms by (simp add: bucket_ok_def)
  from seconds_le[OF this] assms show ?thesis
    by (auto simp: bucket_take_def Let_def bucket_ok_def split: if_splits)
qed

definition chat_run :: "(string \<Rightarrow> string option) \<Rightarrow> (env \<times> send_input) list \<Rightarrow> chat_service \<Rightarrow> chat_service" where
  "chat_run parseUUID reqs s = foldl (\<lambda>s (env, inp). fst (Send parseUUID env inp s)) s reqs"

lemma chat_run_simps [simp]:
  "chat_run p [] s = s" "chat_run p ((env, inp) # reqs) s = chat_run p reqs (fst (Send p env inp s))"
  "chat_run p (reqs1 @ reqs2) s = chat_run p reqs2 (chat_run p reqs1 s)"
  by (simp_all add: chat_run_def)

definition stored_by :: "user_id \<Rightarrow> chat_service \<Rightarrow> nat" where
  "stored_by uid s = length (filter (\<lambda>m. cm_AuthorID m = uid) (cs_messages s))"

lemma fanout_frame: "cs_messages (fst (fanout env m kind parts s)) = cs_messages s \<and> cs_throttle (fst (fanout env m kind parts s)) = cs_throttle s
    \<and> cs_world (fst (fanout env m kind parts s)) = cs_world s"
  by (auto simp: fanout_def publish_chat_def ebind_def ret_def Let_def split: channel_kind.split outcome.split)

lemma Chat_Insert_frame: "cs_throttle (fst (Chat_Insert env m s)) = cs_throttle s \<and>
    (cs_messages (fst (Chat_Insert env m s)) = cs_messages s \<or> cs_messages (fst (Chat_Insert env m s)) = cs_messages s @ [m])"
  by (auto simp: Chat_Insert_def Let_def split: outcome.split)

text \<open>What a request does to the throttle and the table.\<close>

lemma Send_effects:
  assumes "Send p env inp s = (s', r)"
  shows "(cs_throttle s' = cs_throttle s \<and> cs_messages s' = cs_messages s) \<or>
    (\<exists>b b' ok. b = (case map_of (cs_throttle s) (sd_AuthorID inp) of Some b \<Rightarrow> b | None \<Rightarrow> newBucket MessagesPerSecond (env_now env [0]))
       \<and> bucket_take (env_now env [1]) b = (b', ok) \<and> cs_throttle s' = mput (sd_AuthorID inp) b' (cs_throttle s)
       \<and> (cs_messages s' = cs_messages s \<or> ok \<and> (\<exists>m. cm_AuthorID m = sd_AuthorID inp \<and> cs_messages s' = cs_messages s @ [m])))"
proof (cases "\<exists>e. snd (Send p env inp s) = Inl e \<and> fst (Send p env inp s) = s")
  case True
  then show ?thesis using assms by auto
next
  case False
  then obtain body kind parts where v: "ValidateBody (sd_Body inp) = Inr body" "ParseScope (sd_Scope inp) = Inr (kind, parts)"
    "checkScope p (esub env 0) inp kind parts s = None"
    by (auto simp: Send_def split: sum.splits prod.splits option.splits)
  define b where "b = (case map_of (cs_throttle s) (sd_AuthorID inp) of Some b \<Rightarrow> b | None \<Rightarrow> newBucket MessagesPerSecond (env_now env [0]))"
  obtain b' ok where t: "bucket_take (env_now env [1]) b = (b', ok)" by fastforce
  have a: "allow (env_now env [0]) (env_now env [1]) (sd_AuthorID inp) s = (s\<lparr>cs_throttle := mput (sd_AuthorID inp) b' (cs_throttle s)\<rparr>, ok)"
    unfolding allow_def b_def[symmetric] t Let_def by simp
  let ?s1 = "s\<lparr>cs_throttle := mput (sd_AuthorID inp) b' (cs_throttle s)\<rparr>"
  define m where "m = \<lparr>cm_ID = env_uuid env [], cm_MatchID = sd_MatchID inp, cm_Scope = sd_Scope inp,
     cm_AuthorID = sd_AuthorID inp, cm_AuthorSlot = sd_AuthorSlot inp, cm_Body = body, cm_SentAt = env_now env [2]\<rparr>"
  note body = assms[unfolded Send_def v sum.case prod.case option.case a Let_def, folded m_def]
  have "cs_throttle s' = mput (sd_AuthorID inp) b' (cs_throttle s) \<and>
      (cs_messages s' = cs_messages s \<or> ok \<and> cs_messages s' = cs_messages s @ [m])"
  proof (cases ok)
    case True
    obtain s2 q where i: "Chat_Insert (esub env 1) m ?s1 = (s2, q)" by fastforce
    have "cs_throttle s2 = cs_throttle ?s1 \<and> (cs_messages s2 = cs_messages s \<or> cs_messages s2 = cs_messages s @ [m])"
      using Chat_Insert_frame[of "esub env 1" m ?s1] i by simp
    moreover have "s' = s2 \<or> s' = fst (fanout (esub env 2) m kind parts s2)"
      using body True i by (auto split: sum.splits)
    ultimately show ?thesis using fanout_frame[of "esub env 2" m kind parts s2] True by auto
  qed (use body in auto)
  moreover have "cm_AuthorID m = sd_AuthorID inp" by (simp add: m_def)
  ultimately show ?thesis using t unfolding b_def by blast
qed

text \<open>The messages stored in a window that began at \<open>t0\<close>, with \<open>w0\<close> stored before it.\<close>

definition window_ok :: "user_id \<Rightarrow> time \<Rightarrow> nat \<Rightarrow> chat_service \<Rightarrow> bool" where
  "window_ok uid t0 w0 s \<longleftrightarrow> stored_by uid s = w0 \<or>
     (\<exists>b. map_of (cs_throttle s) uid = Some b \<and> t0 \<le> cb_last b \<and>
        real (stored_by uid s) + cb_tokens b \<le> real w0 + 5 + 5 * duration_seconds (cb_last b - t0))"

definition throttle_ok :: "time \<Rightarrow> chat_service \<Rightarrow> bool" where
  "throttle_ok t s \<longleftrightarrow> (\<forall>uid b. map_of (cs_throttle s) uid = Some b \<longrightarrow> bucket_ok t b)"

lemma bucket_ok_later: "bucket_ok t b \<Longrightarrow> t \<le> t' \<Longrightarrow> bucket_ok t' b"
  by (auto simp: bucket_ok_def)

lemma Send_window:
  assumes "throttle_ok t s" "t \<le> env_now env [0]" "env_now env [0] \<le> env_now env [1]"
    and "Send p env inp s = (s', r)"
  shows "throttle_ok (env_now env [1]) s' \<and> (t0 \<le> env_now env [1] \<longrightarrow> window_ok uid t0 w0 s \<longrightarrow> window_ok uid t0 w0 s')"
  using Send_effects[OF assms(4)]
proof (rule disjE)
  assume same: "cs_throttle s' = cs_throttle s \<and> cs_messages s' = cs_messages s"
  then have "window_ok uid t0 w0 s' = window_ok uid t0 w0 s" by (simp add: window_ok_def stored_by_def)
  moreover have "throttle_ok (env_now env [1]) s'"
    using assms(1-3) bucket_ok_later[of t _ "env_now env [1]"] same unfolding throttle_ok_def by force
  ultimately show ?thesis by simp
next
  assume "\<exists>b b' ok. b = (case map_of (cs_throttle s) (sd_AuthorID inp) of Some b \<Rightarrow> b | None \<Rightarrow> newBucket MessagesPerSecond (env_now env [0]))
       \<and> bucket_take (env_now env [1]) b = (b', ok) \<and> cs_throttle s' = mput (sd_AuthorID inp) b' (cs_throttle s)
       \<and> (cs_messages s' = cs_messages s \<or> ok \<and> (\<exists>m. cm_AuthorID m = sd_AuthorID inp \<and> cs_messages s' = cs_messages s @ [m]))"
  then obtain b b' ok where b: "b = (case map_of (cs_throttle s) (sd_AuthorID inp) of Some b \<Rightarrow> b | None \<Rightarrow> newBucket MessagesPerSecond (env_now env [0]))"
    and take: "bucket_take (env_now env [1]) b = (b', ok)" and th: "cs_throttle s' = mput (sd_AuthorID inp) b' (cs_throttle s)"
    and ms: "cs_messages s' = cs_messages s \<or> ok \<and> (\<exists>m. cm_AuthorID m = sd_AuthorID inp \<and> cs_messages s' = cs_messages s @ [m])"
    by blast
  have "bucket_ok (env_now env [0]) b"
  proof (cases "map_of (cs_throttle s) (sd_AuthorID inp)")
    case None
    then show ?thesis by (simp add: b newBucket_def bucket_ok_def MessagesPerSecond_def)
  next
    case (Some c)
    then have "bucket_ok t c" using assms(1) unfolding throttle_ok_def by blast
    from bucket_ok_later[OF this assms(2)] show ?thesis by (simp add: b Some)
  qed
  note tk = bucket_take_ok[OF this assms(3) take]
  have "throttle_ok (env_now env [1]) s'"
    using assms(1-3) bucket_ok_later[of t _ "env_now env [1]"] tk unfolding throttle_ok_def th by auto
  moreover have "window_ok uid t0 w0 s'" if t0: "t0 \<le> env_now env [1]" and w: "window_ok uid t0 w0 s"
  proof (cases "sd_AuthorID inp = uid")
    case False
    then have "stored_by uid s' = stored_by uid s" "map_of (cs_throttle s') uid = map_of (cs_throttle s) uid"
      using ms by (auto simp: stored_by_def th)
    then show ?thesis using w by (simp add: window_ok_def)
  next
    case True
    have st: "real (stored_by uid s') \<le> real (stored_by uid s) + of_bool ok" using ms True by (auto simp: stored_by_def)
    have pos: "0 \<le> duration_seconds (env_now env [1] - t0)" using t0 by (simp add: duration_seconds_def Second_def Millisecond_def)
    have "real (stored_by uid s') + cb_tokens b' \<le> real w0 + 5 + 5 * duration_seconds (env_now env [1] - t0)"
      using w unfolding window_ok_def
    proof (elim disjE exE conjE)
      fix c assume c: "map_of (cs_throttle s) uid = Some c" "t0 \<le> cb_last c"
        "real (stored_by uid s) + cb_tokens c \<le> real w0 + 5 + 5 * duration_seconds (cb_last c - t0)"
      have cb: "c = b" using c(1) True by (simp add: b)
      have "duration_seconds (cb_last b - t0) + duration_seconds (env_now env [1] - cb_last b) = duration_seconds (env_now env [1] - t0)"
        by (simp add: duration_seconds_def add_divide_distrib[symmetric])
      then show ?thesis using st tk c(3)[unfolded cb] by linarith
    qed (use st tk pos in linarith)
    then show ?thesis using tk t0 True unfolding window_ok_def by (auto simp: th)
  qed
  ultimately show ?thesis by blast
qed

definition clock_readings :: "(env \<times> send_input) list \<Rightarrow> time list" where
  "clock_readings reqs = concat (map (\<lambda>(env, _). [env_now env [0], env_now env [1]]) reqs)"

lemma sorted_last: "sorted (xs @ ys) \<Longrightarrow> xs \<noteq> [] \<Longrightarrow> sorted (last xs # ys)"
  by (simp add: sorted_append)

lemma chat_run_window:
  assumes "throttle_ok t s" "sorted (t # clock_readings reqs)"
  shows "throttle_ok (last (t # clock_readings reqs)) (chat_run p reqs s)
    \<and> ((\<forall>(env, inp)\<in>set reqs. t0 \<le> env_now env [1]) \<longrightarrow> window_ok uid t0 w0 s \<longrightarrow> window_ok uid t0 w0 (chat_run p reqs s))"
  using assms
proof (induction reqs arbitrary: s t)
  case Nil
  then show ?case by (simp add: clock_readings_def)
next
  case (Cons req reqs)
  obtain env inp where req: "req = (env, inp)" by fastforce
  obtain s' r where S: "Send p env inp s = (s', r)" by fastforce
  have c: "clock_readings (req # reqs) = env_now env [0] # env_now env [1] # clock_readings reqs"
    by (simp add: clock_readings_def req)
  have w: "throttle_ok (env_now env [1]) s'" "t0 \<le> env_now env [1] \<Longrightarrow> window_ok uid t0 w0 s \<Longrightarrow> window_ok uid t0 w0 s'"
    using Send_window[OF Cons.prems(1) _ _ S] Cons.prems(2) unfolding c by simp_all
  have "sorted (env_now env [1] # clock_readings reqs)" using Cons.prems(2) by (simp add: c)
  note ih = Cons.IH[OF w(1) this]
  show ?case using ih w(2) unfolding req chat_run_simps S fst_conv c[unfolded req] by simp
qed

section \<open>Who reads a message\<close>

definition inbound :: "chat_message \<Rightarrow> chat_inbound" where
  "inbound m = \<lparr>ci_ID = cm_ID m, ci_MatchID = cm_MatchID m, ci_Scope = cm_Scope m, ci_AuthorID = cm_AuthorID m,
     ci_AuthorName = [], ci_AuthorSlot = cm_AuthorSlot m, ci_Body = cm_Body m, ci_SentAt = cm_SentAt m\<rparr>"

lemma fanout_published:
  assumes "env_ok env"
  shows "cs_published (fst (fanout env m kind parts s)) = cs_published s @ map (\<lambda>d. (d, inbound m))
    (if kind = ChannelDM then remdups [dmPerUserScope (cm_MatchID m) (parts ! 1), dmPerUserScope (cm_MatchID m) (parts ! 2)] else [cm_Scope m])"
  using assms
  by (auto simp: fanout_def publish_chat_def ebind_def ret_def Let_def env_ok_def inbound_def esub_def split: channel_kind.split)

lemma checkScope_None:
  assumes "checkScope p env inp kind parts s = None" "env_ok env"
  shows "isPlayer (players_of (cs_world s) (sd_MatchID inp)) (sd_AuthorID inp) (sd_AuthorSlot inp) \<and> parts ! 0 = sd_MatchID inp
    \<and> (kind = ChannelDM \<longrightarrow> sublist (sd_AuthorID inp) (sd_Scope inp) \<and>
         (\<exists>a b. p (parts ! 1) = Some a \<and> p (parts ! 2) = Some b \<and>
            (\<exists>q\<in>set (players_of (cs_world s) (sd_MatchID inp)). lp_UserID q = (if a = sd_AuthorID inp then b else a))))"
  using assms
  by (auto simp: checkScope_def ListPlayers_ok dmPartnerIsPlayer_def Let_def list_ex_iff split: if_splits channel_kind.splits option.splits)


text \<open>
  C40. The chat rate limit. From a fresh start of the service, whatever requests arrive, as long as the clock
  does not run backwards, the messages of one author stored during any window of length \<open>d\<close> number at
  most five, plus five for every second of the window.
\<close>

theorem chat_rate_bounded:
  assumes "cs_throttle s = []" "sorted (clock_readings (reqs1 @ reqs2))"
    and "\<forall>(env, inp)\<in>set reqs2. t0 \<le> env_now env [1] \<and> env_now env [1] \<le> t0 + d"
  shows "real (stored_by uid (chat_run p (reqs1 @ reqs2) s))
    \<le> real (stored_by uid (chat_run p reqs1 s)) + (if reqs2 = [] then 0 else 5 + 5 * duration_seconds d)"
proof (cases "reqs2 = []")
  case False
  define t where "t = (case clock_readings (reqs1 @ reqs2) of [] \<Rightarrow> 0 | x # _ \<Rightarrow> x)"
  have cr: "clock_readings (reqs1 @ reqs2) = clock_readings reqs1 @ clock_readings reqs2" by (simp add: clock_readings_def)
  have srt: "sorted (t # clock_readings reqs1 @ clock_readings reqs2)"
    using assms(2) unfolding cr t_def by (cases "clock_readings reqs1 @ clock_readings reqs2") auto
  have s1: "sorted (t # clock_readings reqs1)" "sorted (last (t # clock_readings reqs1) # clock_readings reqs2)"
    using srt sorted_last[of "t # clock_readings reqs1"] by (simp_all add: sorted_append)
  have "throttle_ok t s" using assms(1) by (simp add: throttle_ok_def)
  note A = chat_run_window[OF this s1(1), THEN conjunct1]
  note B = chat_run_window[where ?t0.0 = t0 and uid = uid and ?w0.0 = "stored_by uid (chat_run p reqs1 s)", OF A s1(2)]
  have th: "throttle_ok (last (last (t # clock_readings reqs1) # clock_readings reqs2)) (chat_run p (reqs1 @ reqs2) s)"
    using B unfolding chat_run_simps by blast
  have "\<forall>(env, inp)\<in>set reqs2. t0 \<le> env_now env [1]" using assms(3) by blast
  moreover have "window_ok uid t0 (stored_by uid (chat_run p reqs1 s)) (chat_run p reqs1 s)" by (simp add: window_ok_def)
  ultimately have w: "window_ok uid t0 (stored_by uid (chat_run p reqs1 s)) (chat_run p (reqs1 @ reqs2) s)"
    using B unfolding chat_run_simps by blast
  obtain env inp pre where r2: "reqs2 = pre @ [(env, inp)]" using False by (metis prod.exhaust rev_exhaust)
  have lst: "last (last (t # clock_readings reqs1) # clock_readings reqs2) = env_now env [1]"
    by (simp add: r2 clock_readings_def)
  have d: "env_now env [1] \<le> t0 + d" "t0 \<le> env_now env [1]" using assms(3) by (auto simp: r2)
  have "real (stored_by uid (chat_run p (reqs1 @ reqs2) s)) \<le> real (stored_by uid (chat_run p reqs1 s)) + 5 + 5 * duration_seconds d"
    using w unfolding window_ok_def
  proof (elim disjE exE conjE)
    fix b assume b: "map_of (cs_throttle (chat_run p (reqs1 @ reqs2) s)) uid = Some b"
      "real (stored_by uid (chat_run p (reqs1 @ reqs2) s)) + cb_tokens b \<le> real (stored_by uid (chat_run p reqs1 s)) + 5 + 5 * duration_seconds (cb_last b - t0)"
    have "bucket_ok (env_now env [1]) b" using th b(1) unfolding throttle_ok_def lst by blast
    then have "0 \<le> cb_tokens b" "cb_last b - t0 \<le> d" using d by (auto simp: bucket_ok_def)
    moreover from this have "duration_seconds (cb_last b - t0) \<le> duration_seconds d"
      by (simp add: duration_seconds_def Second_def Millisecond_def divide_right_mono)
    ultimately show ?thesis using b(2) by linarith
  qed (use d in \<open>simp add: duration_seconds_def Second_def Millisecond_def\<close>)
  then show ?thesis using False by simp
qed simp

definition chat_lobby :: chat_service where
  "chat_lobby = \<lparr>cs_world = sample_world StatusActive [sample_seat ''ann'' ''red'' None, sample_seat ''bob'' ''blue'' None]
       [sample_user ''ann'' False, sample_user ''bob'' False],
     cs_messages = [], cs_throttle = [], cs_published = []\<rparr>"

definition sample_dm :: send_input where
  "sample_dm = \<lparr>sd_MatchID = ''m'', sd_AuthorID = ''ann'', sd_AuthorSlot = ''red'', sd_Scope = ''dm:m:ann:bob'', sd_Body = '' hi ''\<rparr>"

lemma sample_dm_sent: "case snd (Send Some (calm 0) sample_dm chat_lobby) of Inl _ \<Rightarrow> False | Inr m \<Rightarrow> cm_Body m = ''hi''"
  by code_simp


theorem chat_rate_bounded_witness:
  "real (stored_by ''ann'' (chat_run Some [(calm 0, sample_dm)] chat_lobby)) \<le> 5"
  using chat_rate_bounded[of chat_lobby "[]" "[(calm 0, sample_dm)]" 0 0 "''ann''" Some]
  by (simp add: chat_lobby_def clock_readings_def calm_def stored_by_def duration_seconds_def)

end
