(* ===== verification/Sessions.thy ===== *)
theory Sessions
  imports Gateway Hosting Chatting
begin

text \<open>
  Facts about the sessions of the gateway: the subjects are read back token by token, so a session receives
  exactly what is published for its slot, and the gateway and the engine agree on coalitions. The
  properties are C26 and C38.
\<close>

section \<open>Subjects\<close>

text \<open>A token of a subject: no separator and no wildcard.\<close>

definition plain_token :: "string \<Rightarrow> bool" where
  "plain_token t \<longleftrightarrow> CHR ''.'' \<notin> set t \<and> CHR ''*'' \<notin> set t \<and> CHR ''>'' \<notin> set t"

definition literal :: "string \<Rightarrow> bool" where
  "literal pat \<longleftrightarrow> CHR ''*'' \<notin> set pat \<and> CHR ''>'' \<notin> set pat"

text \<open>The tokens a subject is made of.\<close>

lemma split_match: "split_on (CHR ''.'') (''match.'' @ x) = ''match'' # split_on (CHR ''.'') x"
  and split_slot: "split_on (CHR ''.'') (''slot.'' @ x) = ''slot'' # split_on (CHR ''.'') x"
  and split_chat: "split_on (CHR ''.'') (''chat.'' @ x) = ''chat'' # split_on (CHR ''.'') x"
  by simp_all

lemma split_token: "CHR ''.'' \<notin> set m \<Longrightarrow> split_on (CHR ''.'') (m @ CHR ''.'' # x) = m # split_on (CHR ''.'') x"
  by (rule split_on_app)

lemma split_tails: "split_on (CHR ''.'') ''state'' = [''state'']" "split_on (CHR ''.'') ''event'' = [''event'']"
  "split_on (CHR ''.'') ''state.final'' = [''state'', ''final'']"
  by simp_all

lemma subject_tokens:
  assumes mid: "CHR ''.'' \<notin> set mid" and s: "CHR ''.'' \<notin> set s"
  shows "split_on (CHR ''.'') (PublicStateSubject mid) = [''match'', mid, ''state'']"
    "split_on (CHR ''.'') (PublicEventSubject mid) = [''match'', mid, ''event'']"
    "split_on (CHR ''.'') (FinalStateSubject mid) = [''match'', mid, ''state'', ''final'']"
    "split_on (CHR ''.'') (SlotStateSubject mid s) = [''match'', mid, ''slot'', s, ''state'']"
    "split_on (CHR ''.'') (SlotEventSubject mid s) = [''match'', mid, ''slot'', s, ''event'']"
proof -
  note defs = PublicStateSubject_def PublicEventSubject_def FinalStateSubject_def SlotStateSubject_def SlotEventSubject_def
  note st = split_token[OF mid] split_token[OF s] split_match split_slot split_tails
  have dot: "''.slot.'' @ x = CHR ''.'' # ''slot.'' @ x" for x by simp
  show "split_on (CHR ''.'') (PublicStateSubject mid) = [''match'', mid, ''state'']" unfolding defs dot st by (rule refl)
  show "split_on (CHR ''.'') (PublicEventSubject mid) = [''match'', mid, ''event'']" unfolding defs dot st by (rule refl)
  show "split_on (CHR ''.'') (FinalStateSubject mid) = [''match'', mid, ''state'', ''final'']" unfolding defs dot st by (rule refl)
  show "split_on (CHR ''.'') (SlotStateSubject mid s) = [''match'', mid, ''slot'', s, ''state'']" unfolding defs dot st by (rule refl)
  show "split_on (CHR ''.'') (SlotEventSubject mid s) = [''match'', mid, ''slot'', s, ''event'']" unfolding defs dot st by (rule refl)
qed

fun pub_slot :: "publication \<Rightarrow> slot" where
  "pub_slot (SlotState mid s st) = s"
| "pub_slot (SlotEvent mid s e) = s"
| "pub_slot p = []"

lemma subject_iff:
  assumes "plain_token (pub_match p)" "plain_token (pub_slot p)" "plain_token mid" "plain_token s"
  shows "fst (publication_message p) = SlotStateSubject mid s \<longleftrightarrow> (\<exists>st. p = SlotState mid s st)"
    "fst (publication_message p) = SlotEventSubject mid s \<longleftrightarrow> (\<exists>e. p = SlotEvent mid s e)"
    "fst (publication_message p) = PublicStateSubject mid \<longleftrightarrow> (\<exists>st. p = PublicState mid st)"
    "fst (publication_message p) = PublicEventSubject mid \<longleftrightarrow> (\<exists>e. p = PublicEvent mid e)"
proof -
  have eq: "x = y \<longleftrightarrow> x = y \<and> split_on (CHR ''.'') x = split_on (CHR ''.'') y" for x y :: string by blast
  have d: "CHR ''.'' \<notin> set (pub_match p)" "CHR ''.'' \<notin> set (pub_slot p)" "CHR ''.'' \<notin> set mid" "CHR ''.'' \<notin> set s"
    using assms by (simp_all add: plain_token_def)
  show "fst (publication_message p) = SlotStateSubject mid s \<longleftrightarrow> (\<exists>st. p = SlotState mid s st)"
    "fst (publication_message p) = SlotEventSubject mid s \<longleftrightarrow> (\<exists>e. p = SlotEvent mid s e)"
    "fst (publication_message p) = PublicStateSubject mid \<longleftrightarrow> (\<exists>st. p = PublicState mid st)"
    "fst (publication_message p) = PublicEventSubject mid \<longleftrightarrow> (\<exists>e. p = PublicEvent mid e)"
    using d by (cases p; subst eq; auto simp: subject_tokens)+
qed

section \<open>Delivery\<close>

text \<open>What the bus documents of subscriptions: a pattern without wildcards covers itself and nothing else, and
  tokens are compared one by one, so a pattern under \<open>chat\<close> covers only subjects under \<open>chat\<close>.\<close>

definition bus_laws :: "(string \<Rightarrow> string \<Rightarrow> bool) \<Rightarrow> bool" where
  "bus_laws covers \<longleftrightarrow> (\<forall>pat subj. literal pat \<longrightarrow> covers pat subj = (pat = subj)) \<and>
     (\<forall>pat subj. covers (''chat.'' @ pat) subj \<longrightarrow> prefix ''chat.'' subj)"

definition seated :: "string \<Rightarrow> slot \<Rightarrow> conn \<Rightarrow> bool" where
  "seated mid s c \<longleftrightarrow> (\<exists>x y z. cn_subs c = [(SlotStateSubject mid s, StateFanOut), (SlotEventSubject mid s, FanOut),
     (''chat.'' @ x, FanOut), (''chat.'' @ y, FanOut), (''chat.'' @ z, CoalitionFanOut)])"

lemma subscribeMatch_seated:
  assumes "subscribeMatch env idx mid c = (c', True)" "cn_subs c = []"
    and "LookupUserSlot (esub env 0) idx mid (cn_user c) = Some s" "s \<noteq> []"
  shows "seated mid s c' \<and> cn_slot c' = s \<and> cn_chat c' \<noteq> None \<and> cn_send c' = cn_send c"
  using assms
  by (auto simp: subscribeMatch_def subscribeChat_def seated_def Let_def ChatScopeSubject_def ChatScopeWildcardForUser_def
      coalitionWildcard_def split: if_splits option.splits)

lemma not_chat: "\<not> prefix ''chat.'' (fst (publication_message p))"
  by (cases p) (simp_all add: PublicStateSubject_def PublicEventSubject_def FinalStateSubject_def SlotStateSubject_def SlotEventSubject_def)

lemma literal_subjects: "plain_token mid \<Longrightarrow> plain_token s \<Longrightarrow> literal (SlotStateSubject mid s) \<and> literal (SlotEventSubject mid s)"
  by (simp add: literal_def plain_token_def SlotStateSubject_def SlotEventSubject_def)

lemma receive_seated:
  assumes "bus_laws covers" "seated mid s c" "plain_token mid" "plain_token s" "plain_token (pub_match p)" "plain_token (pub_slot p)"
  shows "receive covers (publication_message p) c =
    (case p of
       SlotState i t st \<Rightarrow> if i = mid \<and> t = s then stateFanOut (BodyState st) c else c
     | SlotEvent i t e \<Rightarrow> if i = mid \<and> t = s then fanOut (BodyEvent e) c else c
     | _ \<Rightarrow> c)"
proof -
  obtain x y z where subs: "cn_subs c = [(SlotStateSubject mid s, StateFanOut), (SlotEventSubject mid s, FanOut),
     (''chat.'' @ x, FanOut), (''chat.'' @ y, FanOut), (''chat.'' @ z, CoalitionFanOut)]"
    using assms(2) unfolding seated_def by blast
  have chat: "\<not> covers (''chat.'' @ u) (fst (publication_message p))" for u
    using assms(1) not_chat[of p] unfolding bus_laws_def by blast
  have lit: "covers (SlotStateSubject mid s) subj \<longleftrightarrow> SlotStateSubject mid s = subj"
    "covers (SlotEventSubject mid s) subj \<longleftrightarrow> SlotEventSubject mid s = subj" for subj
    using assms(1) literal_subjects[OF assms(3,4)] unfolding bus_laws_def by blast+
  have st: "SlotStateSubject mid s = fst (publication_message p) \<longleftrightarrow> (\<exists>st. p = SlotState mid s st)"
    and ev: "SlotEventSubject mid s = fst (publication_message p) \<longleftrightarrow> (\<exists>e. p = SlotEvent mid s e)"
    using subject_iff(1,2)[OF assms(5,6,3,4)] by (simp_all add: eq_commute[of "SlotStateSubject mid s"] eq_commute[of "SlotEventSubject mid s"])
  have f: "filter (\<lambda>sb. covers (fst sb) (fst (publication_message p))) (cn_subs c) =
      (if \<exists>st. p = SlotState mid s st then [(SlotStateSubject mid s, StateFanOut)] else []) @
      (if \<exists>e. p = SlotEvent mid s e then [(SlotEventSubject mid s, FanOut)] else [])"
    unfolding subs using chat by (simp add: lit st ev)
  show ?thesis unfolding receive_def f by (cases p) (auto simp: run_handler_def)
qed

definition bodies_for :: "slot \<Rightarrow> publication list \<Rightarrow> bus_body list" where
  "bodies_for s ps = List.map_filter (\<lambda>p. case p of
      SlotState i t st \<Rightarrow> if t = s then Some (BodyState st) else None
    | SlotEvent i t e \<Rightarrow> if t = s then Some (BodyEvent e) else None
    | _ \<Rightarrow> None) ps"

definition events_in :: "bus_body list \<Rightarrow> event_envelope list" where
  "events_in bs = List.map_filter (\<lambda>b. case b of BodyEvent e \<Rightarrow> Some e | _ \<Rightarrow> None) bs"

definition snapshots_in :: "bus_body list \<Rightarrow> match_state option list" where
  "snapshots_in bs = List.map_filter (\<lambda>b. case b of BodyState st \<Rightarrow> Some (se_State st) | _ \<Rightarrow> None) bs"

lemma bodies_split:
  "events_in (bodies_for s ps) = slot_events s ps" "snapshots_in (bodies_for s ps) = slot_snapshots s ps"
  "length (bodies_for s ps) = length (slot_events s ps) + length (slot_snapshots s ps)"
  by (induction ps)
     (auto simp: bodies_for_def events_in_def snapshots_in_def slot_events_def slot_snapshots_def map_filter_simps split: publication.splits)

lemma receive_all:
  assumes "bus_laws covers" "plain_token mid" "plain_token s" "\<forall>p\<in>set ps. pub_match p = mid \<and> plain_token (pub_slot p)"
    and "seated mid s c" "length (cn_send c) + length (bodies_for s ps) \<le> clientSendBacklog"
  shows "cn_send (foldl (\<lambda>c p. receive covers (publication_message p) c) c ps) = cn_send c @ map Relayed (bodies_for s ps)"
  using assms(4-6)
proof (induction ps arbitrary: c)
  case (Cons p ps)
  have r: "receive covers (publication_message p) c =
    (case p of
       SlotState i t st \<Rightarrow> if t = s then stateFanOut (BodyState st) c else c
     | SlotEvent i t e \<Rightarrow> if t = s then fanOut (BodyEvent e) c else c
     | _ \<Rightarrow> c)"
    using receive_seated[OF assms(1) Cons.prems(2) assms(2,3), of p] Cons.prems(1) assms(2) by (cases p) auto
  have fan: "cn_send (fanOut b c) = (if length (cn_send c) < clientSendBacklog then cn_send c @ [Relayed b] else cn_send c)"
    "seated mid s (fanOut b c) = seated mid s c" for b c by (simp_all add: fanOut_def reply_def seated_def)
  have upd: "cn_send (maybeUpdateCoalitionFromState b c) = cn_send c" "seated mid s (maybeUpdateCoalitionFromState b c) = seated mid s c" for b c
    by (auto simp: maybeUpdateCoalitionFromState_def seated_def split: option.splits bus_body.splits)
  let ?c = "receive covers (publication_message p) c"
  have one: "cn_send ?c = cn_send c @ map Relayed (bodies_for s [p])" "seated mid s ?c"
    using Cons.prems(2,3) unfolding r
    by (cases p; auto simp: bodies_for_def map_filter_simps stateFanOut_def fan upd)+
  have app: "bodies_for s (p # ps) = bodies_for s [p] @ bodies_for s ps" by (simp add: bodies_for_def map_filter_simps split: option.split)
  have "cn_send (foldl (\<lambda>c p. receive covers (publication_message p) c) ?c ps) = cn_send ?c @ map Relayed (bodies_for s ps)"
    by (rule Cons.IH) (use Cons.prems one app in simp_all)
  then show ?case using one(1) app by simp
qed (simp add: bodies_for_def map_filter_simps)

lemma pub_slot_player:
  assumes "\<And>t. t \<notin> T \<Longrightarrow> slot_events t ps = [] \<and> slot_snapshots t ps = []" "p \<in> set ps"
  shows "pub_slot p \<in> insert [] T"
proof -
  have "slot_events t ps \<noteq> []" if "SlotEvent i t e \<in> set ps" for i t e
    using that by (induction ps) (auto simp: slot_events_def map_filter_simps split: option.splits publication.splits)
  moreover have "slot_snapshots t ps \<noteq> []" if "SlotState i t st \<in> set ps" for i t st
    using that by (induction ps) (auto simp: slot_snapshots_def map_filter_simps split: option.splits publication.splits)
  ultimately have "SlotEvent i t e \<in> set ps \<Longrightarrow> t \<in> T" "SlotState i t st \<in> set ps \<Longrightarrow> t \<in> T" for i t e st
    using assms(1)[of t] by blast+
  note in_T = this
  show ?thesis
  proof (cases p)
    case (SlotState i t st)
    then show ?thesis using assms(2) in_T(2)[of i t st] by simp
  next
    case (SlotEvent i t e)
    then show ?thesis using assms(2) in_T(1)[of i t e] by simp
  qed simp_all
qed


text \<open>A bus that follows the rules: tokens compared one by one.\<close>

fun tokens_match :: "string list \<Rightarrow> string list \<Rightarrow> bool" where
  "tokens_match [] [] \<longleftrightarrow> True"
| "tokens_match (p # ps) (t # ts) \<longleftrightarrow> (p = ''>'' \<and> ps = []) \<or> ((p = ''*'' \<or> p = t) \<and> tokens_match ps ts)"
| "tokens_match _ _ \<longleftrightarrow> False"

definition token_covers :: "string \<Rightarrow> string \<Rightarrow> bool" where
  "token_covers pat subj \<longleftrightarrow> tokens_match (split_on (CHR ''.'') pat) (split_on (CHR ''.'') subj)"

lemma tokens_match_literal: "\<forall>t\<in>set ps. CHR ''*'' \<notin> set t \<and> CHR ''>'' \<notin> set t \<Longrightarrow> tokens_match ps ts \<longleftrightarrow> ps = ts"
  by (induction ps ts rule: tokens_match.induct) auto

lemma split_on_chars: "t \<in> set (split_on c s) \<Longrightarrow> set t \<subseteq> set s"
proof (induction s arbitrary: t)
  case (Cons x s)
  obtain p ps where ps: "split_on c s = p # ps" by (meson split_on_nonempty list.exhaust)
  have "set p \<subseteq> set s" "\<forall>q\<in>set ps. set q \<subseteq> set s" using Cons.IH by (simp_all add: ps)
  with Cons.prems show ?case by (auto simp: ps split: if_splits)
qed simp

lemma split_on_inj: "split_on c x = split_on c y \<Longrightarrow> x = y"
  by (metis split_on_join)

lemma token_covers_laws: "bus_laws token_covers"
proof -
  have "token_covers pat subj = (pat = subj)" if "literal pat" for pat subj
  proof -
    have "\<forall>t\<in>set (split_on (CHR ''.'') pat). CHR ''*'' \<notin> set t \<and> CHR ''>'' \<notin> set t"
      using that split_on_chars[of _ "CHR ''.''" pat] by (auto simp: literal_def)
    from tokens_match_literal[OF this] show ?thesis using split_on_inj by (auto simp: token_covers_def)
  qed
  moreover have "prefix ''chat.'' subj" if "token_covers (''chat.'' @ pat) subj" for pat subj
  proof -
    have m: "tokens_match (''chat'' # split_on (CHR ''.'') pat) (split_on (CHR ''.'') subj)"
      using that unfolding token_covers_def split_chat .
    then obtain t ts where ts: "split_on (CHR ''.'') subj = t # ts" by (meson split_on_nonempty list.exhaust)
    have t: "t = ''chat''" "tokens_match (split_on (CHR ''.'') pat) ts" using m unfolding ts by simp_all
    obtain u us where us: "ts = u # us" using t(2) by (cases ts; cases "split_on (CHR ''.'') pat") simp_all
    have "subj = ''chat.'' @ foldr (\<lambda>p acc. p @ CHR ''.'' # acc) (butlast ts) (last ts)"
      using split_on_join[of "CHR ''.''" subj] unfolding ts t(1) us by simp
    then show ?thesis by (rule prefixI)
  qed
  ultimately show ?thesis by (simp add: bus_laws_def)
qed

definition red_session :: conn where
  "red_session = new_conn ''c1'' ''ann'' (m_ID fog_match) 10 0"


section \<open>Coalitions\<close>

text \<open>The treaty a slot is allied by, as the inner loop reads it, and the edges of that graph.\<close>

definition ally_edges :: "treaty_state list \<Rightarrow> (slot \<times> slot) set" where
  "ally_edges ts = {(a, b). b \<noteq> [] \<and> (\<exists>t\<in>set ts. ts_Stance t = ''alliance'' \<and>
     (if a = ts_SlotA t then b = ts_SlotB t else a = ts_SlotB t \<and> b = ts_SlotA t))}"

lemma ally_step_set:
  "set (fst (ally_step cur (allies, stack) t)) = set allies \<union> ally_edges [t] `` {cur}"
proof -
  define x where "x = (if ts_Stance t = ''alliance''
    then if cur = ts_SlotA t then ts_SlotB t else if cur = ts_SlotB t then ts_SlotA t else [] else [])"
  have "fst (ally_step cur (allies, stack) t) = (if x = [] \<or> x \<in> set allies then allies else x # allies)"
    by (simp add: ally_step_def x_def Let_def)
  moreover have "ally_edges [t] `` {cur} = {x} - {[]}"
    by (auto simp: ally_edges_def x_def)
  ultimately show ?thesis by auto
qed

lemma ally_edges_Cons: "ally_edges (t # ts) = ally_edges [t] \<union> ally_edges ts"
  by (rule set_eqI) (simp add: ally_edges_def split_beta conj_disj_distribL)

lemma ally_fold_set:
  "set (fst (foldl (ally_step cur) (allies, stack) ts)) = set allies \<union> ally_edges ts `` {cur}"
proof (induction ts arbitrary: allies stack)
  case Nil
  then show ?case by (simp add: ally_edges_def)
next
  case (Cons t ts)
  obtain a1 s1 where one: "ally_step cur (allies, stack) t = (a1, s1)" by fastforce
  have "set a1 = set allies \<union> ally_edges [t] `` {cur}" using ally_step_set[of cur allies stack t] one by simp
  then show ?case using Cons.IH[of a1 s1] one by (simp add: ally_edges_Cons[of t ts] Un_Image Un_assoc)
qed

lemma ally_search_reach:
  assumes "set stack \<subseteq> set allies" "ally_edges ts `` (set allies - set stack) \<subseteq> set allies"
  shows "set (ally_search ts allies stack) = (ally_edges ts)\<^sup>* `` set allies"
  using assms
proof (induction ts allies stack rule: ally_search.induct)
  case (1 ts allies)
  then show ?case by (simp add: Image_closed_trancl)
next
  case (2 ts allies cur stack)
  let ?E = "ally_edges ts"
  obtain a1 s1 where f: "foldl (ally_step cur) (allies, stack) ts = (a1, s1)" by fastforce
  obtain new where new: "a1 = new @ allies" "s1 = new @ stack" using ally_fold_bound[OF f] by blast
  have a1: "set a1 = set allies \<union> ?E `` {cur}" using ally_fold_set[of cur allies stack ts] f by simp
  have cur: "cur \<in> set allies" using "2.prems"(1) by simp
  have "set (ally_search ts a1 s1) = ?E\<^sup>* `` set a1"
  proof (rule "2.IH"[OF f[symmetric] refl])
    show "set s1 \<subseteq> set a1" using "2.prems"(1) new by auto
    show "?E `` (set a1 - set s1) \<subseteq> set a1"
    proof
      fix y assume "y \<in> ?E `` (set a1 - set s1)"
      then obtain x where x: "x \<in> set a1 - set s1" "(x, y) \<in> ?E" by blast
      have "x \<in> set allies" "x \<notin> set stack" using x(1) new by auto
      then show "y \<in> set a1" using x(2) "2.prems"(2) a1 by (cases "x = cur") auto
    qed
  qed
  also have "?E\<^sup>* `` set a1 = ?E\<^sup>* `` set allies"
  proof -
    have "?E `` {cur} \<subseteq> ?E\<^sup>* `` set allies" using cur by blast
    then have "?E\<^sup>* `` (?E `` {cur}) \<subseteq> ?E\<^sup>* `` set allies" by (auto intro: rtrancl_trans)
    then show ?thesis by (auto simp: a1 Image_Un)
  qed
  finally show ?case by (simp add: f)
qed

text \<open>The least slot of a set, by the two ways of looking for it.\<close>

lemma foldl_guarded_Min:
  "foldl (\<lambda>leader p. if pys_ID p \<in> A \<and> pys_ID p < leader then pys_ID p else leader) s ps
     = Min (insert s (set (map pys_ID ps) \<inter> A))"
proof -
  have "foldl (\<lambda>leader p. if pys_ID p \<in> A \<and> pys_ID p < leader then pys_ID p else leader) s ps
      = foldl (\<lambda>leader x. if x < leader then x else leader) s (filter (\<lambda>x. x \<in> A) (map pys_ID ps))" for s
    by (induction ps arbitrary: s) simp_all
  moreover have "set (filter (\<lambda>x. x \<in> A) (map pys_ID ps)) = set (map pys_ID ps) \<inter> A" by auto
  ultimately show ?thesis by (simp only: foldl_leader)
qed

definition registered :: "match \<Rightarrow> bool" where
  "registered m \<longleftrightarrow> [] \<notin> fst ` set (m_Players m) \<and> (\<forall>(k, p)\<in>set (m_Players m). py_Slot p = k) \<and>
     (\<forall>(k, t)\<in>set (reg_treaties (m_Diplomacy m)). tr_Stance t = Alliance \<longrightarrow>
        {tr_SlotA t, tr_SlotB t} \<subseteq> fst ` set (m_Players m))"

lemma stance_string_alliance: "stance_string st = ''alliance'' \<longleftrightarrow> st = Alliance"
  by (cases st) simp_all

lemma bex_keyed:
  "(\<And>k t. (k, t) \<in> T \<Longrightarrow> Q t \<longleftrightarrow> c = k) \<Longrightarrow> (\<exists>t. (c, t) \<in> T \<and> S t) \<longleftrightarrow> (\<exists>(k, t)\<in>T. S t \<and> Q t)"
  by fastforce

lemma Stance_Alliance_iff:
  assumes "reg_ok r"
  shows "Stance r a b = Alliance \<longleftrightarrow>
    (\<exists>(k, t)\<in>set (reg_treaties r). tr_Stance t = Alliance \<and> a \<noteq> b \<and> {a, b} = {tr_SlotA t, tr_SlotB t})"
proof -
  have ok: "treaty_ok k t" if "(k, t) \<in> set (reg_treaties r)" for k t using assms that by (auto simp: reg_ok_def)
  have m: "mok (reg_treaties r)" using assms by (simp add: reg_ok_def)
  have key: "sortedPair a b = k \<longleftrightarrow> {a, b} = {tr_SlotA t, tr_SlotB t}" if "(k, t) \<in> set (reg_treaties r)" for k t
  proof -
    have "k = sortedPair (tr_SlotA t) (tr_SlotB t)" using ok[OF that] by (auto simp: treaty_ok_def sortedPair_def)
    then show ?thesis by (simp add: sortedPair_eq)
  qed
  show ?thesis
  proof (cases "a = b")
    case False
    have "Stance r a b = Alliance \<longleftrightarrow> (\<exists>t. map_of (reg_treaties r) (sortedPair a b) = Some t \<and> tr_Stance t = Alliance)"
      using False by (simp add: Stance_def split: option.splits)
    also have "\<dots> \<longleftrightarrow> (\<exists>t. (sortedPair a b, t) \<in> set (reg_treaties r) \<and> tr_Stance t = Alliance)"
      using m by simp
    also have "\<dots> \<longleftrightarrow> (\<exists>(k, t)\<in>set (reg_treaties r). tr_Stance t = Alliance \<and> a \<noteq> b \<and> {a, b} = {tr_SlotA t, tr_SlotB t})"
      by (rule bex_keyed) (simp only: False key not_False_eq_True simp_thms)
    finally show ?thesis .
  qed (auto simp: Stance_def)
qed

lemma ally_edges_Stance:
  assumes "reg_ok (m_Diplomacy m)" "registered m"
  shows "ally_edges (TreatyStates m) = alliance_edges (\<lambda>a b. Stance (m_Diplomacy m) a b = Alliance) (SlotIDs m)"
proof -
  let ?T = "set (reg_treaties (m_Diplomacy m))"
  have lt: "tr_SlotA t < tr_SlotB t" if "(k, t) \<in> ?T" for k t
    using assms(1) that by (auto simp: reg_ok_def treaty_ok_def)
  have pl: "tr_SlotA t \<in> set (SlotIDs m) \<and> tr_SlotB t \<in> set (SlotIDs m) \<and> tr_SlotA t \<noteq> [] \<and> tr_SlotB t \<noteq> []"
    if "(k, t) \<in> ?T" "tr_Stance t = Alliance" for k t
  proof -
    have "{tr_SlotA t, tr_SlotB t} \<subseteq> fst ` set (m_Players m)" "[] \<notin> fst ` set (m_Players m)"
      using assms(2) that unfolding registered_def by blast+
    moreover have "set (SlotIDs m) = fst ` set (m_Players m)" by (simp add: SlotIDs_def)
    ultimately show ?thesis by (metis insert_subset)
  qed
  have "(a, b) \<in> ally_edges (TreatyStates m) \<longleftrightarrow>
      b \<noteq> [] \<and> (\<exists>(k, t)\<in>?T. tr_Stance t = Alliance \<and>
        (if a = tr_SlotA t then b = tr_SlotB t else a = tr_SlotB t \<and> b = tr_SlotA t))" for a b
    unfolding ally_edges_def TreatyStates_def AllTreaties_def by (simp add: stance_string_alliance case_prod_beta)
  also have "\<dots> a b \<longleftrightarrow> (a, b) \<in> alliance_edges (\<lambda>a b. Stance (m_Diplomacy m) a b = Alliance) (SlotIDs m)" for a b
  proof
    assume "b \<noteq> [] \<and> (\<exists>(k, t)\<in>?T. tr_Stance t = Alliance \<and>
        (if a = tr_SlotA t then b = tr_SlotB t else a = tr_SlotB t \<and> b = tr_SlotA t))"
    then obtain k t where t: "(k, t) \<in> ?T" "tr_Stance t = Alliance" "a = tr_SlotA t \<and> b = tr_SlotB t \<or> a = tr_SlotB t \<and> b = tr_SlotA t"
      by (auto split: if_splits)
    then have "Stance (m_Diplomacy m) a b = Alliance"
      using lt[OF t(1)] unfolding Stance_Alliance_iff[OF assms(1)] by (intro bexI[OF _ t(1)]) auto
    then show "(a, b) \<in> alliance_edges (\<lambda>a b. Stance (m_Diplomacy m) a b = Alliance) (SlotIDs m)"
      using pl[OF t(1,2)] t(3) unfolding alliance_edges_def by blast
  next
    assume "(a, b) \<in> alliance_edges (\<lambda>a b. Stance (m_Diplomacy m) a b = Alliance) (SlotIDs m)"
    then have "Stance (m_Diplomacy m) a b = Alliance" by (simp add: alliance_edges_def)
    then obtain k t where t: "(k, t) \<in> ?T" "tr_Stance t = Alliance" "{a, b} = {tr_SlotA t, tr_SlotB t}"
      unfolding Stance_Alliance_iff[OF assms(1)] by blast
    then show "b \<noteq> [] \<and> (\<exists>(k, t)\<in>?T. tr_Stance t = Alliance \<and>
        (if a = tr_SlotA t then b = tr_SlotB t else a = tr_SlotB t \<and> b = tr_SlotA t))"
      using pl[OF t(1,2)] lt[OF t(1)] by (intro conjI bexI[OF _ t(1)]) (auto simp: doubleton_eq_iff)
  qed
  finally show ?thesis by auto
qed

lemma coalitionLeaderFor_eq:
  assumes "rt_ok rt" "match_ok m" "registered m" "s \<in> fst ` set (m_Players m)"
  shows "coalitionLeaderFor s (playerStates rt m) (TreatyStates m) = CoalitionID (m_Diplomacy m) s (SlotIDs m)"
proof -
  let ?C = "set (Coalition (m_Diplomacy m) s (SlotIDs m))"
  have ids: "set (map pys_ID (playerStates rt m)) = set (SlotIDs m)"
  proof -
    have "map pys_ID (playerStates rt m) = map (\<lambda>(k, p). py_Slot p) (go_range rt (m_Players m))"
      by (simp add: playerStates_def case_prod_beta)
    also have "set \<dots> = (\<lambda>(k, p). py_Slot p) ` set (m_Players m)"
      using match_okD(4)[OF assms(2)] assms(1) by (simp add: set_go_range)
    also have "\<dots> = fst ` set (m_Players m)"
      using assms(3) by (intro image_cong[OF refl]) (auto simp: registered_def)
    finally show ?thesis by (simp add: SlotIDs_def)
  qed
  have "set (ally_search (TreatyStates m) [s] [s]) = (ally_edges (TreatyStates m))\<^sup>* `` {s}"
    by (subst ally_search_reach) simp_all
  also have "\<dots> = ?C"
    unfolding ally_edges_Stance[OF match_okD(6)[OF assms(2)] assms(3)] set_Coalition reach_coalition_def by auto
  finally have "coalitionLeaderFor s (playerStates rt m) (TreatyStates m) = Min (insert s (set (SlotIDs m) \<inter> ?C))"
    by (simp add: coalitionLeaderFor_def foldl_guarded_Min ids del: set_map)
  moreover have "insert s (set (SlotIDs m) \<inter> ?C) = ?C"
    using dip.coal_subset[of "m_Diplomacy m" "SlotIDs m" s] dip.coal_refl[of s "m_Diplomacy m" "SlotIDs m"] assms(4)
    by (auto simp: set_Coalition)
  ultimately show ?thesis by (simp add: CoalitionID_Min)
qed

text \<open>A session of the player of a slot, and a state message that shows the players and the treaties of the match.\<close>

definition session_of :: "string \<Rightarrow> slot \<Rightarrow> conn \<Rightarrow> bool" where
  "session_of mid s c \<longleftrightarrow> cn_slot c = s \<and> cn_matchID c = mid \<and> (\<exists>ch. cn_chat c = Some ch \<and> ch_matchID ch = mid)"

definition tells :: "match \<Rightarrow> bus_body \<Rightarrow> bool" where
  "tells m body \<longleftrightarrow> (\<exists>rt e st. rt_ok rt \<and> body = BodyState e \<and> se_State e = Some st \<and>
     ms_Players st = playerStates rt m \<and> ms_Diplomacy st = TreatyStates m)"

lemma told_leader:
  assumes "match_ok m" "registered m" "s \<in> fst ` set (m_Players m)" "session_of mid s c" "tells m body"
  obtains ch where "maybeUpdateCoalitionFromState body c = c\<lparr>cn_chat := Some ch\<rparr>"
    "ch_coalitionLead ch = CoalitionID (m_Diplomacy m) s (SlotIDs m)" "ch_matchID ch = mid"
proof -
  obtain ch where ch: "cn_chat c = Some ch" "ch_matchID ch = mid" and c: "cn_slot c = s"
    using assms(4) by (auto simp: session_of_def)
  obtain rt e st where b: "rt_ok rt" "body = BodyState e" "se_State e = Some st"
      "ms_Players st = playerStates rt m" "ms_Diplomacy st = TreatyStates m"
    using assms(5) by (auto simp: tells_def)
  have "s \<noteq> []" using assms(2,3) unfolding registered_def by metis
  then show ?thesis
    using that[of "ch\<lparr>ch_coalitionLead := CoalitionID (m_Diplomacy m) s (SlotIDs m)\<rparr>"] ch c b
    by (simp add: maybeUpdateCoalitionFromState_def coalitionLeaderFor_eq[OF b(1) assms(1-3)])
qed

lemma coalition_subject_iff:
  assumes "CHR '':'' \<notin> set a" "CHR '':'' \<notin> set b"
  shows "ChatScopeSubject (coalitionScope mid a) = ChatScopeSubject (coalitionScope mid b) \<longleftrightarrow> a = b"
proof -
  have "map (\<lambda>c. if c = CHR '':'' then CHR ''.'' else c) x = x" if "CHR '':'' \<notin> set x" for x
    using that by (induction x) auto
  then show ?thesis using assms by (simp add: ChatScopeSubject_def coalitionScope_def)
qed

text \<open>
  C26. Coalition chat crosses the gateway to the coalition and no further. The gateway works out a player's
  coalition from the treaties of the last snapshot, by its own search, and the engine from its registry: they
  agree. So once two sessions of a match have seen a snapshot of it, a coalition message the one sends is
  addressed to a scope, and the other relays what is published there exactly when the two players are in the
  same coalition of the engine.
\<close>

theorem coalition_chat_reaches_coalition:
  assumes "match_ok m" "registered m" "\<forall>s\<in>fst ` set (m_Players m). CHR '':'' \<notin> set s"
    and "s \<in> fst ` set (m_Players m)" "t \<in> fst ` set (m_Players m)"
    and "session_of mid s c" "session_of mid t d" "tells m body" "tells m body'"
    and "co_Scope out = ''coalition''" "length (cn_send c) < clientSendBacklog"
    and "c' = maybeUpdateCoalitionFromState body c" "d' = maybeUpdateCoalitionFromState body' d"
  shows "\<exists>scope. scopeFromOutbound out d' = Inr scope \<and>
    chatCoalitionFanOut (ChatScopeSubject scope) chat c' =
      (if t \<in> set (Coalition (m_Diplomacy m) s (SlotIDs m)) then reply (Relayed chat) c' else c')"
proof -
  let ?lead = "\<lambda>x. CoalitionID (m_Diplomacy m) x (SlotIDs m)"
  from told_leader[OF assms(1,2,4,6,8)] obtain ch where c': "c' = c\<lparr>cn_chat := Some ch\<rparr>" "ch_coalitionLead ch = ?lead s" "ch_matchID ch = mid"
    using assms(12) by blast
  from told_leader[OF assms(1,2,5,7,9)] obtain ch' where d': "d' = d\<lparr>cn_chat := Some ch'\<rparr>" "ch_coalitionLead ch' = ?lead t"
    using assms(13) by blast
  have slots: "set (SlotIDs m) = fst ` set (m_Players m)" by (simp add: SlotIDs_def)
  then have ids: "?lead x \<in> fst ` set (m_Players m)" if "x \<in> fst ` set (m_Players m)" for x
    using CoalitionID_in[of "m_Diplomacy m" x "SlotIDs m"] that by auto
  have ne: "?lead s \<noteq> []" "?lead t \<noteq> []" using ids assms(2,4,5) unfolding registered_def by metis+
  have "cn_matchID d = mid" using assms(7) by (simp add: session_of_def)
  then have "scopeFromOutbound out d' = Inr (coalitionScope mid (?lead t))"
    using ne by (simp add: scopeFromOutbound_def d' assms(10))
  moreover have "chatCoalitionFanOut (ChatScopeSubject (coalitionScope mid (?lead t))) chat c' =
      (if ?lead t = ?lead s then reply (Relayed chat) c' else c')"
    using coalition_subject_iff[of "?lead t" "?lead s" mid] ids assms(3-5,11) ne
    by (simp add: chatCoalitionFanOut_def c' fanOut_def)
  moreover have "?lead t = ?lead s \<longleftrightarrow> t \<in> set (Coalition (m_Diplomacy m) s (SlotIDs m))"
    using CoalitionID_eq_iff[of s "SlotIDs m" t] slots assms(4,5) by metis
  ultimately show ?thesis by simp
qed

definition ally_session :: "slot \<Rightarrow> conn" where
  "ally_session s = (new_conn ''c'' s ''m'' 10 0)\<lparr>cn_slot := s, cn_chat := Some \<lparr>ch_coalitionLead = [], ch_matchID = ''m'', ch_userID = s\<rparr>\<rparr>"

definition ally_snapshot :: bus_body where
  "ally_snapshot = BodyState \<lparr>se_MatchID = ''m'', se_Seq = 0, se_SentAt = 0, se_State = Some (Snapshot plain_rt (sample_match sample_alliance))\<rparr>"

theorem coalition_chat_reaches_coalition_witness:
  "\<exists>scope. scopeFromOutbound \<lparr>co_Scope = ''coalition'', co_TargetUserID = [], co_Body = ''hi''\<rparr>
        (maybeUpdateCoalitionFromState ally_snapshot (ally_session ''blue'')) = Inr scope \<and>
     cn_send (chatCoalitionFanOut (ChatScopeSubject scope) (BodyResync [])
        (maybeUpdateCoalitionFromState ally_snapshot (ally_session ''red''))) = [Relayed (BodyResync [])]"
proof -
  let ?m = "sample_match sample_alliance"
  have ok: "match_ok ?m"
    by (rule sample_match_ok) (simp add: sample_alliance_def AcceptAlliance_def ProposeAlliance_def wf_intros)
  have reg: "registered ?m" by (simp add: registered_def sample_match_def sample_player_def, code_simp)
  have t: "tells ?m ally_snapshot"
    unfolding tells_def ally_snapshot_def by (intro exI[of _ "sub plain_rt 2"] exI conjI) (auto simp: Snapshot_def rt_ok_sub rt_ok_plain)
  have ses: "session_of ''m'' s (ally_session s)" for s
    by (simp add: session_of_def ally_session_def new_conn_def)
  have pl: "fst ` set (m_Players ?m) = {''red'', ''blue'', ''zed''}" by (simp add: sample_match_def)
  have same: "''blue'' \<in> set (Coalition (m_Diplomacy ?m) ''red'' (SlotIDs ?m))" by simp code_simp
  have "cn_send (maybeUpdateCoalitionFromState ally_snapshot (ally_session ''red'')) = []"
    by (simp add: maybeUpdateCoalitionFromState_def ally_snapshot_def ally_session_def new_conn_def)
  moreover have "length (cn_send (ally_session ''red'')) < clientSendBacklog"
    by (simp add: ally_session_def new_conn_def clientSendBacklog_def)
  moreover have "\<forall>s\<in>fst ` set (m_Players ?m). CHR '':'' \<notin> set s" "''red'' \<in> fst ` set (m_Players ?m)" "''blue'' \<in> fst ` set (m_Players ?m)"
    unfolding pl by simp_all
  note coalition_chat_reaches_coalition[OF ok reg this ses ses t t _ _ refl refl,
      where out = "\<lparr>co_Scope = ''coalition'', co_TargetUserID = [], co_Body = ''hi''\<rparr>" and chat = "BodyResync []"]
  ultimately show ?thesis using same by (auto simp: reply_def)
qed

end
