(* ===== verification/Botting.thy ===== *)
theory Botting
  imports Bot Sessions
begin

text \<open>
  Facts about the bots: what the heuristic may look at in a snapshot filtered for its slot, that every command
  it gives is an order of that slot, and what becomes of the commands on their way through the gateway into the
  engine. The properties are C3, C9 and C27.
\<close>

section \<open>Choices\<close>

lemma set_Shuffle [simp]:
  assumes "choices_ok ch"
  shows "set (Shuffle ch xs) = set xs"
proof -
  have "set (ch_perm ch [] (length xs)) = {0..<length xs}"
    using assms unfolding choices_ok_def by (metis mset_eq_setD set_upt)
  then show ?thesis by (simp add: Shuffle_def nth_image)
qed

lemma mset_Shuffle:
  assumes "choices_ok ch"
  shows "mset (Shuffle ch xs) = mset xs"
proof -
  have "mset (Shuffle ch xs) = image_mset (\<lambda>i. xs ! i) (mset [0..<length xs])"
    using assms unfolding choices_ok_def Shuffle_def by (metis mset_map)
  also have "\<dots> = mset (map (\<lambda>i. xs ! i) [0..<length xs])" by (simp only: mset_map)
  finally show ?thesis by (simp only: map_nth)
qed

lemma choices_ok_csub [simp]: "choices_ok ch \<Longrightarrow> choices_ok (csub ch i)"
  by (simp add: choices_ok_def csub_def)

lemma enumerate_mem: "(i, u) \<in> set (enumerate 0 xs) \<Longrightarrow> u \<in> set xs"
  by (metis map_snd_enumerate image_eqI set_map snd_conv)

section \<open>What the heuristic looks at\<close>

lemma newCommand_simps [simp]:
  "wc_Kind (newCommand now ch k b) = k" "wc_IssuedAt (newCommand now ch k b) = now"
  "wc_UnitID (newCommand now ch k b) = wc_UnitID b" "wc_From (newCommand now ch k b) = wc_From b"
  "wc_To (newCommand now ch k b) = wc_To b" "wc_Args (newCommand now ch k b) = wc_Args b"
  "wc_UnitID no_command = []" "wc_From no_command = []" "wc_To no_command = []" "wc_Args no_command = []"
  by (simp_all add: newCommand_def no_command_def)

lemma closestOwnUnit_own:
  assumes "closestOwnUnit st s x y = Some u"
  shows "u \<in> set (ms_Units st) \<and> us_OwnerID u = s"
proof -
  let ?f = "\<lambda>(best, bestD) u. if us_OwnerID u \<noteq> s then (best, bestD)
      else let d = hypot (us_X u - x) (us_Y u - y) in if d < bestD then (Some u, d) else (best, bestD)"
  have "\<forall>u. fst (foldl ?f (None, MaxFloat64) (ms_Units st)) = Some u \<longrightarrow> u \<in> set (ms_Units st) \<and> us_OwnerID u = s"
    by (rule foldl_invariant) (auto simp: Let_def split: if_splits)
  then show ?thesis using assms by (simp add: closestOwnUnit_def)
qed

text \<open>The stances read off the treaties: the last one that names the other slot.\<close>

definition stances :: "match_state \<Rightarrow> slot \<Rightarrow> (slot, string) gomap" where
  "stances st s = foldl (\<lambda>sm t. let x = otherSlot s (ts_SlotA t) (ts_SlotB t) in
     if x = [] then sm else mput x (ts_Stance t) sm) [] (ms_Diplomacy st)"

lemma foldl_mput_last:
  assumes "x \<noteq> []"
  shows "map_of (foldl (\<lambda>sm t. let y = key t in if y = [] then sm else mput y (v t) sm) sm ts) x =
    (case find (\<lambda>t. key t = x) (rev ts) of Some t \<Rightarrow> Some (v t) | None \<Rightarrow> map_of sm x)"
  using assms by (induction ts rule: rev_induct) (auto simp: Let_def)

lemma hostile_iff:
  "i \<in> hostileProvinces st s \<longleftrightarrow>
     (\<exists>p\<in>set (ms_Provinces st). pvs_ID p = i \<and> pvs_OwnerID p \<noteq> [] \<and> pvs_OwnerID p \<noteq> s \<and>
        mget_default [] (stances st s) (pvs_OwnerID p) \<notin> {''peace'', ''alliance''})"
proof -
  have "foldl (\<lambda>out p. if pvs_OwnerID p = [] \<or> pvs_OwnerID p = s then out
           else if mget_default [] sm (pvs_OwnerID p) = ''peace'' \<or> mget_default [] sm (pvs_OwnerID p) = ''alliance'' then out
                else insert (pvs_ID p) out) A ps
      = A \<union> pvs_ID ` {p \<in> set ps. pvs_OwnerID p \<noteq> [] \<and> pvs_OwnerID p \<noteq> s \<and>
          mget_default [] sm (pvs_OwnerID p) \<notin> {''peace'', ''alliance''}}" for A sm ps
    by (induction ps arbitrary: A) auto
  note F = this
  show ?thesis unfolding hostileProvinces_def stances_def Let_def F by auto
qed

lemma closestHostile:
  assumes "choices_ok ch" "closestHostileNeighbour ch st H origin \<noteq> []"
  shows "closestHostileNeighbour ch st H origin \<in> H"
proof -
  obtain src where src: "provinceByID st origin = Some src" and H: "H \<noteq> {}"
    using assms(2) by (auto simp: closestHostileNeighbour_def split: if_splits option.splits)
  define cands where "cands = map (\<lambda>p. (pvs_ID p, hypot (pvs_X p - pvs_X src) (pvs_Y p - pvs_Y src)))
      (filter (\<lambda>p. pvs_ID p \<in> H) (ms_Provinces st))"
  have e: "closestHostileNeighbour ch st H origin = (case sort_key snd (Shuffle ch cands) of [] \<Rightarrow> [] | c # _ \<Rightarrow> fst c)"
    using H by (simp add: closestHostileNeighbour_def src cands_def)
  then obtain c cs where c: "sort_key snd (Shuffle ch cands) = c # cs" using assms(2) by (auto split: list.splits)
  then have "c \<in> set cands" using set_Shuffle[OF assms(1), of cands] by (metis list.set_intros(1) set_sort)
  then show ?thesis unfolding e c by (auto simp: cands_def)
qed

section \<open>Orders\<close>

text \<open>
  The judgement that a command is an order a slot may give in a match: a recall of an own unit to the own
  capital, an advance of an own unit into a province of a slot it is at war with, a recruitment of infantry in
  an own province where it has none under way, or the acceptance of a peace that was offered to it.
\<close>

inductive bot_order :: "match \<Rightarrow> slot \<Rightarrow> wire_command \<Rightarrow> bool" for m s where
  recall: "\<lbrakk>wc_Kind c = ''move''; wc_Args c = []; map_of (m_Units m) (wc_UnitID c) = Some u; u_OwnerSlot u = s;
     wc_From c \<in> {u_Origin u, u_Dest u}; map_of (m_Provinces m) (wc_To c) = Some p; p_Owner p = s; p_Capital p\<rbrakk>
     \<Longrightarrow> bot_order m s c"
| advance: "\<lbrakk>wc_Kind c = ''move''; wc_Args c = []; map_of (m_Units m) (wc_UnitID c) = Some u; u_OwnerSlot u = s;
     wc_From c \<in> {u_Origin u, u_Dest u}; map_of (m_Provinces m) (wc_To c) = Some p; p_Owner p \<noteq> []; p_Owner p \<noteq> s;
     Stance (m_Diplomacy m) s (p_Owner p) = War; p_ID p \<in> seen_provinces m s (m_GameNow m)\<rbrakk>
     \<Longrightarrow> bot_order m s c"
| raise: "\<lbrakk>wc_Kind c = ''recruit''; wc_Args c = [(''type'', ''infantry'')]; map_of (m_Provinces m) (wc_From c) = Some p;
     p_Owner p = s; \<forall>r\<in>snd ` set (m_NextRecruit m). ro_OwnerSlot r = s \<longrightarrow> ro_Province r \<noteq> wc_From c;
     map_of (m_Resources m) s = Some bank; 12 \<le> Manpower bank\<rbrakk>
     \<Longrightarrow> bot_order m s c"
| agree: "\<lbrakk>wc_Kind c = ''accept_peace''; wc_Args c = [(''target_slot'', x)]; Treaty (m_Diplomacy m) s x = Some t;
     tr_Pending t = PendingPeace; tr_PendingFrom t = x\<rbrakk>
     \<Longrightarrow> bot_order m s c"

section \<open>The snapshot of a match\<close>

lemma fog_units:
  assumes "match_ok m" "fog_view m s w" "v \<in> set (ms_Units w)"
  obtains u where "map_of (m_Units m) (us_ID v) = Some u" "us_OwnerID v = u_OwnerSlot u" "us_Origin v = u_Origin u"
    "us_Dest v = u_Dest u" "us_ArrivesAt v = u_ArrivesAt u"
proof -
  obtain k u where u: "(k, u) \<in> set (m_Units m)" "v = unit_at (m_GameNow m) u"
    using assms(2,3) by (auto simp: fog_view_def)
  have ok: "units_ok m" by (rule match_okD(1)[OF assms(1)])
  then have "map_of (m_Units m) k = Some u" using u(1) by (simp add: units_ok_def)
  moreover have "u_ID u = k" by (rule units_okD[OF ok calculation])
  ultimately show ?thesis
    using that u(2) by (simp add: unit_at_def UnitToWire_def case_prod_beta)
qed

lemma fog_provinces:
  assumes "match_ok m" "fog_view m s w" "v \<in> set (ms_Provinces w)"
  obtains p where "map_of (m_Provinces m) (pvs_ID v) = Some p" "p_ID p = pvs_ID v" "pvs_OwnerID v = p_Owner p"
    "pvs_Capital v = p_Capital p" "p_ID p \<in> seen_provinces m s (m_GameNow m)"
proof -
  obtain k p where p: "(k, p) \<in> set (m_Provinces m)" "v = province_to_wire p" "p_ID p \<in> seen_provinces m s (m_GameNow m)"
    using assms(2,3) by (auto simp: fog_view_def)
  have ok: "provinces_ok m" by (rule match_okD(2)[OF assms(1)])
  then have "map_of (m_Provinces m) k = Some p" using p(1) by (simp add: provinces_ok_def)
  moreover have "p_ID p = k" by (rule provinces_okD[OF ok calculation])
  ultimately show ?thesis using that p(2,3) by (simp add: province_to_wire_def)
qed

lemma Stance_of_treaty:
  assumes "reg_ok r" "(k, t) \<in> set (reg_treaties r)" "{tr_SlotA t, tr_SlotB t} = {a, b}" "a \<noteq> b"
  shows "Treaty r a b = Some t" "Stance r a b = tr_Stance t"
proof -
  have "k = sortedPair a b"
    using assms(1,2,3) by (metis (no_types, lifting) case_prodD less_imp_not_less reg_ok_def sortedPair_def sortedPair_eq treaty_ok_def)
  moreover have "mok (reg_treaties r)" using assms(1) by (simp add: reg_ok_def)
  ultimately have "map_of (reg_treaties r) (sortedPair a b) = Some t" using assms(2) by simp
  then show "Treaty r a b = Some t" "Stance r a b = tr_Stance t" using assms(4) by (simp_all add: Treaty_def Stance_def)
qed

lemma wire_treaty:
  "t \<in> set (TreatyStates m) \<longleftrightarrow> (\<exists>(k, u)\<in>set (reg_treaties (m_Diplomacy m)). t =
     \<lparr>ts_SlotA = tr_SlotA u, ts_SlotB = tr_SlotB u, ts_Stance = stance_string (tr_Stance u),
      ts_Pending = pending_string (tr_Pending u), ts_PendingFrom = tr_PendingFrom u, ts_ChangedAt = tr_ChangedAt u\<rparr>)"
  by (auto simp: TreatyStates_def AllTreaties_def case_prod_beta intro!: bexI image_eqI)

lemma stances_Stance:
  assumes "reg_ok (m_Diplomacy m)" "ms_Diplomacy w = TreatyStates m" "x \<noteq> []" "x \<noteq> s"
    and "mget_default [] (stances w s) x \<notin> {''peace'', ''alliance''}"
  shows "Stance (m_Diplomacy m) s x = War"
proof (rule ccontr)
  assume nw: "Stance (m_Diplomacy m) s x \<noteq> War"
  let ?key = "\<lambda>t. otherSlot s (ts_SlotA t) (ts_SlotB t)"
  have key: "?key t = x \<longleftrightarrow> {ts_SlotA t, ts_SlotB t} = {s, x}" for t :: treaty_state
    using assms(3,4) by (auto simp: otherSlot_def doubleton_eq_iff)
  obtain k u where u: "(k, u) \<in> set (reg_treaties (m_Diplomacy m))" "{tr_SlotA u, tr_SlotB u} = {s, x}"
  proof -
    from nw assms(4) obtain u where "map_of (reg_treaties (m_Diplomacy m)) (sortedPair s x) = Some u"
      by (auto simp: Stance_def split: if_splits option.splits)
    then have m: "(sortedPair s x, u) \<in> set (reg_treaties (m_Diplomacy m))" by (rule map_of_SomeD)
    then have "sortedPair s x = (tr_SlotA u, tr_SlotB u)" using assms(1) by (auto simp: reg_ok_def treaty_ok_def)
    then show ?thesis using that[OF m] sortedPair_less[of s x] assms(4) by metis
  qed
  have ex: "\<exists>t\<in>set (rev (ms_Diplomacy w)). ?key t = x"
  proof -
    let ?t = "\<lparr>ts_SlotA = tr_SlotA u, ts_SlotB = tr_SlotB u, ts_Stance = stance_string (tr_Stance u),
      ts_Pending = pending_string (tr_Pending u), ts_PendingFrom = tr_PendingFrom u, ts_ChangedAt = tr_ChangedAt u\<rparr>"
    have "?t \<in> set (TreatyStates m)" using u(1) by (auto simp: wire_treaty)
    moreover have "?key ?t = x" unfolding key using u(2) by simp
    ultimately show ?thesis unfolding assms(2) set_rev by (rule bexI[rotated])
  qed
  then obtain t where t: "find (\<lambda>t. ?key t = x) (rev (ms_Diplomacy w)) = Some t"
    by (metis (mono_tags, lifting) find_None_iff2 option.exhaust)
  then have "t \<in> set (TreatyStates m)" "?key t = x" using find_SomeD[OF t] by (simp_all add: assms(2))
  then obtain k' u' where u': "(k', u') \<in> set (reg_treaties (m_Diplomacy m))" "ts_Stance t = stance_string (tr_Stance u')"
      "{tr_SlotA u', tr_SlotB u'} = {s, x}"
    using key[of t] by (auto simp: wire_treaty)
  have "Stance (m_Diplomacy m) s x = tr_Stance u'" by (rule Stance_of_treaty(2)[OF assms(1) u'(1,3)]) (use assms(4) in simp)
  then have "ts_Stance t \<in> {''peace'', ''alliance''}" using nw u'(2) by (cases "tr_Stance u'") simp_all
  moreover have "map_of (stances w s) x = Some (ts_Stance t)"
    unfolding stances_def using foldl_mput_last[OF assms(3), of ?key ts_Stance "[]" "ms_Diplomacy w"] t by (simp add: Let_def)
  ultimately show False using assms(5) by (simp add: mget_default_def)
qed

section \<open>The orders of a bot\<close>

lemma currentProvince_in: "currentProvince u \<in> {us_Origin u, us_Dest u}"
  by (simp add: currentProvince_def)

lemma defend_order:
  assumes "match_ok m" "fog_view m s w" "c \<in> set (defendCapital ch w s now)"
  shows "bot_order m s c \<and> wc_IssuedAt c = now"
proof -
  from assms(3) obtain v q where v: "closestOwnUnit w s (pvs_X q) (pvs_Y q) = Some v" and q: "findCapital w s = Some q"
    and c: "c = newCommand now ch ''move'' (no_command\<lparr>wc_UnitID := us_ID v, wc_From := currentProvince v, wc_To := pvs_ID q\<rparr>)"
    by (auto simp: defendCapital_def split: option.splits if_splits)
  have v': "v \<in> set (ms_Units w)" "us_OwnerID v = s" using closestOwnUnit_own[OF v] by simp_all
  have q': "q \<in> set (ms_Provinces w)" "pvs_OwnerID q = s" "pvs_Capital q"
    using find_SomeD[OF q[unfolded findCapital_def]] by simp_all
  obtain u where u: "map_of (m_Units m) (us_ID v) = Some u" "us_OwnerID v = u_OwnerSlot u" "us_Origin v = u_Origin u" "us_Dest v = u_Dest u"
    using fog_units[OF assms(1,2) v'(1)] by metis
  obtain p where p: "map_of (m_Provinces m) (pvs_ID q) = Some p" "pvs_OwnerID q = p_Owner p" "pvs_Capital q = p_Capital p"
    using fog_provinces[OF assms(1,2) q'(1)] by metis
  have "bot_order m s c"
    using currentProvince_in[of v] u p v'(2) q'(2,3) by (intro bot_order.recall[of c _ u _ p]) (simp_all add: c)
  then show ?thesis by (simp add: c)
qed

lemma recruit_order:
  assumes "choices_ok ch" "match_ok m" "fog_view m s w" "c \<in> set (recruitIfPossible ch w s now)"
  shows "bot_order m s c \<and> wc_IssuedAt c = now"
proof -
  let ?queued = "{qr_Province q | q. q \<in> set (qs_Recruits (ms_Queues w)) \<and> qr_Owner q = s}"
  obtain bank where b: "map_of (ms_Resources w) s = Some bank"
    using assms(4) by (cases "map_of (ms_Resources w) s") (simp_all add: recruitIfPossible_def)
  from assms(4) obtain v where bank: "\<not> rp_Manpower bank < MinManpowerForRecruit"
    and v: "find (\<lambda>p. pvs_ID p \<notin> ?queued) (Shuffle (csub ch 0) (ownedProvinces w s)) = Some v"
    and c: "c = newCommand now (csub ch 1) ''recruit'' (no_command\<lparr>wc_From := pvs_ID v, wc_Args := [(''type'', ''infantry'')]\<rparr>)"
    unfolding recruitIfPossible_def Let_def b option.case by (auto split: option.splits if_splits)
  note found = find_SomeD[OF v]
  have "v \<in> set (ownedProvinces w s)"
    using conjunct1[OF found] by (simp only: set_Shuffle[OF choices_ok_csub[OF assms(1)]])
  have nq: "pvs_ID v \<notin> ?queued" using conjunct2[OF found] .
  have v': "v \<in> set (ms_Provinces w)" "pvs_OwnerID v = s"
    using \<open>v \<in> set (ownedProvinces w s)\<close> by (simp_all add: ownedProvinces_def)
  obtain p where p: "map_of (m_Provinces m) (pvs_ID v) = Some p" "pvs_OwnerID v = p_Owner p"
    using fog_provinces[OF assms(2,3) v'(1)] by metis
  obtain r where r: "map_of (m_Resources m) s = Some r" "bank = pool_to_wire r"
    using b assms(3) by (auto simp: fog_view_def)
  have "\<forall>od\<in>snd ` set (m_NextRecruit m). ro_OwnerSlot od = s \<longrightarrow> ro_Province od \<noteq> pvs_ID v"
  proof (intro ballI impI notI)
    fix od assume od: "od \<in> snd ` set (m_NextRecruit m)" "ro_OwnerSlot od = s" "ro_Province od = pvs_ID v"
    then have "recruit_to_wire od \<in> set (qs_Recruits (ms_Queues w))" using assms(3) by (simp add: fog_view_def)
    then show False using nq od by (force simp: recruit_to_wire_def)
  qed
  then have "bot_order m s c"
    using p v'(2) r bank by (intro bot_order.raise[of c _ p _ r]) (simp_all add: c pool_to_wire_def MinManpowerForRecruit_def)
  then show ?thesis by (simp add: c)
qed

lemma dispatch_order:
  assumes "choices_ok ch" "match_ok m" "fog_view m s w"
  shows "length (dispatchIdleUnits ch w s now) \<le> MaxCommandsPerDecision \<and>
    (\<forall>c\<in>set (dispatchIdleUnits ch w s now). bot_order m s c \<and> wc_IssuedAt c = now)"
  unfolding dispatchIdleUnits_def
proof (rule foldl_invariant, simp, goal_cases)
  case (1 cmds iu)
  obtain i v where iu: "iu = (i, v)" by fastforce
  have v: "v \<in> set (ms_Units w)" using 1(2) unfolding iu by (rule enumerate_mem)
  let ?tgt = "closestHostileNeighbour (csub (csub ch i) 0) w (hostileProvinces w s) (currentProvince v)"
  let ?c = "newCommand now (csub (csub ch i) 1) ''move''
      (no_command\<lparr>wc_UnitID := us_ID v, wc_From := currentProvince v, wc_To := ?tgt\<rparr>)"
  show ?case
  proof (cases "length cmds \<ge> MaxCommandsPerDecision \<or> us_OwnerID v \<noteq> s \<or> bot_isMoving v now \<or> currentProvince v = [] \<or> ?tgt = []")
    case True
    then show ?thesis using 1(1) by (auto simp: dispatch_unit_def iu Let_def)
  next
    case False
    then have e: "dispatch_unit ch w s now (hostileProvinces w s) cmds iu = cmds @ [?c]" "length cmds < MaxCommandsPerDecision"
      and own: "us_OwnerID v = s" and t: "?tgt \<noteq> []" by (auto simp: dispatch_unit_def iu Let_def)
    obtain u where u: "map_of (m_Units m) (us_ID v) = Some u" "us_OwnerID v = u_OwnerSlot u" "us_Origin v = u_Origin u" "us_Dest v = u_Dest u"
      using fog_units[OF assms(2,3) v] by metis
    have "?tgt \<in> hostileProvinces w s" using closestHostile[OF _ t] assms(1) by simp
    then obtain q where q: "q \<in> set (ms_Provinces w)" "pvs_ID q = ?tgt" "pvs_OwnerID q \<noteq> []" "pvs_OwnerID q \<noteq> s"
        "mget_default [] (stances w s) (pvs_OwnerID q) \<notin> {''peace'', ''alliance''}"
      unfolding hostile_iff by metis
    obtain p where p: "map_of (m_Provinces m) (pvs_ID q) = Some p" "pvs_OwnerID q = p_Owner p" "p_ID p \<in> seen_provinces m s (m_GameNow m)"
      using fog_provinces[OF assms(2,3) q(1)] by metis
    have "ms_Diplomacy w = TreatyStates m" using assms(3) by (simp add: fog_view_def)
    from stances_Stance[OF match_okD(6)[OF assms(2)] this q(3,4,5)]
    have "bot_order m s ?c"
      using currentProvince_in[of v] u p q(2-4) own by (intro bot_order.advance[of ?c _ u _ p]) simp_all
    then show ?thesis using 1(1) e by simp
  qed
qed

lemma wire_offer:
  assumes "reg_ok (m_Diplomacy m)" "t \<in> set (TreatyStates m)" "peace_offered s t"
  obtains u where "Treaty (m_Diplomacy m) s (otherSlot s (ts_SlotA t) (ts_SlotB t)) = Some u" "tr_Pending u = PendingPeace"
    "tr_PendingFrom u = otherSlot s (ts_SlotA t) (ts_SlotB t)" "otherSlot s (ts_SlotA t) (ts_SlotB t) \<noteq> s"
    "{ts_SlotA t, ts_SlotB t} = {s, otherSlot s (ts_SlotA t) (ts_SlotB t)}"
proof -
  let ?x = "otherSlot s (ts_SlotA t) (ts_SlotB t)"
  obtain k u where u: "(k, u) \<in> set (reg_treaties (m_Diplomacy m))" "ts_SlotA t = tr_SlotA u" "ts_SlotB t = tr_SlotB u"
      "ts_Pending t = pending_string (tr_Pending u)" "ts_PendingFrom t = tr_PendingFrom u"
    using assms(2) by (auto simp: wire_treaty)
  have ok: "treaty_ok k u" using assms(1) u(1) by (auto simp: reg_ok_def)
  have pend: "tr_Pending u = PendingPeace" using assms(3) u(4) by (cases "tr_Pending u") (simp_all add: peace_offered_def)
  have ne: "tr_SlotA u \<noteq> tr_SlotB u" using ok by (auto simp: treaty_ok_def)
  have "from": "tr_PendingFrom u \<in> {tr_SlotA u, tr_SlotB u}" using ok pend by (simp add: treaty_ok_def)
  have s: "tr_SlotA u = s \<or> tr_SlotB u = s" "tr_PendingFrom u \<noteq> s" using assms(3) u by (simp_all add: peace_offered_def)
  have x: "{tr_SlotA u, tr_SlotB u} = {s, ?x}" "?x \<noteq> s" "tr_PendingFrom u = ?x"
    using ne "from" s by (auto simp: otherSlot_def u(2,3))
  show ?thesis
    using that[of u] Stance_of_treaty(1)[OF assms(1) u(1) x(1)] x pend u(2,3) by simp
qed

lemma diplomacy_order:
  assumes "match_ok m" "fog_view m s w" "c \<in> set (diplomacyMoves w s now)"
  shows "bot_order m s c \<and> wc_IssuedAt c = now"
proof -
  obtain t where t: "find (peace_offered s) (ms_Diplomacy w) = Some t"
    using assms(3) by (cases "find (peace_offered s) (ms_Diplomacy w)") (simp_all add: diplomacyMoves_def)
  then have c: "c = no_command\<lparr>wc_Kind := ''accept_peace'', wc_IssuedAt := now,
             wc_Idempotency := idem now ''accept_peace'' (ts_SlotA t @ ts_SlotB t),
             wc_Args := [(''target_slot'', otherSlot s (ts_SlotA t) (ts_SlotB t))]\<rparr>"
    using assms(3) by (simp add: diplomacyMoves_def)
  have "t \<in> set (TreatyStates m)" "peace_offered s t" using find_SomeD[OF t] assms(2) by (simp_all add: fog_view_def)
  from wire_offer[OF match_okD(6)[OF assms(1)] this] obtain u where
    "Treaty (m_Diplomacy m) s (otherSlot s (ts_SlotA t) (ts_SlotB t)) = Some u" "tr_Pending u = PendingPeace"
    "tr_PendingFrom u = otherSlot s (ts_SlotA t) (ts_SlotB t)" by metis
  then have "bot_order m s c" by (intro bot_order.agree[of c]) (simp_all add: c)
  then show ?thesis by (simp add: c)
qed

text \<open>
  C27. The orders of a bot are well-formed. Whatever the random source and the ties of the sort, shown a
  snapshot of a match filtered for its slot, the heuristic gives at most six commands, each stamped with the
  instant and each an order that slot may give: it recalls its own units to its own capital, advances its own
  units only into provinces it sees and whose owner it is at war with, recruits infantry in its own provinces,
  out of at least twelve manpower and where it recruits nothing yet, and accepts only a peace that was offered
  to it and is still open.
\<close>

theorem bot_orders_well_formed:
  assumes "choices_ok ch" "match_ok m" "fog_view m s w"
  shows "length (Decide ch now (Some w) s) \<le> 6 \<and> (\<forall>c\<in>set (Decide ch now (Some w) s). bot_order m s c \<and> wc_IssuedAt c = now)"
proof -
  have "bot_order m s c \<and> wc_IssuedAt c = now" if "c \<in> set (Decide ch now (Some w) s)" for c
  proof -
    have "c \<in> set (defendCapital (csub ch 0) w s now) \<or> c \<in> set (recruitIfPossible (csub ch 1) w s now) \<or>
        c \<in> set (dispatchIdleUnits (csub ch 2) w s now) \<or> c \<in> set (diplomacyMoves w s now)"
      using that by (auto simp: Decide_def split: if_splits dest!: in_set_takeD)
    then show ?thesis
      using defend_order[OF assms(2,3)] recruit_order[OF choices_ok_csub[OF assms(1)] assms(2,3)]
        dispatch_order[OF choices_ok_csub[OF assms(1)] assms(2,3)] diplomacy_order[OF assms(2,3)] by metis
  qed
  moreover have "length (Decide ch now (Some w) s) \<le> 6" by (simp add: Decide_def MaxCommandsPerDecision_def del: take_append)
  ultimately show ?thesis by blast
qed

definition first_choice :: choices where
  "first_choice = \<lparr>ch_perm = (\<lambda>_ n. [0..<n]), ch_int = (\<lambda>_ _. 0)\<rparr>"

lemma first_choice_ok: "choices_ok first_choice"
  by (simp add: choices_ok_def first_choice_def)

definition red_view :: match_state where
  "red_view = snd (Filtered plain_rt (NewBatch fog_match) ''red'')"

lemma red_view_fog: "fog_view fog_match ''red'' red_view"
proof -
  obtain b w where F: "Filtered plain_rt (NewBatch fog_match) ''red'' = (b, w)" by fastforce
  have "on_board fog_match (m_GameNow fog_match)" using fog_ok(3) by simp
  note start = batch_start[OF fog_ok(1,2) this]
  show ?thesis using Filtered_fog[OF fog_ok(1) rt_ok_plain _ start F] by (simp add: red_view_def F)
qed

theorem bot_orders_well_formed_witness:
  "length (Decide first_choice 0 (Some red_view) ''red'') \<le> 6 \<and>
   list_all (\<lambda>c. bot_order fog_match ''red'' c \<and> wc_IssuedAt c = 0) (Decide first_choice 0 (Some red_view) ''red'')"
  unfolding list_all_iff by (rule bot_orders_well_formed[OF first_choice_ok fog_ok(1) red_view_fog])

section \<open>From the bot to the engine\<close>

text \<open>The command the engine makes of what the gateway publishes for a session.\<close>

definition order_of :: "command_payload \<Rightarrow> command" where
  "order_of p = \<lparr>c_MatchID = cp_MatchID p, c_UserID = cp_UserID p, c_IssuerSlot = cp_Slot p,
     c_IdempotencyKey = cp_IdempotencyKey p, c_Kind = cp_Kind p, c_UnitID = cp_UnitID p,
     c_From = cp_From p, c_To = cp_To p, c_IssuedAt = cp_IssuedAt p, c_Args = cp_Args p\<rparr>"

lemma commandHandler_order: "commandHandler p r = Submit (order_of p) r"
  by (simp add: commandHandler_def order_of_def)

lemma handleCommand_publishes:
  assumes "handleCommand env m c = (c', out)" "(subj, BodyCommand p) \<in> set out"
  obtains cmd where "ce_Command m = Some cmd" "cp_MatchID p = cn_matchID c" "cp_UserID p = cn_user c" "cp_Slot p = cn_slot c"
    "cp_Kind p = wc_Kind cmd" "cp_UnitID p = wc_UnitID cmd" "cp_From p = wc_From cmd" "cp_To p = wc_To cmd" "cp_Args p = wc_Args cmd"
  using assms
  by (auto simp: handleCommand_def try_publish_def command_message_def Let_def case_prod_beta
      split: option.splits if_splits outcome.splits)

lemma unseated_rejected:
  assumes "rt_ok rt" "\<forall>(k, p)\<in>set (m_Players m). py_UserID p \<noteq> c_UserID cmd" "c_IssuerSlot cmd = []"
  shows "\<exists>code e. Dispatch rt m cmd = (m, code, [], Some e)"
proof -
  have "resolve_issuer (sub rt 0) m cmd = cmd"
  proof (cases "find (\<lambda>(s, p). py_UserID p = c_UserID cmd) (go_range (sub rt 0) (m_Players m))")
    case (Some sp)
    then have "sp \<in> set (m_Players m)" "py_UserID (snd sp) = c_UserID cmd"
      using find_SomeD[OF Some] go_range_subset[of "sub rt 0" "m_Players m"] by (auto simp: case_prod_beta)
    then show ?thesis using assms(2) by (auto simp: case_prod_beta)
  qed (simp add: resolve_issuer_def)
  then show ?thesis using assms(3) by (simp add: Dispatch_def Let_def)
qed

lemma subscribeMatch_unseated:
  assumes "subscribeMatch env idx mid c = (c', True)" "map_of idx (slotKey mid (cn_user c)) = None"
  shows "cn_slot c' = [] \<and> cn_user c' = cn_user c \<and> (PublicStateSubject mid, StateFanOut) \<in> set (cn_subs c')"
  using assms
  by (auto simp: subscribeMatch_def subscribeChat_def Let_def LookupUserSlot_def mget_default_def
      split: option.splits if_splits)


definition bot_conn :: conn where
  "bot_conn = fst (subscribeMatch (calm 0) [(slotKey (m_ID fog_match) ''ann'', ''red'')] (m_ID fog_match)
     (new_conn ''c9'' ''bot-01'' (m_ID fog_match) 10 0))"

definition bot_message :: client_envelope where
  "bot_message = \<lparr>ce_Type = ''command'', ce_WireVersion = 0, ce_MatchID = m_ID fog_match,
     ce_Command = Some (newCommand 0 first_choice ''move'' (no_command\<lparr>wc_UnitID := ''u1'', wc_To := ''b''\<rparr>)), ce_Chat = None\<rparr>"


section \<open>Peace\<close>

text \<open>A peace \<open>x\<close> has offered \<open>s\<close> and that is still open; and what the gateway publishes of a command.\<close>

definition offers_peace :: "registry \<Rightarrow> slot \<Rightarrow> slot \<Rightarrow> bool" where
  "offers_peace r x s \<longleftrightarrow> (\<exists>t. Treaty r s x = Some t \<and> tr_Pending t = PendingPeace \<and> tr_PendingFrom t = x)"

definition carries :: "command_payload \<Rightarrow> slot \<Rightarrow> wire_command \<Rightarrow> bool" where
  "carries p s c \<longleftrightarrow> cp_Slot p = s \<and> cp_Kind p = wc_Kind c \<and> cp_Args p = wc_Args c"

text \<open>
  C3. A bot makes peace. When the treaties of an active match name its players only, and somebody has offered
  the slot of a bot a peace that is still open, then, unless the bot has six other orders to give first, one
  of the commands it gives is accepted by the engine and puts it at peace with a player who offered it.
\<close>

theorem bot_makes_peace:
  assumes "choices_ok ch" "rt_ok rt" "match_ok m" "m_Status m = ''active''" "fog_view m s w" "s \<noteq> []"
    and "\<forall>(k, t)\<in>set (reg_treaties (m_Diplomacy m)). {tr_SlotA t, tr_SlotB t} \<subseteq> fst ` set (m_Players m) - {[]}"
    and "(k, t) \<in> set (reg_treaties (m_Diplomacy m))" "tr_Pending t = PendingPeace"
    and "s \<in> {tr_SlotA t, tr_SlotB t}" "tr_PendingFrom t \<noteq> s"
    and "length (defendCapital (csub ch 0) w s now @ recruitIfPossible (csub ch 1) w s now @ dispatchIdleUnits (csub ch 2) w s now) < 6"
  shows "\<exists>c\<in>set (Decide ch now (Some w) s). \<exists>x. offers_peace (m_Diplomacy m) x s \<and>
    (\<forall>p. carries p s c \<longrightarrow> (\<exists>m' es. Dispatch rt m (order_of p) = (m', ''ok'', es, None) \<and> Stance (m_Diplomacy m') s x = Peace))"
proof -
  let ?pre = "defendCapital (csub ch 0) w s now @ recruitIfPossible (csub ch 1) w s now @ dispatchIdleUnits (csub ch 2) w s now"
  have dip: "ms_Diplomacy w = TreatyStates m" using assms(5) by (simp add: fog_view_def)
  let ?t = "\<lparr>ts_SlotA = tr_SlotA t, ts_SlotB = tr_SlotB t, ts_Stance = stance_string (tr_Stance t),
      ts_Pending = pending_string (tr_Pending t), ts_PendingFrom = tr_PendingFrom t, ts_ChangedAt = tr_ChangedAt t\<rparr>"
  have "?t \<in> set (ms_Diplomacy w)" using assms(8) unfolding dip by (auto simp: wire_treaty)
  moreover have "peace_offered s ?t" using assms(9-11) by (auto simp: peace_offered_def)
  ultimately obtain v where v: "find (peace_offered s) (ms_Diplomacy w) = Some v"
    by (metis find_None_iff2 option.exhaust)
  let ?x = "otherSlot s (ts_SlotA v) (ts_SlotB v)"
  have v': "v \<in> set (TreatyStates m)" "peace_offered s v" using find_SomeD[OF v] dip by simp_all
  obtain u where u: "Treaty (m_Diplomacy m) s ?x = Some u" "tr_Pending u = PendingPeace" "tr_PendingFrom u = ?x" "?x \<noteq> s"
      "{ts_SlotA v, ts_SlotB v} = {s, ?x}"
    using wire_offer[OF match_okD(6)[OF assms(3)] v'] by metis
  obtain k' u' where u': "(k', u') \<in> set (reg_treaties (m_Diplomacy m))" "ts_SlotA v = tr_SlotA u'" "ts_SlotB v = tr_SlotB u'"
    using v'(1) by (auto simp: wire_treaty)
  have "{ts_SlotA v, ts_SlotB v} \<subseteq> fst ` set (m_Players m) - {[]}" using bspec[OF assms(7) u'(1)] by (simp add: u'(2,3))
  then have x: "?x \<in> fst ` set (m_Players m) - {[]}" unfolding u(5) by (rule subsetD) simp
  obtain c where c: "diplomacyMoves w s now = [c]" "wc_Kind c = ''accept_peace''" "wc_Args c = [(''target_slot'', ?x)]"
    by (simp add: diplomacyMoves_def v)
  have "Decide ch now (Some w) s = ?pre @ [c]"
    using assms(6,12) c(1) by (simp add: Decide_def MaxCommandsPerDecision_def)
  then have cin: "c \<in> set (Decide ch now (Some w) s)" by simp
  have peace: "\<exists>m' es. Dispatch rt m (order_of p) = (m', ''ok'', es, None) \<and> Stance (m_Diplomacy m') s ?x = Peace"
    if "carries p s c" for p
  proof -
    have od: "c_IssuerSlot (order_of p) = s" "c_Kind (order_of p) = ''accept_peace''" "c_Args (order_of p) = [(''target_slot'', ?x)]"
      using that c(2,3) by (simp_all add: carries_def order_of_def)
    have "map_of (m_Players m) ?x \<noteq> None" using x by (simp add: map_of_None_keys)
    then have "resolveTarget m (order_of p) = Inr ?x"
      using x u(4) by (simp add: resolveTarget_def Extra_def od)
    moreover have "AcceptPeace (m_Diplomacy m) s ?x (m_GameNow m)
        = (upsert (m_Diplomacy m) s ?x Peace PendingNone [] (m_GameNow m) s, None)"
      using u(1-4) by (simp add: AcceptPeace_def accept_def)
    ultimately show ?thesis
      using assms(4,6) u(4)
      by (simp add: Dispatch_def resolve_issuer_def Let_def od apply_handler_def acceptPeace_Apply_def diplomacy_Apply_def
          emitDiplomacyEvent_def bump_seq_def Stance_upsert)
  qed
  show ?thesis
    by (rule bexI[OF _ cin], rule exI[of _ ?x], intro conjI allI impI) (use u(1-3) peace in \<open>auto simp: offers_peace_def\<close>)
qed

definition offered :: registry where
  "offered = fst (ProposePeace reg_New ''red'' ''blue'' Hour)"

lemma offered_ok: "reg_ok offered"
  by (simp add: offered_def ProposePeace_def wf_intros)

lemma offered_treaty: "\<exists>t. reg_treaties offered = [((''blue'', ''red''), t)] \<and> tr_SlotA t = ''blue'' \<and> tr_SlotB t = ''red''
    \<and> tr_Pending t = PendingPeace \<and> tr_PendingFrom t = ''red''"
proof -
  have "map (\<lambda>(k, t). (k, tr_SlotA t, tr_SlotB t, tr_Pending t, tr_PendingFrom t)) (reg_treaties offered)
      = [((''blue'', ''red''), ''blue'', ''red'', PendingPeace, ''red'')]" unfolding offered_def by code_simp
  then show ?thesis by (auto simp: map_eq_Cons_conv)
qed

definition blue_view :: match_state where
  "blue_view = snd (Filtered plain_rt (NewBatch (sample_match offered)) ''blue'')"

lemma blue_view_fog: "fog_view (sample_match offered) ''blue'' blue_view"
proof -
  let ?m = "sample_match offered"
  obtain b w where F: "Filtered plain_rt (NewBatch ?m) ''blue'' = (b, w)" by fastforce
  have "cache_ok ?m" by (rule cache_ok_None) (simp add: sample_match_def empty_match_def)
  moreover have "on_board ?m (m_GameNow ?m)"
    by (simp add: on_board_def sample_match_def empty_match_def sample_province_def sample_unit_def MaxFloat64_def PositionAt_def)
  ultimately show ?thesis
    using Filtered_fog[OF sample_match_ok[OF offered_ok] rt_ok_plain _ batch_start[OF sample_match_ok[OF offered_ok]] F]
    by (simp add: blue_view_def F)
qed

lemma blue_idle:
  "defendCapital ch blue_view ''blue'' now = []" "recruitIfPossible ch blue_view ''blue'' now = []"
  "dispatchIdleUnits ch blue_view ''blue'' now = []"
proof -
  note ok = sample_match_ok[OF offered_ok] and fog = blue_view_fog
  have prov: "pvs_OwnerID q \<noteq> ''blue''" if q: "q \<in> set (ms_Provinces blue_view)" for q
  proof -
    obtain p where "map_of (m_Provinces (sample_match offered)) (pvs_ID q) = Some p" "pvs_OwnerID q = p_Owner p"
      using fog_provinces[OF ok fog q] by metis
    then show ?thesis by (auto simp: sample_match_def sample_province_def split: if_splits)
  qed
  have unt: "us_OwnerID v \<noteq> ''blue''" if v: "v \<in> set (ms_Units blue_view)" for v
  proof -
    obtain u where "map_of (m_Units (sample_match offered)) (us_ID v) = Some u" "us_OwnerID v = u_OwnerSlot u"
      using fog_units[OF ok fog v] by metis
    then show ?thesis by (auto simp: sample_match_def sample_unit_def split: if_splits)
  qed
  have "findCapital blue_view ''blue'' = None" using prov by (auto simp: findCapital_def find_None_iff)
  then show "defendCapital ch blue_view ''blue'' now = []" by (simp add: defendCapital_def)
  have "map_of (ms_Resources blue_view) ''blue'' = None"
    using fog by (simp add: fog_view_def sample_match_def empty_match_def)
  then show "recruitIfPossible ch blue_view ''blue'' now = []" by (simp add: recruitIfPossible_def)
  have "foldl (dispatch_unit ch blue_view ''blue'' now H) [] ius = []" if "\<forall>(i, u)\<in>set ius. us_OwnerID u \<noteq> ''blue''" for H ius
    using that by (induction ius) (auto simp: dispatch_unit_def MaxCommandsPerDecision_def)
  moreover have "\<forall>(i, u)\<in>set (enumerate 0 (ms_Units blue_view)). us_OwnerID u \<noteq> ''blue''"
    using unt enumerate_mem by fast
  ultimately show "dispatchIdleUnits ch blue_view ''blue'' now = []" by (simp add: dispatchIdleUnits_def)
qed

definition blue_payload :: "wire_command \<Rightarrow> command_payload" where
  "blue_payload c = \<lparr>cp_MatchID = ''m'', cp_UserID = ''bot-01'', cp_Slot = ''blue'', cp_IdempotencyKey = wc_Idempotency c,
     cp_Kind = wc_Kind c, cp_UnitID = wc_UnitID c, cp_From = wc_From c, cp_To = wc_To c, cp_IssuedAt = wc_IssuedAt c,
     cp_Args = wc_Args c\<rparr>"

theorem bot_makes_peace_witness:
  "\<exists>c\<in>set (Decide first_choice 0 (Some blue_view) ''blue''). \<exists>x m' es.
     Dispatch plain_rt (sample_match offered) (order_of (blue_payload c)) = (m', ''ok'', es, None) \<and> Stance (m_Diplomacy m') ''blue'' x = Peace"
proof -
  obtain t where t: "reg_treaties offered = [((''blue'', ''red''), t)]" "tr_SlotA t = ''blue''" "tr_SlotB t = ''red''"
      "tr_Pending t = PendingPeace" "tr_PendingFrom t = ''red''" using offered_treaty by blast
  let ?m = "sample_match offered"
  have d: "(( ''blue'', ''red''), t) \<in> set (reg_treaties (m_Diplomacy ?m))" by (simp add: t)
  have pl: "\<forall>(k, t)\<in>set (reg_treaties (m_Diplomacy ?m)). {tr_SlotA t, tr_SlotB t} \<subseteq> fst ` set (m_Players ?m) - {[]}"
    by (simp add: t) (simp add: sample_match_def)
  have act: "m_Status ?m = ''active''" by (simp add: sample_match_def empty_match_def)
  have idle: "length (defendCapital (csub first_choice 0) blue_view ''blue'' 0 @ recruitIfPossible (csub first_choice 1) blue_view ''blue'' 0
      @ dispatchIdleUnits (csub first_choice 2) blue_view ''blue'' 0) < 6" by (simp add: blue_idle)
  have me: "''blue'' \<in> {tr_SlotA t, tr_SlotB t}" "tr_PendingFrom t \<noteq> ''blue''" by (simp_all add: t)
  have ne: "''blue'' \<noteq> ([] :: slot)" by simp
  have pay: "carries (blue_payload c) ''blue'' c" for c by (simp add: carries_def blue_payload_def)
  note T = bot_makes_peace[OF first_choice_ok rt_ok_plain sample_match_ok[OF offered_ok] act blue_view_fog ne pl d t(4) me idle]
  from T obtain c where c: "c \<in> set (Decide first_choice 0 (Some blue_view) ''blue'')"
    and x: "\<exists>x. offers_peace (m_Diplomacy ?m) x ''blue'' \<and> (\<forall>p. carries p ''blue'' c \<longrightarrow>
      (\<exists>m' es. Dispatch plain_rt ?m (order_of p) = (m', ''ok'', es, None) \<and> Stance (m_Diplomacy m') ''blue'' x = Peace))"
    by (rule bexE)
  from x obtain x where x: "\<forall>p. carries p ''blue'' c \<longrightarrow>
      (\<exists>m' es. Dispatch plain_rt ?m (order_of p) = (m', ''ok'', es, None) \<and> Stance (m_Diplomacy m') ''blue'' x = Peace)"
    by (elim exE conjE)
  show ?thesis by (rule bexI[OF _ c], rule exI[of _ x], rule mp[OF spec[OF x] pay])
qed

end
