(* ===== verification/Notify.thy ===== *)
theory Notify
  imports Runner Workers
begin

text \<open>
  Notifications: their kinds and debounce windows (\<open>internal/domain/notifydom\<close>), their table
  (\<open>pgrepo/notifications.go\<close>), the service (\<open>notifysvc\<close>), and the worker that turns the public
  events of a match into rows (\<open>internal/worker/notify.go\<close>, \<open>notify_templates.go\<close>) and mails them.
\<close>

section \<open>notifydom.go\<close>

text \<open>A kind is a string; these are the ones the worker knows.\<close>

definition KindProvinceCaptured :: string where "KindProvinceCaptured = ''province_captured''"
definition KindUnderAttack :: string where "KindUnderAttack = ''under_attack''"
definition KindTreatyProposed :: string where "KindTreatyProposed = ''treaty_proposed''"
definition KindMatchEnded :: string where "KindMatchEnded = ''match_ended''"
definition KindBotTakeover :: string where "KindBotTakeover = ''bot_takeover''"

lemmas kind_defs = KindProvinceCaptured_def KindUnderAttack_def KindTreatyProposed_def KindMatchEnded_def KindBotTakeover_def

definition DebounceWindow :: "string \<Rightarrow> duration" where
  "DebounceWindow k =
     (if k = KindUnderAttack \<or> k = KindProvinceCaptured then 5 * Minute
      else if k = KindTreatyProposed \<or> k = KindBotTakeover then 30 * Second
      else if k = KindMatchEnded then 0
      else Minute)"

record notification =
  nf_ID :: string
  nf_UserID :: user_id
  nf_MatchID :: string
  nf_Kind :: string
  nf_Payload :: extra
  nf_CreatedAt :: time
  nf_SentAt :: "time option"
  nf_ReadAt :: "time option"

record list_query =
  lq_UserID :: user_id
  lq_After :: time
  lq_Limit :: int

section \<open>pgrepo/notifications.go\<close>

text \<open>What the worker looks up in the list of players.\<close>

record player_lookup =
  pk_UserID :: user_id
  pk_Slot :: slot
  pk_Alive :: bool
  pk_ControlledByAI :: bool

text \<open>The tables, the cached rosters with the instants they were read at, and the mails sent.\<close>

record notify_state =
  ns_world :: world
  ns_rows :: "notification list"
  ns_cache :: "(string, player_lookup list \<times> time) gomap"
  ns_mails :: "notification list"

definition on_rows :: "env \<Rightarrow> (notify_state \<Rightarrow> (notify_state \<times> 'a) option) \<Rightarrow> notify_state \<Rightarrow> notify_state \<times> (base_err + 'a)" where
  "on_rows env q s =
     (case q s of
        None \<Rightarrow> (s, Inl DatabaseErr)
      | Some (s', a) \<Rightarrow>
          (case env_outcome env [] of
             Delivered \<Rightarrow> (s', Inr a)
           | Refused \<Rightarrow> (s, Inl DatabaseErr)
           | AnswerLost \<Rightarrow> (s', Inl DatabaseErr)))"

definition Notif_Insert :: "env \<Rightarrow> user_id \<Rightarrow> string \<Rightarrow> string \<Rightarrow> extra \<Rightarrow> notify_state \<Rightarrow> notify_state \<times> (base_err + notification)" where
  "Notif_Insert env uid mid kind payload =
     on_rows env (\<lambda>s.
       if user_row (ns_world s) uid = None \<or> match_row (ns_world s) mid = None then None
       else
         let n = \<lparr>nf_ID = env_uuid env [], nf_UserID = uid, nf_MatchID = mid, nf_Kind = kind, nf_Payload = payload,
                  nf_CreatedAt = env_now env [], nf_SentAt = None, nf_ReadAt = None\<rparr>
         in Some (s\<lparr>ns_rows := ns_rows s @ [n]\<rparr>, n))"

definition LastForKind :: "env \<Rightarrow> user_id \<Rightarrow> string \<Rightarrow> string \<Rightarrow> notify_state \<Rightarrow> notify_state \<times> (base_err + notification)" where
  "LastForKind env uid mid kind =
     ebind (on_rows env (\<lambda>s. Some (s, sort_key (\<lambda>n. - nf_CreatedAt n)
       (filter (\<lambda>n. nf_UserID n = uid \<and> nf_MatchID n = mid \<and> nf_Kind n = kind) (ns_rows s)))))
     (\<lambda>rows. case rows of [] \<Rightarrow> raise ErrNotFound | n # _ \<Rightarrow> ret n)"

definition unix_epoch :: time where
  "unix_epoch = 62135596800 * Second"

definition Notif_List :: "env \<Rightarrow> list_query \<Rightarrow> notify_state \<Rightarrow> notify_state \<times> (base_err + notification list)" where
  "Notif_List env q =
     (let limit = (if lq_Limit q \<le> 0 \<or> lq_Limit q > 200 then 50 else lq_Limit q);
          after = (if time_isZero (lq_After q) then unix_epoch else lq_After q)
      in on_rows env (\<lambda>s. Some (s, take (nat limit) (sort_key (\<lambda>n. - nf_CreatedAt n)
           (filter (\<lambda>n. nf_UserID n = lq_UserID q \<and> nf_CreatedAt n > after) (ns_rows s))))))"

definition unread :: "user_id \<Rightarrow> notification \<Rightarrow> bool" where
  "unread uid n \<longleftrightarrow> nf_UserID n = uid \<and> nf_ReadAt n = None"

definition Notif_UnreadCount :: "env \<Rightarrow> user_id \<Rightarrow> notify_state \<Rightarrow> notify_state \<times> (base_err + nat)" where
  "Notif_UnreadCount env uid = on_rows env (\<lambda>s. Some (s, affected (unread uid) (ns_rows s)))"

definition Notif_MarkAllRead :: "env \<Rightarrow> user_id \<Rightarrow> time \<Rightarrow> notify_state \<Rightarrow> notify_state \<times> (base_err + nat)" where
  "Notif_MarkAllRead env uid tm =
     on_rows env (\<lambda>s. Some (s\<lparr>ns_rows := update_where (unread uid) (\<lambda>n. n\<lparr>nf_ReadAt := Some tm\<rparr>) (ns_rows s)\<rparr>,
                            affected (unread uid) (ns_rows s)))"

definition Notif_MarkSent :: "env \<Rightarrow> string \<Rightarrow> time \<Rightarrow> notify_state \<Rightarrow> notify_state \<times> (base_err + unit)" where
  "Notif_MarkSent env i tm =
     on_rows env (\<lambda>s. Some (s\<lparr>ns_rows := update_where (\<lambda>n. nf_ID n = i) (\<lambda>n. n\<lparr>nf_SentAt := Some tm\<rparr>) (ns_rows s)\<rparr>, ()))"

definition Notif_PendingDelivery :: "env \<Rightarrow> int \<Rightarrow> notify_state \<Rightarrow> notify_state \<times> (base_err + notification list)" where
  "Notif_PendingDelivery env limit =
     (let l = (if limit \<le> 0 \<or> limit > 200 then 50 else limit)
      in on_rows env (\<lambda>s. Some (s, take (nat l) (sort_key nf_CreatedAt (filter (\<lambda>n. nf_SentAt n = None) (ns_rows s))))))"

section \<open>notifysvc/service.go\<close>

record notify_insert =
  ni_UserID :: user_id
  ni_MatchID :: string
  ni_Kind :: string
  ni_Payload :: extra

type_synonym 'a notify_act = "notify_state \<Rightarrow> notify_state \<times> (svc_err + 'a)"

text \<open>A skipped notification is \<open>None\<close>, the zero record of the source.\<close>

definition svc_Insert :: "env \<Rightarrow> notify_insert \<Rightarrow> notification option notify_act" where
  "svc_Insert env inp s =
     (if ni_UserID inp = uuid_Nil \<or> ni_MatchID inp = uuid_Nil \<or> ni_Kind inp = []
      then (s, Inl (errs_New BadRequest ''missing notification fields''))
      else
        let window = DebounceWindow (ni_Kind inp);
            insert_it = on_err (\<lambda>e. errs_Wrap e Internal ''inserting notification'')
              (ebind (Notif_Insert (esub env 1) (ni_UserID inp) (ni_MatchID inp) (ni_Kind inp) (ni_Payload inp)) (\<lambda>n. ret (Some n)))
        in if window > 0 then
             (case LastForKind (esub env 0) (ni_UserID inp) (ni_MatchID inp) (ni_Kind inp) s of
                (s1, Inr last_n) \<Rightarrow>
                  if time_sub (env_now env [0]) (nf_CreatedAt last_n) < window then (s1, Inr None) else insert_it s1
              | (s1, Inl e) \<Rightarrow>
                  if e \<noteq> ErrNotFound then (s1, Inl (errs_Wrap e Internal ''checking debounce'')) else insert_it s1)
           else insert_it s)"

definition svc_List :: "env \<Rightarrow> list_query \<Rightarrow> notification list notify_act" where
  "svc_List env q = on_err (\<lambda>e. errs_Wrap e Internal ''listing notifications'') (Notif_List env q)"

definition svc_UnreadCount :: "env \<Rightarrow> user_id \<Rightarrow> nat notify_act" where
  "svc_UnreadCount env uid = on_err (\<lambda>e. errs_Wrap e Internal ''counting notifications'') (Notif_UnreadCount env uid)"

definition svc_MarkAllRead :: "env \<Rightarrow> user_id \<Rightarrow> nat notify_act" where
  "svc_MarkAllRead env uid =
     on_err (\<lambda>e. errs_Wrap e Internal ''marking notifications read'') (Notif_MarkAllRead env uid (env_now env [0]))"

definition svc_PendingDelivery :: "env \<Rightarrow> int \<Rightarrow> notification list notify_act" where
  "svc_PendingDelivery env limit =
     on_err (\<lambda>e. errs_Wrap e Internal ''loading pending notifications'') (Notif_PendingDelivery env limit)"

definition svc_MarkSent :: "env \<Rightarrow> string \<Rightarrow> unit notify_act" where
  "svc_MarkSent env i =
     on_err (\<lambda>e. errs_Wrap e Internal ''marking notification sent'') (Notif_MarkSent env i (env_now env [0]))"

section \<open>notify_templates.go\<close>

record notify_template =
  nt_Kind :: string
  nt_Payload :: extra
  nt_Targets :: "player_lookup list \<Rightarrow> user_id list"

definition userIDsForSlot :: "slot \<Rightarrow> player_lookup list \<Rightarrow> user_id list" where
  "userIDsForSlot s players = map pk_UserID (filter (\<lambda>p. s \<noteq> [] \<and> pk_Slot p = s \<and> pk_Alive p \<and> \<not> pk_ControlledByAI p) players)"

fun json_strings :: "json list \<Rightarrow> string list" where
  "json_strings [] = []"
| "json_strings (JStr x # js) = x # json_strings js"
| "json_strings (_ # js) = json_strings js"

definition stringList :: "json option \<Rightarrow> string list" where
  "stringList v = (case v of Some (JList js) \<Rightarrow> json_strings js | _ \<Rightarrow> [])"

definition capturedTemplates :: "wire_event \<Rightarrow> notify_template list" where
  "capturedTemplates e =
     (let prevOwner = json_string_at (we_Extra e) ''prev_owner''; newOwner = json_string_at (we_Extra e) ''new_owner''
      in [\<lparr>nt_Kind = KindProvinceCaptured,
           nt_Payload = [(''province'', JStr (we_Province e)), (''prev_owner'', JStr prevOwner), (''new_owner'', JStr newOwner)],
           nt_Targets = userIDsForSlot prevOwner\<rparr>])"

definition underAttackTemplates :: "wire_event \<Rightarrow> notify_template list" where
  "underAttackTemplates e =
     (let defender = json_string_at (we_Extra e) ''defender''; attacker = json_string_at (we_Extra e) ''attacker''
      in [\<lparr>nt_Kind = KindUnderAttack,
           nt_Payload = [(''province'', JStr (we_Province e)), (''defender'', JStr defender), (''attacker'', JStr attacker)],
           nt_Targets = userIDsForSlot defender\<rparr>])"

definition treatyTemplates :: "wire_event \<Rightarrow> notify_template list" where
  "treatyTemplates e =
     (let origin = json_string_at (we_Extra e) ''from''; dest = json_string_at (we_Extra e) ''to'';
          stance = json_string_at (we_Extra e) ''stance''
      in [\<lparr>nt_Kind = KindTreatyProposed,
           nt_Payload = [(''from'', JStr origin), (''to'', JStr dest), (''stance'', JStr stance)],
           nt_Targets = userIDsForSlot dest\<rparr>])"

definition matchEndedTemplates :: "wire_event \<Rightarrow> notify_template list" where
  "matchEndedTemplates e =
     (let winners = stringList (map_of (we_Extra e) ''winners'')
      in [\<lparr>nt_Kind = KindMatchEnded, nt_Payload = [(''winners'', JList (map JStr winners))], nt_Targets = map pk_UserID\<rparr>])"

definition botTakeoverTemplates :: "(string \<Rightarrow> string option) \<Rightarrow> wire_event \<Rightarrow> notify_template list" where
  "botTakeoverTemplates parseUUID e =
     (let s = json_string_at (we_Extra e) ''slot''; prevUserID = json_string_at (we_Extra e) ''prev_user_id''
      in [\<lparr>nt_Kind = KindBotTakeover, nt_Payload = [(''slot'', JStr s), (''prev_user_id'', JStr prevUserID)],
           nt_Targets = (\<lambda>_. case parseUUID prevUserID of None \<Rightarrow> [] | Some i \<Rightarrow> [i])\<rparr>])"

definition buildTemplates :: "(string \<Rightarrow> string option) \<Rightarrow> wire_event \<Rightarrow> notify_template list" where
  "buildTemplates parseUUID e =
     (if we_Kind e = ''province_captured'' then capturedTemplates e
      else if we_Kind e = ''combat_damage'' then underAttackTemplates e
      else if we_Kind e = ''treaty_proposed'' then treatyTemplates e
      else if we_Kind e = ''match_ended'' then matchEndedTemplates e
      else if we_Kind e = ''bot_takeover'' then botTakeoverTemplates parseUUID e
      else [])"

section \<open>notify.go\<close>

definition matchPlayerLookup :: "lobby_player \<Rightarrow> player_lookup" where
  "matchPlayerLookup p = \<lparr>pk_UserID = lp_UserID p, pk_Slot = lp_Slot p, pk_Alive = lp_Alive p, pk_ControlledByAI = lp_ControlledByAI p\<rparr>"

definition cacheTTL :: duration where
  "cacheTTL = 30 * Second"

definition roster :: "env \<Rightarrow> string \<Rightarrow> notify_state \<Rightarrow> notify_state \<times> (base_err + player_lookup list)" where
  "roster env mid s =
     (case map_of (ns_cache s) mid of
        Some (ps, tm) \<Rightarrow> if time_sub (env_now env [0]) tm < cacheTTL then (s, Inr ps) else
          (case ListPlayers (esub env 0) mid (ns_world s) of
             (_, Inl e) \<Rightarrow> (s, Inl e)
           | (_, Inr qs) \<Rightarrow> let ps = map matchPlayerLookup qs in
               (s\<lparr>ns_cache := mput mid (ps, env_now env [1]) (ns_cache s)\<rparr>, Inr ps))
      | None \<Rightarrow>
          (case ListPlayers (esub env 0) mid (ns_world s) of
             (_, Inl e) \<Rightarrow> (s, Inl e)
           | (_, Inr qs) \<Rightarrow> let ps = map matchPlayerLookup qs in
               (s\<lparr>ns_cache := mput mid (ps, env_now env [1]) (ns_cache s)\<rparr>, Inr ps)))"

text \<open>The notifications of one event: every target of every template, in order.\<close>

definition notify_targets :: "notify_template list \<Rightarrow> player_lookup list \<Rightarrow> (notify_template \<times> user_id) list" where
  "notify_targets ts players = concat (map (\<lambda>t. map (Pair t) (nt_Targets t players)) ts)"

definition insert_one :: "env \<Rightarrow> string \<Rightarrow> notify_state \<Rightarrow> nat \<times> notify_template \<times> user_id \<Rightarrow> notify_state" where
  "insert_one env mid s jtu =
     (case jtu of (j, t, uid) \<Rightarrow>
        fst (svc_Insert (esub env j) \<lparr>ni_UserID = uid, ni_MatchID = mid, ni_Kind = nt_Kind t, ni_Payload = nt_Payload t\<rparr> s))"

definition handle_event :: "(string \<Rightarrow> string option) \<Rightarrow> env \<Rightarrow> event_envelope option \<Rightarrow> notify_state \<Rightarrow> notify_state" where
  "handle_event parseUUID env msg s =
     (case msg of
        None \<Rightarrow> s
      | Some e \<Rightarrow>
          if ee_MatchID e = [] then s
          else case parseUUID (ee_MatchID e) of
            None \<Rightarrow> s
          | Some mid \<Rightarrow>
              let templates = buildTemplates parseUUID (ee_Event e) in
              if templates = [] then s
              else case roster (esub env 0) mid s of
                (s1, Inl _) \<Rightarrow> s1
              | (s1, Inr players) \<Rightarrow>
                  foldl (insert_one (esub env 1) mid) s1 (enumerate 0 (notify_targets templates players)))"

text \<open>The mailer, when there is one, may fail.\<close>

definition dispatchOne :: "env \<Rightarrow> bool \<Rightarrow> notification \<Rightarrow> notify_state \<Rightarrow> notify_state" where
  "dispatchOne env has_mailer n s =
     (if \<not> has_mailer then fst (svc_MarkSent (esub env 1) (nf_ID n) s)
      else case env_outcome env [0] of
        Refused \<Rightarrow> s
      | AnswerLost \<Rightarrow> s\<lparr>ns_mails := ns_mails s @ [n]\<rparr>
      | Delivered \<Rightarrow> fst (svc_MarkSent (esub env 1) (nf_ID n) (s\<lparr>ns_mails := ns_mails s @ [n]\<rparr>)))"

definition notify_dispatch :: "env \<Rightarrow> bool \<Rightarrow> int \<Rightarrow> notify_state \<Rightarrow> notify_state" where
  "notify_dispatch env has_mailer batchSize s =
     (case svc_PendingDelivery (esub env 0) batchSize s of
        (s1, Inl _) \<Rightarrow> s1
      | (s1, Inr pending) \<Rightarrow>
          foldl (\<lambda>s (j, n). dispatchOne (esub (esub env 1) j) has_mailer n s) s1 (enumerate 0 pending))"

end
