(* ===== verification/Notifying.thy ===== *)
theory Notifying
  imports Notify Engine LobbyFacts
begin

text \<open>
  Facts about notifications: which of the events the engine produces find a target in the templates of the
  worker. The property is C35.
\<close>

section \<open>Events the worker has nobody to tell about\<close>

text \<open>The end of a match; or an event whose template does not exist or has no target, because the field the
  template reads the target from is not there.\<close>

definition unheard :: "applied_event \<Rightarrow> bool" where
  "unheard e \<longleftrightarrow> ae_Kind e = ''match_ended'' \<or>
     ae_Kind e \<noteq> ''treaty_proposed'' \<and> ae_Kind e \<noteq> ''bot_takeover'' \<and>
     (ae_Kind e = ''province_captured'' \<longrightarrow> json_string_at (ae_Extra e) ''prev_owner'' = []) \<and>
     (ae_Kind e = ''combat_damage'' \<longrightarrow> json_string_at (ae_Extra e) ''defender'' = [])"

lemma fight_unheard:
  assumes "fight rt m ch pid tm out = Some (m', ch', es)" "list_all unheard out"
  shows "list_all unheard es"
proof (rule fight_invariant[where Q = "\<lambda>m' ch' es. list_all unheard es", OF _ assms(2,1)])
  fix rt m ch out m' ch' es
  assume "list_all unheard out" and r: "fight_round rt m ch pid tm = Some (m', ch', es)"
  moreover have "list_all unheard es"
    using r by (auto simp: fight_round_def Let_def unheard_def combat_event_def json_string_at_def split: option.splits if_splits)
  ultimately show "list_all unheard (out @ es)" by simp
qed

lemma capture_unheard: "captureIfOwnerChanged rt m prov ch tm = (m', es) \<Longrightarrow> list_all unheard es"
  by (auto simp: captureIfOwnerChanged_def Let_def unheard_def json_string_at_def split: option.splits if_splits)

lemma resolveProvince_unheard:
  assumes "resolveProvince rt m prov tm = Some (m', es)"
  shows "list_all unheard es"
proof (cases "stationaryUnitsIn (sub rt 0) m (p_ID prov) tm = []")
  case False
  let ?us = "stationaryUnitsIn (sub rt 0) m (p_ID prov) tm"
  obtain m1 ch where c: "collapseChampions m ?us = (m1, ch)" by fastforce
  obtain m2 ch2 out where f: "fight (sub rt 1) m1 ch (p_ID prov) tm [] = Some (m2, ch2, out)"
    using assms(1) False c by (auto simp: resolveProvince_def fightUntilOneStands_def bind_eq_Some_conv)
  obtain out2 where g: "captureIfOwnerChanged (sub rt 2) m2 prov ch2 tm = (m', out2)" "es = out @ out2"
    using assms(1) False c f by (auto simp: resolveProvince_def fightUntilOneStands_def split: prod.splits)
  show ?thesis using fight_unheard[OF f] capture_unheard[OF g(1)] g(2) by simp
qed (use assms in \<open>simp add: resolveProvince_def\<close>)

lemma checkVictory_unheard: "list_all unheard (snd (checkVictory m tm))"
  by (simp add: checkVictory_unfold Let_def case_prod_beta unheard_def)

lemma then_victory_unheard: "then_victory tm (m, es0) = (m', es) \<Longrightarrow> list_all unheard es0 \<longrightarrow> list_all unheard es"
  using checkVictory_unheard[of m tm] by (auto simp: then_victory_def case_prod_beta)

lemma resolve_at_unheard: "resolve_at rt m pid tm = Some (m', es) \<Longrightarrow> list_all unheard es"
  by (auto simp: resolve_at_def dest: resolveProvince_unheard split: option.splits)

lemma CompleteUnitLeg_unheard:
  assumes "CompleteUnitLeg rt m u tm = Some (m', es)"
  shows "list_all unheard es"
  using assms unfolding CompleteUnitLeg_def Let_def
  by (auto simp: unheard_def split: if_splits prod.splits dest!: resolve_at_unheard then_victory_unheard)

lemma arrival_Apply_unheard:
  assumes "arrival_Apply rt m ev = Some (m', es)"
  shows "list_all unheard es"
proof (cases "map_of (m_Units m) (ev_UnitID ev)")
  case (Some u)
  consider "u_Version u \<noteq> ev_Version ev \<or> (u_Path u = [] \<and> map_of (m_Provinces m) (u_Dest u) = None)"
    | "u_Version u = ev_Version ev" "u_Path u \<noteq> []"
    | p where "u_Version u = ev_Version ev" "u_Path u = []" "map_of (m_Provinces m) (u_Dest u) = Some p"
    by (cases "map_of (m_Provinces m) (u_Dest u)") blast+
  then show ?thesis
  proof cases
    case 1
    then show ?thesis using assms Some by (auto simp: arrival_Apply_def split: if_splits)
  next
    case 2
    then show ?thesis using assms Some by (auto simp: arrival_Apply_def dest: CompleteUnitLeg_unheard)
  next
    case (3 p)
    then show ?thesis using assms Some
      by (auto simp: arrival_Apply_def Let_def unheard_def dest!: resolveProvince_unheard then_victory_unheard)
  qed
qed (use assms in \<open>simp add: arrival_Apply_def\<close>)

lemma macroPulse_unheard: "list_all unheard (snd (macroPulse_Apply rt m ev))"
proof -
  have "list_all unheard (snd (foldl (macro_pulse_slot t) mo ks))" if "list_all unheard (snd mo)" for t mo ks
    using that by (induction ks arbitrary: mo) (auto simp: macro_pulse_slot_def Let_def unheard_def case_prod_beta)
  then show ?thesis by (simp add: macroPulse_Apply_def case_prod_beta)
qed

lemma HandleEvent_unheard:
  assumes "HandleEvent rt m ev = Some (m', es)"
  shows "list_all unheard es"
proof (cases "ev_Kind ev")
  case Arrival
  with assms show ?thesis by (intro arrival_Apply_unheard) (simp add: HandleEvent_def)
next
  case MacroPulse
  with assms macroPulse_unheard[of rt m ev] show ?thesis by (simp add: HandleEvent_def)
next
  case VictoryCheck
  with assms checkVictory_unheard[of m "ev_At ev"] show ?thesis by (simp add: HandleEvent_def victoryCheck_Apply_def)
qed (use assms in \<open>auto simp: HandleEvent_def matchCleanup_Apply_def recruitComplete_Apply_def constructComplete_Apply_def
    Let_def unheard_def split: option.splits if_splits\<close>)

lemma ProcessNext_unheard:
  assumes "rt_ok rt" "ProcessNext rt m now = Some (m', es)"
  shows "list_all unheard es"
proof -
  have "list_all unheard es \<and> (\<forall>e. tl_Peek (m_Timeline m') = Some e \<longrightarrow> now < ev_At e)"
    by (rule process_loop_invariant[where Q = "\<lambda>_ es. list_all unheard es", OF _ assms(1) _ assms(2)[unfolded ProcessNext_def]])
       (auto dest: HandleEvent_unheard)
  then show ?thesis by simp
qed

lemma diplomacy_unheard:
  assumes "diplomacy_Apply m cmd act f kind ex = (m', lbl, es, err)"
    and "kind \<notin> {''treaty_proposed'', ''bot_takeover'', ''province_captured'', ''combat_damage''}"
  shows "list_all unheard es"
  using assms by (auto simp: diplomacy_Apply_def emitDiplomacyEvent_def Let_def unheard_def split: sum.splits prod.splits option.splits)

lemma handler_unheard:
  assumes "apply_handler rt m cmd = Some (m', lbl, es, err)"
  shows "list_all unheard es"
proof -
  have mv: "list_all unheard (fst (snd (snd (move_Apply rt m cmd))))"
    by (auto simp: move_Apply_def Let_def split: option.splits sum.splits prod.splits)
  have rc: "list_all unheard (fst (snd (snd (recruit_Apply rt m cmd))))"
    by (auto simp: recruit_Apply_def Let_def split: option.splits)
  have cn: "list_all unheard (fst (snd (snd (construct_Apply rt m cmd))))"
    by (auto simp: construct_Apply_def Let_def split: option.splits)
  note dips = declareWar_Apply_def proposePeace_Apply_def proposeAlliance_Apply_def acceptPeace_Apply_def acceptAlliance_Apply_def
    shareMap_Apply_def revokeShareMap_Apply_def rightOfWayGrant_Apply_def rightOfWayRevoke_Apply_def
  show ?thesis
    using assms mv rc cn unfolding apply_handler_def Let_def dips
    by (auto split: if_splits dest!: diplomacy_unheard)
qed

lemma Dispatch_unheard: "Dispatch rt m cmd = (m', lbl, es, err) \<Longrightarrow> list_all unheard es"
  by (auto simp: Dispatch_def Let_def dest: handler_unheard split: if_splits option.splits)

lemma unheard_no_target:
  assumes "unheard e" "ae_Kind e \<noteq> ''match_ended''" "t \<in> set (buildTemplates parseUUID (ee_Event (event_message env m e)))"
  shows "nt_Targets t players = []"
  using assms unfolding unheard_def event_message_def buildTemplates_def
  by (auto simp: capturedTemplates_def underAttackTemplates_def userIDsForSlot_def Let_def split: if_splits)

lemma roster_rows: "ns_rows (fst (roster env mid s)) = ns_rows s"
  by (auto simp: roster_def Let_def split: option.splits prod.splits sum.splits)


definition quiet_state :: notify_state where
  "quiet_state = \<lparr>ns_world = \<lparr>w_users = [], w_matches = [], w_players = [], w_snapshots = [], w_stats = [], w_starts = [], w_ends = [], w_takeovers = []\<rparr>,
     ns_rows = [], ns_cache = [], ns_mails = []\<rparr>"

definition offer_order :: command where
  "offer_order = \<lparr>c_MatchID = ''m'', c_UserID = ''ann'', c_IssuerSlot = ''red'', c_IdempotencyKey = [], c_Kind = ''propose_peace'',
     c_UnitID = [], c_From = [], c_To = [], c_IssuedAt = 0, c_Args = [(''target_slot'', ''blue'')]\<rparr>"


end
