(* ===== verification/Auth.thy ===== *)
theory Auth
  imports Gateway
begin

text \<open>
  Accounts and sessions: passwords, tokens and tickets (\<open>internal/auth\<close>), the service that registers and
  logs in (\<open>authsvc\<close>), and the checks in front of the REST routes (\<open>httpapi/mw\<close>). bcrypt and the JWT
  library are not part of the repository: they are the fields of \<open>crypto\<close>, with \<open>crypto_laws\<close> for
  what their documentation promises.
\<close>

section \<open>The libraries\<close>

record claims =
  cl_UserID :: user_id
  cl_Email :: string
  cl_DisplayName :: string
  cl_IssuedAt :: time
  cl_ExpiresAt :: time

text \<open>The claims without the constant issuer and the subject, which repeats the user. \<open>cr_hash\<close> takes a salt and a password; \<open>cr_sign\<close> and \<open>cr_parse\<close> the secret first;
  \<open>cr_lower\<close> lowers strings that are not ASCII.\<close>

record crypto =
  cr_hash :: "string \<Rightarrow> string \<Rightarrow> string option"
  cr_compare :: "string \<Rightarrow> string \<Rightarrow> bool"
  cr_sign :: "string \<Rightarrow> claims \<Rightarrow> string option"
  cr_parse :: "string \<Rightarrow> time \<Rightarrow> string \<Rightarrow> claims option"
  cr_lower :: "string \<Rightarrow> string"

text \<open>A hash matches the password it was made from, and a token signed with a secret is read back with the
  same secret until it expires.\<close>

definition crypto_laws :: "crypto \<Rightarrow> bool" where
  "crypto_laws cr \<longleftrightarrow>
     (\<forall>salt pw h. cr_hash cr salt pw = Some h \<longrightarrow> cr_compare cr h pw) \<and>
     (\<forall>secret c tok now. cr_sign cr secret c = Some tok \<longrightarrow> now < cl_ExpiresAt c \<longrightarrow> cr_parse cr secret now tok = Some c)"

definition ascii_lower :: "char \<Rightarrow> char" where
  "ascii_lower c = (let n = of_char c :: nat in if 65 \<le> n \<and> n \<le> 90 then char_of (n + 32) else c)"

definition ToLower :: "crypto \<Rightarrow> string \<Rightarrow> string" where
  "ToLower cr s = (if list_all (\<lambda>c. (of_char c :: nat) < 128) s then map ascii_lower s else cr_lower cr s)"

section \<open>password.go and jwt.go\<close>

definition HashPassword :: "crypto \<Rightarrow> string \<Rightarrow> string \<Rightarrow> base_err + string" where
  "HashPassword cr salt pw =
     (if length pw < 8 then Inl ErrPasswordTooShort
      else case cr_hash cr salt pw of None \<Rightarrow> Inl CryptoErr | Some h \<Rightarrow> Inr h)"

definition VerifyPassword :: "crypto \<Rightarrow> string \<Rightarrow> string \<Rightarrow> bool" where
  "VerifyPassword cr hash pw = cr_compare cr hash pw"

record issuer =
  is_secret :: string
  is_accessTTL :: duration

definition whole_seconds :: "time \<Rightarrow> time" where
  "whole_seconds t = t - t mod Second"

definition IssueAccess :: "crypto \<Rightarrow> env \<Rightarrow> issuer \<Rightarrow> user_id \<Rightarrow> string \<Rightarrow> string \<Rightarrow> base_err + (string \<times> time)" where
  "IssueAccess cr env iss uid email display =
     (let expiry = env_now env [0] + is_accessTTL iss;
          c = \<lparr>cl_UserID = uid, cl_Email = email, cl_DisplayName = display,
               cl_IssuedAt = whole_seconds (env_now env [1]), cl_ExpiresAt = whole_seconds expiry\<rparr>
      in case cr_sign cr (is_secret iss) c of None \<Rightarrow> Inl CryptoErr | Some tok \<Rightarrow> Inr (tok, expiry))"

definition Verify :: "crypto \<Rightarrow> issuer \<Rightarrow> time \<Rightarrow> string \<Rightarrow> base_err + claims" where
  "Verify cr iss now tok = (case cr_parse cr (is_secret iss) now tok of None \<Rightarrow> Inl ErrTokenInvalid | Some c \<Rightarrow> Inr c)"

section \<open>ticket.go\<close>

record ws_ticket =
  tk_UserID :: user_id
  tk_Email :: string
  tk_DisplayName :: string
  tk_IssuedAt :: time

text \<open>The database, and the tickets in Redis with the instants they expire at (Redis counts in
  milliseconds, the lifetime the server is configured with is a multiple of them).\<close>

record auth_state =
  au_world :: world
  au_tickets :: "(string, ws_ticket \<times> time option) gomap"

definition ticketKey :: "string \<Rightarrow> string" where
  "ticketKey i = ''ws:ticket:'' @ i"

definition Mint :: "env \<Rightarrow> duration \<Rightarrow> ws_ticket \<Rightarrow> auth_state \<Rightarrow> auth_state \<times> (base_err + string)" where
  "Mint env ttl t s =
     (if env_outcome env [0] \<noteq> Delivered then (s, Inl CryptoErr)
      else
        let i = env_uuid env [];
            lapse = (if ttl > 0 then Some (env_now env [1] + ttl) else None);
            s' = s\<lparr>au_tickets := mput (ticketKey i) (t\<lparr>tk_IssuedAt := env_now env [0]\<rparr>, lapse) (au_tickets s)\<rparr>
        in case env_outcome env [1] of
             Delivered \<Rightarrow> (s', Inr i)
           | Refused \<Rightarrow> (s, Inl DatabaseErr)
           | AnswerLost \<Rightarrow> (s', Inl DatabaseErr))"

text \<open>\<open>GETDEL\<close>: the ticket, if it is there and has not expired, is returned and removed in one step.\<close>

definition Redeem :: "env \<Rightarrow> string \<Rightarrow> auth_state \<Rightarrow> auth_state \<times> (base_err + ws_ticket)" where
  "Redeem env i s =
     (let key = ticketKey i;
          found = (case map_of (au_tickets s) key of
                     Some (t, lapse) \<Rightarrow> if (case lapse of Some e \<Rightarrow> env_now env [] < e | None \<Rightarrow> True) then Some t else None
                   | None \<Rightarrow> None);
          s' = s\<lparr>au_tickets := mdel key (au_tickets s)\<rparr>
      in case env_outcome env [] of
           Refused \<Rightarrow> (s, Inl DatabaseErr)
         | AnswerLost \<Rightarrow> (s', Inl DatabaseErr)
         | Delivered \<Rightarrow> (s', case found of None \<Rightarrow> Inl ErrTicketInvalid | Some t \<Rightarrow> Inr t))"

section \<open>authsvc/service.go\<close>

record register_input =
  ri_Email :: string
  ri_Password :: string
  ri_DisplayName :: string

record login_input =
  li_Email :: string
  li_Password :: string

record token_issued =
  ti_AccessToken :: string
  ti_ExpiresAt :: time
  ti_User :: user

type_synonym 'a auth_act = "auth_state \<Rightarrow> auth_state \<times> (svc_err + 'a)"

definition on_world :: "(world \<Rightarrow> world \<times> 'r) \<Rightarrow> auth_state \<Rightarrow> auth_state \<times> 'r" where
  "on_world f s = (case f (au_world s) of (w, r) \<Rightarrow> (s\<lparr>au_world := w\<rparr>, r))"

definition issue :: "crypto \<Rightarrow> env \<Rightarrow> issuer \<Rightarrow> user \<Rightarrow> svc_err + token_issued" where
  "issue cr env iss u =
     (case IssueAccess cr env iss (usr_ID u) (usr_Email u) (usr_DisplayName u) of
        Inl e \<Rightarrow> Inl (errs_Wrap e Internal ''issuing token'')
      | Inr (tok, expiry) \<Rightarrow> Inr \<lparr>ti_AccessToken = tok, ti_ExpiresAt = expiry, ti_User = u\<rparr>)"

definition defaultColor :: "string \<Rightarrow> string" where
  "defaultColor email =
     (if email = [] then ''#5fa8ff''
      else [''#e8523a'', ''#3a8ce8'', ''#3ae888'', ''#e8c93a'', ''#a23ae8'', ''#e83a8e''] ! ((of_char (hd email) :: nat) mod 6))"

definition Register :: "crypto \<Rightarrow> env \<Rightarrow> issuer \<Rightarrow> register_input \<Rightarrow> token_issued auth_act" where
  "Register cr env iss inp s =
     (let email = ToLower cr (TrimSpace (ri_Email inp)) in
      if email = [] \<or> ri_DisplayName inp = [] then (s, Inl (errs_New BadRequest ''email and display_name are required''))
      else case HashPassword cr (env_uuid env []) (ri_Password inp) of
        Inl e \<Rightarrow> (s, Inl (errs_Wrap e BadRequest ''weak password''))
      | Inr hash \<Rightarrow>
          (case on_world (Users_Create (esub env 0) email hash (ri_DisplayName inp) (defaultColor email)) s of
             (s1, Inl e) \<Rightarrow>
               (s1, Inl (if e = ErrUserExists then errs_New Conflict ''email is already registered'' else errs_Wrap e Internal ''creating user''))
           | (s1, Inr u) \<Rightarrow> (s1, issue cr (esub env 1) iss u)))"

definition Login :: "crypto \<Rightarrow> env \<Rightarrow> issuer \<Rightarrow> login_input \<Rightarrow> token_issued auth_act" where
  "Login cr env iss inp s =
     (case on_world (Users_ByEmail (esub env 0) (ToLower cr (TrimSpace (li_Email inp)))) s of
        (s1, Inl e) \<Rightarrow> (s1, Inl (errs_New Unauthorized ''email or password incorrect''))
      | (s1, Inr u) \<Rightarrow>
          if usr_IsBot u then (s1, Inl (errs_New Unauthorized ''bot accounts cannot use password login''))
          else if \<not> VerifyPassword cr (usr_PasswordHash u) (li_Password inp)
          then (s1, Inl (errs_New Unauthorized ''email or password incorrect''))
          else (fst (on_world (TouchLogin (esub env 1) (usr_ID u)) s1), issue cr (esub env 2) iss u))"

definition LoginAsBot :: "crypto \<Rightarrow> env \<Rightarrow> issuer \<Rightarrow> user_id \<Rightarrow> token_issued auth_act" where
  "LoginAsBot cr env iss uid s =
     (case on_world (Users_ByID (esub env 0) uid) s of
        (s1, Inl e) \<Rightarrow> (s1, Inl (errs_New NotFound ''bot account not found''))
      | (s1, Inr u) \<Rightarrow>
          if \<not> usr_IsBot u then (s1, Inl (errs_New Forbidden ''user is not a bot''))
          else (fst (on_world (TouchLogin (esub env 1) (usr_ID u)) s1), issue cr (esub env 2) iss u))"

definition svc_ListBots :: "env \<Rightarrow> user list auth_act" where
  "svc_ListBots env = on_err (\<lambda>e. errs_Wrap e Internal ''listing bots'') (on_world (ListBots env 32))"

definition MintWSTicket :: "(string \<Rightarrow> string option) \<Rightarrow> env \<Rightarrow> duration \<Rightarrow> claims \<Rightarrow> string auth_act" where
  "MintWSTicket parseUUID env ttl c s =
     (case parseUUID (cl_UserID c) of
        None \<Rightarrow> (s, Inl (errs_Wrap ErrBadUUID BadRequest ''bad subject''))
      | Some uid \<Rightarrow>
          on_err (\<lambda>e. errs_Wrap e Internal ''minting ticket'')
            (Mint env ttl \<lparr>tk_UserID = uid, tk_Email = cl_Email c, tk_DisplayName = cl_DisplayName c, tk_IssuedAt = 0\<rparr>) s)"

section \<open>httpapi/mw\<close>

definition RequireAuth :: "crypto \<Rightarrow> issuer \<Rightarrow> time \<Rightarrow> string \<Rightarrow> svc_err + claims" where
  "RequireAuth cr iss now header =
     (if \<not> prefix ''Bearer '' header then Inl (errs_New Unauthorized ''Authorization header required'')
      else case Verify cr iss now (drop (length ''Bearer '') header) of
        Inl e \<Rightarrow> Inl (errs_Wrap e Unauthorized ''bad token'')
      | Inr c \<Rightarrow> Inr c)"

definition RequireBotKey :: "string \<Rightarrow> string \<Rightarrow> svc_err option" where
  "RequireBotKey expected provided =
     (if expected = [] then Some (errs_New Forbidden ''bot endpoints disabled (BOT_API_KEY unset)'')
      else if provided \<noteq> expected then Some (errs_New Unauthorized ''invalid bot api key'')
      else None)"

text \<open>A ticket at the door of the gateway.\<close>

definition redeem_user :: "env \<Rightarrow> auth_state \<Rightarrow> string \<Rightarrow> user_id option" where
  "redeem_user env s i = (case Redeem env i s of (_, Inr t) \<Rightarrow> Some (tk_UserID t) | _ \<Rightarrow> None)"

end
