(* ===== verification/Http.thy ===== *)
theory Http
  imports Auth Lobby Notify
begin

text \<open>
  The REST interface of core-api: the routes of \<open>internal/app/coreapi.go\<close>, the controllers of
  \<open>httpapi/v1\<close>, the middleware of \<open>httpapi/mw\<close> and the rendering of \<open>httpapi/render\<close>, over the views of
  \<open>pkg/api\<close>. A request is its method, path, headers, query and body; decoding JSON and RFC 3339
  instants, and the texts of driver errors, are the fields of \<open>api_codec\<close>.
\<close>

section \<open>Requests and responses\<close>

datatype http_method = MethodGet | MethodPost | MethodPut | MethodPatch | MethodDelete | MethodOptions | MethodOther string

record http_request =
  rq_Method :: http_method
  rq_Path :: string
  rq_Authorization :: string
  rq_BotKey :: string
  rq_Query :: "(string, string) gomap"
  rq_Body :: string

record user_view =
  uv_ID :: user_id
  uv_Email :: string
  uv_DisplayName :: string
  uv_Color :: string

record token_response =
  tr_AccessToken :: string
  tr_ExpiresAt :: time
  tr_User :: user_view

record me_response =
  mr_ID :: string
  mr_Email :: string
  mr_DisplayName :: string

record bot_user_view =
  bv_ID :: user_id
  bv_Email :: string
  bv_DisplayName :: string

record player_view =
  pw_UserID :: user_id
  pw_Slot :: slot
  pw_Color :: string
  pw_Alive :: bool
  pw_ControlledByAI :: bool

record api_match_view =
  av_ID :: string
  av_Name :: string
  av_MapID :: string
  av_Status :: string
  av_CreatedAt :: time
  av_StartedAt :: "time option"
  av_EndedAt :: "time option"
  av_WinnerID :: "user_id option"
  av_Players :: "player_view list"

record stats_view =
  sv_MatchID :: string
  sv_DurationSec :: int
  sv_TotalUnits :: nat
  sv_TotalCombats :: nat
  sv_CapitalsTaken :: nat
  sv_PerSlot :: extra

record chat_view =
  ch_ID :: string
  ch_MatchID :: string
  ch_Scope :: string
  ch_AuthorID :: user_id
  ch_AuthorSlot :: slot
  ch_Body :: string
  ch_SentAt :: time

record notification_view =
  nv_ID :: string
  nv_UserID :: user_id
  nv_MatchID :: string
  nv_Kind :: string
  nv_Payload :: extra
  nv_CreatedAt :: time
  nv_SentAt :: "time option"
  nv_ReadAt :: "time option"

datatype http_body =
    NoBody
  | ErrorBody string string
  | TextBody string
  | MapsBody "game_map list"
  | TokenBody token_response
  | TicketBody string
  | MeBody me_response
  | BotsBody "bot_user_view list"
  | MatchBody api_match_view
  | MatchesBody "api_match_view list"
  | JoinedBody string slot
  | StatsBody stats_view
  | ChatBody chat_view
  | ChatsBody "chat_view list"
  | NotificationsBody "notification_view list" nat
  | CountBody nat
  | MarkedBody nat
  | HealthBody "(string \<times> string) list"

record http_response =
  rs_Status :: int
  rs_Body :: http_body

record create_request =
  cq_Name :: string
  cq_MapID :: string
  cq_Slot :: slot
  cq_AutoStart :: "bool option"

record patch_slot_request =
  pq_Slot :: slot
  pq_EnableAI :: bool

record send_chat_request =
  sq_Scope :: string
  sq_Body :: string
  sq_AuthorSlot :: slot

record api_codec =
  dec_register :: "string \<Rightarrow> register_input option"
  dec_login :: "string \<Rightarrow> login_input option"
  dec_bot :: "string \<Rightarrow> user_id option"
  dec_create :: "string \<Rightarrow> create_request option"
  dec_join :: "string \<Rightarrow> slot option"
  dec_kick :: "string \<Rightarrow> user_id option"
  dec_patch :: "string \<Rightarrow> patch_slot_request option"
  dec_chat :: "string \<Rightarrow> send_chat_request option"
  dec_time :: "string \<Rightarrow> time option"
  err_text :: "base_err \<Rightarrow> string"

text \<open>What \<open>RunCoreAPI\<close> hands to the router.\<close>

record api_config =
  ac_codec :: api_codec
  ac_crypto :: crypto
  ac_parseUUID :: "string \<Rightarrow> string option"
  ac_issuer :: issuer
  ac_ticketTTL :: duration
  ac_lobby :: lobby_service
  ac_maps :: "game_map list"
  ac_assets :: string
  ac_botKey :: string
  ac_version :: string
  ac_mode :: string

section \<open>The state behind the services\<close>

text \<open>The database is shared: the copies of it in the states of the chat and of the notifications are not
  used, a service runs on \<open>hp_world\<close>.\<close>

record core_state =
  hp_world :: world
  hp_tickets :: "(string, ws_ticket \<times> time option) gomap"
  hp_chat :: chat_service
  hp_notes :: notify_state

definition with_auth :: "(auth_state \<Rightarrow> auth_state \<times> 'r) \<Rightarrow> core_state \<Rightarrow> core_state \<times> 'r" where
  "with_auth f s = (case f \<lparr>au_world = hp_world s, au_tickets = hp_tickets s\<rparr> of
     (a, r) \<Rightarrow> (s\<lparr>hp_world := au_world a, hp_tickets := au_tickets a\<rparr>, r))"

definition with_lobby :: "(world \<Rightarrow> world \<times> 'r) \<Rightarrow> core_state \<Rightarrow> core_state \<times> 'r" where
  "with_lobby f s = (case f (hp_world s) of (w, r) \<Rightarrow> (s\<lparr>hp_world := w\<rparr>, r))"

definition with_chat :: "(chat_service \<Rightarrow> chat_service \<times> 'r) \<Rightarrow> core_state \<Rightarrow> core_state \<times> 'r" where
  "with_chat f s = (case f ((hp_chat s)\<lparr>cs_world := hp_world s\<rparr>) of (c, r) \<Rightarrow> (s\<lparr>hp_chat := c\<lparr>cs_world := cs_world (hp_chat s)\<rparr>, hp_world := cs_world c\<rparr>, r))"

definition with_notes :: "(notify_state \<Rightarrow> notify_state \<times> 'r) \<Rightarrow> core_state \<Rightarrow> core_state \<times> 'r" where
  "with_notes f s = (case f ((hp_notes s)\<lparr>ns_world := hp_world s\<rparr>) of (n, r) \<Rightarrow> (s\<lparr>hp_notes := n\<lparr>ns_world := ns_world (hp_notes s)\<rparr>, hp_world := ns_world n\<rparr>, r))"

section \<open>render.go and mapper.go\<close>

primrec code_string :: "code \<Rightarrow> string" where
  "code_string BadRequest = ''bad_request''"
| "code_string Unauthorized = ''unauthorized''"
| "code_string Forbidden = ''forbidden''"
| "code_string NotFound = ''not_found''"
| "code_string Conflict = ''conflict''"
| "code_string RateLimited = ''rate_limited''"
| "code_string UnavailableCode = ''unavailable''"
| "code_string Internal = ''internal''"

definition render_JSON :: "int \<Rightarrow> http_body \<Rightarrow> http_response" where
  "render_JSON status body = \<lparr>rs_Status = status, rs_Body = body\<rparr>"

definition render_Err :: "(base_err \<Rightarrow> string) \<Rightarrow> svc_err \<Rightarrow> http_response" where
  "render_Err text e =
     (case e of
        Coded c msg _ \<Rightarrow> render_JSON (HTTPStatus c) (ErrorBody (code_string c) msg)
      | Plain b \<Rightarrow> render_JSON 500 (ErrorBody (code_string Internal) (text b)))"

primrec status_string :: "status \<Rightarrow> string" where
  "status_string StatusWaiting = ''waiting''"
| "status_string StatusStarting = ''starting''"
| "status_string StatusActive = ''active''"
| "status_string StatusEnded = ''ended''"
| "status_string StatusAbandoned = ''abandoned''"

definition userView :: "user \<Rightarrow> user_view" where
  "userView u = \<lparr>uv_ID = usr_ID u, uv_Email = usr_Email u, uv_DisplayName = usr_DisplayName u, uv_Color = usr_Color u\<rparr>"

definition matchView :: "match_view \<Rightarrow> api_match_view" where
  "matchView view =
     (let m = mv_Match view in
      \<lparr>av_ID = lm_ID m, av_Name = lm_Name m, av_MapID = lm_MapID m, av_Status = status_string (lm_Status m),
       av_CreatedAt = lm_CreatedAt m, av_StartedAt = lm_StartedAt m, av_EndedAt = lm_EndedAt m, av_WinnerID = lm_WinnerUserID m,
       av_Players = map (\<lambda>p. \<lparr>pw_UserID = lp_UserID p, pw_Slot = lp_Slot p, pw_Color = lp_Color p, pw_Alive = lp_Alive p,
                              pw_ControlledByAI = lp_ControlledByAI p\<rparr>) (mv_Players view)\<rparr>)"

definition matchViews :: "match_view list \<Rightarrow> api_match_view list" where
  "matchViews views = map matchView views"

definition chatMessageView :: "chat_message \<Rightarrow> chat_view" where
  "chatMessageView m = \<lparr>ch_ID = cm_ID m, ch_MatchID = cm_MatchID m, ch_Scope = cm_Scope m, ch_AuthorID = cm_AuthorID m,
     ch_AuthorSlot = cm_AuthorSlot m, ch_Body = cm_Body m, ch_SentAt = cm_SentAt m\<rparr>"

definition notificationView :: "notification \<Rightarrow> notification_view" where
  "notificationView n = \<lparr>nv_ID = nf_ID n, nv_UserID = nf_UserID n, nv_MatchID = nf_MatchID n, nv_Kind = nf_Kind n,
     nv_Payload = nf_Payload n, nv_CreatedAt = nf_CreatedAt n, nv_SentAt = nf_SentAt n, nv_ReadAt = nf_ReadAt n\<rparr>"

definition tokenView :: "token_issued \<Rightarrow> http_body" where
  "tokenView t = TokenBody \<lparr>tr_AccessToken = ti_AccessToken t, tr_ExpiresAt = ti_ExpiresAt t, tr_User = userView (ti_User t)\<rparr>"

text \<open>The end of a handler: an error is rendered as such, a result with the status of success.\<close>

definition answer :: "api_config \<Rightarrow> int \<Rightarrow> ('a \<Rightarrow> http_body) \<Rightarrow> core_state \<times> (svc_err + 'a) \<Rightarrow> core_state \<times> http_response" where
  "answer cfg status view sr =
     (case sr of
        (s, Inl e) \<Rightarrow> (s, render_Err (err_text (ac_codec cfg)) e)
      | (s, Inr a) \<Rightarrow> (s, render_JSON status (view a)))"

definition decode_body :: "('a option) \<Rightarrow> svc_err + 'a" where
  "decode_body d = (case d of None \<Rightarrow> Inl (Coded BadRequest ''invalid JSON'' None) | Some a \<Rightarrow> Inr a)"

text \<open>A check whose failure ends the request.\<close>

definition check :: "api_config \<Rightarrow> svc_err + 'a \<Rightarrow> ('a \<Rightarrow> core_state \<Rightarrow> core_state \<times> http_response) \<Rightarrow> core_state \<Rightarrow> core_state \<times> http_response" where
  "check cfg r k s = (case r of Inl e \<Rightarrow> (s, render_Err (err_text (ac_codec cfg)) e) | Inr a \<Rightarrow> k a s)"

section \<open>Parameters of a request\<close>

definition userIDFrom :: "api_config \<Rightarrow> claims \<Rightarrow> svc_err + user_id" where
  "userIDFrom cfg c =
     (case ac_parseUUID cfg (cl_UserID c) of None \<Rightarrow> Inl (errs_Wrap ErrBadUUID BadRequest ''bad subject'') | Some uid \<Rightarrow> Inr uid)"

definition matchParam :: "api_config \<Rightarrow> string \<Rightarrow> svc_err + string" where
  "matchParam cfg raw =
     (case ac_parseUUID cfg raw of None \<Rightarrow> Inl (errs_Wrap ErrBadUUID BadRequest ''bad match id'') | Some mid \<Rightarrow> Inr mid)"

definition matchActor :: "api_config \<Rightarrow> claims \<Rightarrow> string \<Rightarrow> svc_err + (user_id \<times> string)" where
  "matchActor cfg c raw =
     (case userIDFrom cfg c of
        Inl e \<Rightarrow> Inl e
      | Inr uid \<Rightarrow> (case matchParam cfg raw of Inl e \<Rightarrow> Inl e | Inr mid \<Rightarrow> Inr (uid, mid)))"

definition query_get :: "http_request \<Rightarrow> string \<Rightarrow> string" where
  "query_get rq key = (case map_of (rq_Query rq) key of Some v \<Rightarrow> v | None \<Rightarrow> [])"

text \<open>\<open>strconv.Atoi\<close>: an optional sign and decimal digits, within 64 bits.\<close>

fun digits_value :: "int \<Rightarrow> string \<Rightarrow> int option" where
  "digits_value acc [] = Some acc"
| "digits_value acc (c # cs) =
     (let n = of_char c :: int in if 48 \<le> n \<and> n \<le> 57 then digits_value (acc * 10 + (n - 48)) cs else None)"

definition Atoi :: "string \<Rightarrow> int option" where
  "Atoi s =
     (let ds = (if s \<noteq> [] \<and> (hd s = CHR ''-'' \<or> hd s = CHR ''+'') then tl s else s) in
      if ds = [] then None
      else case digits_value 0 ds of
             None \<Rightarrow> None
           | Some n \<Rightarrow>
               let v = (if hd s = CHR ''-'' then - n else n) in
               if - (2 ^ 63) \<le> v \<and> v < 2 ^ 63 then Some v else None)"

definition parseLimit :: "http_request \<Rightarrow> int" where
  "parseLimit rq =
     (let raw = query_get rq ''limit'' in
      if raw = [] then 0 else case Atoi raw of None \<Rightarrow> 0 | Some n \<Rightarrow> if n < 1 then 0 else n)"

definition timeParam :: "api_config \<Rightarrow> string \<Rightarrow> string \<Rightarrow> svc_err + time" where
  "timeParam cfg raw msg =
     (if raw = [] then Inr 0
      else case dec_time (ac_codec cfg) raw of None \<Rightarrow> Inl (Coded BadRequest msg None) | Some t \<Rightarrow> Inr t)"

section \<open>authctl.go\<close>

type_synonym handler = "core_state \<Rightarrow> core_state \<times> http_response"

definition ctl_Register :: "api_config \<Rightarrow> env \<Rightarrow> http_request \<Rightarrow> handler" where
  "ctl_Register cfg env rq =
     check cfg (decode_body (dec_register (ac_codec cfg) (rq_Body rq))) (\<lambda>req s.
       answer cfg 200 tokenView (with_auth (Register (ac_crypto cfg) env (ac_issuer cfg) req) s))"

definition ctl_Login :: "api_config \<Rightarrow> env \<Rightarrow> http_request \<Rightarrow> handler" where
  "ctl_Login cfg env rq =
     check cfg (decode_body (dec_login (ac_codec cfg) (rq_Body rq))) (\<lambda>req s.
       answer cfg 200 tokenView (with_auth (Login (ac_crypto cfg) env (ac_issuer cfg) req) s))"

definition ctl_WSTicket :: "api_config \<Rightarrow> env \<Rightarrow> claims \<Rightarrow> handler" where
  "ctl_WSTicket cfg env c s =
     answer cfg 200 TicketBody (with_auth (MintWSTicket (ac_parseUUID cfg) env (ac_ticketTTL cfg) c) s)"

definition ctl_Me :: "claims \<Rightarrow> handler" where
  "ctl_Me c s = (s, render_JSON 200 (MeBody \<lparr>mr_ID = cl_UserID c, mr_Email = cl_Email c, mr_DisplayName = cl_DisplayName c\<rparr>))"

definition ctl_LoginAsBot :: "api_config \<Rightarrow> env \<Rightarrow> http_request \<Rightarrow> handler" where
  "ctl_LoginAsBot cfg env rq =
     check cfg (decode_body (dec_bot (ac_codec cfg) (rq_Body rq))) (\<lambda>uid s.
       answer cfg 200 tokenView (with_auth (LoginAsBot (ac_crypto cfg) env (ac_issuer cfg) uid) s))"

definition ctl_ListBots :: "api_config \<Rightarrow> env \<Rightarrow> handler" where
  "ctl_ListBots cfg env s =
     answer cfg 200 (\<lambda>bots. BotsBody (map (\<lambda>b. \<lparr>bv_ID = usr_ID b, bv_Email = usr_Email b, bv_DisplayName = usr_DisplayName b\<rparr>) bots))
       (with_auth (svc_ListBots env) s)"

section \<open>matchctl.go\<close>

definition ctl_Create :: "api_config \<Rightarrow> env \<Rightarrow> claims \<Rightarrow> http_request \<Rightarrow> handler" where
  "ctl_Create cfg env c rq =
     check cfg (userIDFrom cfg c) (\<lambda>uid.
     check cfg (decode_body (dec_create (ac_codec cfg) (rq_Body rq))) (\<lambda>req s.
       answer cfg 201 (MatchBody \<circ> matchView)
         (with_lobby (lobby_Create env (ac_lobby cfg)
            \<lparr>ci_Name = cq_Name req, ci_MapID = cq_MapID req, ci_Slot = cq_Slot req, ci_UserID = uid, ci_AutoStart = cq_AutoStart req\<rparr>) s)))"

text \<open>A body that does not decode leaves the slot open.\<close>

definition ctl_Join :: "api_config \<Rightarrow> env \<Rightarrow> claims \<Rightarrow> string \<Rightarrow> http_request \<Rightarrow> handler" where
  "ctl_Join cfg env c raw rq =
     check cfg (matchActor cfg c raw) (\<lambda>(uid, mid) s.
       let slot = (case dec_join (ac_codec cfg) (rq_Body rq) of Some sl \<Rightarrow> sl | None \<Rightarrow> []) in
       answer cfg 200 (\<lambda>out. if jr_AlreadyJoined out then JoinedBody ''already_joined'' (jr_JoinedSlot out) else MatchBody (matchView (jr_View out)))
         (with_lobby (lobby_Join env (ac_lobby cfg) \<lparr>ji_MatchID = mid, ji_UserID = uid, ji_Slot = slot\<rparr>) s))"

definition ctl_Start :: "api_config \<Rightarrow> env \<Rightarrow> string \<Rightarrow> handler" where
  "ctl_Start cfg env raw =
     check cfg (matchParam cfg raw) (\<lambda>mid s. answer cfg 200 (MatchBody \<circ> matchView) (with_lobby (lobby_Start env (ac_lobby cfg) mid) s))"

definition ctl_List :: "api_config \<Rightarrow> env \<Rightarrow> claims \<Rightarrow> handler" where
  "ctl_List cfg env c =
     check cfg (userIDFrom cfg c) (\<lambda>uid s. answer cfg 200 (MatchesBody \<circ> matchViews) (with_lobby (lobby_ListLobby env uid) s))"

definition ctl_Get :: "api_config \<Rightarrow> env \<Rightarrow> string \<Rightarrow> handler" where
  "ctl_Get cfg env raw =
     check cfg (matchParam cfg raw) (\<lambda>mid s. answer cfg 200 (MatchBody \<circ> matchView) (with_lobby (lobby_Get env mid) s))"

definition ctl_Leave :: "api_config \<Rightarrow> env \<Rightarrow> claims \<Rightarrow> string \<Rightarrow> handler" where
  "ctl_Leave cfg env c raw =
     check cfg (matchActor cfg c raw) (\<lambda>(uid, mid) s. answer cfg 200 (MatchBody \<circ> matchView) (with_lobby (Leave env mid uid) s))"

definition ctl_Kick :: "api_config \<Rightarrow> env \<Rightarrow> claims \<Rightarrow> string \<Rightarrow> http_request \<Rightarrow> handler" where
  "ctl_Kick cfg env c raw rq =
     check cfg (matchActor cfg c raw) (\<lambda>(uid, mid).
     check cfg (decode_body (dec_kick (ac_codec cfg) (rq_Body rq))) (\<lambda>target s.
       answer cfg 200 (MatchBody \<circ> matchView)
         (with_lobby (Kick env \<lparr>ki_MatchID = mid, ki_ActorID = uid, ki_TargetUID = target\<rparr>) s)))"

definition ctl_Handoff :: "api_config \<Rightarrow> env \<Rightarrow> claims \<Rightarrow> string \<Rightarrow> handler" where
  "ctl_Handoff cfg env c raw =
     check cfg (matchActor cfg c raw) (\<lambda>(uid, mid) s. answer cfg 200 (MatchBody \<circ> matchView) (with_lobby (Handoff env mid uid) s))"

definition ctl_PatchSlots :: "api_config \<Rightarrow> env \<Rightarrow> claims \<Rightarrow> string \<Rightarrow> http_request \<Rightarrow> handler" where
  "ctl_PatchSlots cfg env c raw rq =
     check cfg (matchActor cfg c raw) (\<lambda>(uid, mid).
     check cfg (decode_body (dec_patch (ac_codec cfg) (rq_Body rq))) (\<lambda>req s.
       answer cfg 200 (MatchBody \<circ> matchView)
         (with_lobby (PatchSlotAI env (ac_lobby cfg)
            \<lparr>pi_MatchID = mid, pi_ActorID = uid, pi_Slot = pq_Slot req, pi_EnableAI = pq_EnableAI req\<rparr>) s)))"

definition statsReader_Get :: "env \<Rightarrow> string \<Rightarrow> world \<Rightarrow> world \<times> (base_err + stats_view)" where
  "statsReader_Get env mid =
     ebind (Stats_Get env mid) (\<lambda>row.
       ret \<lparr>sv_MatchID = st_MatchID row, sv_DurationSec = st_DurationSec row, sv_TotalUnits = st_TotalUnits row,
            sv_TotalCombats = st_TotalCombats row, sv_CapitalsTaken = st_CapitalsTaken row, sv_PerSlot = st_PerSlot row\<rparr>)"

definition ctl_Stats :: "api_config \<Rightarrow> env \<Rightarrow> string \<Rightarrow> handler" where
  "ctl_Stats cfg env raw =
     check cfg (matchParam cfg raw) (\<lambda>mid s.
       answer cfg 200 StatsBody (with_lobby (on_err (\<lambda>_. errs_New NotFound ''stats not found'') (statsReader_Get env mid)) s))"

section \<open>chatctl.go\<close>

definition ctl_Send :: "api_config \<Rightarrow> env \<Rightarrow> claims \<Rightarrow> string \<Rightarrow> http_request \<Rightarrow> handler" where
  "ctl_Send cfg env c raw rq =
     check cfg (matchActor cfg c raw) (\<lambda>(uid, mid).
     check cfg (decode_body (dec_chat (ac_codec cfg) (rq_Body rq))) (\<lambda>req s.
       answer cfg 201 (ChatBody \<circ> chatMessageView)
         (with_chat (Send (ac_parseUUID cfg) env
            \<lparr>sd_MatchID = mid, sd_AuthorID = uid, sd_AuthorSlot = sq_AuthorSlot req, sd_Scope = sq_Scope req, sd_Body = sq_Body req\<rparr>) s)))"

definition ctl_History :: "api_config \<Rightarrow> env \<Rightarrow> string \<Rightarrow> http_request \<Rightarrow> handler" where
  "ctl_History cfg env raw rq =
     check cfg (matchParam cfg raw) (\<lambda>mid.
       let scope = query_get rq ''scope'' in
       check cfg (if scope = [] then Inl (errs_New BadRequest ''scope query param required'') else Inr ()) (\<lambda>_.
       check cfg (timeParam cfg (query_get rq ''before'') ''bad before timestamp'') (\<lambda>before s.
         answer cfg 200 (ChatsBody \<circ> map chatMessageView)
           (with_chat (chat_History env \<lparr>hq_MatchID = mid, hq_Scope = scope, hq_Before = before, hq_Limit = parseLimit rq\<rparr>) s))))"

section \<open>notifyctl.go and mapctl.go\<close>

definition ctl_Notifications :: "api_config \<Rightarrow> env \<Rightarrow> claims \<Rightarrow> http_request \<Rightarrow> handler" where
  "ctl_Notifications cfg env c rq =
     check cfg (userIDFrom cfg c) (\<lambda>uid.
     check cfg (timeParam cfg (query_get rq ''after'') ''bad after timestamp'') (\<lambda>after_t s.
       answer cfg 200 (\<lambda>(items, n). NotificationsBody (map notificationView items) n)
         (with_notes (ebind (svc_List (esub env 0) \<lparr>lq_UserID = uid, lq_After = after_t, lq_Limit = parseLimit rq\<rparr>) (\<lambda>items.
                      ebind (svc_UnreadCount (esub env 1) uid) (\<lambda>n. ret (items, n)))) s)))"

definition ctl_UnreadCount :: "api_config \<Rightarrow> env \<Rightarrow> claims \<Rightarrow> handler" where
  "ctl_UnreadCount cfg env c =
     check cfg (userIDFrom cfg c) (\<lambda>uid s. answer cfg 200 CountBody (with_notes (svc_UnreadCount env uid) s))"

definition ctl_MarkRead :: "api_config \<Rightarrow> env \<Rightarrow> claims \<Rightarrow> handler" where
  "ctl_MarkRead cfg env c =
     check cfg (userIDFrom cfg c) (\<lambda>uid s. answer cfg 200 MarkedBody (with_notes (svc_MarkAllRead env uid) s))"

definition enrichMapAssets :: "string \<Rightarrow> game_map \<Rightarrow> game_map" where
  "enrichMapAssets base m =
     (if map_SVGURL m \<noteq> [] then m
      else let path = ''/maps/'' @ map_ID m @ ''.svg'' in m\<lparr>map_SVGURL := (if base \<noteq> [] then base @ path else path)\<rparr>)"

definition NewMapController :: "string \<Rightarrow> string" where
  "NewMapController base = rev (dropWhile (\<lambda>c. c = CHR ''/'') (rev base))"

definition ctl_Maps :: "api_config \<Rightarrow> handler" where
  "ctl_Maps cfg s = (s, render_JSON 200 (MapsBody (map (enrichMapAssets (NewMapController (ac_assets cfg))) (ac_maps cfg))))"

section \<open>coreapi.go: the routes\<close>

datatype segment = Lit string | MatchID

datatype endpoint =
    EpVersion | EpMaps | EpRegister | EpLogin | EpLoginAsBot | EpListBots | EpWSTicket | EpMe
  | EpCreate | EpList | EpGet | EpJoin | EpStart | EpLeave | EpKick | EpHandoff | EpPatchSlots | EpStats
  | EpSend | EpHistory | EpNotifications | EpUnreadCount | EpMarkRead

datatype guard = Public | BotKey | Bearer

definition mountV1 :: "(guard \<times> http_method \<times> segment list \<times> endpoint) list" where
  "mountV1 =
    [(Public, MethodGet, [Lit ''version''], EpVersion),
     (Public, MethodGet, [Lit ''maps''], EpMaps),
     (Public, MethodPost, [Lit ''auth'', Lit ''register''], EpRegister),
     (Public, MethodPost, [Lit ''auth'', Lit ''login''], EpLogin),
     (BotKey, MethodPost, [Lit ''auth'', Lit ''login-as-bot''], EpLoginAsBot),
     (BotKey, MethodGet, [Lit ''auth'', Lit ''bots''], EpListBots),
     (Bearer, MethodPost, [Lit ''auth'', Lit ''ws-ticket''], EpWSTicket),
     (Bearer, MethodGet, [Lit ''auth'', Lit ''me''], EpMe),
     (Bearer, MethodPost, [Lit ''matches''], EpCreate),
     (Bearer, MethodGet, [Lit ''matches''], EpList),
     (Bearer, MethodGet, [Lit ''matches'', MatchID], EpGet),
     (Bearer, MethodPost, [Lit ''matches'', MatchID, Lit ''join''], EpJoin),
     (Bearer, MethodPost, [Lit ''matches'', MatchID, Lit ''start''], EpStart),
     (Bearer, MethodPost, [Lit ''matches'', MatchID, Lit ''leave''], EpLeave),
     (Bearer, MethodPost, [Lit ''matches'', MatchID, Lit ''kick''], EpKick),
     (Bearer, MethodPost, [Lit ''matches'', MatchID, Lit ''handoff''], EpHandoff),
     (Bearer, MethodPatch, [Lit ''matches'', MatchID, Lit ''slots''], EpPatchSlots),
     (Bearer, MethodGet, [Lit ''matches'', MatchID, Lit ''stats''], EpStats),
     (Bearer, MethodPost, [Lit ''matches'', MatchID, Lit ''chat''], EpSend),
     (Bearer, MethodGet, [Lit ''matches'', MatchID, Lit ''chat''], EpHistory),
     (Bearer, MethodGet, [Lit ''notifications''], EpNotifications),
     (Bearer, MethodGet, [Lit ''notifications'', Lit ''unread-count''], EpUnreadCount),
     (Bearer, MethodPost, [Lit ''notifications'', Lit ''mark-read''], EpMarkRead)]"

text \<open>The router (chi) compares a path segment by segment; the parameter takes any segment that is not empty.\<close>

fun segments_match :: "segment list \<Rightarrow> string list \<Rightarrow> bool" where
  "segments_match [] [] \<longleftrightarrow> True"
| "segments_match (Lit l # ps) (x # xs) \<longleftrightarrow> l = x \<and> segments_match ps xs"
| "segments_match (MatchID # ps) (x # xs) \<longleftrightarrow> x \<noteq> [] \<and> segments_match ps xs"
| "segments_match _ _ \<longleftrightarrow> False"

definition api_path :: "string \<Rightarrow> string list option" where
  "api_path p =
     (case split_on (CHR ''/'') p of
        a # b # c # segs \<Rightarrow> if a = [] \<and> b = ''api'' \<and> c = ''v1'' then Some segs else None
      | _ \<Rightarrow> None)"

definition handle :: "api_config \<Rightarrow> env \<Rightarrow> claims \<Rightarrow> string \<Rightarrow> http_request \<Rightarrow> endpoint \<Rightarrow> handler" where
  "handle cfg env c raw rq ep =
     (case ep of
        EpVersion \<Rightarrow> (\<lambda>s. (s, render_JSON 200 (TextBody (ac_version cfg))))
      | EpMaps \<Rightarrow> ctl_Maps cfg
      | EpRegister \<Rightarrow> ctl_Register cfg env rq
      | EpLogin \<Rightarrow> ctl_Login cfg env rq
      | EpLoginAsBot \<Rightarrow> ctl_LoginAsBot cfg env rq
      | EpListBots \<Rightarrow> ctl_ListBots cfg env
      | EpWSTicket \<Rightarrow> ctl_WSTicket cfg env c
      | EpMe \<Rightarrow> ctl_Me c
      | EpCreate \<Rightarrow> ctl_Create cfg env c rq
      | EpList \<Rightarrow> ctl_List cfg env c
      | EpGet \<Rightarrow> ctl_Get cfg env raw
      | EpJoin \<Rightarrow> ctl_Join cfg env c raw rq
      | EpStart \<Rightarrow> ctl_Start cfg env raw
      | EpLeave \<Rightarrow> ctl_Leave cfg env c raw
      | EpKick \<Rightarrow> ctl_Kick cfg env c raw rq
      | EpHandoff \<Rightarrow> ctl_Handoff cfg env c raw
      | EpPatchSlots \<Rightarrow> ctl_PatchSlots cfg env c raw rq
      | EpStats \<Rightarrow> ctl_Stats cfg env raw
      | EpSend \<Rightarrow> ctl_Send cfg env c raw rq
      | EpHistory \<Rightarrow> ctl_History cfg env raw rq
      | EpNotifications \<Rightarrow> ctl_Notifications cfg env c rq
      | EpUnreadCount \<Rightarrow> ctl_UnreadCount cfg env c
      | EpMarkRead \<Rightarrow> ctl_MarkRead cfg env c)"

definition no_claims :: claims where
  "no_claims = \<lparr>cl_UserID = [], cl_Email = [], cl_DisplayName = [], cl_IssuedAt = 0, cl_ExpiresAt = 0\<rparr>"

text \<open>The middleware of the group a route belongs to, and the handler.\<close>

definition guarded :: "api_config \<Rightarrow> env \<Rightarrow> guard \<Rightarrow> string \<Rightarrow> http_request \<Rightarrow> endpoint \<Rightarrow> handler" where
  "guarded cfg env g raw rq ep =
     (case g of
        Public \<Rightarrow> handle cfg (esub env 1) no_claims raw rq ep
      | BotKey \<Rightarrow>
          check cfg (case RequireBotKey (ac_botKey cfg) (rq_BotKey rq) of Some e \<Rightarrow> Inl e | None \<Rightarrow> Inr ())
            (\<lambda>_. handle cfg (esub env 1) no_claims raw rq ep)
      | Bearer \<Rightarrow>
          check cfg (RequireAuth (ac_crypto cfg) (ac_issuer cfg) (env_now env [0]) (rq_Authorization rq))
            (\<lambda>c. handle cfg (esub env 1) c raw rq ep))"

definition not_found :: svc_err where
  "not_found = errs_New NotFound ''route not found''"

text \<open>A preflight request ends in the CORS middleware; a path that exists with another method is answered by chi.\<close>

definition CORS_methods :: "http_method list" where
  "CORS_methods = [MethodGet, MethodPost, MethodPut, MethodDelete, MethodOptions]"

text \<open>\<open>platform/health\<close>: the first check that fails is reported. Core-api registers one check, for readiness.\<close>

definition health_write :: "string \<Rightarrow> string \<Rightarrow> string option list \<Rightarrow> http_response" where
  "health_write mode version checks =
     (case find (\<lambda>c. c \<noteq> None) checks of
        Some (Some e) \<Rightarrow> render_JSON 503 (HealthBody [(''status'', ''fail''), (''error'', e), (''mode'', mode)])
      | _ \<Rightarrow> render_JSON 200 (HealthBody [(''status'', ''ok''), (''mode'', mode), (''version'', version)]))"

definition core_ready :: "(base_err \<Rightarrow> string) \<Rightarrow> env \<Rightarrow> string option" where
  "core_ready text env =
     (if env_outcome env [0] \<noteq> Delivered then Some (text DatabaseErr)
      else if env_outcome env [1] \<noteq> Delivered then Some (text DatabaseErr)
      else if env_outcome env [2] \<noteq> Delivered then Some ''nats disconnected''
      else None)"

definition probe :: "api_config \<Rightarrow> env \<Rightarrow> string \<Rightarrow> http_response option" where
  "probe cfg env path =
     (if path = ''/healthz'' then Some (health_write (ac_mode cfg) (ac_version cfg) [])
      else if path = ''/readyz'' then Some (health_write (ac_mode cfg) (ac_version cfg) [core_ready (err_text (ac_codec cfg)) env])
      else None)"

definition serve :: "api_config \<Rightarrow> env \<Rightarrow> http_request \<Rightarrow> handler" where
  "serve cfg env rq s =
     (if rq_Method rq = MethodOptions then (s, render_JSON 204 NoBody)
      else case probe cfg (esub env 2) (rq_Path rq) of
        Some rs \<Rightarrow> (s, if rq_Method rq = MethodGet then rs else render_JSON 405 NoBody)
      | None \<Rightarrow> (case api_path (rq_Path rq) of
        None \<Rightarrow> (s, render_Err (err_text (ac_codec cfg)) not_found)
      | Some segs \<Rightarrow>
          (case find (\<lambda>(g, m, ps, ep). m = rq_Method rq \<and> segments_match ps segs) mountV1 of
             Some (g, m, ps, ep) \<Rightarrow> guarded cfg env g (if length segs > 1 then segs ! 1 else []) rq ep s
           | None \<Rightarrow>
               if list_ex (\<lambda>(g, m, ps, ep). segments_match ps segs) mountV1 then (s, render_JSON 405 NoBody)
               else (s, render_Err (err_text (ac_codec cfg)) not_found))))"

end
