(* ===== verification/Accounts.thy ===== *)
theory Accounts
  imports Auth Jobs
begin

text \<open>
  Facts on accounts and tickets: what the operations of the service keep of a row of \<open>users\<close> and of a
  ticket, and the way from a registration to a socket of the gateway.
\<close>

section \<open>The operations of the service\<close>

datatype account_op =
    Registers env register_input
  | LogsIn env login_input
  | BotLogsIn env user_id
  | Mints env claims
  | Redeems env string

definition account_step :: "crypto \<Rightarrow> issuer \<Rightarrow> (string \<Rightarrow> string option) \<Rightarrow> duration \<Rightarrow> account_op \<Rightarrow> auth_state \<Rightarrow> auth_state" where
  "account_step cr iss parse ttl op s =
     (case op of
        Registers env inp \<Rightarrow> fst (Register cr env iss inp s)
      | LogsIn env inp \<Rightarrow> fst (Login cr env iss inp s)
      | BotLogsIn env uid \<Rightarrow> fst (LoginAsBot cr env iss uid s)
      | Mints env c \<Rightarrow> fst (MintWSTicket parse env ttl c s)
      | Redeems env i \<Rightarrow> fst (Redeem env i s))"

definition account_run :: "crypto \<Rightarrow> issuer \<Rightarrow> (string \<Rightarrow> string option) \<Rightarrow> duration \<Rightarrow> account_op list \<Rightarrow> auth_state \<Rightarrow> auth_state" where
  "account_run cr iss parse ttl ops s = foldl (\<lambda>s op. account_step cr iss parse ttl op s) s ops"

section \<open>Accounts stay what they are\<close>

text \<open>An account as its owner knows it: the row of an address, but for the date of the last login.\<close>

definition has_account :: "string \<Rightarrow> user_id \<Rightarrow> string \<Rightarrow> string \<Rightarrow> bool \<Rightarrow> auth_state \<Rightarrow> bool" where
  "has_account email uid hash display isBot s \<longleftrightarrow>
     (\<exists>u. find (\<lambda>u. usr_Email u = email) (w_users (au_world s)) = Some u \<and> usr_ID u = uid \<and> usr_PasswordHash u = hash
        \<and> usr_DisplayName u = display \<and> usr_IsBot u = isBot)"

lemma find_append_Some: "find P xs = Some x \<Longrightarrow> find P (xs @ ys) = Some x"
  by (induction xs) auto

lemma find_append_None: "\<not> list_ex P xs \<Longrightarrow> P y \<Longrightarrow> find P (xs @ [y]) = Some y"
  by (induction xs) auto

lemma ByEmail_keeps: "fst (Users_ByEmail env e w) = w"
  by (simp add: Users_ByEmail_def ebind_def reading_def statement_def ret_def raise_def split: outcome.splits option.splits)

lemma ByID_keeps: "fst (Users_ByID env uid w) = w"
  by (simp add: Users_ByID_def ebind_def reading_def statement_def ret_def raise_def split: outcome.splits option.splits)

lemma Create_users:
  "fst (Users_Create env e h d c w) = w \<or> (\<exists>u. fst (Users_Create env e h d c w) = w\<lparr>w_users := w_users w @ [u]\<rparr>)"
  by (auto simp: Users_Create_def statement_def Let_def split: outcome.split)

lemma TouchLogin_users:
  "fst (TouchLogin env uid w) = w \<or>
   fst (TouchLogin env uid w) = w\<lparr>w_users := update_where (\<lambda>u. usr_ID u = uid) (\<lambda>u. u\<lparr>usr_LastLoginAt := Some (env_now env [])\<rparr>) (w_users w)\<rparr>"
  by (simp add: TouchLogin_def statement_def split: outcome.splits)

lemma on_world_fst: "fst (on_world f s) = s\<lparr>au_world := fst (f (au_world s))\<rparr>"
  by (simp add: on_world_def case_prod_beta)

lemma has_account_Create:
  "has_account e uid h d b s \<Longrightarrow> has_account e uid h d b (fst (on_world (Users_Create env e' h' d' c') s))"
  using Create_users[of env e' h' d' c' "au_world s"] by (auto simp: on_world_fst has_account_def find_append_Some)

lemma has_account_Touch:
  assumes "has_account e uid h d b s" shows "has_account e uid h d b (fst (on_world (TouchLogin env v) s))"
proof -
  obtain u where u: "find (\<lambda>u. usr_Email u = e) (w_users (au_world s)) = Some u" "usr_ID u = uid" "usr_PasswordHash u = h"
      "usr_DisplayName u = d" "usr_IsBot u = b"
    using assms by (auto simp: has_account_def)
  show ?thesis
    using TouchLogin_users[of env v "au_world s"] u by (auto simp: on_world_fst has_account_def find_update_where)
qed

lemma fst_Register:
  "fst (Register cr env iss inp s) = s \<or>
   (\<exists>h c. fst (Register cr env iss inp s) = fst (on_world (Users_Create (esub env 0) (ToLower cr (TrimSpace (ri_Email inp))) h (ri_DisplayName inp) c) s))"
  by (auto simp: Register_def Let_def case_prod_beta split: sum.splits prod.splits)

lemma on_world_id: "fst (f (au_world s)) = au_world s \<Longrightarrow> on_world f s = (s, snd (f (au_world s)))"
  by (simp add: on_world_def case_prod_beta)

lemma on_world_Users:
  "on_world (Users_ByEmail env e) s = (s, snd (Users_ByEmail env e (au_world s)))"
  "on_world (Users_ByID env uid) s = (s, snd (Users_ByID env uid (au_world s)))"
  by (simp_all add: on_world_id ByEmail_keeps ByID_keeps)

lemma fst_Login:
  "fst (Login cr env iss inp s) = s \<or> (\<exists>e v. fst (Login cr env iss inp s) = fst (on_world (TouchLogin e v) s))"
  by (auto simp: Login_def on_world_Users split: sum.splits)

lemma fst_LoginAsBot:
  "fst (LoginAsBot cr env iss uid s) = s \<or> (\<exists>e v. fst (LoginAsBot cr env iss uid s) = fst (on_world (TouchLogin e v) s))"
  by (auto simp: LoginAsBot_def on_world_Users split: sum.splits)

lemma world_Mint: "au_world (fst (MintWSTicket parse env ttl c s)) = au_world s"
  by (simp add: MintWSTicket_def Mint_def on_err_def Let_def split: option.splits outcome.splits)

lemma world_Redeem: "au_world (fst (Redeem env i s)) = au_world s"
  by (simp add: Redeem_def Let_def split: outcome.splits)

lemma has_account_step:
  assumes "has_account e uid h d b s" shows "has_account e uid h d b (account_step cr iss parse ttl op s)"
proof (cases op)
  case (Registers env inp)
  with assms fst_Register[of cr env iss inp s] show ?thesis by (auto simp: account_step_def intro: has_account_Create)
next
  case (LogsIn env inp)
  with assms fst_Login[of cr env iss inp s] show ?thesis by (auto simp: account_step_def intro: has_account_Touch)
next
  case (BotLogsIn env v)
  with assms fst_LoginAsBot[of cr env iss v s] show ?thesis by (auto simp: account_step_def intro: has_account_Touch)
qed (use assms in \<open>simp_all add: account_step_def has_account_def world_Mint world_Redeem\<close>)

lemma has_account_run: "has_account e uid h d b s \<Longrightarrow> has_account e uid h d b (account_run cr iss parse ttl ops s)"
  by (induction ops arbitrary: s) (auto simp: account_run_def has_account_step)

lemma Register_account:
  assumes "Register cr env iss inp s = (s', Inr t)"
  shows "\<exists>salt h. cr_hash cr salt (ri_Password inp) = Some h
    \<and> has_account (ToLower cr (TrimSpace (ri_Email inp))) (usr_ID (ti_User t)) h (ri_DisplayName inp) False s'"
proof -
  let ?e = "ToLower cr (TrimSpace (ri_Email inp))"
  from assms obtain h u where h: "HashPassword cr (env_uuid env []) (ri_Password inp) = Inr h"
      and cu: "on_world (Users_Create (esub env 0) ?e h (ri_DisplayName inp) (defaultColor ?e)) s = (s', Inr u)"
      and t: "issue cr (esub env 1) iss u = Inr t"
    by (auto simp: Register_def Let_def split: if_splits sum.splits prod.splits)
  have hh: "cr_hash cr (env_uuid env []) (ri_Password inp) = Some h"
    using h by (auto simp: HashPassword_def split: if_splits option.splits)
  have "ti_User t = u" using t by (auto simp: issue_def split: sum.splits)
  moreover have "find (\<lambda>u. usr_Email u = ?e) (w_users (au_world s')) = Some u \<and> usr_PasswordHash u = h
      \<and> usr_DisplayName u = ri_DisplayName inp \<and> \<not> usr_IsBot u"
    using cu by (auto simp: on_world_def Users_Create_def statement_def Let_def case_prod_beta find_append_None
        split: if_splits outcome.splits)
  ultimately show ?thesis using hh by (auto simp: has_account_def)
qed

lemma Register_ok:
  assumes "env_ok env" "\<forall>c. cr_sign cr (is_secret iss) c \<noteq> None" "8 \<le> length (ri_Password inp)" "ri_DisplayName inp \<noteq> []"
    and "ToLower cr (TrimSpace (ri_Email inp)) \<noteq> []" "cr_hash cr (env_uuid env []) (ri_Password inp) \<noteq> None" "w_users (au_world s) = []"
  shows "\<exists>s' t. Register cr env iss inp s = (s', Inr t)"
proof -
  obtain h where "cr_hash cr (env_uuid env []) (ri_Password inp) = Some h" using assms(6) by blast
  moreover have "\<exists>t. issue cr e iss u = Inr t" for e u
    using assms(2) by (auto simp: issue_def IssueAccess_def Let_def split: option.splits)
  ultimately show ?thesis using assms
    by (simp add: Register_def HashPassword_def Let_def on_world_def Users_Create_def statement_def env_ok_def esub_def user_row_def)
qed

lemma Login_account:
  assumes "crypto_laws cr" "\<forall>c. cr_sign cr (is_secret iss) c \<noteq> None" "env_ok env"
    and acc: "has_account (ToLower cr (TrimSpace (li_Email inp))) uid h d False s" and h: "cr_hash cr salt (li_Password inp) = Some h"
  shows "\<exists>s' t. Login cr env iss inp s = (s', Inr t) \<and> usr_ID (ti_User t) = uid \<and> usr_DisplayName (ti_User t) = d
     \<and> ti_ExpiresAt t = env_now env [2, 0] + is_accessTTL iss
     \<and> (\<forall>now. now < whole_seconds (ti_ExpiresAt t) \<longrightarrow>
          (\<exists>c. RequireAuth cr iss now (''Bearer '' @ ti_AccessToken t) = Inr c \<and> cl_UserID c = uid))"
proof -
  obtain u where u: "find (\<lambda>u. usr_Email u = ToLower cr (TrimSpace (li_Email inp))) (w_users (au_world s)) = Some u"
      "usr_ID u = uid" "usr_PasswordHash u = h" "usr_DisplayName u = d" "\<not> usr_IsBot u"
    using acc by (auto simp: has_account_def)
  have v: "VerifyPassword cr (usr_PasswordHash u) (li_Password inp)"
    using assms(1) h u(3) by (auto simp: crypto_laws_def VerifyPassword_def)
  define c where "c = \<lparr>cl_UserID = uid, cl_Email = usr_Email u, cl_DisplayName = d,
      cl_IssuedAt = whole_seconds (env_now env [2, 1]), cl_ExpiresAt = whole_seconds (env_now env [2, 0] + is_accessTTL iss)\<rparr>"
  obtain tok where tok: "cr_sign cr (is_secret iss) c = Some tok" using assms(2) by blast
  have parse: "cr_parse cr (is_secret iss) now tok = Some c" if "now < cl_ExpiresAt c" for now
    using assms(1) tok that unfolding crypto_laws_def by blast
  have iss: "issue cr (esub env 2) iss u = Inr \<lparr>ti_AccessToken = tok, ti_ExpiresAt = env_now env [2, 0] + is_accessTTL iss, ti_User = u\<rparr>"
    using tok u by (simp add: issue_def IssueAccess_def esub_def c_def Let_def)
  have look: "Users_ByEmail (esub env 0) (ToLower cr (TrimSpace (li_Email inp))) (au_world s) = (au_world s, Inr u)"
    using u(1) assms(3) by (simp add: Users_ByEmail_def ebind_def reading_def statement_def env_ok_def esub_def ret_def)
  have "Login cr env iss inp s = (fst (on_world (TouchLogin (esub env 1) (usr_ID u)) s),
      Inr \<lparr>ti_AccessToken = tok, ti_ExpiresAt = env_now env [2, 0] + is_accessTTL iss, ti_User = u\<rparr>)"
    using u v iss by (simp add: Login_def on_world_id look)
  moreover have "RequireAuth cr iss now (''Bearer '' @ tok) = Inr c" if "now < cl_ExpiresAt c" for now
    using parse[OF that] by (simp add: RequireAuth_def Verify_def)
  ultimately show ?thesis using u by (auto simp: c_def)
qed

section \<open>Tickets\<close>

definition holds_ticket :: "string \<Rightarrow> user_id \<Rightarrow> time \<Rightarrow> auth_state \<Rightarrow> bool" where
  "holds_ticket i uid lapse s \<longleftrightarrow> (\<exists>t. map_of (au_tickets s) (ticketKey i) = Some (t, Some lapse) \<and> tk_UserID t = uid)"

primrec mints_as :: "string \<Rightarrow> account_op \<Rightarrow> bool" where
  "mints_as i (Registers env inp) \<longleftrightarrow> False"
| "mints_as i (LogsIn env inp) \<longleftrightarrow> False"
| "mints_as i (BotLogsIn env uid) \<longleftrightarrow> False"
| "mints_as i (Mints env c) \<longleftrightarrow> env_uuid env [] = i"
| "mints_as i (Redeems env j) \<longleftrightarrow> False"

primrec redeems :: "string \<Rightarrow> account_op \<Rightarrow> bool" where
  "redeems i (Registers env inp) \<longleftrightarrow> False"
| "redeems i (LogsIn env inp) \<longleftrightarrow> False"
| "redeems i (BotLogsIn env uid) \<longleftrightarrow> False"
| "redeems i (Mints env c) \<longleftrightarrow> False"
| "redeems i (Redeems env j) \<longleftrightarrow> j = i"

lemma ticketKey_inj [simp]: "ticketKey i = ticketKey j \<longleftrightarrow> i = j"
  by (simp add: ticketKey_def)

lemma tickets_on_world [simp]: "au_tickets (fst (on_world f s)) = au_tickets s"
  by (simp add: on_world_fst)

lemma tickets_step:
  assumes "\<not> mints_as i op"
  shows "map_of (au_tickets (account_step cr iss parse ttl op s)) (ticketKey i) = map_of (au_tickets s) (ticketKey i)
    \<or> redeems i op \<and> map_of (au_tickets (account_step cr iss parse ttl op s)) (ticketKey i) = None"
proof (cases op)
  case (Registers env inp)
  then show ?thesis using fst_Register[of cr env iss inp s] by (auto simp: account_step_def)
next
  case (LogsIn env inp)
  then show ?thesis using fst_Login[of cr env iss inp s] by (auto simp: account_step_def)
next
  case (BotLogsIn env v)
  then show ?thesis using fst_LoginAsBot[of cr env iss v s] by (auto simp: account_step_def)
next
  case (Mints env c)
  then show ?thesis using assms
    by (simp add: account_step_def MintWSTicket_def Mint_def on_err_def Let_def split: option.splits outcome.splits)
next
  case (Redeems env j)
  then show ?thesis
    by (simp add: account_step_def Redeem_def Let_def map_of_mdel split: outcome.splits)
qed

lemma ticket_kept:
  "\<forall>op\<in>set ops. \<not> mints_as i op \<and> \<not> redeems i op \<Longrightarrow> holds_ticket i uid lapse s \<Longrightarrow> holds_ticket i uid lapse (account_run cr iss parse ttl ops s)"
proof (induction ops arbitrary: s)
  case (Cons op ops)
  then have "holds_ticket i uid lapse (account_step cr iss parse ttl op s)"
    using tickets_step[of i op cr iss parse ttl s] by (simp add: holds_ticket_def)
  then show ?case using Cons by (simp add: account_run_def)
qed (simp add: account_run_def)

lemma no_ticket_kept:
  "\<forall>op\<in>set ops. \<not> mints_as i op \<Longrightarrow> map_of (au_tickets s) (ticketKey i) = None \<Longrightarrow>
   map_of (au_tickets (account_run cr iss parse ttl ops s)) (ticketKey i) = None"
proof (induction ops arbitrary: s)
  case (Cons op ops)
  then have "map_of (au_tickets (account_step cr iss parse ttl op s)) (ticketKey i) = None"
    using tickets_step[of i op cr iss parse ttl s] by auto
  then show ?case using Cons by (simp add: account_run_def)
qed (simp add: account_run_def)

lemma Mint_holds:
  assumes "env_ok env" "0 < ttl" "parse (cl_UserID c) = Some uid" "MintWSTicket parse env ttl c s = (s', r)"
  shows "r = Inr (env_uuid env []) \<and> holds_ticket (env_uuid env []) uid (env_now env [1] + ttl) s'"
  using assms by (auto simp: MintWSTicket_def Mint_def on_err_def env_ok_def Let_def holds_ticket_def)

lemma Redeem_once:
  assumes "holds_ticket i uid lapse s" "env_outcome env [] = Delivered" "env_now env [] < lapse"
  shows "redeem_user env s i = Some uid" and "map_of (au_tickets (fst (Redeem env i s))) (ticketKey i) = None"
  using assms by (auto simp: holds_ticket_def redeem_user_def Redeem_def Let_def map_of_mdel split: if_splits)

lemma redeem_none: "map_of (au_tickets s) (ticketKey i) = None \<Longrightarrow> redeem_user env s i = None"
  by (simp add: redeem_user_def Redeem_def Let_def split: outcome.splits)

lemma subscribeMatch_user: "cn_user (fst (subscribeMatch env idx mid c)) = cn_user c \<and> cn_id (fst (subscribeMatch env idx mid c)) = cn_id c"
  by (simp add: subscribeMatch_def subscribeChat_def Let_def)

lemma handleWS_opens:
  assumes "env_ok env" "i \<noteq> []" "redeem i = Some uid"
  shows "\<exists>h' c. handleWS env redeem idx i mid h = (h', WsConnected) \<and> map_of (hb_connections h') (env_uuid env []) = Some c \<and> cn_user c = uid"
proof -
  let ?c = "new_conn (env_uuid env []) uid mid (hb_rateLimit h) (env_now env [])"
  have "snd (subscribeMatch (esub env 1) idx mid ?c)"
    using assms(1) by (simp add: subscribeMatch_def subscribeChat_def subscribe_ok_def env_ok_def esub_def Let_def)
  then show ?thesis
    using assms subscribeMatch_user[of "esub env 1" idx mid ?c]
    by (auto simp: handleWS_def hub_register_def new_conn_def env_ok_def Let_def case_prod_beta)
qed

section \<open>From a registration to a socket\<close>

text \<open>
  C33. A session goes all the way round. Whoever has registered can, whatever happens to other accounts in
  between, log in again with the same address and password; the token of that login passes
  \<open>RequireAuth\<close> as the same account until it expires; the ticket minted for it opens a socket of the
  gateway that belongs to the same account, as long as it has not expired and nobody else used it; and
  once it has been used it opens nothing any more, however often it is tried.
\<close>

theorem registration_opens_a_socket:
  fixes run
  assumes "run = account_run cr iss parse ttl"
    and "crypto_laws cr" "\<forall>c. cr_sign cr (is_secret iss) c \<noteq> None" "0 < ttl"
    and "Register cr renv iss reg s0 = (s1, Inr acc)" "parse (usr_ID (ti_User acc)) = Some (usr_ID (ti_User acc))"
    and "env_ok lenv" "Login cr lenv iss \<lparr>li_Email = ri_Email reg, li_Password = ri_Password reg\<rparr> (run ops1 s1) = (s2, r)"
    and "now < whole_seconds (env_now lenv [2, 0] + is_accessTTL iss)"
    and "env_ok menv" "i = env_uuid menv []" "i \<noteq> []"
    and "\<forall>op\<in>set ops3. \<not> mints_as i op \<and> \<not> redeems i op" "\<forall>op\<in>set ops4. \<not> mints_as i op"
    and "env_outcome wenv [] = Delivered" "env_now wenv [] < env_now menv [1] + ttl" "env_ok genv"
  shows "\<exists>t c s3. r = Inr t \<and> RequireAuth cr iss now (''Bearer '' @ ti_AccessToken t) = Inr c
    \<and> MintWSTicket parse menv ttl c (run ops2 s2) = (s3, Inr i)
    \<and> (\<exists>h' conn. handleWS genv (redeem_user wenv (run ops3 s3)) idx i mid h = (h', WsConnected)
         \<and> map_of (hb_connections h') (env_uuid genv []) = Some conn \<and> cn_user conn = usr_ID (ti_User acc))
    \<and> redeem_user wenv' (run ops4 (fst (Redeem wenv i (run ops3 s3)))) i = None"
proof -
  let ?uid = "usr_ID (ti_User acc)" and ?s2 = "run ops2 s2"
  let ?inp = "\<lparr>li_Email = ri_Email reg, li_Password = ri_Password reg\<rparr>"
  obtain salt hash where hash: "cr_hash cr salt (ri_Password reg) = Some hash"
      and acct: "has_account (ToLower cr (TrimSpace (ri_Email reg))) ?uid hash (ri_DisplayName reg) False s1"
    using Register_account[OF assms(5)] by blast
  have acct': "has_account (ToLower cr (TrimSpace (li_Email ?inp))) ?uid hash (ri_DisplayName reg) False (run ops1 s1)"
    unfolding assms(1) using has_account_run[OF acct] by simp
  from Login_account[OF assms(2,3,7) acct', of salt] hash
  obtain t where log: "snd (Login cr lenv iss ?inp (run ops1 s1)) = Inr t"
      and valid: "\<forall>now. now < whole_seconds (ti_ExpiresAt t) \<longrightarrow>
        (\<exists>c. RequireAuth cr iss now (''Bearer '' @ ti_AccessToken t) = Inr c \<and> cl_UserID c = ?uid)"
      and expiry: "ti_ExpiresAt t = env_now lenv [2, 0] + is_accessTTL iss"
    by (metis login_input.select_convs(2) snd_conv)
  have r: "r = Inr t" using log assms(8) by simp
  obtain c where c: "RequireAuth cr iss now (''Bearer '' @ ti_AccessToken t) = Inr c" "cl_UserID c = ?uid"
    using valid[rule_format, of now] assms(9) expiry by auto
  obtain s3 where s3: "MintWSTicket parse menv ttl c ?s2 = (s3, Inr i)" "holds_ticket i ?uid (env_now menv [1] + ttl) s3"
    using Mint_holds[OF assms(10,4), of parse c ?uid ?s2] assms(6,11) c(2) by (metis surj_pair)
  have held: "holds_ticket i ?uid (env_now menv [1] + ttl) (run ops3 s3)"
    unfolding assms(1) by (rule ticket_kept[OF assms(13) s3(2)[unfolded assms(1)]])
  note once = Redeem_once[OF held assms(15,16)]
  have "redeem_user wenv' (run ops4 (fst (Redeem wenv i (run ops3 s3)))) i = None"
    using redeem_none[OF no_ticket_kept[OF assms(14) once(2)]] unfolding assms(1) .
  with r c(1) s3(1) handleWS_opens[where redeem = "redeem_user wenv (run ops3 s3)", OF assms(17,12) once(1), of idx mid h] show ?thesis by blast
qed

text \<open>A cryptography in the clear that satisfies the laws: a string is preceded by its length.\<close>

definition put_str :: "string \<Rightarrow> string" where
  "put_str s = replicate (length s) CHR ''1'' @ CHR ''0'' # s"

definition get_str :: "string \<Rightarrow> string \<times> string" where
  "get_str t = (let n = length (takeWhile (\<lambda>c. c = CHR ''1'') t); u = drop (Suc n) t in (take n u, drop n u))"

definition put_int :: "int \<Rightarrow> string" where
  "put_int k = (if k < 0 then CHR ''-'' else CHR ''+'') # put_str (replicate (nat \<bar>k\<bar>) CHR ''1'')"

definition get_int :: "string \<Rightarrow> int \<times> string" where
  "get_int t = (case get_str (tl t) of (s, u) \<Rightarrow> (if hd t = CHR ''-'' then - int (length s) else int (length s), u))"

lemma get_put_str [simp]: "get_str (put_str s @ u) = (s, u)"
proof -
  have "takeWhile (\<lambda>c. c = CHR ''1'') (replicate n CHR ''1'' @ CHR ''0'' # v) = replicate n CHR ''1''" for n v
    by (induction n) auto
  then show ?thesis by (simp add: get_str_def put_str_def Let_def)
qed

lemma get_put_int [simp]: "get_int (put_int k @ u) = (k, u)"
  by (simp add: get_int_def put_int_def)

definition clear_crypto :: crypto where
  "clear_crypto = \<lparr>cr_hash = (\<lambda>salt pw. Some (put_str salt @ pw)), cr_compare = (\<lambda>h pw. snd (get_str h) = pw),
     cr_sign = (\<lambda>secret c. Some (put_str secret @ put_str (cl_UserID c) @ put_str (cl_Email c) @ put_str (cl_DisplayName c)
                              @ put_int (cl_IssuedAt c) @ put_int (cl_ExpiresAt c) @ [])),
     cr_parse = (\<lambda>secret now tok.
       case get_str tok of (key, t1) \<Rightarrow> case get_str t1 of (uid, t2) \<Rightarrow> case get_str t2 of (email, t3) \<Rightarrow>
       case get_str t3 of (display, t4) \<Rightarrow> case get_int t4 of (iat, t5) \<Rightarrow> case get_int t5 of (e, _) \<Rightarrow>
         if key = secret \<and> now < e
         then Some \<lparr>cl_UserID = uid, cl_Email = email, cl_DisplayName = display, cl_IssuedAt = iat, cl_ExpiresAt = e\<rparr> else None),
     cr_lower = (\<lambda>s. s)\<rparr>"

lemma clear_crypto_laws: "crypto_laws clear_crypto"
  unfolding crypto_laws_def clear_crypto_def
  by (auto simp del: append_assoc append_Nil2 simp: append_assoc)

definition ann_registers :: register_input where
  "ann_registers = \<lparr>ri_Email = ''Ann@example.org'', ri_Password = ''correct horse'', ri_DisplayName = ''Ann''\<rparr>"

definition no_accounts :: auth_state where
  "no_accounts = \<lparr>au_world = sample_world StatusActive [] [], au_tickets = []\<rparr>"

theorem registration_opens_a_socket_witness:
  "\<exists>s1 acc s2 t c s3. Register clear_crypto (calm 5) \<lparr>is_secret = ''key'', is_accessTTL = Hour\<rparr> ann_registers no_accounts = (s1, Inr acc)
    \<and> Login clear_crypto (calm 9) \<lparr>is_secret = ''key'', is_accessTTL = Hour\<rparr>
        \<lparr>li_Email = ''Ann@example.org'', li_Password = ''correct horse''\<rparr> s1 = (s2, Inr t)
    \<and> RequireAuth clear_crypto \<lparr>is_secret = ''key'', is_accessTTL = Hour\<rparr> Second (''Bearer '' @ ti_AccessToken t) = Inr c
    \<and> MintWSTicket Some (calm 20) (30 * Second) c s2 = (s3, Inr ''id'')
    \<and> (\<exists>h' conn. handleWS (calm 30) (redeem_user (calm 25) s3) [] ''id'' ''m'' \<lparr>hb_rateLimit = 60, hb_connections = []\<rparr> = (h', WsConnected)
         \<and> map_of (hb_connections h') ''id'' = Some conn \<and> cn_user conn = usr_ID (ti_User acc))
    \<and> redeem_user (calm 26) (fst (Redeem (calm 25) ''id'' s3)) ''id'' = None"
proof -
  let ?iss = "\<lparr>is_secret = ''key'', is_accessTTL = Hour\<rparr>"
  have email: "ToLower clear_crypto (TrimSpace (ri_Email ann_registers)) \<noteq> []" by code_simp
  obtain s1 acc where reg: "Register clear_crypto (calm 5) ?iss ann_registers no_accounts = (s1, Inr acc)"
    using Register_ok[of "calm 5" clear_crypto ?iss ann_registers no_accounts] email
    by (auto simp: clear_crypto_def ann_registers_def no_accounts_def sample_world_def)
  let ?run = "account_run clear_crypto ?iss Some (30 * Second)"
  have run: "?run [] s = s" for s by (simp add: account_run_def)
  obtain s2 r where log: "Login clear_crypto (calm 9) ?iss \<lparr>li_Email = ri_Email ann_registers, li_Password = ri_Password ann_registers\<rparr> (?run [] s1) = (s2, r)"
    by (metis surj_pair)
  have signs: "\<forall>c. cr_sign clear_crypto (is_secret ?iss) c \<noteq> None" by (simp add: clear_crypto_def)
  have times: "0 < 30 * Second" "Second < whole_seconds (env_now (calm 9) [2, 0] + is_accessTTL ?iss)"
    "env_now (calm 25) [] < env_now (calm 20) [1] + 30 * Second"
    by (simp_all add: calm_def whole_seconds_def duration_defs)
  have fresh: "env_uuid (calm t) [] = ''id''" "''id'' = env_uuid (calm t) []" "''id'' \<noteq> []" "env_outcome (calm t) [] = Delivered" for t
    by (simp_all add: calm_def)
  have none: "\<forall>op\<in>set []. \<not> mints_as ''id'' op \<and> \<not> redeems ''id'' op" "\<forall>op\<in>set []. \<not> mints_as ''id'' op" by simp_all
  note opened = registration_opens_a_socket[OF refl clear_crypto_laws signs times(1) reg refl env_ok_calm log times(2) env_ok_calm
      fresh(2,3) none fresh(4) times(3) env_ok_calm[of 30], of "[]" "[]" "''m''" "\<lparr>hb_rateLimit = 60, hb_connections = []\<rparr>" "calm 26"]
  have inp: "\<lparr>li_Email = ri_Email ann_registers, li_Password = ri_Password ann_registers\<rparr> = \<lparr>li_Email = ''Ann@example.org'', li_Password = ''correct horse''\<rparr>"
    by (simp add: ann_registers_def)
  from opened reg log show ?thesis unfolding run fresh(1) inp by blast
qed

end
