(* ===== verification/Requests.thy ===== *)
theory Requests
  imports Http Accounts
begin

text \<open>
  Facts on the REST interface: a request acts for the account its token names, and for no other.
\<close>

section \<open>Writing to the lobby on behalf of an account\<close>

definition bot_account :: "world \<Rightarrow> user_id \<Rightarrow> bool" where
  "bot_account w v \<longleftrightarrow> (\<exists>u\<in>set (w_users w). usr_ID u = v \<and> usr_IsBot u)"

definition seat_of :: "lobby_player \<Rightarrow> string \<times> user_id \<times> slot" where
  "seat_of p = (lp_MatchID p, lp_UserID p, lp_Slot p)"

definition created_by :: "world \<Rightarrow> string \<Rightarrow> user_id \<Rightarrow> bool" where
  "created_by w mid uid \<longleftrightarrow> (\<exists>m\<in>set (w_matches w). lm_ID m = mid \<and> lm_CreatedBy m = uid)"

definition match_still :: "lobby_match \<Rightarrow> lobby_match \<Rightarrow> bool" where
  "match_still m m' \<longleftrightarrow> lm_ID m' = lm_ID m \<and> lm_CreatedBy m' = lm_CreatedBy m \<and> lm_MapID m' = lm_MapID m \<and> lm_Name m' = lm_Name m"

text \<open>What a step may do for \<open>uid\<close>: matches stay, new ones are its own, no other player is seated or moved
  to another slot, and no other player loses a seat unless \<open>uid\<close> created the match. Bots may be
  seated and replaced.\<close>

definition other_tables :: "world \<Rightarrow> world \<Rightarrow> bool" where
  "other_tables w w' \<longleftrightarrow> w_users w' = w_users w \<and> w_snapshots w' = w_snapshots w \<and> w_stats w' = w_stats w \<and>
     w_ends w' = w_ends w \<and> w_takeovers w' = w_takeovers w"

definition matches_kept :: "world \<Rightarrow> world \<Rightarrow> bool" where
  "matches_kept w w' \<longleftrightarrow> (\<forall>m\<in>set (w_matches w). \<exists>m'\<in>set (w_matches w'). match_still m m')"

definition matches_own :: "user_id \<Rightarrow> world \<Rightarrow> world \<Rightarrow> bool" where
  "matches_own uid w w' \<longleftrightarrow> (\<forall>m'\<in>set (w_matches w'). lm_CreatedBy m' = uid \<or> (\<exists>m\<in>set (w_matches w). match_still m m'))"

definition seats_own :: "user_id \<Rightarrow> world \<Rightarrow> world \<Rightarrow> bool" where
  "seats_own uid w w' \<longleftrightarrow>
     (\<forall>p'\<in>set (w_players w'). lp_UserID p' = uid \<or> bot_account w (lp_UserID p') \<or> seat_of p' \<in> seat_of ` set (w_players w))"

definition seats_kept :: "user_id \<Rightarrow> world \<Rightarrow> world \<Rightarrow> bool" where
  "seats_kept uid w w' \<longleftrightarrow>
     (\<forall>p\<in>set (w_players w). lp_UserID p = uid \<or> bot_account w (lp_UserID p) \<or> created_by w' (lp_MatchID p) uid \<or>
        seat_of p \<in> seat_of ` set (w_players w'))"

definition on_behalf :: "user_id \<Rightarrow> world \<Rightarrow> world \<Rightarrow> bool" where
  "on_behalf uid w w' \<longleftrightarrow>
     other_tables w w' \<and> matches_kept w w' \<and> matches_own uid w w' \<and> seats_own uid w w' \<and> seats_kept uid w w'"

named_theorems behalf_defs
declare other_tables_def [behalf_defs] matches_kept_def [behalf_defs] matches_own_def [behalf_defs]
  seats_own_def [behalf_defs] seats_kept_def [behalf_defs]

lemma match_still_refl [simp]: "match_still m m"
  by (simp add: match_still_def)

lemma match_still_trans: "match_still a b \<Longrightarrow> match_still b c \<Longrightarrow> match_still a c"
  by (simp add: match_still_def)

lemma on_behalf_refl [simp]: "on_behalf uid w w"
  unfolding on_behalf_def behalf_defs by (auto intro: match_still_refl)

lemma matches_kept_trans: "matches_kept a b \<Longrightarrow> matches_kept b c \<Longrightarrow> matches_kept a c"
  unfolding matches_kept_def by (meson match_still_trans)

lemma created_by_mono: "matches_kept w w' \<Longrightarrow> created_by w mid v \<Longrightarrow> created_by w' mid v"
  unfolding matches_kept_def created_by_def match_still_def by metis

lemma matches_own_trans:
  assumes "matches_own uid a b" "matches_own uid b c" shows "matches_own uid a c"
  unfolding matches_own_def
proof
  fix m'' assume "m'' \<in> set (w_matches c)"
  with assms(2) consider "lm_CreatedBy m'' = uid" | m' where "m' \<in> set (w_matches b)" "match_still m' m''"
    unfolding matches_own_def by blast
  then show "lm_CreatedBy m'' = uid \<or> (\<exists>m\<in>set (w_matches a). match_still m m'')"
  proof cases
    case 2
    with assms(1) show ?thesis unfolding matches_own_def by (metis match_still_def match_still_trans)
  qed simp
qed

lemma seat_of_eq: "seat_of p = seat_of q \<Longrightarrow> lp_UserID p = lp_UserID q \<and> lp_MatchID p = lp_MatchID q"
  by (simp add: seat_of_def)

lemma seats_own_trans:
  assumes "\<And>v. bot_account b v = bot_account a v" "seats_own uid a b" "seats_own uid b c" shows "seats_own uid a c"
  unfolding seats_own_def
proof
  fix p' assume "p' \<in> set (w_players c)"
  with assms(1,3) consider "lp_UserID p' = uid \<or> bot_account a (lp_UserID p')" | q where "q \<in> set (w_players b)" "seat_of p' = seat_of q"
    unfolding seats_own_def by blast
  then show "lp_UserID p' = uid \<or> bot_account a (lp_UserID p') \<or> seat_of p' \<in> seat_of ` set (w_players a)"
  proof cases
    case 2
    with assms(2) show ?thesis unfolding seats_own_def using seat_of_eq by metis
  qed blast
qed

lemma seats_kept_trans:
  assumes "\<And>v. bot_account b v = bot_account a v" "matches_kept b c" "seats_kept uid a b" "seats_kept uid b c" shows "seats_kept uid a c"
  unfolding seats_kept_def
proof
  fix p assume "p \<in> set (w_players a)"
  with assms(3) consider "lp_UserID p = uid \<or> bot_account a (lp_UserID p)" | "created_by b (lp_MatchID p) uid"
    | q where "q \<in> set (w_players b)" "seat_of p = seat_of q"
    unfolding seats_kept_def by blast
  then show "lp_UserID p = uid \<or> bot_account a (lp_UserID p) \<or> created_by c (lp_MatchID p) uid \<or> seat_of p \<in> seat_of ` set (w_players c)"
  proof cases
    case 2
    then show ?thesis using created_by_mono[OF assms(2)] by blast
  next
    case 3
    with assms(4) have "lp_UserID q = uid \<or> bot_account a (lp_UserID q) \<or> created_by c (lp_MatchID q) uid \<or> seat_of q \<in> seat_of ` set (w_players c)"
      unfolding seats_kept_def assms(1) by blast
    with 3 show ?thesis using seat_of_eq[OF 3(2)] by simp
  qed blast
qed

lemma on_behalf_bots: "other_tables w w' \<Longrightarrow> bot_account w' v = bot_account w v"
  by (simp add: other_tables_def bot_account_def)

lemma on_behalf_trans:
  assumes "on_behalf uid a b" "on_behalf uid b c" shows "on_behalf uid a c"
proof -
  have "other_tables a c" using assms by (simp add: on_behalf_def other_tables_def)
  with assms show ?thesis unfolding on_behalf_def
    by (meson matches_kept_trans matches_own_trans seats_own_trans seats_kept_trans on_behalf_bots)
qed

interpretation ob: world_order "on_behalf uid" for uid
  by unfold_locales (auto intro: on_behalf_trans)

section \<open>The statements\<close>

lemma on_behalf_new_matches:
  assumes "matches_kept w (w\<lparr>w_matches := ms\<rparr>)" "matches_own uid w (w\<lparr>w_matches := ms\<rparr>)"
  shows "on_behalf uid w (w\<lparr>w_matches := ms\<rparr>)"
proof -
  have "seats_own uid w (w\<lparr>w_matches := ms\<rparr>)" "seats_kept uid w (w\<lparr>w_matches := ms\<rparr>)" by (auto simp: seats_own_def seats_kept_def)
  with assms show ?thesis by (simp add: on_behalf_def other_tables_def)
qed

lemma on_behalf_matches:
  assumes "\<And>m. match_still m (f m)" shows "on_behalf uid w (w\<lparr>w_matches := update_where Q f (w_matches w)\<rparr>)"
proof (rule on_behalf_new_matches)
  have each: "match_still m (if Q m then f m else m)" for m using assms by simp
  have sel: "set (w_matches (w\<lparr>w_matches := update_where Q f (w_matches w)\<rparr>)) = (\<lambda>m. if Q m then f m else m) ` set (w_matches w)"
    by (simp add: update_where_def del: if_image_distrib)
  show "matches_kept w (w\<lparr>w_matches := update_where Q f (w_matches w)\<rparr>)"
    unfolding matches_kept_def sel using each by blast
  show "matches_own uid w (w\<lparr>w_matches := update_where Q f (w_matches w)\<rparr>)"
    unfolding matches_own_def sel using each by blast
qed

lemma on_behalf_players:
  assumes "\<And>p'. p' \<in> set ps \<Longrightarrow> lp_UserID p' = uid \<or> bot_account w (lp_UserID p') \<or> seat_of p' \<in> seat_of ` set (w_players w)"
    and "\<And>p. p \<in> set (w_players w) \<Longrightarrow> lp_UserID p = uid \<or> bot_account w (lp_UserID p) \<or> created_by w (lp_MatchID p) uid \<or> seat_of p \<in> seat_of ` set ps"
  shows "on_behalf uid w (w\<lparr>w_players := ps\<rparr>)"
proof -
  have "created_by (w\<lparr>w_players := ps\<rparr>) = created_by w" by (intro ext) (simp add: created_by_def)
  moreover have "seats_own uid w (w\<lparr>w_players := ps\<rparr>)" using assms(1) by (auto simp: seats_own_def)
  moreover have "seats_kept uid w (w\<lparr>w_players := ps\<rparr>)" unfolding seats_kept_def using assms(2) calculation(1) by auto
  ultimately show ?thesis by (auto simp: on_behalf_def other_tables_def matches_kept_def matches_own_def intro: match_still_refl)
qed

lemma update_where_seats: "(\<And>p. seat_of (f p) = seat_of p) \<Longrightarrow> seat_of ` set (update_where Q f ps) = seat_of ` set ps"
proof -
  assume "\<And>p. seat_of (f p) = seat_of p"
  then have "seat_of \<circ> (\<lambda>p. if Q p then f p else p) = seat_of" by auto
  then show ?thesis unfolding update_where_def set_map image_comp by simp
qed

lemma behalf_AddPlayer:
  assumes "lp_UserID p = uid \<or> bot_account w (lp_UserID p)" shows "on_behalf uid w (fst (AddPlayer env p w))"
proof -
  let ?same = "\<lambda>q. lp_MatchID q = lp_MatchID p \<and> lp_UserID q = lp_UserID p"
  let ?f = "\<lambda>q. q\<lparr>lp_Slot := lp_Slot p, lp_Color := lp_Color p, lp_ControlledByAI := lp_ControlledByAI p\<rparr>"
  let ?q = "p\<lparr>lp_LastSeenAt := None, lp_JoinedAt := env_now env []\<rparr>"
  have "on_behalf uid w (w\<lparr>w_players := update_where ?same ?f (w_players w)\<rparr>)"
    by (rule on_behalf_players) (use assms in \<open>auto simp: update_where_def\<close>)
  moreover have "on_behalf uid w (w\<lparr>w_players := w_players w @ [?q]\<rparr>)"
    by (rule on_behalf_players) (use assms in auto)
  ultimately show ?thesis by (simp add: AddPlayer_def statement_def Let_def split: outcome.split)
qed

lemma behalf_RemovePlayer:
  assumes "v = uid \<or> created_by w mid uid" shows "on_behalf uid w (fst (RemovePlayer env mid v w))"
proof -
  have "on_behalf uid w (w\<lparr>w_players := filter (\<lambda>p. \<not> (lp_MatchID p = mid \<and> lp_UserID p = v)) (w_players w)\<rparr>)"
    by (rule on_behalf_players) (use assms in auto)
  then show ?thesis by (simp add: RemovePlayer_def ebind_def statement_def Let_def raise_def ret_def split: outcome.split)
qed

lemma behalf_ByAI: "ob.keeps uid (MarkControlledByAI env mid s on)"
proof -
  have "on_behalf uid w (w\<lparr>w_players := update_where Q (\<lambda>p. p\<lparr>lp_ControlledByAI := b\<rparr>) (w_players w)\<rparr>)" for w Q b
    using update_where_seats[of "\<lambda>p. p\<lparr>lp_ControlledByAI := b\<rparr>" Q "w_players w"]
    by (intro on_behalf_players) (auto simp: seat_of_def)
  then show ?thesis unfolding MarkControlledByAI_def Let_def by (intro ob.keeps_statement) auto
qed

lemma behalf_lifecycle:
  "ob.keeps uid (MarkStarting env mid)" "ob.keeps uid (MarkActive env mid)" "ob.keeps uid (PublishStart env pl)"
proof -
  show "ob.keeps uid (MarkStarting env mid)"
    unfolding MarkStarting_def UpdateStatus_def Let_def
    by (intro ob.keeps_ebind ob.keeps_statement) (auto intro!: on_behalf_matches simp: match_still_def)
  show "ob.keeps uid (MarkActive env mid)"
    unfolding MarkActive_def by (rule ob.keeps_statement) (auto intro!: on_behalf_matches simp: match_still_def)
  have "on_behalf uid w (w\<lparr>w_starts := x\<rparr>)" for w x
    unfolding on_behalf_def behalf_defs by (auto simp: created_by_def intro: match_still_refl)
  then show "ob.keeps uid (PublishStart env pl)" by (intro ob.keepsI) (simp add: PublishStart_def split: outcome.splits)
qed

lemma on_behalf_new_match:
  assumes "lm_CreatedBy m = uid" shows "on_behalf uid w (w\<lparr>w_matches := w_matches w @ [m]\<rparr>)"
proof (rule on_behalf_new_matches)
  have sel: "set (w_matches (w\<lparr>w_matches := w_matches w @ [m]\<rparr>)) = insert m (set (w_matches w))" by simp
  show "matches_kept w (w\<lparr>w_matches := w_matches w @ [m]\<rparr>)" unfolding matches_kept_def sel using match_still_refl by blast
  show "matches_own uid w (w\<lparr>w_matches := w_matches w @ [m]\<rparr>)" unfolding matches_own_def sel using match_still_refl assms by blast
qed

lemma behalf_Create: "ob.keeps uid (Matches_Create env nm mapID uid sp)"
  unfolding Matches_Create_def Let_def
  by (rule ob.keeps_statement) (auto intro!: on_behalf_new_match split: if_splits)

section \<open>The services\<close>

text \<open>A chain of steps, where a step may use what the ones before it found.\<close>

lemma behalf_bind:
  assumes "on_behalf uid w (fst (m w))" "\<And>w1 a. m w = (w1, Inr a) \<Longrightarrow> on_behalf uid w1 (fst (k a w1))"
  shows "on_behalf uid w (fst (ebind m k w))"
  using assms on_behalf_trans by (cases "m w") (auto simp: ebind_def split: sum.split)

lemma behalf_on_err: "on_behalf uid w (fst (on_err f m w)) \<longleftrightarrow> on_behalf uid w (fst (m w))"
  by (simp add: on_err_def case_prod_beta)

lemma behalf_keeps: "ob.keeps uid m \<Longrightarrow> on_behalf uid w (fst (m w))"
  by (simp add: ob.keeps_def)

lemma behalf_seat_bots:
  "\<forall>b\<in>set bots. bot_account w (usr_ID b) \<Longrightarrow> length (filter (\<lambda>sl. msl_ID sl \<notin> set occ) sls) \<le> length bots \<Longrightarrow>
   on_behalf uid w (fst (seat_bots env mid occ sls bots w))"
proof (induction sls arbitrary: env w bots)
  case (Cons sl sls)
  show ?case
  proof (cases "msl_ID sl \<in> set occ")
    case False
    then obtain b bs where b: "bots = b # bs" using Cons.prems(2) by (cases bots) auto
    let ?p = "new_seat mid (usr_ID b) (msl_ID sl) (msl_Color sl) True"
    have add: "on_behalf uid w (fst (AddPlayer (esub env 0) ?p w))"
      by (rule behalf_AddPlayer) (use Cons.prems(1) b in \<open>simp add: new_seat_def\<close>)
    have "on_behalf uid w1 (fst (seat_bots (esub env 1) mid occ sls bs w1))"
      if "on_err f (AddPlayer (esub env 0) ?p) w = (w1, Inr a)" for w1 and f :: "base_err \<Rightarrow> svc_err" and a
    proof (rule Cons.IH)
      have "w1 = fst (AddPlayer (esub env 0) ?p w)" using that by (auto simp: on_err_def split: prod.splits)
      then have "bot_account w1 v = bot_account w v" for v using add on_behalf_bots by (auto simp: on_behalf_def)
      then show "\<forall>b\<in>set bs. bot_account w1 (usr_ID b)" using Cons.prems(1) b by simp
    qed (use Cons.prems(2) False b in simp)
    then have "on_behalf uid w (fst (ebind (on_err (\<lambda>e. errs_Wrap e Internal ''assigning bot'') (AddPlayer (esub env 0) ?p))
        (\<lambda>_. seat_bots (esub env 1) mid occ sls bs) w))"
      by (intro behalf_bind) (simp_all add: behalf_on_err add)
    then show ?thesis using False b by simp
  qed (use Cons in simp)
qed (simp add: ret_def)

lemma reading_result: "reading env q w = (w', Inr a) \<Longrightarrow> w' = w \<and> a = q w"
  by (auto simp: reading_def statement_def split: outcome.splits)

lemma ListBots_bots: "ListBots env k w = (w', Inr bots) \<Longrightarrow> w' = w \<and> (\<forall>b\<in>set bots. bot_account w (usr_ID b))"
  by (auto simp: ListBots_def Let_def bot_account_def dest!: reading_result in_set_takeD)

lemma Matches_Get_row: "Matches_Get env mid w = (w', Inr m) \<Longrightarrow> w' = w \<and> m \<in> set (w_matches w) \<and> lm_ID m = mid"
  by (auto simp: Matches_Get_def ebind_def ret_def raise_def match_row_def find_Some_iff eq_commute[of "Some _"] split: prod.splits sum.splits option.splits dest!: reading_result)

lemma on_err_result: "on_err f m w = (w', Inr a) \<longleftrightarrow> m w = (w', Inr a)"
  by (auto simp: on_err_def split: prod.splits sum.splits)

lemma ListPlayers_rows: "ListPlayers env mid w = (w', Inr ps) \<Longrightarrow> w' = w \<and> ps = players_of w mid"
  by (auto simp: ListPlayers_def dest!: reading_result)

lemmas behalf_reads = ob.keeps_reads ob.keeps_View ob.keeps_load_map ob.keeps_or_none

lemmas result_simps = on_err_result ListBots_bots Matches_Get_row ListPlayers_rows

lemma behalf_load: "on_behalf uid w (fst (load_map svc mid c msg w))"
  by (rule behalf_keeps) blast

lemma load_same: "load_map svc mid c msg w = (w', r) \<Longrightarrow> w' = w"
  by (auto simp: load_map_def ret_def raise_def split: sum.splits)

lemma behalf_fillBots: "on_behalf uid w (fst (fillBots env svc mid mapID w))"
proof -
  have seats: "on_behalf uid w1 (fst (seat_bots e mid (map lp_Slot players) (map_Slots mp) bots w1))"
    if "ListBots e' n w0 = (w1, Inr bots)" "length (free_slots mp (map lp_Slot players)) \<le> length bots" for w0 w1 e e' n bots players mp
    using that ListBots_bots[OF that(1)] by (intro behalf_seat_bots) (auto simp: free_slots_def)
  show ?thesis
    unfolding fillBots_def Let_def
    by (auto simp: behalf_on_err on_err_result intro!: behalf_bind behalf_load behalf_reads[THEN behalf_keeps] seats simp: ret_def raise_def)
qed

lemma behalf_publish: "on_behalf uid w (fst (publishStartWithFill env svc m w))"
  unfolding publishStartWithFill_def
  by (auto simp: behalf_on_err ret_def raise_def intro!: behalf_bind behalf_fillBots behalf_lifecycle[THEN behalf_keeps] behalf_reads[THEN behalf_keeps])

lemma behalf_assign: "on_behalf uid w (fst (assignBotToSlot env svc mid s mapID w))"
proof -
  have add: "on_behalf uid w1 (fst (AddPlayer e (new_seat mid (usr_ID (hd bots)) s c True) w1))"
    if "ListBots e' n w0 = (w1, Inr bots)" "bots \<noteq> []" for w0 w1 e e' n bots c
    using that ListBots_bots[OF that(1)] by (intro behalf_AddPlayer) (simp add: new_seat_def)
  show ?thesis
    unfolding assignBotToSlot_def Let_def
    by (auto simp: behalf_on_err on_err_result ret_def raise_def intro!: behalf_bind behalf_load behalf_reads[THEN behalf_keeps] add)
qed

lemma behalf_own_seat: "on_behalf uid w (fst (AddPlayer env (new_seat mid uid s c ai) w))"
  by (rule behalf_AddPlayer) (simp add: new_seat_def)

lemma behalf_lobby_Create: "ci_UserID inp = uid \<Longrightarrow> on_behalf uid w (fst (lobby_Create env svc inp w))"
  unfolding lobby_Create_def Let_def
  by (auto simp: behalf_on_err ret_def raise_def
      intro!: behalf_bind behalf_load behalf_publish behalf_own_seat behalf_Create[THEN behalf_keeps] behalf_reads[THEN behalf_keeps])

lemma behalf_lobby_Join: "ji_UserID inp = uid \<Longrightarrow> on_behalf uid w (fst (lobby_Join env svc inp w))"
  unfolding lobby_Join_def Let_def
  by (auto simp: behalf_on_err ret_def raise_def
      intro!: behalf_bind behalf_load behalf_own_seat behalf_reads[THEN behalf_keeps] split: option.splits)

lemma behalf_lobby_Start: "on_behalf uid w (fst (lobby_Start env svc mid w))"
  unfolding lobby_Start_def
  by (auto simp: behalf_on_err ret_def raise_def intro!: behalf_bind behalf_publish behalf_reads[THEN behalf_keeps])

lemma behalf_Handoff: "on_behalf uid w (fst (Handoff env mid v w))"
  unfolding Handoff_def Let_def
  by (auto simp: behalf_on_err ret_def raise_def intro!: behalf_bind behalf_ByAI[THEN behalf_keeps] behalf_reads[THEN behalf_keeps])

lemma behalf_Leave: "on_behalf uid w (fst (Leave env mid uid w))"
  unfolding Leave_def
  by (auto simp: behalf_on_err ret_def raise_def
      intro!: behalf_bind behalf_Handoff behalf_RemovePlayer behalf_reads[THEN behalf_keeps])

lemma created_by_got: "Matches_Get env mid w = (w', Inr m) \<Longrightarrow> created_by w' mid (lm_CreatedBy m)"
  using Matches_Get_row[of env mid w w' m] by (auto simp: created_by_def)

lemma behalf_Kick: "ki_ActorID inp = uid \<Longrightarrow> on_behalf uid w (fst (Kick env inp w))"
  unfolding Kick_def
  by (auto simp: behalf_on_err on_err_result ret_def raise_def
      intro!: behalf_bind behalf_RemovePlayer behalf_reads[THEN behalf_keeps] dest!: created_by_got)

lemma remove_seated_none: "\<not> list_ex (\<lambda>p. lp_Slot p = s) ps \<Longrightarrow> remove_seated env mid s ps w = (w, Inr ())"
  by (induction ps arbitrary: env) (auto simp: ret_def)

lemma behalf_PatchSlotAI: "on_behalf uid w (fst (PatchSlotAI env svc inp w))"
  unfolding PatchSlotAI_def
  by (auto simp: behalf_on_err on_err_result ret_def raise_def remove_seated_none
      intro!: behalf_bind behalf_assign behalf_reads[THEN behalf_keeps])

lemmas behalf_services = behalf_lobby_Create behalf_lobby_Join behalf_lobby_Start behalf_Handoff behalf_Leave behalf_Kick behalf_PatchSlotAI

section \<open>Chat, tickets and notifications\<close>

definition chat_for :: "user_id \<Rightarrow> chat_service \<Rightarrow> chat_service \<Rightarrow> bool" where
  "chat_for uid s s' \<longleftrightarrow> cs_world s' = cs_world s \<and>
     (\<exists>new. cs_messages s' = cs_messages s @ new \<and> (\<forall>m\<in>set new. cm_AuthorID m = uid)) \<and>
     (\<exists>new. cs_published s' = cs_published s @ new \<and> (\<forall>x\<in>set new. ci_AuthorID (snd x) = uid)) \<and>
     (\<forall>v. v \<noteq> uid \<longrightarrow> map_of (cs_throttle s') v = map_of (cs_throttle s) v)"

lemma chat_for_refl [simp]: "chat_for uid s s"
  by (simp add: chat_for_def)

lemma chat_for_trans: "chat_for uid a b \<Longrightarrow> chat_for uid b c \<Longrightarrow> chat_for uid a c"
  unfolding chat_for_def by auto

lemma chat_for_publish: "ci_AuthorID msg = uid \<Longrightarrow> chat_for uid s (fst (publish_chat env scope msg s))"
  by (simp add: publish_chat_def Let_def chat_for_def split: outcome.split)

lemma chat_for_fanout:
  assumes "cm_AuthorID m = uid" shows "chat_for uid s (fst (fanout env m kind parts s))"
proof -
  have "chat_for uid s (fst (ebind (publish_chat e1 sc1 msg) (\<lambda>_. if b then publish_chat e2 sc2 msg else ret ()) s))"
    if "ci_AuthorID msg = uid" for e1 sc1 e2 sc2 b msg
  proof -
    obtain a r where p: "publish_chat e1 sc1 msg s = (a, r)" by fastforce
    then have 1: "chat_for uid s a" using chat_for_publish[OF that, of s e1 sc1] by simp
    note 2 = chat_for_trans[OF 1 chat_for_publish[OF that, of a e2 sc2]]
    from 1 2 p show ?thesis by (auto simp: ebind_def ret_def split: sum.split)
  qed
  then show ?thesis using assms by (cases kind) (simp_all add: fanout_def Let_def chat_for_publish)
qed

lemma chat_for_allow: "chat_for uid s (fst (allow t now uid s))"
  by (simp add: allow_def Let_def chat_for_def case_prod_beta)

lemma chat_for_Insert: "cm_AuthorID m = uid \<Longrightarrow> chat_for uid s (fst (Chat_Insert env m s))"
  by (simp add: Chat_Insert_def Let_def chat_for_def split: outcome.split)

lemma chat_for_Send:
  assumes "sd_AuthorID inp = uid" shows "chat_for uid s (fst (Send parse env inp s))"
proof -
  have store: "chat_for uid s (fst (case Chat_Insert e m s1 of (s2, Inl x) \<Rightarrow> (s2, Inl (f x)) | (s2, Inr _) \<Rightarrow> (fst (fanout e2 m kind parts s2), Inr m)))"
    if "cm_AuthorID m = uid" "chat_for uid s s1" for s1 e e2 m kind parts and f :: "base_err \<Rightarrow> svc_err"
  proof -
    obtain s2 r where i: "Chat_Insert e m s1 = (s2, r)" by fastforce
    then have 1: "chat_for uid s s2" using chat_for_trans[OF that(2) chat_for_Insert[OF that(1), of s1 e]] by simp
    note 2 = chat_for_trans[OF 1 chat_for_fanout[OF that(1)]]
    from 1 2 i show ?thesis by (simp split: sum.split)
  qed
  show ?thesis
  proof (cases "allow (env_now env [0]) (env_now env [1]) uid s")
    case (Pair s1 ok)
    then have 1: "chat_for uid s s1" using chat_for_allow[of uid s "env_now env [0]" "env_now env [1]"] by simp
    show ?thesis
      using assms Pair 1 store[OF _ 1] by (simp add: Send_def Let_def split: sum.split option.split prod.split)
  qed
qed

definition tickets_for :: "user_id \<Rightarrow> auth_state \<Rightarrow> auth_state \<Rightarrow> bool" where
  "tickets_for uid s s' \<longleftrightarrow> au_world s' = au_world s \<and>
     (\<forall>k. map_of (au_tickets s') k = map_of (au_tickets s) k \<or>
          (\<exists>t e. map_of (au_tickets s') k = Some (t, e) \<and> tk_UserID t = uid))"

lemma tickets_for_Mint:
  assumes "parse (cl_UserID c) = Some uid" shows "tickets_for uid s (fst (MintWSTicket parse env ttl c s))"
  using assms by (auto simp: tickets_for_def MintWSTicket_def Mint_def on_err_def Let_def split: outcome.splits)

definition notes_for :: "user_id \<Rightarrow> notify_state \<Rightarrow> notify_state \<Rightarrow> bool" where
  "notes_for uid s s' \<longleftrightarrow> ns_world s' = ns_world s \<and> ns_mails s' = ns_mails s \<and>
     filter (\<lambda>n. nf_UserID n \<noteq> uid) (ns_rows s') = filter (\<lambda>n. nf_UserID n \<noteq> uid) (ns_rows s)"

lemma notes_for_refl [simp]: "notes_for uid s s"
  by (simp add: notes_for_def)

lemma filter_update_where:
  "(\<And>x. Q x \<Longrightarrow> \<not> P x \<and> \<not> P (f x)) \<Longrightarrow> filter P (update_where Q f xs) = filter P xs"
  by (induction xs) (auto simp: update_where_def)

lemma notes_for_reads:
  "fst (svc_List env q s) = s" "fst (svc_UnreadCount env uid s) = s"
  by (simp_all add: svc_List_def Notif_List_def svc_UnreadCount_def Notif_UnreadCount_def on_err_def on_rows_def Let_def split: outcome.split)

lemma notes_for_MarkAllRead: "notes_for uid s (fst (svc_MarkAllRead env uid s))"
proof -
  have "filter (\<lambda>n. nf_UserID n \<noteq> uid) (update_where (unread uid) (\<lambda>n. n\<lparr>nf_ReadAt := Some t\<rparr>) rows) = filter (\<lambda>n. nf_UserID n \<noteq> uid) rows" for t rows
    by (rule filter_update_where) (simp add: unread_def)
  then show ?thesis
    by (simp add: svc_MarkAllRead_def Notif_MarkAllRead_def on_err_def on_rows_def notes_for_def split: outcome.split)
qed

section \<open>What a request may do for an account\<close>

text \<open>What a request does to the lobby is on behalf of \<open>uid\<close>, the messages it writes and the tickets it
  gets are those of \<open>uid\<close>, and so are the notifications it reads.\<close>

definition acts_as :: "user_id \<Rightarrow> core_state \<Rightarrow> core_state \<Rightarrow> bool" where
  "acts_as uid s s' \<longleftrightarrow>
     on_behalf uid (hp_world s) (hp_world s') \<and> chat_for uid (hp_chat s) (hp_chat s') \<and>
     tickets_for uid \<lparr>au_world = hp_world s, au_tickets = hp_tickets s\<rparr> \<lparr>au_world = hp_world s, au_tickets = hp_tickets s'\<rparr> \<and>
     notes_for uid (hp_notes s) (hp_notes s')"

lemma tickets_for_refl [simp]: "tickets_for uid s s"
  by (simp add: tickets_for_def)

lemma acts_as_refl [simp]: "acts_as uid s s"
  by (simp add: acts_as_def)

lemma acts_as_lobby: "on_behalf uid (hp_world s) (fst (f (hp_world s))) \<Longrightarrow> acts_as uid s (fst (with_lobby f s))"
  by (simp add: with_lobby_def acts_as_def case_prod_beta)

lemma acts_as_chat:
  assumes "chat_for uid ((hp_chat s)\<lparr>cs_world := hp_world s\<rparr>) (fst (f ((hp_chat s)\<lparr>cs_world := hp_world s\<rparr>)))"
  shows "acts_as uid s (fst (with_chat f s))"
  using assms by (simp add: with_chat_def acts_as_def chat_for_def case_prod_beta)

lemma acts_as_notes:
  assumes "notes_for uid ((hp_notes s)\<lparr>ns_world := hp_world s\<rparr>) (fst (f ((hp_notes s)\<lparr>ns_world := hp_world s\<rparr>)))"
  shows "acts_as uid s (fst (with_notes f s))"
  using assms by (simp add: with_notes_def acts_as_def notes_for_def case_prod_beta)

lemma acts_as_auth:
  assumes "tickets_for uid \<lparr>au_world = hp_world s, au_tickets = hp_tickets s\<rparr> (fst (f \<lparr>au_world = hp_world s, au_tickets = hp_tickets s\<rparr>))"
  shows "acts_as uid s (fst (with_auth f s))"
  using assms by (simp add: with_auth_def acts_as_def tickets_for_def case_prod_beta)

lemma fst_answer [simp]: "fst (answer cfg status view sr) = fst sr"
  by (simp add: answer_def split: prod.split sum.split)

lemma fst_check: "fst (check cfg r k s) = (case r of Inl e \<Rightarrow> s | Inr a \<Rightarrow> fst (k a s))"
  by (simp add: check_def split: sum.split)

text \<open>The endpoints that sign an account in, and the others.\<close>

definition signs_in :: "endpoint \<Rightarrow> bool" where
  "signs_in ep \<longleftrightarrow> ep = EpRegister \<or> ep = EpLogin \<or> ep = EpLoginAsBot"

definition guard_of :: "endpoint \<Rightarrow> guard" where
  "guard_of ep = (if ep \<in> {EpVersion, EpMaps, EpRegister, EpLogin} then Public
                  else if ep \<in> {EpLoginAsBot, EpListBots} then BotKey else Bearer)"

lemma mountV1_guards: "(g, m, ps, ep) \<in> set mountV1 \<Longrightarrow> g = guard_of ep"
  by (auto simp: mountV1_def guard_of_def)

lemma userIDFrom_Inr: "userIDFrom cfg c = Inr v \<longleftrightarrow> ac_parseUUID cfg (cl_UserID c) = Some v"
  by (simp add: userIDFrom_def split: option.split)

lemma matchActor_Inr: "matchActor cfg c raw = Inr (v, mid) \<Longrightarrow> ac_parseUUID cfg (cl_UserID c) = Some v"
  by (auto simp: matchActor_def userIDFrom_Inr split: sum.splits)

lemmas controllers = ctl_WSTicket_def ctl_Me_def ctl_ListBots_def ctl_Create_def ctl_Join_def ctl_Start_def ctl_List_def ctl_Get_def
  ctl_Leave_def ctl_Kick_def ctl_Handoff_def ctl_PatchSlots_def ctl_Stats_def ctl_Send_def ctl_History_def ctl_Notifications_def
  ctl_UnreadCount_def ctl_MarkRead_def ctl_Maps_def

lemma behalf_views: "on_behalf uid w (fst (lobby_views env ms w))"
proof (induction ms arbitrary: env w)
  case (Cons m ms)
  obtain w1 r where v: "View (esub env 0) (lm_ID m) w = (w1, r)" by fastforce
  then have 1: "on_behalf uid w w1" using behalf_keeps[OF ob.keeps_View, of uid w "esub env 0" "lm_ID m"] by simp
  have "on_behalf uid w1 (fst (ebind (lobby_views (esub env 1) ms) (\<lambda>vs. ret (v # vs)) w1))" for v
    by (rule behalf_bind) (simp_all add: Cons.IH ret_def del: One_nat_def)
  then show ?case using on_behalf_trans[OF 1] Cons.IH[of w1 "esub env 1"] by (simp add: v split: sum.split)
qed (simp add: ret_def)

lemma lobby_reads:
  "on_behalf uid w (fst (lobby_ListLobby env v w))" "on_behalf uid w (fst (lobby_Get env mid w))"
  "on_behalf uid w (fst (on_err f (statsReader_Get env mid) w))"
proof -
  show "on_behalf uid w (fst (lobby_ListLobby env v w))" unfolding lobby_ListLobby_def
    by (rule behalf_bind) (simp_all add: behalf_on_err behalf_views behalf_reads[THEN behalf_keeps])
  show "on_behalf uid w (fst (lobby_Get env mid w))" unfolding lobby_Get_def
    by (simp add: behalf_on_err behalf_reads[THEN behalf_keeps])
  have "on_behalf uid w (fst (Stats_Get env mid w))"
    unfolding Stats_Get_def by (rule behalf_bind) (auto intro!: behalf_keeps[OF ob.keeps_reading] simp: raise_def ret_def split: option.split)
  then show "on_behalf uid w (fst (on_err f (statsReader_Get env mid) w))"
    unfolding statsReader_Get_def behalf_on_err by (rule behalf_bind) (simp add: ret_def)
qed

lemma fst_ebind_ret: "fst (ebind m (\<lambda>a. ebind (k a) (\<lambda>b. ret (h a b))) s) = (case m s of (s1, Inl e) \<Rightarrow> s1 | (s1, Inr a) \<Rightarrow> fst (k a s1))"
  by (auto simp: ebind_def ret_def split: prod.split sum.split)

lemma notes_listing:
  "fst (ebind (svc_List e q) (\<lambda>items. ebind (svc_UnreadCount e' v) (\<lambda>n. ret (items, n))) s) = s"
  using notes_for_reads(1)[of e q s] notes_for_reads(2)[of e' v]
  by (auto simp: fst_ebind_ret split: prod.split sum.split)

lemma chat_History_same: "fst (chat_History env q s) = s"
  by (simp add: chat_History_def Chat_History_def on_err_def Let_def)

lemma acts_as_lobby_ctl:
  assumes "ac_parseUUID cfg (cl_UserID c) = Some uid"
  shows "acts_as uid s (fst (ctl_Create cfg env c rq s))" "acts_as uid s (fst (ctl_Join cfg env c raw rq s))"
    "acts_as uid s (fst (ctl_Start cfg env raw s))" "acts_as uid s (fst (ctl_List cfg env c s))" "acts_as uid s (fst (ctl_Get cfg env raw s))"
    "acts_as uid s (fst (ctl_Leave cfg env c raw s))" "acts_as uid s (fst (ctl_Kick cfg env c raw rq s))"
    "acts_as uid s (fst (ctl_Handoff cfg env c raw s))" "acts_as uid s (fst (ctl_PatchSlots cfg env c raw rq s))"
    "acts_as uid s (fst (ctl_Stats cfg env raw s))"
  using assms
  by (auto simp: controllers fst_check userIDFrom_Inr Let_def dest!: matchActor_Inr split: sum.split
      intro!: acts_as_lobby behalf_services lobby_reads)

lemma acts_as_other_ctl:
  assumes "ac_parseUUID cfg (cl_UserID c) = Some uid"
  shows "acts_as uid s (fst (ctl_Send cfg env c raw rq s))" "acts_as uid s (fst (ctl_History cfg env raw rq s))"
    "acts_as uid s (fst (ctl_Notifications cfg env c rq s))" "acts_as uid s (fst (ctl_UnreadCount cfg env c s))"
    "acts_as uid s (fst (ctl_MarkRead cfg env c s))" "acts_as uid s (fst (ctl_WSTicket cfg env c s))"
  using assms
  by (auto simp: controllers fst_check userIDFrom_Inr Let_def notes_listing chat_History_same notes_for_reads
      dest!: matchActor_Inr split: sum.split
      intro!: acts_as_chat acts_as_notes acts_as_auth chat_for_Send notes_for_MarkAllRead tickets_for_Mint)

lemma handle_acts_as:
  assumes "ac_parseUUID cfg (cl_UserID c) = Some uid" "guard_of ep = Bearer"
  shows "acts_as uid s (fst (handle cfg env c raw rq ep s))"
  using acts_as_lobby_ctl[OF assms(1)] acts_as_other_ctl[OF assms(1)] assms(2)
  by (cases ep) (simp_all add: handle_def guard_of_def ctl_Me_def)

lemma handle_bad_subject:
  assumes "ac_parseUUID cfg (cl_UserID c) = None" "guard_of ep = Bearer"
  shows "acts_as uid s (fst (handle cfg env c raw rq ep s))"
proof -
  have bad: "\<And>v. userIDFrom cfg c \<noteq> Inr v" "\<And>v mid. matchActor cfg c raw \<noteq> Inr (v, mid)"
    using assms(1) by (auto simp: matchActor_def userIDFrom_Inr split: sum.splits)
  then have "fst (check cfg (userIDFrom cfg c) k s) = s" "fst (check cfg (matchActor cfg c raw) k' s) = s" for k k'
    by (auto simp: fst_check split: sum.split)
  moreover have "acts_as uid s (fst (ctl_Start cfg env raw s))" "acts_as uid s (fst (ctl_Get cfg env raw s))"
    "acts_as uid s (fst (ctl_Stats cfg env raw s))"
    by (auto simp: controllers fst_check split: sum.split intro!: acts_as_lobby behalf_services lobby_reads)
  moreover have "acts_as uid s (fst (ctl_History cfg env raw rq s))"
    by (auto simp: controllers fst_check Let_def chat_History_same split: sum.split intro!: acts_as_chat)
  moreover have "acts_as uid s (fst (ctl_WSTicket cfg env c s))"
    using assms(1) by (auto simp: controllers MintWSTicket_def intro!: acts_as_auth)
  ultimately show ?thesis using assms(2)
    by (cases ep) (simp_all add: handle_def guard_of_def ctl_Me_def ctl_Create_def ctl_Join_def ctl_List_def ctl_Leave_def ctl_Kick_def
        ctl_Handoff_def ctl_PatchSlots_def ctl_Send_def ctl_Notifications_def ctl_UnreadCount_def ctl_MarkRead_def)
qed

section \<open>Every request\<close>

definition endpoint_of :: "http_request \<Rightarrow> endpoint option" where
  "endpoint_of rq =
     (case api_path (rq_Path rq) of
        None \<Rightarrow> None
      | Some segs \<Rightarrow> map_option (\<lambda>(g, m, ps, ep). ep) (find (\<lambda>(g, m, ps, ep). m = rq_Method rq \<and> segments_match ps segs) mountV1))"

definition credential :: "api_config \<Rightarrow> env \<Rightarrow> http_request \<Rightarrow> claims option" where
  "credential cfg env rq =
     (case RequireAuth (ac_crypto cfg) (ac_issuer cfg) (env_now env [0]) (rq_Authorization rq) of Inl e \<Rightarrow> None | Inr c \<Rightarrow> Some c)"

definition accounts_kept :: "core_state \<Rightarrow> core_state \<Rightarrow> bool" where
  "accounts_kept s s' \<longleftrightarrow> (\<exists>us. s' = s\<lparr>hp_world := (hp_world s)\<lparr>w_users := us\<rparr>\<rparr>) \<and>
     (\<forall>e uid h d b. has_account e uid h d b \<lparr>au_world = hp_world s, au_tickets = hp_tickets s\<rparr> \<longrightarrow>
                    has_account e uid h d b \<lparr>au_world = hp_world s', au_tickets = hp_tickets s'\<rparr>)"

lemma accounts_kept_refl [simp]: "accounts_kept s s"
  by (auto simp: accounts_kept_def intro!: exI[of _ "w_users (hp_world s)"])

lemma accounts_kept_step:
  assumes "fst (f \<lparr>au_world = hp_world s, au_tickets = hp_tickets s\<rparr>) = account_step cr iss parse ttl op \<lparr>au_world = hp_world s, au_tickets = hp_tickets s\<rparr>"
    and "\<exists>us. fst (f \<lparr>au_world = hp_world s, au_tickets = hp_tickets s\<rparr>) = \<lparr>au_world = (hp_world s)\<lparr>w_users := us\<rparr>, au_tickets = hp_tickets s\<rparr>"
  shows "accounts_kept s (fst (with_auth f s))"
proof -
  obtain us where us: "fst (f \<lparr>au_world = hp_world s, au_tickets = hp_tickets s\<rparr>) = \<lparr>au_world = (hp_world s)\<lparr>w_users := us\<rparr>, au_tickets = hp_tickets s\<rparr>"
    using assms(2) by blast
  have "has_account e uid h d b \<lparr>au_world = (hp_world s)\<lparr>w_users := us\<rparr>, au_tickets = hp_tickets s\<rparr>"
    if "has_account e uid h d b \<lparr>au_world = hp_world s, au_tickets = hp_tickets s\<rparr>" for e uid h d b
    using has_account_step[OF that, of cr iss parse ttl op] unfolding assms(1)[symmetric] us .
  then show ?thesis using us by (auto simp: with_auth_def accounts_kept_def case_prod_beta)
qed

lemma on_world_users:
  assumes "\<exists>us. fst (f w) = w\<lparr>w_users := us\<rparr>"
  shows "\<exists>us. fst (on_world f \<lparr>au_world = w, au_tickets = t\<rparr>) = \<lparr>au_world = w\<lparr>w_users := us\<rparr>, au_tickets = t\<rparr>"
  using assms by (auto simp: on_world_fst)

lemma users_only_same: "w = w\<lparr>w_users := w_users w\<rparr>"
  by simp

lemma users_only: "\<exists>us. fst (Users_Create env e h d c w) = w\<lparr>w_users := us\<rparr>" "\<exists>us. fst (TouchLogin env v w) = w\<lparr>w_users := us\<rparr>"
  using Create_users[of env e h d c w] TouchLogin_users[of env v w] users_only_same by metis+

lemma on_world_users_only:
  "\<exists>us. fst (on_world (Users_Create env e h d c) \<lparr>au_world = w, au_tickets = t\<rparr>) = \<lparr>au_world = w\<lparr>w_users := us\<rparr>, au_tickets = t\<rparr>"
  "\<exists>us. fst (on_world (TouchLogin env v) \<lparr>au_world = w, au_tickets = t\<rparr>) = \<lparr>au_world = w\<lparr>w_users := us\<rparr>, au_tickets = t\<rparr>"
  by (rule on_world_users, rule users_only)+

lemma accounts_kept_signs_in:
  "accounts_kept s (fst (ctl_Register cfg env rq s))" "accounts_kept s (fst (ctl_Login cfg env rq s))" "accounts_kept s (fst (ctl_LoginAsBot cfg env rq s))"
proof -
  let ?a = "\<lparr>au_world = hp_world s, au_tickets = hp_tickets s\<rparr>"
  have same: "\<exists>us. ?a = \<lparr>au_world = (hp_world s)\<lparr>w_users := us\<rparr>, au_tickets = hp_tickets s\<rparr>"
    by (intro exI[of _ "w_users (hp_world s)"]) simp
  have "\<exists>us. fst (Register cr e iss inp ?a) = \<lparr>au_world = (hp_world s)\<lparr>w_users := us\<rparr>, au_tickets = hp_tickets s\<rparr>" for cr e iss inp
    using fst_Register[of cr e iss inp ?a] same on_world_users_only(1) by metis
  moreover have "\<exists>us. fst (Login cr e iss inp ?a) = \<lparr>au_world = (hp_world s)\<lparr>w_users := us\<rparr>, au_tickets = hp_tickets s\<rparr>" for cr e iss inp
    using fst_Login[of cr e iss inp ?a] same on_world_users_only(2) by metis
  moreover have "\<exists>us. fst (LoginAsBot cr e iss v ?a) = \<lparr>au_world = (hp_world s)\<lparr>w_users := us\<rparr>, au_tickets = hp_tickets s\<rparr>" for cr e iss v
    using fst_LoginAsBot[of cr e iss v ?a] same on_world_users_only(2) by metis
  ultimately have
    "accounts_kept s (fst (with_auth (Register cr e iss inp) s))" "accounts_kept s (fst (with_auth (Login cr e iss li) s))"
    "accounts_kept s (fst (with_auth (LoginAsBot cr e iss v) s))" for cr e iss inp li v
    using accounts_kept_step[of "Register cr e iss inp" s cr iss Some 0 "Registers e inp"]
      accounts_kept_step[of "Login cr e iss li" s cr iss Some 0 "LogsIn e li"]
      accounts_kept_step[of "LoginAsBot cr e iss v" s cr iss Some 0 "BotLogsIn e v"]
    by (simp_all add: account_step_def)
  then show "accounts_kept s (fst (ctl_Register cfg env rq s))" "accounts_kept s (fst (ctl_Login cfg env rq s))"
    "accounts_kept s (fst (ctl_LoginAsBot cfg env rq s))"
    by (auto simp: ctl_Register_def ctl_Login_def ctl_LoginAsBot_def fst_check split: sum.split)
qed

lemma serve_routed:
  assumes "endpoint_of rq = Some ep"
  shows "\<exists>raw. serve cfg env rq s = guarded cfg env (guard_of ep) raw rq ep s"
proof -
  obtain segs g m ps where segs: "api_path (rq_Path rq) = Some segs"
      and hit: "find (\<lambda>(g, m, ps, ep). m = rq_Method rq \<and> segments_match ps segs) mountV1 = Some (g, m, ps, ep)"
    using assms by (auto simp: endpoint_of_def split: option.splits)
  from hit have row: "(g, m, ps, ep) \<in> set mountV1" "m = rq_Method rq" by (auto simp: find_Some_iff in_set_conv_nth)
  have "rq_Method rq \<noteq> MethodOptions" using row by (auto simp: mountV1_def)
  moreover have "probe cfg (esub env 2) (rq_Path rq) = None" using segs by (auto simp: probe_def api_path_def)
  ultimately show ?thesis using segs hit mountV1_guards[OF row(1)] by (auto simp: serve_def)
qed

lemma serve_unrouted: "endpoint_of rq = None \<Longrightarrow> fst (serve cfg env rq s) = s"
  by (auto simp: serve_def endpoint_of_def split: option.split)

lemma bots_listed: "fst (with_auth (svc_ListBots env) s) = s"
  by (simp add: with_auth_def svc_ListBots_def on_err_def on_world_def ListBots_def reading_def statement_def Let_def split: outcome.split)

lemma guarded_public:
  assumes "guard_of ep \<noteq> Bearer" "guard_of ep = BotKey \<longrightarrow> RequireBotKey (ac_botKey cfg) (rq_BotKey rq) = None" "\<not> signs_in ep"
  shows "fst (handle cfg env c raw rq ep s) = s"
  using assms by (cases ep) (simp_all add: handle_def guard_of_def signs_in_def ctl_Maps_def ctl_ListBots_def bots_listed)

lemma signs_in_kept: "signs_in ep \<Longrightarrow> accounts_kept s (fst (handle cfg env c raw rq ep s))"
  using accounts_kept_signs_in by (auto simp: signs_in_def handle_def)

lemma RequireBotKey_None: "RequireBotKey k p = None \<longleftrightarrow> k \<noteq> [] \<and> p = k"
  by (auto simp: RequireBotKey_def)

lemma RequireAuth_401: "RequireAuth cr iss now h = Inl e \<Longrightarrow> rs_Status (render_Err text e) = 401"
  by (auto simp: RequireAuth_def errs_New_def errs_Wrap_def render_Err_def render_JSON_def split: if_splits sum.splits)


text \<open>A deployment with one account, and a request of a stranger to close the notifications.\<close>

definition small_api :: api_config where
  "small_api = \<lparr>ac_codec = \<lparr>dec_register = (\<lambda>_. None), dec_login = (\<lambda>_. None), dec_bot = (\<lambda>_. None), dec_create = (\<lambda>_. None),
       dec_join = (\<lambda>_. None), dec_kick = (\<lambda>_. None), dec_patch = (\<lambda>_. None), dec_chat = (\<lambda>_. None), dec_time = (\<lambda>_. None), err_text = (\<lambda>_. [])\<rparr>,
     ac_crypto = clear_crypto, ac_parseUUID = Some, ac_issuer = \<lparr>is_secret = ''key'', is_accessTTL = Hour\<rparr>, ac_ticketTTL = Minute,
     ac_lobby = \<lparr>ls_load = (\<lambda>i. Inl (MapNotFound i)), ls_bots = False, ls_speed = 60\<rparr>, ac_maps = [], ac_assets = [],
     ac_botKey = [], ac_version = ''1'', ac_mode = ''core-api''\<rparr>"

definition small_core :: "notification list \<Rightarrow> chat_message list \<Rightarrow> core_state" where
  "small_core ns ms = \<lparr>hp_world = sample_world StatusActive [] [sample_user ''ann'' False], hp_tickets = [],
     hp_chat = \<lparr>cs_world = sample_world StatusActive [] [], cs_messages = ms, cs_throttle = [], cs_published = []\<rparr>,
     hp_notes = \<lparr>ns_world = sample_world StatusActive [] [], ns_rows = ns, ns_cache = [], ns_mails = []\<rparr>\<rparr>"

definition get_request :: "http_method \<Rightarrow> string \<Rightarrow> string \<Rightarrow> http_request" where
  "get_request m path auth = \<lparr>rq_Method = m, rq_Path = path, rq_Authorization = auth, rq_BotKey = [], rq_Query = [], rq_Body = []\<rparr>"

lemma split_on_once: "split_on c (x # xs) = (if x = c then [] # split_on c xs else case split_on c xs of y # ys \<Rightarrow> (x # y) # ys)"
  by (cases "split_on c xs") (cases xs, simp_all split: if_splits)


text \<open>The route that sets the slots of a match uses a method the CORS answer does not list.\<close>

lemma slots_route_not_allowed:
  "(Bearer, MethodPatch, [Lit ''matches'', MatchID, Lit ''slots''], EpPatchSlots) \<in> set mountV1 \<and> MethodPatch \<notin> set CORS_methods"
  by (simp add: mountV1_def CORS_methods_def)

text \<open>
  Reading the history of a chat needs no membership: any account, whatever its token names, is given the
  last fifty messages of any scope of any match, a direct message between two others included.
\<close>

theorem history_open_to_any_account:
  assumes "credential cfg env rq = Some c" "endpoint_of rq = Some EpHistory" "api_path (rq_Path rq) = Some [x, raw, y]"
    and "ac_parseUUID cfg raw = Some mid" "query_get rq ''scope'' = scope" "scope \<noteq> []" "query_get rq ''before'' = []" "query_get rq ''limit'' = []"
    and "env_ok env"
  shows "serve cfg env rq s = (s, \<lparr>rs_Status = 200, rs_Body = ChatsBody (map chatMessageView (take 50 (sort_key (\<lambda>m. - cm_SentAt m)
     (filter (\<lambda>m. cm_MatchID m = mid \<and> cm_Scope m = scope \<and> cm_SentAt m < env_now env [1] + Hour) (cs_messages (hp_chat s))))))\<rparr>)"
proof -
  obtain g m ps where hit: "find (\<lambda>(g, m, ps, ep). m = rq_Method rq \<and> segments_match ps [x, raw, y]) mountV1 = Some (g, m, ps, EpHistory)"
    using assms(2,3) by (auto simp: endpoint_of_def)
  then have row: "(g, m, ps, EpHistory) \<in> set mountV1" "m = rq_Method rq" by (auto simp: find_Some_iff in_set_conv_nth)
  have g: "g = Bearer" using mountV1_guards[OF row(1)] by (simp add: guard_of_def)
  have m: "rq_Method rq \<noteq> MethodOptions" using row by (auto simp: mountV1_def)
  have p: "probe cfg (esub env 2) (rq_Path rq) = None" using assms(3) by (auto simp: probe_def api_path_def)
  have "serve cfg env rq s = ctl_History cfg (esub env 1) raw rq s"
    using assms(1) assms(3) hit m p g by (simp add: serve_def guarded_def handle_def credential_def check_def split: sum.splits)
  also have "\<dots> = (s, \<lparr>rs_Status = 200, rs_Body = ChatsBody (map chatMessageView (take 50 (sort_key (\<lambda>m. - cm_SentAt m)
     (filter (\<lambda>m. cm_MatchID m = mid \<and> cm_Scope m = scope \<and> cm_SentAt m < env_now env [1] + Hour) (cs_messages (hp_chat s))))))\<rparr>)"
    using assms(4-9)
    by (simp add: ctl_History_def check_def matchParam_def timeParam_def parseLimit_def answer_def with_chat_def chat_History_def
        Chat_History_def on_err_def render_JSON_def env_ok_def esub_def time_isZero_def Let_def)
  finally show ?thesis .
qed

end
