(* ===== verification/BotClient.thy ===== *)
theory BotClient
  imports Bot Requests
begin

text \<open>
  The bots' way to a socket: the client of core-api (\<open>internal/aibot/coreclient.go\<close>), which speaks to the
  routes of \<open>Http\<close>, and the start of a session (\<open>session.go\<close>), which dials the gateway with the ticket it
  was given. The transport may lose a request or its answer; encoding a request and parsing a URL are
  parameters.
\<close>

section \<open>coreclient.go\<close>

record core_client =
  cc_apiKey :: string
  cc_token :: string

datatype client_err = NoToken | Transport | BadStatus int http_body | BadAnswer | BadURL | SendFailed

definition NewCoreClient :: "string \<Rightarrow> core_client" where
  "NewCoreClient key = \<lparr>cc_apiKey = key, cc_token = []\<rparr>"

text \<open>\<open>do\<close>: a status of 400 or more is an error.\<close>

definition client_do :: "api_config \<Rightarrow> env \<Rightarrow> http_request \<Rightarrow> core_state \<Rightarrow> core_state \<times> (client_err + http_body)" where
  "client_do cfg env rq s =
     (case env_outcome env [0] of
        Refused \<Rightarrow> (s, Inl Transport)
      | AnswerLost \<Rightarrow> (fst (serve cfg (esub env 1) rq s), Inl Transport)
      | Delivered \<Rightarrow>
          (case serve cfg (esub env 1) rq s of
             (s', rs) \<Rightarrow> (s', if 400 \<le> rs_Status rs then Inl (BadStatus (rs_Status rs) (rs_Body rs)) else Inr (rs_Body rs))))"

definition withBotKey :: "string \<Rightarrow> http_request \<Rightarrow> http_request" where
  "withBotKey key rq = rq\<lparr>rq_BotKey := key\<rparr>"

definition withBearer :: "string \<Rightarrow> http_request \<Rightarrow> http_request" where
  "withBearer token rq = rq\<lparr>rq_Authorization := ''Bearer '' @ token\<rparr>"

definition plain_request :: "http_method \<Rightarrow> string \<Rightarrow> string \<Rightarrow> http_request" where
  "plain_request m path body =
     \<lparr>rq_Method = m, rq_Path = path, rq_Authorization = [], rq_BotKey = [], rq_Query = [], rq_Body = body\<rparr>"

definition client_ListBots :: "api_config \<Rightarrow> env \<Rightarrow> core_client \<Rightarrow> core_state \<Rightarrow> core_state \<times> (client_err + bot_user_view list)" where
  "client_ListBots cfg env cc s =
     (case client_do cfg env (withBotKey (cc_apiKey cc) (plain_request MethodGet ''/api/v1/auth/bots'' [])) s of
        (s', Inl e) \<Rightarrow> (s', Inl e)
      | (s', Inr body) \<Rightarrow> (s', case body of BotsBody bs \<Rightarrow> Inr bs | _ \<Rightarrow> Inl BadAnswer))"

definition client_LoginAsBot :: "api_config \<Rightarrow> (user_id \<Rightarrow> string) \<Rightarrow> env \<Rightarrow> user_id \<Rightarrow> core_client \<times> core_state \<Rightarrow>
    (core_client \<times> core_state) \<times> (client_err + token_response)" where
  "client_LoginAsBot cfg enc env uid x =
     (case x of (cc, s) \<Rightarrow>
      (case client_do cfg env (withBotKey (cc_apiKey cc) (plain_request MethodPost ''/api/v1/auth/login-as-bot'' (enc uid))) s of
         (s', Inr (TokenBody t)) \<Rightarrow> ((cc\<lparr>cc_token := tr_AccessToken t\<rparr>, s'), Inr t)
       | (s', Inr _) \<Rightarrow> ((cc, s'), Inl BadAnswer)
       | (s', Inl e) \<Rightarrow> ((cc, s'), Inl e)))"

definition client_MintWSTicket :: "api_config \<Rightarrow> env \<Rightarrow> core_client \<Rightarrow> core_state \<Rightarrow> core_state \<times> (client_err + string)" where
  "client_MintWSTicket cfg env cc s =
     (if cc_token cc = [] then (s, Inl NoToken)
      else
        case client_do cfg env (withBearer (cc_token cc) (plain_request MethodPost ''/api/v1/auth/ws-ticket'' [])) s of
          (s', Inr (TicketBody t)) \<Rightarrow> (s', Inr t)
        | (s', Inr _) \<Rightarrow> (s', Inl BadAnswer)
        | (s', Inl e) \<Rightarrow> (s', Inl e))"

section \<open>session.go: the start of a session\<close>

record ws_url =
  wu_Scheme :: string
  wu_Host :: string
  wu_Path :: string
  wu_Query :: "(string, string) gomap"

definition ascii_lower_all :: "string \<Rightarrow> string" where
  "ascii_lower_all s = map ascii_lower s"

text \<open>The scheme of a parsed URL is ASCII.\<close>

definition buildWSURL :: "(string \<Rightarrow> ws_url option) \<Rightarrow> string \<Rightarrow> string \<Rightarrow> string \<Rightarrow> client_err + ws_url" where
  "buildWSURL parse_url base ticket mid =
     (case parse_url base of
        None \<Rightarrow> Inl BadURL
      | Some u \<Rightarrow>
          let scheme = ascii_lower_all (wu_Scheme u);
              u1 = u\<lparr>wu_Scheme := (if scheme = ''http'' \<or> scheme = ''ws'' then ''ws''
                                  else if scheme = ''https'' \<or> scheme = ''wss'' then ''wss'' else ''ws'')\<rparr>;
              u2 = (if wu_Path u1 = [] \<or> wu_Path u1 = ''/'' then u1\<lparr>wu_Path := ''/ws''\<rparr> else u1)
          in Inr (u2\<lparr>wu_Query := mput ''match_id'' mid (mput ''ticket'' ticket (wu_Query u2))\<rparr>))"

text \<open>What a session finds at the other end: core-api and the gateway, which share the tickets.\<close>

record services =
  sv_core :: core_state
  sv_hub :: hub
  sv_client :: core_client

definition url_query :: "ws_url \<Rightarrow> string \<Rightarrow> string" where
  "url_query u key = (case map_of (wu_Query u) key of Some v \<Rightarrow> v | None \<Rightarrow> [])"

text \<open>Dialling: the gateway redeems the ticket and upgrades the connection.\<close>

definition dial :: "env \<Rightarrow> (string, slot) gomap \<Rightarrow> ws_url \<Rightarrow> services \<Rightarrow> services \<times> ws_result" where
  "dial env idx u sv =
     (let ticket = url_query u ''ticket'';
          a = \<lparr>au_world = hp_world (sv_core sv), au_tickets = hp_tickets (sv_core sv)\<rparr>;
          a' = (if ticket = [] then a else fst (Redeem (esub env 0) ticket a))
      in case handleWS (esub env 1) (redeem_user (esub env 0) a) idx ticket (url_query u ''match_id'') (sv_hub sv) of
           (h, r) \<Rightarrow> (sv\<lparr>sv_hub := h, sv_core := (sv_core sv)\<lparr>hp_tickets := au_tickets a'\<rparr>\<rparr>, r))"

text \<open>\<open>run\<close> up to the read loop: log in as the bot, get a ticket, dial, and say hello. The client may be
  shared, its token is the one the last login left there. A connection is up when the dial succeeds.\<close>

definition session_connect :: "api_config \<Rightarrow> (user_id \<Rightarrow> string) \<Rightarrow> (string \<Rightarrow> ws_url option) \<Rightarrow> string \<Rightarrow> (string, slot) gomap \<Rightarrow> env \<Rightarrow>
    bot_session \<Rightarrow> services \<Rightarrow> services \<times> (client_err + bot_session)" where
  "session_connect cfg enc parse_url gateway idx env b sv =
     (case client_LoginAsBot cfg enc (esub env 0) (bn_botUID b) (sv_client sv, sv_core sv) of
        ((cc, s1), Inl e) \<Rightarrow> (sv\<lparr>sv_client := cc, sv_core := s1\<rparr>, Inl e)
      | ((cc, s1), Inr t) \<Rightarrow>
          (case client_MintWSTicket cfg (esub env 1) cc s1 of
             (s2, Inl e) \<Rightarrow> (sv\<lparr>sv_client := cc, sv_core := s2\<rparr>, Inl e)
           | (s2, Inr ticket) \<Rightarrow>
               let sv2 = sv\<lparr>sv_client := cc, sv_core := s2\<rparr> in
               (case buildWSURL parse_url gateway ticket (bn_matchID b) of
                  Inl e \<Rightarrow> (sv2, Inl e)
                | Inr u \<Rightarrow>
                    (case dial (esub env 2) idx u sv2 of
                       (sv3, WsConnected) \<Rightarrow>
                         if env_outcome env [3] \<noteq> Delivered then (sv3, Inl SendFailed) else (sv3, Inr (b\<lparr>bn_ws := True\<rparr>))
                     | (sv3, _) \<Rightarrow> (sv3, Inl Transport)))))"

section \<open>seed.go\<close>

definition botColors :: "string list" where
  "botColors = [''#7d8da1'', ''#a78bfa'', ''#fbbf24'', ''#34d399'', ''#f472b6'', ''#60a5fa'']"

definition defaultBotColor :: "int \<Rightarrow> string" where
  "defaultBotColor idx = (if idx \<le> 0 then botColors ! 0 else botColors ! nat ((idx - 1) mod int (length botColors)))"

section \<open>A bot gets through\<close>

lemma whole_seconds_after: "Second \<le> d \<Longrightarrow> t < whole_seconds (t + d)"
proof -
  assume d: "Second \<le> d"
  have "(t + d) mod Second < Second" by (simp add: duration_defs)
  then show ?thesis using d unfolding whole_seconds_def by linarith
qed

lemma client_endpoints:
  "endpoint_of (withBotKey k (plain_request MethodPost ''/api/v1/auth/login-as-bot'' b)) = Some EpLoginAsBot"
  "endpoint_of (withBearer tok (plain_request MethodPost ''/api/v1/auth/ws-ticket'' b)) = Some EpWSTicket"
  by (simp_all add: endpoint_of_def api_path_def withBotKey_def withBearer_def plain_request_def mountV1_def split_on_once
      del: split_on.simps(2))

lemma env_ok_now: "env_ok env \<Longrightarrow> env_outcome env p = Delivered"
  by (simp add: env_ok_def)

lemma login_through:
  assumes "env_ok env" "env_now env = (\<lambda>_. t)" "crypto_laws (ac_crypto cfg)"
    and "\<forall>c. \<exists>tok. cr_sign (ac_crypto cfg) (is_secret (ac_issuer cfg)) c = Some tok \<and> tok \<noteq> []"
    and "cc_apiKey cc = ac_botKey cfg" "ac_botKey cfg \<noteq> []" "dec_bot (ac_codec cfg) (enc uid) = Some uid"
    and "user_row (hp_world s) uid = Some u" "usr_IsBot u" "Second \<le> is_accessTTL (ac_issuer cfg)"
  shows "\<exists>s' tr tok. client_LoginAsBot cfg enc env uid (cc, s) = ((cc\<lparr>cc_token := tok\<rparr>, s'), Inr tr) \<and> tok \<noteq> []
     \<and> (\<exists>c. RequireAuth (ac_crypto cfg) (ac_issuer cfg) t (''Bearer '' @ tok) = Inr c \<and> cl_UserID c = uid)"
proof -
  let ?rq = "withBotKey (cc_apiKey cc) (plain_request MethodPost ''/api/v1/auth/login-as-bot'' (enc uid))"
  let ?iss = "ac_issuer cfg" and ?cr = "ac_crypto cfg"
  have u: "usr_ID u = uid" using assms(8) by (auto simp: user_row_def dest: find_SomeD)
  have ok: "env_ok (esub env i)" "env_now (esub env i) = (\<lambda>_. t)" for i using assms(1,2) by (simp_all add: esub_def env_ok_def)
  define c where "c = \<lparr>cl_UserID = uid, cl_Email = usr_Email u, cl_DisplayName = usr_DisplayName u,
      cl_IssuedAt = whole_seconds t, cl_ExpiresAt = whole_seconds (t + is_accessTTL ?iss)\<rparr>"
  obtain tok where tok: "cr_sign ?cr (is_secret ?iss) c = Some tok" "tok \<noteq> []" using assms(4) by blast
  have "t < cl_ExpiresAt c" using whole_seconds_after[OF assms(10)] by (simp add: c_def)
  then have "cr_parse ?cr (is_secret ?iss) t tok = Some c" using assms(3) tok(1) unfolding crypto_laws_def by blast
  then have auth: "RequireAuth ?cr ?iss t (''Bearer '' @ tok) = Inr c" by (simp add: RequireAuth_def Verify_def)
  have iss: "issue ?cr e ?iss u = Inr \<lparr>ti_AccessToken = tok, ti_ExpiresAt = t + is_accessTTL ?iss, ti_User = u\<rparr>"
    if "env_now e = (\<lambda>_. t)" for e
    using tok u that by (simp add: issue_def IssueAccess_def c_def Let_def)
  have byid: "Users_ByID e uid w = (w, Inr u)" if "env_ok e" "user_row w uid = Some u" for e w
    using that by (simp add: Users_ByID_def ebind_def reading_def statement_def env_ok_def ret_def)
  let ?a = "\<lparr>au_world = hp_world s, au_tickets = hp_tickets s\<rparr>"
  have login: "snd (LoginAsBot ?cr e ?iss uid ?a) = Inr \<lparr>ti_AccessToken = tok, ti_ExpiresAt = t + is_accessTTL ?iss, ti_User = u\<rparr>"
    if "env_ok e" "env_now e = (\<lambda>_. t)" for e
    using assms(8,9) that by (simp add: LoginAsBot_def on_world_id byid iss esub_def env_ok_def)
  obtain raw where raw: "serve cfg (esub env 1) ?rq s = guarded cfg (esub env 1) BotKey raw ?rq EpLoginAsBot s"
    using serve_routed[OF client_endpoints(1), of cfg "esub env 1" "cc_apiKey cc" "enc uid" s] by (auto simp: guard_of_def)
  have key: "RequireBotKey (ac_botKey cfg) (rq_BotKey ?rq) = None" using assms(5,6) by (simp add: RequireBotKey_def withBotKey_def)
  have body: "dec_bot (ac_codec cfg) (rq_Body ?rq) = Some uid" using assms(7) by (simp add: withBotKey_def plain_request_def)
  define e where "e = esub (esub env 1) 1"
  obtain s' where "with_auth (LoginAsBot ?cr e ?iss uid) s = (s', Inr \<lparr>ti_AccessToken = tok, ti_ExpiresAt = t + is_accessTTL ?iss, ti_User = u\<rparr>)"
    using login[of e] ok assms(1,2) by (auto simp: with_auth_def case_prod_beta e_def esub_def env_ok_def)
  then have "serve cfg (esub env 1) ?rq s = (s', render_JSON 200 (tokenView \<lparr>ti_AccessToken = tok, ti_ExpiresAt = t + is_accessTTL ?iss, ti_User = u\<rparr>))"
    unfolding raw using key body
    by (simp add: guarded_def check_def handle_def ctl_LoginAsBot_def decode_body_def answer_def e_def del: One_nat_def)
  then have "client_LoginAsBot cfg enc env uid (cc, s) = ((cc\<lparr>cc_token := tok\<rparr>, s'),
      Inr \<lparr>tr_AccessToken = tok, tr_ExpiresAt = t + is_accessTTL ?iss, tr_User = userView u\<rparr>)"
    using assms(1) by (simp add: client_LoginAsBot_def client_do_def env_ok_def render_JSON_def tokenView_def)
  then show ?thesis using tok(2) auth by (auto simp: c_def)
qed

lemma ticket_through:
  assumes "env_ok env" "env_now env = (\<lambda>_. t)" "cc_token cc \<noteq> []" "0 < ac_ticketTTL cfg"
    and "RequireAuth (ac_crypto cfg) (ac_issuer cfg) t (''Bearer '' @ cc_token cc) = Inr c" "ac_parseUUID cfg (cl_UserID c) = Some uid"
  shows "\<exists>s'. client_MintWSTicket cfg env cc s = (s', Inr (env_uuid env [1, 1]))
     \<and> holds_ticket (env_uuid env [1, 1]) uid (t + ac_ticketTTL cfg) \<lparr>au_world = hp_world s', au_tickets = hp_tickets s'\<rparr>"
proof -
  let ?rq = "withBearer (cc_token cc) (plain_request MethodPost ''/api/v1/auth/ws-ticket'' [])"
  define e where "e = esub (esub env 1) 1"
  have e: "env_ok e" "env_uuid e [] = env_uuid env [1, 1]" "env_now e = (\<lambda>_. t)"
    using assms(1,2) by (simp_all add: e_def esub_def env_ok_def)
  obtain raw where raw: "serve cfg (esub env 1) ?rq s = guarded cfg (esub env 1) Bearer raw ?rq EpWSTicket s"
    using serve_routed[OF client_endpoints(2), of cfg "esub env 1" "cc_token cc" "[]" s] by (auto simp: guard_of_def)
  let ?a = "\<lparr>au_world = hp_world s, au_tickets = hp_tickets s\<rparr>"
  obtain a' r where m: "MintWSTicket (ac_parseUUID cfg) e (ac_ticketTTL cfg) c ?a = (a', r)" by fastforce
  have held: "r = Inr (env_uuid env [1, 1])" "holds_ticket (env_uuid env [1, 1]) uid (t + ac_ticketTTL cfg) a'"
    using Mint_holds[OF e(1) assms(4), of "ac_parseUUID cfg" c uid ?a a' r] m assms(6) e by simp_all
  let ?s' = "s\<lparr>hp_world := au_world a', hp_tickets := au_tickets a'\<rparr>"
  have "RequireAuth (ac_crypto cfg) (ac_issuer cfg) (env_now (esub env 1) [0]) (rq_Authorization ?rq) = Inr c"
    using assms(2,5) by (simp add: withBearer_def esub_def)
  then have "serve cfg (esub env 1) ?rq s = (?s', render_JSON 200 (TicketBody (env_uuid env [1, 1])))"
    unfolding raw using m held(1)
    by (simp add: guarded_def check_def handle_def ctl_WSTicket_def with_auth_def answer_def e_def del: One_nat_def)
  then have "client_MintWSTicket cfg env cc s = (?s', Inr (env_uuid env [1, 1]))"
    using assms(1,3) by (simp add: client_MintWSTicket_def client_do_def env_ok_def render_JSON_def)
  moreover have "\<lparr>au_world = hp_world ?s', au_tickets = hp_tickets ?s'\<rparr> = a'" by simp
  ultimately show ?thesis using held(2) by metis
qed

text \<open>
  A bot gets through. With the shared key, a bot account, working services and a clock that stands still,
  a session logs in, gets a ticket and is connected to the gateway as its account.
\<close>

theorem bot_session_connects:
  assumes "env_ok env" "env_now env = (\<lambda>_. t)" "\<forall>p. env_uuid env p \<noteq> []" "crypto_laws (ac_crypto cfg)"
    and "\<forall>c. \<exists>tok. cr_sign (ac_crypto cfg) (is_secret (ac_issuer cfg)) c = Some tok \<and> tok \<noteq> []"
    and "cc_apiKey (sv_client sv) = ac_botKey cfg" "ac_botKey cfg \<noteq> []" "dec_bot (ac_codec cfg) (enc (bn_botUID b)) = Some (bn_botUID b)"
    and "user_row (hp_world (sv_core sv)) (bn_botUID b) = Some u" "usr_IsBot u"
    and "Second \<le> is_accessTTL (ac_issuer cfg)" "0 < ac_ticketTTL cfg"
    and "ac_parseUUID cfg (bn_botUID b) = Some (bn_botUID b)" "parse_url gateway = Some url"
  shows "\<exists>sv' conn. session_connect cfg enc parse_url gateway idx env b sv = (sv', Inr (b\<lparr>bn_ws := True\<rparr>))
     \<and> map_of (hb_connections (sv_hub sv')) (env_uuid env [2, 1]) = Some conn \<and> cn_user conn = bn_botUID b"
proof -
  let ?e = "\<lambda>i. esub env i" and ?uid = "bn_botUID b"
  have e: "env_ok (?e i)" "env_now (?e i) = (\<lambda>_. t)" for i using assms(1,2) by (simp_all add: esub_def env_ok_def)
  obtain s1 tr tok c where login: "client_LoginAsBot cfg enc (?e 0) ?uid (sv_client sv, sv_core sv) = (((sv_client sv)\<lparr>cc_token := tok\<rparr>, s1), Inr tr)"
      and tok: "tok \<noteq> []" "RequireAuth (ac_crypto cfg) (ac_issuer cfg) t (''Bearer '' @ tok) = Inr c" "cl_UserID c = ?uid"
    using login_through[where env = "?e 0" and enc = enc and uid = ?uid, OF e assms(4-11)] by blast
  let ?cc = "(sv_client sv)\<lparr>cc_token := tok\<rparr>" and ?i = "env_uuid (?e 1) [1, 1]"
  obtain s2 where mint: "client_MintWSTicket cfg (?e 1) ?cc s1 = (s2, Inr ?i)"
      and held: "holds_ticket ?i ?uid (t + ac_ticketTTL cfg) \<lparr>au_world = hp_world s2, au_tickets = hp_tickets s2\<rparr>"
    using ticket_through[where env = "?e 1" and cc = ?cc and uid = ?uid and c = c and cfg = cfg and s = s1, OF e] tok assms(12,13) by auto
  obtain w where url: "buildWSURL parse_url gateway ?i (bn_matchID b) = Inr w" "url_query w ''ticket'' = ?i" "url_query w ''match_id'' = bn_matchID b"
    using assms(14) by (auto simp: buildWSURL_def url_query_def Let_def)
  let ?a = "\<lparr>au_world = hp_world s2, au_tickets = hp_tickets s2\<rparr>"
  have "?i \<noteq> []" using assms(3) by (simp add: esub_def)
  moreover have "redeem_user (esub (?e 2) 0) ?a ?i = Some ?uid"
    by (rule Redeem_once(1)[OF held]) (use assms(1,2,12) in \<open>simp_all add: esub_def env_ok_def\<close>)
  ultimately obtain h conn where "handleWS (esub (?e 2) 1) (redeem_user (esub (?e 2) 0) ?a) idx ?i (bn_matchID b) (sv_hub sv) = (h, WsConnected)"
      "map_of (hb_connections h) (env_uuid (esub (?e 2) 1) []) = Some conn" "cn_user conn = ?uid"
    using handleWS_opens[where env = "esub (?e 2) 1" and i = ?i and redeem = "redeem_user (esub (?e 2) 0) ?a" and uid = ?uid] e assms(1)
    by (metis env_ok_esub)
  moreover have "env_outcome env [3] = Delivered" using assms(1) by (simp add: env_ok_def)
  ultimately show ?thesis using login mint url
    by (simp add: session_connect_def dial_def esub_def Let_def)
qed

end
