(* ===== verification/Bridge.thy ===== *)
theory Bridge
  imports Gateway Workers Runner
begin

text \<open>
  The consumers of \<open>internal/adapter/natsbridge\<close>: what a delivered message becomes and how it is
  acknowledged. A payload that does not decode is \<open>None\<close>. What the broker makes of an
  acknowledgement is not modelled.
\<close>

section \<open>subscriber.go\<close>

datatype ack = Ack | NakWithDelay duration | Term

datatype handler_err = BridgeNotHosted | HandlerFailed

definition consume_command :: "('p \<Rightarrow> 's \<Rightarrow> 's \<times> handler_err option) \<Rightarrow> 'p option \<Rightarrow> 's \<Rightarrow> 's \<times> ack" where
  "consume_command handler payload s =
     (case payload of
        None \<Rightarrow> (s, Term)
      | Some p \<Rightarrow>
          (case handler p s of
             (s', Some BridgeNotHosted) \<Rightarrow> (s', NakWithDelay Second)
           | (s', Some HandlerFailed) \<Rightarrow> (s', NakWithDelay (2 * Second))
           | (s', None) \<Rightarrow> (s', Ack)))"

definition consume_start :: "('p \<Rightarrow> 's \<Rightarrow> 's \<times> 'e option) \<Rightarrow> 'p option \<Rightarrow> 's \<Rightarrow> 's \<times> ack" where
  "consume_start handler payload s =
     (case payload of
        None \<Rightarrow> (s, Term)
      | Some p \<Rightarrow> (case handler p s of (s', Some e) \<Rightarrow> (s', Term) | (s', None) \<Rightarrow> (s', Ack)))"

text \<open>Messages of plain subjects are handled once, whatever the handler answers.\<close>

definition consume_plain :: "('p \<Rightarrow> 's \<Rightarrow> 's) \<Rightarrow> 'p option \<Rightarrow> 's \<Rightarrow> 's" where
  "consume_plain handler payload s = (case payload of None \<Rightarrow> s | Some p \<Rightarrow> handler p s)"

section \<open>The handlers of the engine and of core-api\<close>

definition engine_command :: "command_payload \<Rightarrow> runner \<Rightarrow> runner \<times> handler_err option" where
  "engine_command p r =
     (case commandHandler p r of
        (r', None) \<Rightarrow> (r', None)
      | (r', Some ErrNotHosted) \<Rightarrow> (r', Some BridgeNotHosted)
      | (r', Some ErrQueueFull) \<Rightarrow> (r', Some HandlerFailed))"

definition engine_start :: "env \<Rightarrow> runtime \<Rightarrow> (string \<Rightarrow> game_map option) \<Rightarrow> (string \<times> string option) list \<Rightarrow> start_payload option \<Rightarrow> runner \<Rightarrow> runner \<times> ack" where
  "engine_start env rt decode files = consume_start (startHandler env rt decode files)"

definition engine_resync :: "string option \<Rightarrow> runner \<Rightarrow> runner" where
  "engine_resync = consume_plain Rebroadcast"

definition engine_end :: "env \<Rightarrow> runtime \<Rightarrow> end_match_payload option \<Rightarrow> runner \<Rightarrow> runner" where
  "engine_end env rt = consume_plain (\<lambda>p. ForceEnd env rt (ep_MatchID p))"

definition chat_ingress :: "(string \<Rightarrow> string option) \<Rightarrow> env \<Rightarrow> chat_ingress_payload \<Rightarrow> chat_service \<Rightarrow> chat_service" where
  "chat_ingress parseUUID env p s =
     (case parseUUID (cip_MatchID p) of
        None \<Rightarrow> s
      | Some mid \<Rightarrow>
          (case parseUUID (cip_AuthorID p) of
             None \<Rightarrow> s
           | Some uid \<Rightarrow>
               fst (Send parseUUID env
                 \<lparr>sd_MatchID = mid, sd_AuthorID = uid, sd_AuthorSlot = cip_AuthorSlot p, sd_Scope = cip_Scope p, sd_Body = cip_Body p\<rparr> s)))"

definition core_chat_ingress :: "(string \<Rightarrow> string option) \<Rightarrow> env \<Rightarrow> chat_ingress_payload option \<Rightarrow> chat_service \<Rightarrow> chat_service" where
  "core_chat_ingress parseUUID env = consume_plain (chat_ingress parseUUID env)"

section \<open>The handlers of the worker\<close>

definition worker_presence :: "(string \<Rightarrow> string option) \<Rightarrow> env \<Rightarrow> presence_payload option \<Rightarrow> world \<Rightarrow> world" where
  "worker_presence parseUUID env = consume_plain (handlePresence parseUUID env)"

definition worker_final :: "(string \<Rightarrow> string option) \<Rightarrow> env \<Rightarrow> state_envelope option \<Rightarrow> world \<Rightarrow> world" where
  "worker_final parseUUID env = consume_plain (final_handle parseUUID env)"

definition worker_snapshot :: "(string \<Rightarrow> string option) \<Rightarrow> state_envelope option \<Rightarrow> latest \<Rightarrow> latest" where
  "worker_snapshot parseUUID = consume_plain (snapshot_receive parseUUID)"

section \<open>Facts\<close>

definition command_of :: "command_payload \<Rightarrow> command" where
  "command_of p =
     \<lparr>c_MatchID = cp_MatchID p, c_UserID = cp_UserID p, c_IssuerSlot = cp_Slot p, c_IdempotencyKey = cp_IdempotencyKey p,
      c_Kind = cp_Kind p, c_UnitID = cp_UnitID p, c_From = cp_From p, c_To = cp_To p, c_IssuedAt = cp_IssuedAt p, c_Args = cp_Args p\<rparr>"

text \<open>A command is acknowledged exactly when it has been put at the end of the queue of its match; it is given
  up exactly when it does not decode; otherwise it is left for another delivery and nothing has changed.\<close>

lemma command_acknowledged:
  assumes "consume_command engine_command payload r = (r', a)"
  shows "(a = Ack \<longleftrightarrow> (\<exists>p i. payload = Some p \<and> map_of (rn_matches r) (cp_MatchID p) = Some i \<and>
             length (h_cmds (rn_handles r ! i)) < cmdQueueSize \<and>
             r' = update_handle i (\<lambda>h. h\<lparr>h_cmds := h_cmds h @ [command_of p]\<rparr>) r))
    \<and> (a = Term \<longleftrightarrow> payload = None) \<and> (a \<noteq> Ack \<longrightarrow> r' = r)"
  using assms
  by (auto simp: consume_command_def engine_command_def commandHandler_def Submit_def command_of_def
      split: option.splits prod.splits submit_error.splits handler_err.splits if_splits)

text \<open>The idempotency key is not looked at: a command that is delivered twice is queued twice.\<close>

lemma redelivery_queues_twice:
  assumes "map_of (rn_matches r) (cp_MatchID p) = Some i" "i < length (rn_handles r)"
    and "Suc (length (h_cmds (rn_handles r ! i))) < cmdQueueSize"
  shows "\<exists>r1 r2. consume_command engine_command (Some p) r = (r1, Ack) \<and> consume_command engine_command (Some p) r1 = (r2, Ack)
     \<and> h_cmds (rn_handles r2 ! i) = h_cmds (rn_handles r ! i) @ [command_of p, command_of p]"
  using assms by (simp add: consume_command_def engine_command_def commandHandler_def Submit_def command_of_def update_handle_def)

end
