(* ===== verification/Background.thy ===== *)
theory Background
  imports Bridge Notify LobbyFacts
begin

text \<open>
  The loops of \<open>internal/worker\<close>: what a job does with the messages it is subscribed to, with each
  tick of its timer, and when it is stopped. A timer with a period that is not positive is a panic.
\<close>

section \<open>The loop of a job\<close>

datatype 'm job_signal = Received 'm | Ticked | Cancelled

record ('m, 's) job =
  jb_Subscribes :: bool
  jb_Every :: duration
  jb_Receive :: "env \<Rightarrow> 'm \<Rightarrow> 's \<Rightarrow> 's"
  jb_Tick :: "env \<Rightarrow> 's \<Rightarrow> 's"
  jb_Stop :: "env \<Rightarrow> 's \<Rightarrow> 's"

fun job_loop :: "('m, 's) job \<Rightarrow> env \<Rightarrow> 'm job_signal list \<Rightarrow> 's \<Rightarrow> 's" where
  "job_loop j env [] s = s"
| "job_loop j env (Received m # sigs) s = job_loop j (esub env 1) sigs (jb_Receive j (esub env 0) m s)"
| "job_loop j env (Ticked # sigs) s = job_loop j (esub env 1) sigs (jb_Tick j (esub env 0) s)"
| "job_loop j env (Cancelled # sigs) s = jb_Stop j (esub env 0) s"

definition NewTicker :: "duration \<Rightarrow> unit option" where
  "NewTicker d = (if d \<le> 0 then None else Some ())"

text \<open>A job that cannot subscribe returns at once.\<close>

definition run_job :: "('m, 's) job \<Rightarrow> env \<Rightarrow> 'm job_signal list \<Rightarrow> 's \<Rightarrow> 's option" where
  "run_job j env sigs s =
     (if jb_Subscribes j \<and> env_outcome env [] = Refused then Some s
      else if NewTicker (jb_Every j) = None then None else Some (job_loop j env sigs s))"

section \<open>The jobs\<close>

definition snapshot_Run :: "(string \<Rightarrow> string option) \<Rightarrow> runtime \<Rightarrow> duration \<Rightarrow> (state_envelope option, latest \<times> world) job" where
  "snapshot_Run parseUUID rt interval =
     \<lparr>jb_Subscribes = True, jb_Every = (if interval = 0 then 5 * Minute else interval),
      jb_Receive = (\<lambda>env m (lt, w). (worker_snapshot parseUUID m lt, w)),
      jb_Tick = (\<lambda>env (lt, w). snapshot_flush rt env lt w),
      jb_Stop = (\<lambda>env (lt, w). snapshot_flush rt env lt w)\<rparr>"

definition presence_Run :: "(string \<Rightarrow> string option) \<Rightarrow> duration \<Rightarrow> duration \<Rightarrow> (presence_payload option, world) job" where
  "presence_Run parseUUID takeoverAfter scanEvery =
     \<lparr>jb_Subscribes = True, jb_Every = (if scanEvery \<le> 0 then Hour else scanEvery),
      jb_Receive = worker_presence parseUUID,
      jb_Tick = (\<lambda>env. presence_scan env (takeover_threshold takeoverAfter)),
      jb_Stop = (\<lambda>env w. w)\<rparr>"

text \<open>The scanner for abandoned matches is subscribed to nothing.\<close>

definition abandon_Run :: "duration \<Rightarrow> duration \<Rightarrow> (unit, world) job" where
  "abandon_Run threshold scanEvery =
     \<lparr>jb_Subscribes = False, jb_Every = (if scanEvery \<le> 0 then Minute else scanEvery),
      jb_Receive = (\<lambda>env m w. w),
      jb_Tick = (\<lambda>env. abandon_scan env (abandon_threshold threshold)),
      jb_Stop = (\<lambda>env w. w)\<rparr>"

definition notify_Run :: "(string \<Rightarrow> string option) \<Rightarrow> bool \<Rightarrow> int \<Rightarrow> duration \<Rightarrow> (event_envelope option, notify_state) job" where
  "notify_Run parseUUID has_mailer batchSize poll =
     \<lparr>jb_Subscribes = True, jb_Every = (if poll \<le> 0 then 15 * Second else poll),
      jb_Receive = handle_event parseUUID,
      jb_Tick = (\<lambda>env. notify_dispatch env has_mailer (if batchSize \<le> 0 then 50 else batchSize)),
      jb_Stop = (\<lambda>env s. s)\<rparr>"

text \<open>The recorder of final states has no timer.\<close>

definition final_Run :: "(string \<Rightarrow> string option) \<Rightarrow> env \<Rightarrow> state_envelope option list \<Rightarrow> world \<Rightarrow> world" where
  "final_Run parseUUID env ms w =
     (if env_outcome env [] = Refused then w
      else foldl (\<lambda>w (j, m). worker_final parseUUID (esub env j) m w) w (enumerate 0 ms))"

section \<open>Facts\<close>

text \<open>What every step of a job keeps, its loop keeps.\<close>

locale kept_by_job =
  fixes R :: "'s \<Rightarrow> 's \<Rightarrow> bool" and j :: "('m, 's) job"
  assumes R_refl: "R s s"
    and R_trans: "R a b \<Longrightarrow> R b c \<Longrightarrow> R a c"
    and receive: "R s (jb_Receive j env m s)"
    and tick: "R s (jb_Tick j env s)"
    and stop: "R s (jb_Stop j env s)"
begin

lemma loop_keeps: "R s (job_loop j env sigs s)"
proof (induction sigs arbitrary: env s)
  case (Cons x sigs)
  show ?case
  proof (cases x)
    case (Received m)
    then show ?thesis using R_trans[OF receive Cons.IH] by simp
  next
    case Ticked
    then show ?thesis using R_trans[OF tick Cons.IH] by simp
  next
    case Cancelled
    then show ?thesis using stop by simp
  qed
qed (simp add: R_refl)

lemma run_keeps: "run_job j env sigs s = Some s' \<Longrightarrow> R s s'"
  using loop_keeps[of s env sigs] by (simp add: run_job_def split: if_splits) (auto simp: R_refl)

end

text \<open>No job but the recorder of final states takes a match out of its lifecycle, in any order of messages and
  ticks.\<close>

lemma lifecycle_worker_presence: "lifecycle w (worker_presence pu env m w)"
  by (simp add: worker_presence_def consume_plain_def lo.R_refl lifecycle_handlePresence split: option.split)

lemma lifecycle_flush: "lifecycle w (snd (snapshot_flush rt env lt w))"
  by (simp add: snapshot_flush_def lifecycle_same matches_save_each)

interpretation pj: kept_by_job lifecycle "presence_Run pu d e" for pu d e
  by unfold_locales (auto simp: presence_Run_def lo.R_refl lifecycle_worker_presence lifecycle_presence_scan intro: lo.R_trans)

interpretation aj: kept_by_job lifecycle "abandon_Run d e" for d e
  by unfold_locales (auto simp: abandon_Run_def lo.R_refl lifecycle_abandon_scan intro: lo.R_trans)

interpretation sj: kept_by_job "\<lambda>s s'. lifecycle (snd s) (snd s')" "snapshot_Run pu rt i" for pu rt i
  by unfold_locales (auto simp: snapshot_Run_def lo.R_refl lifecycle_flush intro: lo.R_trans split: prod.split)

text \<open>Notifications are never lost, and none that was mailed or read becomes unsent or unread.\<close>

definition note_kept :: "notification \<Rightarrow> notification \<Rightarrow> bool" where
  "note_kept n n' \<longleftrightarrow> n\<lparr>nf_SentAt := None, nf_ReadAt := None\<rparr> = n'\<lparr>nf_SentAt := None, nf_ReadAt := None\<rparr> \<and>
     (nf_SentAt n \<noteq> None \<longrightarrow> nf_SentAt n' \<noteq> None) \<and> (nf_ReadAt n \<noteq> None \<longrightarrow> nf_ReadAt n' \<noteq> None)"

definition notes_kept :: "notify_state \<Rightarrow> notify_state \<Rightarrow> bool" where
  "notes_kept s s' \<longleftrightarrow> ns_world s' = ns_world s \<and> (\<exists>new ks. ns_rows s' = ks @ new \<and> list_all2 note_kept (ns_rows s) ks)"

lemma note_kept_refl [simp]: "note_kept n n"
  by (simp add: note_kept_def)

lemma note_kept_trans: "note_kept a b \<Longrightarrow> note_kept b c \<Longrightarrow> note_kept a c"
  by (simp add: note_kept_def)

lemma notes_keptI:
  "ns_world s' = ns_world s \<Longrightarrow> ns_rows s' = ks @ new \<Longrightarrow> list_all2 note_kept (ns_rows s) ks \<Longrightarrow> notes_kept s s'"
  unfolding notes_kept_def by blast

lemma all_kept [simp]: "list_all2 note_kept (xs :: notification list) xs"
  by (simp add: list_all2_same)

lemma notes_kept_same: "ns_rows s' = ns_rows s \<Longrightarrow> ns_world s' = ns_world s \<Longrightarrow> notes_kept s s'"
  by (rule notes_keptI[of s' s "ns_rows s" "[]"]) simp_all

lemma notes_kept_refl: "notes_kept s s"
  by (simp add: notes_kept_same)

lemma notes_kept_trans:
  assumes "notes_kept a b" "notes_kept b c" shows "notes_kept a c"
proof -
  obtain new ks where b: "ns_rows b = ks @ new" "list_all2 note_kept (ns_rows a) ks" "ns_world b = ns_world a"
    using assms(1) by (auto simp: notes_kept_def)
  obtain new' ks' where c: "ns_rows c = ks' @ new'" "list_all2 note_kept (ks @ new) ks'" "ns_world c = ns_world b"
    using assms(2) b(1) by (auto simp: notes_kept_def)
  obtain x y where k: "ks' = x @ y" "list_all2 note_kept ks x" using c(2) by (auto simp: list_all2_append1)
  have "list_all2 note_kept (ns_rows a) x"
    by (rule list_all2_trans[OF _ b(2) k(2)]) (rule note_kept_trans)
  then have "ns_rows c = x @ (y @ new') \<and> list_all2 note_kept (ns_rows a) x" using c(1) k(1) by simp
  then show ?thesis unfolding notes_kept_def using b(3) c(3) by metis
qed

lemma notes_kept_on_rows:
  "(\<And>s' a. q s = Some (s', a) \<Longrightarrow> notes_kept s s') \<Longrightarrow> notes_kept s (fst (on_rows env q s))"
  by (auto simp: on_rows_def notes_kept_refl split: option.split outcome.split)

lemma notes_kept_append: "notes_kept s (s\<lparr>ns_rows := ns_rows s @ ns\<rparr>)"
  by (rule notes_keptI[of _ _ "ns_rows s" ns]) simp_all

lemma notes_kept_update:
  "(\<And>n. note_kept n (f n)) \<Longrightarrow> notes_kept s (s\<lparr>ns_rows := update_where Q f (ns_rows s)\<rparr>)"
  by (rule notes_keptI[of _ _ "update_where Q f (ns_rows s)" "[]"]) (simp_all add: update_where_def list_all2_map2 list_all2_same)

lemma notes_kept_Insert: "notes_kept s (fst (svc_Insert env i s))"
proof -
  have ins: "notes_kept s (fst (Notif_Insert e u m k pl s))" for e u m k pl s
    unfolding Notif_Insert_def by (rule notes_kept_on_rows) (auto simp: Let_def notes_kept_append split: if_splits)
  have "fst (LastForKind e u m k s) = s" for e u m k s
    by (simp add: LastForKind_def ebind_def on_rows_def raise_def ret_def split: outcome.split list.split)
  then obtain r where last: "LastForKind (esub env 0) (ni_UserID i) (ni_MatchID i) (ni_Kind i) s = (s, r)" by (metis prod.collapse)
  obtain s1 r1 where ins1: "Notif_Insert (esub env 1) (ni_UserID i) (ni_MatchID i) (ni_Kind i) (ni_Payload i) s = (s1, r1)" by fastforce
  have "notes_kept s s1" using ins[of s] ins1 by (metis fst_conv)
  then show ?thesis
    by (simp add: svc_Insert_def Let_def last ins1[unfolded One_nat_def] on_err_def ebind_def ret_def notes_kept_refl split: sum.split)
qed

lemma notes_kept_MarkSent: "notes_kept s (fst (svc_MarkSent env i s))"
proof -
  have "notes_kept s (fst (Notif_MarkSent e i tm s))" for e tm
    unfolding Notif_MarkSent_def by (rule notes_kept_on_rows) (auto intro!: notes_kept_update simp: note_kept_def)
  then show ?thesis by (simp add: svc_MarkSent_def on_err_def case_prod_beta)
qed

lemma notes_kept_foldl: "(\<And>s x. notes_kept s (f s x)) \<Longrightarrow> notes_kept s (foldl f s xs)"
  by (induction xs arbitrary: s) (auto simp: notes_kept_refl intro: notes_kept_trans)

lemma notes_kept_handle: "notes_kept s (handle_event pu env m s)"
proof -
  have one: "notes_kept s (insert_one e mid s x)" for e mid s x
    by (cases x) (auto simp: insert_one_def notes_kept_Insert)
  have ros: "roster e mid s = (s1, r) \<Longrightarrow> notes_kept s s1" for e mid s s1 r
    by (auto simp: roster_def Let_def notes_kept_refl notes_kept_same split: option.splits if_splits prod.splits sum.splits)
  show ?thesis
    using notes_kept_trans[OF ros notes_kept_foldl[OF one]] ros
    by (auto simp: handle_event_def Let_def notes_kept_refl split: option.splits prod.splits sum.splits)
qed

lemma notes_kept_dispatch: "notes_kept s (notify_dispatch env has k s)"
proof -
  have mails: "notes_kept s (s\<lparr>ns_mails := ms\<rparr>)" for s ms by (simp add: notes_kept_same)
  have one: "notes_kept s (dispatchOne e has n s)" for e n s
    using mails[of s] notes_kept_MarkSent notes_kept_trans[OF mails[of s] notes_kept_MarkSent]
    by (simp add: dispatchOne_def notes_kept_refl split: outcome.split)
  obtain s1 r where p: "svc_PendingDelivery (esub env 0) k s = (s1, r)" by fastforce
  then have "s1 = s"
    by (auto simp: svc_PendingDelivery_def Notif_PendingDelivery_def on_err_def on_rows_def Let_def split: outcome.splits)
  moreover have "notes_kept s (foldl (\<lambda>s (j, n). dispatchOne (esub (esub env 1) j) has n s) s xs)" for xs
    by (rule notes_kept_foldl) (auto simp: one)
  ultimately show ?thesis by (simp add: notify_dispatch_def p notes_kept_refl split: sum.split)
qed

interpretation nj: kept_by_job notes_kept "notify_Run pu has k d" for pu has k d
  by unfold_locales (auto simp: notify_Run_def notes_kept_refl notes_kept_handle notes_kept_dispatch intro: notes_kept_trans)

text \<open>Every job has a default for a period that is not positive, except the one that keeps snapshots: it has one
  for zero only, and a negative interval is a panic.\<close>

lemma run_job_None: "run_job j env sigs s = None \<longleftrightarrow> \<not> (jb_Subscribes j \<and> env_outcome env [] = Refused) \<and> jb_Every j \<le> 0"
  by (simp add: run_job_def NewTicker_def)

lemma negative_interval_panics:
  assumes "env_ok env"
  shows "run_job (snapshot_Run pu rt i) env sigs s = None \<longleftrightarrow> i < 0"
    and "run_job (presence_Run pu d e) env sigs' w \<noteq> None" "run_job (abandon_Run d e) env sigs'' w \<noteq> None"
    and "run_job (notify_Run pu has k p) env sigs3 ns \<noteq> None"
  unfolding run_job_None snapshot_Run_def presence_Run_def abandon_Run_def notify_Run_def
  using assms by (auto simp: env_ok_def duration_defs)

text \<open>When the worker is stopped, the last state of every match it has received is in the table.\<close>

lemma save_each_keeps: "sr \<in> set (w_snapshots w) \<Longrightarrow> sr \<in> set (w_snapshots (save_each env es w))"
proof (induction env es w rule: save_each.induct)
  case (2 env mid e es w)
  have "sr \<in> set (w_snapshots (fst (SaveSnapshot (esub env 0) mid (se_Seq e) e w)))"
    using 2(2) by (auto simp: SaveSnapshot_def statement_def raise_def split: outcome.split)
  with 2 show ?case by simp
qed simp

lemma SaveSnapshot_saves:
  assumes "env_ok env" "se_Seq e \<le> maxSnapshotSeq" "match_row w mid \<noteq> None"
  shows "\<exists>r\<in>set (w_snapshots (fst (SaveSnapshot env mid (se_Seq e) e w))). sr_MatchID r = mid \<and> sr_Seq r = sint (se_Seq e)"
proof (cases "list_ex (\<lambda>r. sr_MatchID r = mid \<and> sr_Seq r = sint (se_Seq e)) (w_snapshots w)")
  case True
  then show ?thesis using assms by (auto simp: SaveSnapshot_def statement_def env_ok_def not_less list_ex_iff)
next
  case False
  then show ?thesis using assms leD by (auto simp: SaveSnapshot_def statement_def env_ok_def)
qed

lemma save_each_saves:
  assumes "env_ok env" "(mid, e) \<in> set es" "se_State e \<noteq> None" "se_Seq e \<le> maxSnapshotSeq" "match_row w mid \<noteq> None"
  shows "\<exists>r\<in>set (w_snapshots (save_each env es w)). sr_MatchID r = mid \<and> sr_Seq r = sint (se_Seq e)"
  using assms
proof (induction env es w rule: save_each.induct)
  case (2 env mid' e' es w)
  let ?w = "if se_State e' = None then w else fst (SaveSnapshot (esub env 0) mid' (se_Seq e') e' w)"
  have row: "match_row ?w mid \<noteq> None" using 2(6) matches_SaveSnapshot by (simp add: match_row_def)
  show ?case
  proof (cases "(mid, e) \<in> set es")
    case True
    then show ?thesis using 2(1)[OF _ True 2(4,5) row] 2(2) by simp
  next
    case False
    then have h: "mid' = mid" "e' = e" using 2(3) by auto
    have "\<exists>r\<in>set (w_snapshots ?w). sr_MatchID r = mid \<and> sr_Seq r = sint (se_Seq e)"
      using SaveSnapshot_saves[of "esub env 0"] 2(2,4,5,6) by (auto simp: h)
    then obtain r where r: "r \<in> set (w_snapshots ?w)" "sr_MatchID r = mid \<and> sr_Seq r = sint (se_Seq e)" by blast
    show ?thesis using save_each_keeps[OF r(1), of "esub env 1" es] r(2) unfolding save_each.simps by blast
  qed
qed simp

lemma snapshots_saved_on_stop:
  assumes "rt_ok rt" "mok lt" "env_ok env" "map_of lt mid = Some e" "se_State e \<noteq> None" "se_Seq e \<le> maxSnapshotSeq" "match_row w mid \<noteq> None"
  shows "\<exists>w'. job_loop (snapshot_Run pu rt i) env (Cancelled # sigs) (lt, w) = ([], w') \<and>
     (\<exists>r\<in>set (w_snapshots w'). sr_MatchID r = mid \<and> sr_Seq r = sint (se_Seq e))"
proof -
  have "(mid, e) \<in> set (go_range rt lt)" using map_of_SomeD[OF assms(4)] set_go_range[OF assms(1,2)] by simp
  then show ?thesis using save_each_saves[OF _ _ assms(5-7)] assms(3) by (simp add: snapshot_Run_def snapshot_flush_def)
qed

end
