(* ===== verification/Mail.thy ===== *)
theory Mail
  imports Notify Bot
begin

text \<open>
  \<open>internal/worker/mailer.go\<close>: what a notification becomes as a mail, and the two mailers. The SMTP
  conversation is \<open>net/smtp\<close>, which refuses an address with a line break and otherwise may fail; the
  formats of instants and of the values of a payload are the fields of \<open>mail_formats\<close>.
\<close>

record mailer_config =
  mc_Host :: string
  mc_Port :: int
  mc_Username :: string
  mc_Password :: string
  mc_From :: string

datatype mailer = NoopMailer | SmtpMailer mailer_config

record mail_formats =
  mf_rfc3339 :: "time \<Rightarrow> string"
  mf_rfc1123 :: "time \<Rightarrow> string"
  mf_value :: "json \<Rightarrow> string"

record smtp_mail =
  ml_Addr :: string
  ml_Auth :: "(string \<times> string \<times> string) option"
  ml_From :: string
  ml_To :: string
  ml_Message :: string

fun decimal :: "nat \<Rightarrow> string" where
  "decimal n = (if n < 10 then [char_of (48 + n)] else decimal (n div 10) @ [char_of (48 + n mod 10)])"

definition Itoa :: "int \<Rightarrow> string" where
  "Itoa k = (if k < 0 then CHR ''-'' # decimal (nat (- k)) else decimal (nat k))"

definition NewMailer :: "mailer_config \<Rightarrow> mailer" where
  "NewMailer cfg = (if mc_Host cfg = [] then NoopMailer else SmtpMailer cfg)"

definition Subject :: "notification \<Rightarrow> string" where
  "Subject n =
     (if nf_Kind n = KindUnderAttack then ''[Supremacy] Your forces are under attack''
      else if nf_Kind n = KindProvinceCaptured then ''[Supremacy] You lost a province''
      else if nf_Kind n = KindTreatyProposed then ''[Supremacy] A new treaty has been proposed''
      else if nf_Kind n = KindMatchEnded then ''[Supremacy] Match ended''
      else if nf_Kind n = KindBotTakeover then ''[Supremacy] AI is now controlling your slot''
      else ''[Supremacy] Match update'')"

definition newline :: string where
  "newline = [char_of (10 :: nat)]"

definition crlf :: string where
  "crlf = [char_of (13 :: nat), char_of (10 :: nat)]"

text \<open>The details come in the order in which the map is ranged over.\<close>

definition Body :: "mail_formats \<Rightarrow> choices \<Rightarrow> notification \<Rightarrow> string" where
  "Body fm ch n =
     ''Notification kind: '' @ nf_Kind n @ newline @
     ''Match: '' @ nf_MatchID n @ newline @
     ''Created: '' @ mf_rfc3339 fm (nf_CreatedAt n) @ newline @ newline @
     (if nf_Payload n \<noteq> [] then
        ''Details:'' @ newline @
        concat (map (\<lambda>(k, v). ''  '' @ k @ '': '' @ mf_value fm v @ newline) (Shuffle ch (nf_Payload n)))
      else [])"

definition buildEmail :: "mail_formats \<Rightarrow> time \<Rightarrow> string \<Rightarrow> string \<Rightarrow> string \<Rightarrow> string \<Rightarrow> string" where
  "buildEmail fm now sender to subject body =
     ''From: '' @ sender @ crlf @ ''To: '' @ to @ crlf @ ''Subject: '' @ subject @ crlf @ ''Date: '' @ mf_rfc1123 fm now @ crlf @
     ''MIME-Version: 1.0'' @ crlf @ ''Content-Type: text/plain; charset=utf-8'' @ crlf @ crlf @ body"

definition has_line_break :: "string \<Rightarrow> bool" where
  "has_line_break s \<longleftrightarrow> list_ex (\<lambda>c. c = char_of (10 :: nat) \<or> c = char_of (13 :: nat)) s"

definition smtp_compose :: "mail_formats \<Rightarrow> choices \<Rightarrow> time \<Rightarrow> mailer_config \<Rightarrow> string \<Rightarrow> notification \<Rightarrow> smtp_mail" where
  "smtp_compose fm ch now cfg to n =
     \<lparr>ml_Addr = mc_Host cfg @ '':'' @ Itoa (mc_Port cfg),
      ml_Auth = (if mc_Username cfg \<noteq> [] then Some (mc_Username cfg, mc_Password cfg, mc_Host cfg) else None),
      ml_From = mc_From cfg, ml_To = to,
      ml_Message = buildEmail fm now (mc_From cfg) to (Subject n) (Body fm ch n)\<rparr>"

text \<open>The mail the relay takes, if any, and whether sending reports success. The recipient's address is
  looked up in the table of users.\<close>

definition mailer_Send :: "mail_formats \<Rightarrow> choices \<Rightarrow> env \<Rightarrow> mailer \<Rightarrow> notification \<Rightarrow> world \<Rightarrow> smtp_mail option \<times> bool" where
  "mailer_Send fm ch env mlr n w =
     (case mlr of
        NoopMailer \<Rightarrow> (None, True)
      | SmtpMailer cfg \<Rightarrow>
          (case snd (Users_ByID (esub env 0) (nf_UserID n) w) of
             Inl e \<Rightarrow> (None, False)
           | Inr u \<Rightarrow>
               let to = usr_Email u; m = smtp_compose fm ch (env_now env [1]) cfg to n in
               if to = [] then (None, True)
               else if has_line_break to \<or> has_line_break (mc_From cfg) then (None, False)
               else case env_outcome env [2] of
                      Delivered \<Rightarrow> (Some m, True)
                    | Refused \<Rightarrow> (None, False)
                    | AnswerLost \<Rightarrow> (Some m, False)))"

text \<open>\<open>dispatchOne\<close> with a mailer: \<^const>\<open>dispatchOne\<close> leaves what it does to its oracle.\<close>

definition dispatch_mail :: "mail_formats \<Rightarrow> choices \<Rightarrow> env \<Rightarrow> mailer \<Rightarrow> notification \<Rightarrow> notify_state \<Rightarrow> notify_state \<times> smtp_mail option" where
  "dispatch_mail fm ch env mlr n s =
     (case mailer_Send fm ch (esub env 0) mlr n (ns_world s) of
        (m, ok) \<Rightarrow>
          let s1 = (if m \<noteq> None then s\<lparr>ns_mails := ns_mails s @ [n]\<rparr> else s) in
          (if ok then fst (svc_MarkSent (esub env 1) (nf_ID n) s1) else s1, m))"

text \<open>Every outcome of a mailer is one the oracle of \<^const>\<open>dispatchOne\<close> can give: a notification that
  needs no mail is treated as without a mailer.\<close>

lemma dispatch_mail_refines:
  "\<exists>env' has. env_outcome env' = (env_outcome env)([0] := env_outcome env' [0]) \<and> env_now env' = env_now env \<and>
     fst (dispatch_mail fm ch env mlr n s) = dispatchOne env' has n s"
proof -
  obtain m ok where m: "mailer_Send fm ch (esub env 0) mlr n (ns_world s) = (m, ok)" by fastforce
  let ?env = "\<lambda>x. env\<lparr>env_outcome := (env_outcome env)([0] := x)\<rparr>"
  have sub: "esub (?env x) 1 = esub env 1" for x by (simp add: esub_def fun_eq_iff)
  show ?thesis
  proof (cases m)
    case None
    show ?thesis
      by (rule exI[of _ "?env Refused"], rule exI[of _ "\<not> ok"])
        (use None sub in \<open>simp add: dispatch_mail_def m dispatchOne_def del: One_nat_def\<close>)
  next
    case (Some x)
    show ?thesis
      by (rule exI[of _ "?env (if ok then Delivered else AnswerLost)"], rule exI[of _ True])
        (use Some sub in \<open>simp add: dispatch_mail_def m dispatchOne_def del: One_nat_def\<close>)
  qed
qed

end
