(* ===== verification/Synthetic.thy ===== *)
theory Synthetic
  imports MatchState Mail "HOL-Library.Monad_Syntax"
begin

text \<open>
  \<open>internal/domain/visibility/synthetic.go\<close>: the grid match that the benchmarks and the test of the
  visibility scanner build. An index out of range is a panic, \<^const>\<open>None\<close>.
\<close>

section \<open>synthetic.go\<close>

text \<open>\<open>fmt.Sprintf("%0wd", i)\<close>.\<close>

definition padded :: "nat \<Rightarrow> nat \<Rightarrow> string" where
  "padded w i = (let ds = Mail.decimal i in replicate (w - length ds) CHR ''0'' @ ds)"

lemma square_below: "(s::nat) * s < n \<Longrightarrow> s < n"
  by (cases s) auto

function grid_side_from :: "nat \<Rightarrow> nat \<Rightarrow> nat" where
  "grid_side_from n side = (if side * side < n then grid_side_from n (side + 1) else side)"
  by auto

termination
  by (relation "measure (\<lambda>(n, side). n - side)") (auto dest: square_below)

declare grid_side_from.simps [simp del]

definition grid_side :: "nat \<Rightarrow> nat" where
  "grid_side n = grid_side_from n 1"

definition province_name :: "nat \<Rightarrow> province_id" where "province_name i = ''p'' @ padded 3 i"
definition slot_name :: "nat \<Rightarrow> slot" where "slot_name i = ''s'' @ padded 3 i"
definition unit_name :: "nat \<Rightarrow> unit_id" where "unit_name i = ''u'' @ padded 5 i"

definition index_checked :: "'a list \<Rightarrow> nat \<Rightarrow> 'a option" where
  "index_checked xs i = (if i < length xs then Some (xs ! i) else None)"

definition grid_province :: "nat \<Rightarrow> nat \<Rightarrow> map_province" where
  "grid_province side i =
     \<lparr>mp_ID = province_name i, mp_X = real (i mod side) * 100, mp_Y = real (i div side) * 100, mp_Name = [], mp_HomeSlot = []\<rparr>"

text \<open>The loop over the cells that joins each to its right and its lower neighbour.\<close>

fun grid_edges :: "province_id list \<Rightarrow> nat \<Rightarrow> nat list \<Rightarrow> map_edge list option" where
  "grid_edges provIDs side [] = Some []"
| "grid_edges provIDs side (i # is) =
     do { right \<leftarrow> (if i mod side \<noteq> side - 1
                     then do { p \<leftarrow> index_checked provIDs (i + 1); Some [\<lparr>me_From = provIDs ! i, me_To = p\<rparr>] }
                     else Some []);
          let down = (if i + side < length provIDs then [\<lparr>me_From = provIDs ! i, me_To = provIDs ! (i + side)\<rparr>] else []);
          rest \<leftarrow> grid_edges provIDs side is;
          Some (right @ down @ rest) }"

definition synthetic_map :: "nat \<Rightarrow> nat \<Rightarrow> game_map option" where
  "synthetic_map provinceCount slotCount =
     (let side = grid_side provinceCount; provIDs = map province_name [0..<provinceCount] in
      do { edges \<leftarrow> grid_edges provIDs side [0..<provinceCount];
           if provinceCount = 0 \<and> slotCount > 0 then None
           else Some \<lparr>map_ID = ''synthetic'', map_Name = [], map_Provinces = map (grid_province side) [0..<provinceCount],
                      map_Edges = edges,
                      map_Slots = map (\<lambda>i. \<lparr>msl_ID = slot_name i, msl_Color = slot_name i,
                                           msl_Capital = provIDs ! (i mod provinceCount)\<rparr>) [0..<slotCount],
                      map_StartingUnits = [], map_SVGURL = [], map_ThumbnailURL = [], map_RulesSummary = []\<rparr> })"

definition seat_synthetic :: "map_province list \<Rightarrow> match \<Rightarrow> nat \<times> slot \<Rightarrow> match" where
  "seat_synthetic provinces m isid =
     (case isid of (i, sid) \<Rightarrow>
        let p = provinces ! (i mod length provinces) in
        m\<lparr>m_Players := mput sid \<lparr>py_Slot = sid, py_UserID = [], py_Name = [], py_Color = [], py_Alive = True\<rparr> (m_Players m),
          m_Resources := mput sid StartingResources (m_Resources m),
          m_Provinces := mput (mp_ID p) \<lparr>p_ID = mp_ID p, p_X = mp_X p, p_Y = mp_Y p, p_Owner = sid, p_Capital = False\<rparr> (m_Provinces m)\<rparr>)"

definition neutral_province :: "match \<Rightarrow> map_province \<Rightarrow> match" where
  "neutral_province m p =
     (if map_of (m_Provinces m) (mp_ID p) = None
      then m\<lparr>m_Provinces := mput (mp_ID p) \<lparr>p_ID = mp_ID p, p_X = mp_X p, p_Y = mp_Y p, p_Owner = [], p_Capital = False\<rparr> (m_Provinces m)\<rparr>
      else m)"

definition place_synthetic :: "map_province list \<Rightarrow> match \<Rightarrow> slot \<times> nat \<Rightarrow> match" where
  "place_synthetic provinces m sk =
     (case sk of (sid, k) \<Rightarrow>
        let p = provinces ! (k mod length provinces) in
        m\<lparr>m_Units := mput (unit_name k)
            \<lparr>u_ID = unit_name k, u_OwnerSlot = sid, u_Type = ''infantry'', u_HP = 10, u_Origin = mp_ID p, u_Dest = mp_ID p,
             u_StartedAt = 0, u_ArrivesAt = 0, u_OriginX = mp_X p, u_OriginY = mp_Y p, u_DestX = mp_X p, u_DestY = mp_Y p,
             u_Speed = 0, u_Version = 0, u_Path = [], u_PathIndex = 0, u_Waypoints = []\<rparr> (m_Units m)\<rparr>)"

definition BuildSyntheticMatch :: "time \<Rightarrow> nat \<Rightarrow> nat \<Rightarrow> nat \<Rightarrow> match option" where
  "BuildSyntheticMatch now provinceCount slotCount unitsPerSlot =
     do { gm \<leftarrow> synthetic_map provinceCount slotCount;
          let provinces = map_Provinces gm;
          let slotIDs = map msl_ID (map_Slots gm);
          let m1 = foldl (seat_synthetic provinces) (empty_match ''bench'' ''synthetic'' gm 60 now) (enumerate 0 slotIDs);
          let m2 = foldl neutral_province m1 provinces;
          Some (foldl (place_synthetic provinces) m2
                 (concat (map (\<lambda>(si, sid). map (\<lambda>u. (sid, si * unitsPerSlot + u)) [0..<unitsPerSlot]) (enumerate 0 slotIDs)))) }"

section \<open>Facts\<close>

lemma grid_side_from_props:
  "n \<le> grid_side_from n s * grid_side_from n s \<and> s \<le> grid_side_from n s \<and> (\<forall>k. s \<le> k \<and> k < grid_side_from n s \<longrightarrow> k * k < n)"
proof (induction n s rule: grid_side_from.induct)
  case (1 n s)
  show ?case
  proof (cases "s * s < n")
    case True
    have r: "grid_side_from n s = grid_side_from n (s + 1)" using True by (subst grid_side_from.simps) simp
    have "k * k < n" if "s \<le> k" "k < grid_side_from n (s + 1)" for k
      using that True 1[OF True] by (cases "k = s") auto
    with 1[OF True] show ?thesis unfolding r by auto
  next
    case False
    then have "grid_side_from n s = s" by (subst grid_side_from.simps) simp
    with False show ?thesis by auto
  qed
qed

lemma grid_side_eq: "0 < s \<Longrightarrow> n \<le> s * s \<Longrightarrow> (s - 1) * (s - 1) < n \<Longrightarrow> grid_side n = s"
proof -
  assume s: "0 < s" "n \<le> s * s" "(s - 1) * (s - 1) < n"
  let ?r = "grid_side_from n 1"
  have r: "n \<le> ?r * ?r" "1 \<le> ?r" "\<forall>k. 1 \<le> k \<and> k < ?r \<longrightarrow> k * k < n" using grid_side_from_props[of n 1] by auto
  have "\<not> s < ?r" using r(3) s(1,2) by (metis Suc_leI One_nat_def not_less)
  moreover have "\<not> ?r < s"
  proof
    assume "?r < s"
    then have "?r * ?r \<le> (s - 1) * (s - 1)" by (intro mult_le_mono) auto
    with r(1) s(3) show False by simp
  qed
  ultimately show ?thesis by (simp add: grid_side_def)
qed

lemma grid_side_pos: "0 < grid_side n"
  using grid_side_from_props[of n 1] by (simp add: grid_side_def)

lemma grid_edges_None:
  "grid_edges provIDs side is = None \<longleftrightarrow> (\<exists>i\<in>set is. i mod side \<noteq> side - 1 \<and> length provIDs \<le> i + 1)"
  by (induction "is") (auto simp: index_checked_def Let_def bind_eq_None_conv)

lemma last_cell: "0 < (s::nat) \<Longrightarrow> 0 < n \<Longrightarrow> (n - 1) mod s = s - 1 \<longleftrightarrow> s dvd n"
  by (cases n) (auto simp: mod_Suc dvd_eq_mod_eq_0 split: if_splits)

text \<open>The builder panics exactly when its last row is not full: the last cell is joined to a right neighbour
  that does not exist.\<close>

lemma synthetic_panics:
  assumes "0 < n" shows "BuildSyntheticMatch now n s u = None \<longleftrightarrow> \<not> grid_side n dvd n"
proof -
  have "BuildSyntheticMatch now n s u = None \<longleftrightarrow> synthetic_map n s = None"
    by (auto simp: BuildSyntheticMatch_def Let_def bind_eq_None_conv)
  also have "\<dots> \<longleftrightarrow> (\<exists>i\<in>set [0..<n]. i mod grid_side n \<noteq> grid_side n - 1 \<and> n \<le> i + 1)"
    using assms by (auto simp: synthetic_map_def Let_def bind_eq_None_conv grid_edges_None)
  also have "\<dots> \<longleftrightarrow> (n - 1) mod grid_side n \<noteq> grid_side n - 1"
  proof -
    have "i \<in> set [0..<n] \<and> n \<le> i + 1 \<longleftrightarrow> i = n - 1" for i using assms by auto
    then show ?thesis by metis
  qed
  finally show ?thesis using last_cell[OF grid_side_pos assms] by simp
qed

text \<open>The match of 400 provinces is built; the one of 1000 that a benchmark asks for is not.\<close>

lemma synthetic_benchmarks: "BuildSyntheticMatch now 400 50 10 \<noteq> None" "BuildSyntheticMatch now 1000 100 20 = None"
proof -
  have "grid_side 400 = 20" "grid_side 1000 = 32" by (rule grid_side_eq; simp)+
  then show "BuildSyntheticMatch now 400 50 10 \<noteq> None" "BuildSyntheticMatch now 1000 100 20 = None"
    using synthetic_panics[of 400 now 50 10] synthetic_panics[of 1000 now 100 20] by simp_all
qed

end
