(* ===== verification/Spec2Isabelle.thy ===== *)
theory Spec2Isabelle
  imports Routes Motion Orders Jobs Botting Notifying BotClient Config Requests Background Synthetic
begin

text \<open>
  A verification development for the game server of this repository, a persistent-world strategy game in Go.
  It models the code under \<open>src/internal\<close> and \<open>src/pkg\<close> that the five modes of the binary run: core-api
  (accounts, lobby and chat over REST), the engine (the matches themselves), the gateway (WebSocket
  sessions), the worker (background jobs) and ai-bot (players run by the program).

  How the parts interact. A user registers with core-api, joins a match in the lobby and has it started: the
  match's row becomes \<open>starting\<close> and a start message goes out on the bus (NATS). The engine hosts the match:
  one loop applies the queued commands, processes the due events of the timeline at each tick and publishes
  events and snapshots, filtered by fog of war, on one subject for each slot. The gateway checks a session's
  ticket, subscribes it to the subjects of its slot and sends its commands and chat on. The worker writes
  snapshots, statistics and final states to the database, hands silent seats to bots, abandons silent
  matches and notifies users. A bot logs in through core-api like a user, dials the gateway and answers each
  snapshot it is sent with commands.

  \<^bold>\<open>Theories and sources.\<close> Names of functions and types are those of the source, prefixed or suffixed
  where they would clash.

  Shared: \<open>Prelude\<close> (identifiers, game time, Go maps, the runtime's choices, lemma collections),
  \<open>GoHeap\<close> (\<open>container/heap\<close>), \<open>Store\<close> (\<open>pkg/errs\<close>, \<open>lobbydom\<close>, \<open>userdom\<close>, the tables and the
  monad of steps that may fail).

  The rules of a match: \<open>Timeline\<close> (\<open>domain/timeline\<close>), \<open>Catalogue\<close> (\<open>economydom\<close>, \<open>unitdom\<close>,
  \<open>buildingdom\<close>, \<open>balance\<close>), \<open>MapDef\<close> (\<open>pkg/shared/maps\<close>), \<open>Diplomacy\<close> (\<open>diplomacydom\<close>), \<open>Pathdom\<close>
  (\<open>pathdom\<close>), \<open>MatchState\<close>, \<open>Combat\<close>, \<open>Victory\<close>, \<open>Movement\<close> and \<open>Events\<close> (\<open>matchdom\<close>), \<open>Commands\<close>
  (\<open>cmddom\<close>), \<open>Spatial\<close>, \<open>Visibility\<close> and \<open>Synthetic\<close> (\<open>domain/visibility\<close>, \<open>pkg/shared/wire\<close>).
  Their facts are in \<open>Battle\<close>, \<open>Outcome\<close>, \<open>Legs\<close>, \<open>Routes\<close>, \<open>Invariants\<close>, \<open>Engine\<close>, \<open>Motion\<close>,
  \<open>Isolation\<close>, \<open>Orders\<close> and \<open>Vision\<close>.

  The processes: \<open>Pgrepo\<close> (\<open>adapter/pgrepo\<close>), \<open>Lobby\<close> (\<open>lobbysvc\<close>), \<open>Workers\<close> and \<open>Background\<close>
  (\<open>internal/worker\<close>), \<open>Runner\<close> (\<open>enginesvc\<close>, \<open>engine/server.go\<close>, \<open>adapter/redisrepo\<close>), \<open>Chat\<close>
  (\<open>chatdom\<close>, \<open>chatsvc\<close>), \<open>Gateway\<close> (\<open>internal/gateway\<close>, \<open>natsbridge\<close>), \<open>Bridge\<close> (the subscribers of
  \<open>natsbridge\<close>), \<open>Bot\<close> and \<open>BotClient\<close> (\<open>internal/aibot\<close>), \<open>Notify\<close> and \<open>Mail\<close> (\<open>notifydom\<close>,
  \<open>notifysvc\<close>, the worker's mailer), \<open>Auth\<close> (\<open>internal/auth\<close>, \<open>authsvc\<close>), \<open>Http\<close> (\<open>httpapi\<close>, \<open>pkg/api\<close>,
  the router of \<open>app/coreapi.go\<close>) and \<open>Config\<close> (\<open>internal/config\<close>). Their facts are in \<open>LobbyFacts\<close>,
  \<open>Jobs\<close>, \<open>Hosting\<close>, \<open>Chatting\<close>, \<open>Sessions\<close>, \<open>Botting\<close>, \<open>Notifying\<close>, \<open>Accounts\<close> and \<open>Requests\<close>.

  \<^bold>\<open>State.\<close> A struct is a record and a Go map an association list with distinct keys. A match is one record
  (\<open>match\<close>): the heap cells the code shares through pointers (a unit seen from the match and from the
  champions of a battle) are written through explicitly. The database with the outbox of the bus is one
  record (\<open>world\<close>); tickets, chat messages, notifications, the runner's handles, the hub's connections and
  the snapshots a worker holds are records beside it. A service's step is a function from states to
  states and a result that is an error (\<open>Inl\<close>) or a value. Panics and loops that may not end are \<open>None\<close>.

  \<^bold>\<open>What the environment decides\<close> is an argument, split along the computation so that no two uses share a
  choice: \<open>runtime\<close> holds the order in which a map is ranged over and the fresh UUIDs, \<open>env\<close> the clock, the
  UUIDs and whether a statement or message is carried out, refused, or carried out with its answer lost,
  \<open>choices\<close> the random numbers and the ties of an unstable sort. \<open>rt_ok\<close>, \<open>env_ok\<close> and \<open>choices_ok\<close> state
  what is assumed of them. Code that is not in the repository is a parameter with named laws: hashing and
  signing (\<open>crypto\<close>, \<open>crypto_laws\<close>), the subjects a subscription covers (\<open>covers\<close>, \<open>bus_laws\<close>), JSON, YAML
  and the text formats (\<open>api_codec\<close>, \<open>formats\<close>, \<open>mail_formats\<close>, \<open>decode\<close>), and parsing a UUID.

  \<^bold>\<open>Numbers and bounds.\<close> A \<open>float64\<close> is a real: there is no rounding, NaN or infinity. Instants are
  integers (nanoseconds), durations saturate or wrap as in Go where the code computes with them. Versions and
  sequence numbers are 64-bit words; C5 and C15 say what wrap-around leaves of them. Strings are bytes.
  \<open>fight\<close>, \<open>process_loop\<close> and \<open>reconstruct_walk\<close> are unbounded loops (\<open>partial_function\<close>): that they
  return is proved (C10, C14, C6), and that \<open>fight\<close> may not is proved too (C11). The one bounded walk,
  \<open>reconstruct_from\<close>, takes as many steps as there are nodes, and \<open>Routes\<close> shows it equal to the unbounded
  one on what the search leaves. All other loops have termination proofs: the heap's sifts, the search (the
  number of nodes not closed), the coalition and the gateway's own search of allies (slots not yet seen),
  the splitting of strings and the side of the synthetic grid.

  \<^bold>\<open>Interfaces\<close> are locales. \<open>heap_order\<close> and \<open>priority_queue\<close> (\<open>GoHeap\<close>) are what the scheduler relies
  on, interpreted in \<open>Timeline\<close>; \<open>alliance_graph\<close> (\<open>Diplomacy\<close>) is what a coalition needs of the stance of
  a pair; \<open>slot_view\<close> (\<open>Vision\<close>) what the runner needs of a batch of views; \<open>world_order\<close> and
  \<open>lobby_order\<close> (\<open>LobbyFacts\<close>) say that a service built of statements keeps any preorder its statements
  keep, interpreted for the lifecycle of a match and, in \<open>Requests\<close>, for what an account may do;
  \<open>kept_by_job\<close> (\<open>Background\<close>) carries what one step of a job keeps to all its runs.

  \<^bold>\<open>What is shown.\<close> Scheduling and pathfinding are correct against a reference (C1, C6, C7, C8, C23). The
  diplomacy registry asks for consent, computes the alliance closure and versions its cache soundly (C2, C4,
  C5). Battles, victory, motion, recruitment and revenue have their outcome stated exactly (C10, C12, C17,
  C18, C20, C22). Every match the engine can reach keeps its invariant, processing ends, events are
  numbered without gaps, an ended match stays ended and a command touches only its issuer's things (C13 to
  C16, C19). Fog of war is exact, the views of a batch are independent of each other, and nothing else
  reaches a player from the runner to the socket (C24, C25, C36, C38). The engine process runs one loop for
  each hosted match (C37). The lobby follows its lifecycle, starts and joins matches as it says, and its jobs
  change exactly the rows they should (C28, C29, C31, C34). Chat stays among those addressed and within
  its rate (C26, C39, C40). Bots give well-formed orders and make peace (C3, C27). An account is found again
  at each later door, and a request acts for the account of its token only (C21, C33). Where the code does
  not do what it means to, the behaviour it has is proved instead: a battle that hangs (C11), a bot that is
  shut out of the match it took over (C9), a match stranded by a failed start (C30), a status overwritten
  (C32), notifications that are never made (C35). Lemmas outside this list record smaller ones:
  \<open>Bridge.redelivery_queues_twice\<close>, \<open>Requests.slots_route_not_allowed\<close>, \<open>Synthetic.synthetic_panics\<close>,
  \<open>Background.negative_interval_panics\<close>.

  \<^bold>\<open>Not modelled.\<close> JSON and YAML encoding, SQL, Redis, NATS and SMTP themselves (each query or message is the
  function of the tables or of the subscriptions its text describes); chi beyond matching path segments;
  HTTP and WebSocket transport; logging, metrics and request logging, which decide nothing; the wiring of the
  processes (opening clients, starting servers, shutting down), which is input and output; data races
  between goroutines that share memory without a lock (the interleavings modelled are of whole loop turns
  and whole messages); and the browser client, the migrations and the deployment files, which are not Go.
\<close>


end
